(* ===== verification/Prelude.thy ===== *)
theory Prelude
  imports Main "HOL-Library.Word"
begin

text \<open>
  What the component theories share: names for Rust's integer types and for \<open>Result\<close>, the
  standard-library operations the sources call (saturating and checked arithmetic, integer
  parsing and printing, \<open>str\<close> splitting, trimming and searching), and the generic
  lemmas on them. A Rust \<open>&str\<close> is the list of its UTF-8 bytes, one \<open>char\<close> per
  byte, so that \<open>str::len\<close> is \<open>length\<close>.

  The collection \<open>rust_std\<close> holds the definitions of the standard-library operations, for
  proofs that compute through them.
\<close>

named_theorems rust_std

section \<open>Types\<close>

type_synonym u8 = "8 word"
type_synonym u16 = "16 word"
type_synonym u32 = "32 word"
type_synonym u64 = "64 word"

text \<open>\<open>Result<T, E>\<close> is the sum type; these are its constructors.\<close>

abbreviation Ok :: "'a \<Rightarrow> 'e + 'a" where "Ok \<equiv> Inr"
abbreviation Err :: "'e \<Rightarrow> 'e + 'a" where "Err \<equiv> Inl"

definition is_ok :: "'e + 'a \<Rightarrow> bool" where
  "is_ok r = (case r of Inl _ \<Rightarrow> False | Inr _ \<Rightarrow> True)"

lemma is_ok_simps [simp]: "is_ok (Ok x)" "\<not> is_ok (Err e)"
  by (simp_all add: is_ok_def)

lemma is_ok_iff: "is_ok r \<longleftrightarrow> (\<exists>x. r = Ok x)"
  by (cases r) simp_all

lemma not_is_ok_iff: "\<not> is_ok r \<longleftrightarrow> (\<exists>e. r = Err e)"
  by (cases r) simp_all

text \<open>The environment variables of the process, as \<open>std::env::var\<close> reads them.\<close>

type_synonym env = "string \<Rightarrow> string option"

section \<open>Bounded integers\<close>

text \<open>Where the sources compute with signed integers the model uses \<open>int\<close> and writes the
  range of \<open>i64\<close> out.\<close>

definition i64_min :: int where "i64_min = - (2 ^ 63)"
definition i64_max :: int where "i64_max = 2 ^ 63 - 1"
definition u32_max :: nat where "u32_max = 2 ^ 32 - 1"
definition u64_max :: nat where "u64_max = 2 ^ 64 - 1"

lemmas int_ranges = i64_min_def i64_max_def u32_max_def u64_max_def

definition in_i64 :: "int \<Rightarrow> bool" where
  "in_i64 x \<longleftrightarrow> i64_min \<le> x \<and> x \<le> i64_max"

definition checked_mul_i64 :: "int \<Rightarrow> int \<Rightarrow> int option" where
  [rust_std]: "checked_mul_i64 a b = (if in_i64 (a * b) then Some (a * b) else None)"

definition checked_add_i64 :: "int \<Rightarrow> int \<Rightarrow> int option" where
  [rust_std]: "checked_add_i64 a b = (if in_i64 (a + b) then Some (a + b) else None)"

text \<open>Two's complement wrap-around of \<open>i64\<close> arithmetic in a release build.\<close>

definition wrap_i64 :: "int \<Rightarrow> int" where
  [rust_std]: "wrap_i64 x = (x + 2 ^ 63) mod 2 ^ 64 - 2 ^ 63"

lemma wrap_i64_id: "in_i64 x \<Longrightarrow> wrap_i64 x = x"
  by (simp add: wrap_i64_def in_i64_def int_ranges)

lemma wrap_i64_range: "in_i64 (wrap_i64 x)"
proof -
  have "0 \<le> (x + 2 ^ 63) mod 2 ^ 64" "(x + 2 ^ 63) mod 2 ^ 64 < (2 ^ 64 :: int)"
    by (simp_all only: pos_mod_sign pos_mod_bound zero_less_power zero_less_numeral)
  then show ?thesis by (simp add: wrap_i64_def in_i64_def int_ranges)
qed

text \<open>The cast \<open>as u64\<close> of a signed value.\<close>

definition as_u64 :: "int \<Rightarrow> nat" where
  [rust_std]: "as_u64 x = nat (x mod 2 ^ 64)"

text \<open>Saturating operations on unsigned values of maximum \<open>m\<close>.\<close>

definition sat_mul :: "nat \<Rightarrow> nat \<Rightarrow> nat \<Rightarrow> nat" where
  [rust_std]: "sat_mul m a b = min m (a * b)"

definition sat_pow :: "nat \<Rightarrow> nat \<Rightarrow> nat \<Rightarrow> nat" where
  [rust_std]: "sat_pow m a n = min m (a ^ n)"

lemma sat_mul_mono: "a \<le> a' \<Longrightarrow> b \<le> b' \<Longrightarrow> sat_mul m a b \<le> sat_mul m a' b'"
  unfolding sat_mul_def by (intro min.mono order.refl mult_le_mono)

lemma sat_pow_mono: "0 < a \<Longrightarrow> n \<le> n' \<Longrightarrow> sat_pow m a n \<le> sat_pow m a n'"
  unfolding sat_pow_def by (intro min.mono order.refl power_increasing) simp_all

text \<open>\<open>std::time::Duration\<close>, in nanoseconds: \<open>u64\<close> seconds and a nanosecond part.\<close>

type_synonym duration = nat

definition duration_max :: duration where
  "duration_max = u64_max * 10 ^ 9 + 999999999"

definition from_secs :: "nat \<Rightarrow> duration" where [rust_std]: "from_secs s = s * 10 ^ 9"
definition from_millis :: "nat \<Rightarrow> duration" where [rust_std]: "from_millis ms = ms * 10 ^ 6"
definition as_secs :: "duration \<Rightarrow> nat" where [rust_std]: "as_secs d = d div 10 ^ 9"
definition as_millis :: "duration \<Rightarrow> nat" where [rust_std]: "as_millis d = d div 10 ^ 6"

lemma as_secs_from_secs [simp]: "as_secs (from_secs s) = s"
  by (simp add: as_secs_def from_secs_def)

lemma as_millis_from_millis [simp]: "as_millis (from_millis s) = s"
  by (simp add: as_millis_def from_millis_def)

section \<open>Bytes and characters\<close>

abbreviation byte :: "char \<Rightarrow> nat" where "byte c \<equiv> of_char c"

definition is_ascii_digit :: "char \<Rightarrow> bool" where
  [rust_std]: "is_ascii_digit c \<longleftrightarrow> 48 \<le> byte c \<and> byte c \<le> 57"

definition is_ascii_uppercase :: "char \<Rightarrow> bool" where
  [rust_std]: "is_ascii_uppercase c \<longleftrightarrow> 65 \<le> byte c \<and> byte c \<le> 90"

definition is_ascii_lowercase :: "char \<Rightarrow> bool" where
  [rust_std]: "is_ascii_lowercase c \<longleftrightarrow> 97 \<le> byte c \<and> byte c \<le> 122"

definition is_ascii_alphanumeric :: "char \<Rightarrow> bool" where
  [rust_std]: "is_ascii_alphanumeric c \<longleftrightarrow>
    is_ascii_digit c \<or> is_ascii_uppercase c \<or> is_ascii_lowercase c"

definition is_ascii_hexdigit :: "char \<Rightarrow> bool" where
  [rust_std]: "is_ascii_hexdigit c \<longleftrightarrow> is_ascii_digit c
     \<or> (65 \<le> byte c \<and> byte c \<le> 70) \<or> (97 \<le> byte c \<and> byte c \<le> 102)"

definition to_upper :: "char \<Rightarrow> char" where
  [rust_std]: "to_upper c = (if is_ascii_lowercase c then char_of (byte c - 32) else c)"

definition to_lower :: "char \<Rightarrow> char" where
  [rust_std]: "to_lower c = (if is_ascii_uppercase c then char_of (byte c + 32) else c)"

text \<open>\<open>str::to_uppercase\<close> and \<open>str::to_lowercase\<close> on ASCII text.\<close>

definition to_uppercase :: "string \<Rightarrow> string" where
  [rust_std]: "to_uppercase = map to_upper"

definition to_lowercase :: "string \<Rightarrow> string" where
  [rust_std]: "to_lowercase = map to_lower"

section \<open>Searching and splitting\<close>

fun strip_prefix :: "string \<Rightarrow> string \<Rightarrow> string option" where
  "strip_prefix [] s = Some s"
| "strip_prefix (p # ps) [] = None"
| "strip_prefix (p # ps) (c # s) = (if p = c then strip_prefix ps s else None)"

definition starts_with :: "string \<Rightarrow> string \<Rightarrow> bool" where
  [rust_std]: "starts_with s p \<longleftrightarrow> strip_prefix p s \<noteq> None"

definition ends_with :: "string \<Rightarrow> string \<Rightarrow> bool" where
  [rust_std]: "ends_with s p \<longleftrightarrow> starts_with (rev s) (rev p)"

fun contains :: "string \<Rightarrow> string \<Rightarrow> bool" where
  "contains [] p \<longleftrightarrow> p = []"
| "contains (c # s) p \<longleftrightarrow> starts_with (c # s) p \<or> contains s p"

lemma strip_prefix_Some_iff: "strip_prefix p s = Some r \<longleftrightarrow> s = p @ r"
  by (induction p s rule: strip_prefix.induct) auto

lemma strip_prefix_append [simp]: "strip_prefix p (p @ s) = Some s"
  by (simp add: strip_prefix_Some_iff)

lemma starts_with_iff: "starts_with s p \<longleftrightarrow> (\<exists>r. s = p @ r)"
  by (auto simp: starts_with_def strip_prefix_Some_iff)

lemma ends_with_iff: "ends_with s p \<longleftrightarrow> (\<exists>r. s = r @ p)"
  by (metis ends_with_def rev_append rev_rev_ident starts_with_iff)

lemma contains_iff: "contains s p \<longleftrightarrow> (\<exists>a b. s = a @ p @ b)"
proof (induction s)
  case Nil
  show ?case by auto
next
  case (Cons c s)
  have "(\<exists>a b. c # s = a @ p @ b) \<longleftrightarrow>
    (\<exists>b. c # s = p @ b) \<or> (\<exists>a b. s = a @ p @ b)"
    by (metis append.left_neutral append_Cons neq_Nil_conv list.inject)
  then show ?case using Cons by (simp add: starts_with_iff)
qed

text \<open>\<open>str::split(c)\<close>: the pieces between separators; never the empty list.\<close>

fun split_char :: "char \<Rightarrow> string \<Rightarrow> string list" where
  "split_char d [] = [[]]"
| "split_char d (c # s) =
     (if c = d then [] # split_char d s
      else (case split_char d s of [] \<Rightarrow> [[c]] | p # ps \<Rightarrow> (c # p) # ps))"

text \<open>\<open>str::split_once(c)\<close>.\<close>

fun split_once :: "char \<Rightarrow> string \<Rightarrow> (string \<times> string) option" where
  "split_once d [] = None"
| "split_once d (c # s) =
     (if c = d then Some ([], s)
      else map_option (\<lambda>(a, b). (c # a, b)) (split_once d s))"

fun join :: "string \<Rightarrow> string list \<Rightarrow> string" where
  "join sep [] = []"
| "join sep [p] = p"
| "join sep (p # ps) = p @ sep @ join sep ps"

lemma split_char_no_sep: "d \<notin> set s \<Longrightarrow> split_char d s = [s]"
  by (induction s) auto

lemma split_char_append:
  "d \<notin> set p \<Longrightarrow> split_char d (p @ d # s) = p # split_char d s"
  by (induction p) auto

lemma split_char_join:
  "ps \<noteq> [] \<Longrightarrow> \<forall>p \<in> set ps. d \<notin> set p \<Longrightarrow> split_char d (join [d] ps) = ps"
  by (induction "[d]" ps rule: join.induct) (auto simp: split_char_no_sep split_char_append)

lemma split_char_append_sep: "split_char d (a @ d # b) = split_char d a @ split_char d b"
proof (induction a)
  case (Cons c a)
  have "split_char d x \<noteq> []" for x by (cases x) (auto split: list.split)
  with Cons show ?case by (cases "split_char d a") auto
qed simp

lemma split_once_Some:
  "split_once d s = Some (a, b) \<Longrightarrow> s = a @ d # b \<and> d \<notin> set a"
  by (induction s arbitrary: a b) (auto split: if_splits)

lemma split_once_None_iff: "split_once d s = None \<longleftrightarrow> d \<notin> set s"
  by (induction s) auto

lemma split_once_append: "d \<notin> set a \<Longrightarrow> split_once d (a @ d # b) = Some (a, b)"
  by (induction a) auto

text \<open>\<open>str::trim_start_matches(c)\<close> and \<open>str::replace\<close> of one character.\<close>

definition trim_start_char :: "char \<Rightarrow> string \<Rightarrow> string" where
  [rust_std]: "trim_start_char c s = dropWhile (\<lambda>x. x = c) s"

definition replace_char :: "char \<Rightarrow> char \<Rightarrow> string \<Rightarrow> string" where
  [rust_std]: "replace_char c d s = map (\<lambda>x. if x = c then d else x) s"

section \<open>Trimming\<close>

text \<open>The UTF-8 encodings of the characters with the Unicode property \<open>White_Space\<close>, which
  \<open>str::trim\<close> removes at both ends.\<close>

definition ws_encodings :: "string list" where
  "ws_encodings = map (map char_of)
     ([[9], [10], [11], [12], [13], [32], [194, 133], [194, 160], [225, 154, 128]]
      @ map (\<lambda>b. [226, 128, b])
          [128, 129, 130, 131, 132, 133, 134, 135, 136, 137, 138, 168, 169, 175]
      @ [[226, 129, 159], [227, 128, 128 :: nat]])"

text \<open>Remove one character of the list \<open>ps\<close> from the front, if there is one.\<close>

fun strip_any :: "string list \<Rightarrow> string \<Rightarrow> string option" where
  "strip_any [] s = None"
| "strip_any (p # ps) s =
     (case strip_prefix p s of
        Some r \<Rightarrow> if length r < length s then Some r else strip_any ps s
      | None \<Rightarrow> strip_any ps s)"

lemma strip_any_shorter: "strip_any ps s = Some r \<Longrightarrow> length r < length s"
  by (induction ps) (auto split: option.splits if_splits)

function strip_all :: "string list \<Rightarrow> string \<Rightarrow> string" where
  "strip_all ps s = (case strip_any ps s of None \<Rightarrow> s | Some r \<Rightarrow> strip_all ps r)"
  by pat_completeness auto
termination
  by (relation "measure (length \<circ> snd)") (auto dest: strip_any_shorter)

declare strip_all.simps [simp del]

definition trim_start :: "string \<Rightarrow> string" where
  "trim_start s = strip_all ws_encodings s"

definition trim_end :: "string \<Rightarrow> string" where
  "trim_end s = rev (strip_all (map rev ws_encodings) (rev s))"

definition trim :: "string \<Rightarrow> string" where
  "trim s = trim_end (trim_start s)"

text \<open>A graphic ASCII character begins no encoding of a white space and ends none.\<close>

definition graphic :: "char \<Rightarrow> bool" where
  "graphic c \<longleftrightarrow> 33 \<le> byte c \<and> byte c \<le> 126"

lemma ws_not_graphic:
  "p \<in> set ws_encodings \<Longrightarrow> p \<noteq> [] \<and> \<not> graphic (hd p) \<and> \<not> graphic (last p)"
  by (auto simp: ws_encodings_def graphic_def)

lemma strip_any_None:
  assumes "\<forall>p \<in> set ps. p \<noteq> [] \<and> \<not> graphic (hd p)" and "s = [] \<or> graphic (hd s)"
  shows "strip_any ps s = None"
  using assms
proof (induction ps)
  case Nil
  then show ?case by simp
next
  case (Cons p ps)
  then have "strip_prefix p s = None"
    by (cases p; cases s) auto
  with Cons show ?case by simp
qed

lemma trim_graphic:
  assumes "s = [] \<or> graphic (hd s) \<and> graphic (last s)"
  shows "trim s = s"
proof -
  have "strip_any ws_encodings s = None"
    using assms ws_not_graphic by (intro strip_any_None) auto
  moreover have "strip_any (map rev ws_encodings) (rev s) = None"
    using assms ws_not_graphic by (intro strip_any_None) (auto simp: hd_rev)
  ultimately show ?thesis
    by (simp add: trim_def trim_start_def trim_end_def strip_all.simps)
qed

lemma trim_all_graphic: "list_all graphic s \<Longrightarrow> trim s = s"
  by (rule trim_graphic) (cases s; auto simp: list_all_iff)

section \<open>Decimal integers\<close>

definition digit_val :: "char \<Rightarrow> nat" where
  "digit_val c = byte c - 48"

definition digit_char :: "nat \<Rightarrow> char" where
  "digit_char d = char_of (48 + d)"

definition dec_val :: "string \<Rightarrow> nat" where
  "dec_val s = foldl (\<lambda>a c. 10 * a + digit_val c) 0 s"

text \<open>\<open>!s.is_empty() && s.bytes().all(|b| b.is_ascii_digit())\<close>.\<close>

definition all_digits :: "string \<Rightarrow> bool" where
  "all_digits s \<longleftrightarrow> s \<noteq> [] \<and> list_all is_ascii_digit s"

text \<open>\<open>str::parse\<close> of an unsigned integer of maximum \<open>m\<close>: an optional plus sign, then
  digits, and no overflow.\<close>

definition parse_unsigned :: "nat \<Rightarrow> string \<Rightarrow> nat option" where
  "parse_unsigned m s =
     (let t = (case s of [] \<Rightarrow> [] | c # r \<Rightarrow> if c = CHR ''+'' then r else s)
      in if all_digits t \<and> dec_val t \<le> m then Some (dec_val t) else None)"

text \<open>\<open>str::parse::<i64>\<close>: an optional sign, then digits, and the value in range.\<close>

definition parse_i64 :: "string \<Rightarrow> int option" where
  "parse_i64 s =
     (let (neg, t) = (case s of [] \<Rightarrow> (False, [])
                      | c # r \<Rightarrow> if c = CHR ''+'' then (False, r)
                                else if c = CHR ''-'' then (True, r) else (False, s));
          v = (if neg then - int (dec_val t) else int (dec_val t))
      in if all_digits t \<and> in_i64 v then Some v else None)"

text \<open>\<open>Display\<close> of an unsigned integer.\<close>

fun show_nat :: "nat \<Rightarrow> string" where
  "show_nat n = (if n < 10 then [digit_char n] else show_nat (n div 10) @ [digit_char (n mod 10)])"

declare show_nat.simps [simp del]

definition show_int :: "int \<Rightarrow> string" where
  "show_int i = (if i < 0 then ''-'' @ show_nat (nat (- i)) else show_nat (nat i))"

lemma byte_digit_char: "d < 10 \<Longrightarrow> byte (digit_char d) = 48 + d"
  by (simp add: digit_char_def)

lemma digit_val_digit_char [simp]: "d < 10 \<Longrightarrow> digit_val (digit_char d) = d"
  by (simp add: digit_val_def byte_digit_char)

lemma is_ascii_digit_digit_char [simp]: "d < 10 \<Longrightarrow> is_ascii_digit (digit_char d)"
  by (simp add: is_ascii_digit_def byte_digit_char)

lemma digit_val_less: "is_ascii_digit c \<Longrightarrow> digit_val c < 10"
  by (auto simp: is_ascii_digit_def digit_val_def)

lemma dec_val_Nil [simp]: "dec_val [] = 0"
  by (simp add: dec_val_def)

lemma dec_val_snoc [simp]: "dec_val (s @ [c]) = 10 * dec_val s + digit_val c"
  by (simp add: dec_val_def)

lemma dec_val_append: "dec_val (s @ t) = dec_val s * 10 ^ length t + dec_val t"
proof (induction t rule: rev_induct)
  case Nil
  show ?case by simp
next
  case (snoc c t)
  have "dec_val (s @ t @ [c]) = dec_val ((s @ t) @ [c])" by simp
  also have "\<dots> = 10 * dec_val (s @ t) + digit_val c" by (rule dec_val_snoc)
  also have "\<dots> = dec_val s * 10 ^ length (t @ [c]) + dec_val (t @ [c])"
    by (simp add: snoc.IH algebra_simps)
  finally show ?case by simp
qed

lemma dec_val_bound: "list_all is_ascii_digit s \<Longrightarrow> dec_val s < 10 ^ length s"
proof (induction s rule: rev_induct)
  case Nil
  show ?case by simp
next
  case (snoc c s)
  then have "dec_val s < 10 ^ length s" "digit_val c < 10"
    by (auto simp: digit_val_less)
  then show ?case by simp
qed

lemma show_nat_digits: "all_digits (show_nat n)"
proof (induction n rule: show_nat.induct)
  case (1 n)
  then show ?case by (subst show_nat.simps) (auto simp: all_digits_def)
qed

lemma dec_val_show_nat [simp]: "dec_val (show_nat n) = n"
proof (induction n rule: show_nat.induct)
  case (1 n)
  then show ?case by (subst show_nat.simps) (auto simp: dec_val_snoc [of "[]", simplified])
qed

lemma digit_not_sign: "is_ascii_digit c \<Longrightarrow> c \<noteq> CHR ''+'' \<and> c \<noteq> CHR ''-'' \<and> c \<noteq> CHR ''.''
    \<and> c \<noteq> CHR '','' \<and> graphic c"
  by (auto simp: is_ascii_digit_def graphic_def)

lemma parse_unsigned_digits:
  "all_digits s \<Longrightarrow> parse_unsigned m s = (if dec_val s \<le> m then Some (dec_val s) else None)"
  by (cases s) (auto simp: parse_unsigned_def all_digits_def digit_not_sign)

lemma parse_i64_digits:
  "all_digits s \<Longrightarrow>
     parse_i64 s = (if int (dec_val s) \<le> i64_max then Some (int (dec_val s)) else None)"
  by (cases s) (auto simp: parse_i64_def all_digits_def digit_not_sign in_i64_def int_ranges)

lemma parse_show_nat: "n \<le> m \<Longrightarrow> parse_unsigned m (show_nat n) = Some n"
  by (simp add: parse_unsigned_digits show_nat_digits)

lemma parse_unsigned_le: "parse_unsigned m s = Some n \<Longrightarrow> n \<le> m"
  by (auto simp: parse_unsigned_def Let_def split: if_splits)

text \<open>\<open>format!("{:0<w$}", s)\<close>: padded with \<open>0\<close> on the right to \<open>w\<close> characters; a
  character is a byte that does not continue a UTF-8 sequence. \<open>zfill\<close> pads on the left.\<close>

definition char_count :: "string \<Rightarrow> nat" where
  "char_count s = length (filter (\<lambda>c. byte c div 64 \<noteq> 2) s)"

definition pad_right :: "nat \<Rightarrow> string \<Rightarrow> string" where
  "pad_right w s = s @ replicate (w - char_count s) (CHR ''0'')"

definition zfill :: "nat \<Rightarrow> string \<Rightarrow> string" where
  "zfill w s = replicate (w - length s) (CHR ''0'') @ s"

lemma dec_val_replicate_0 [simp]: "dec_val (replicate n (CHR ''0'')) = 0"
proof (induction n)
  case (Suc n)
  have "replicate (Suc n) (CHR ''0'') = replicate n (CHR ''0'') @ [CHR ''0'']"
    by (simp add: replicate_append_same)
  then show ?case using Suc by (simp only: dec_val_snoc) (simp add: digit_val_def)
qed simp

lemma char_count_digits: "list_all is_ascii_digit s \<Longrightarrow> char_count s = length s"
  by (induction s) (auto simp: char_count_def is_ascii_digit_def)

lemma pad_right_digits:
  assumes "list_all is_ascii_digit s" "length s \<le> w"
  shows "length (pad_right w s) = w" and "list_all is_ascii_digit (pad_right w s)"
    and "dec_val (pad_right w s) = dec_val s * 10 ^ (w - length s)"
  using assms by (auto simp: pad_right_def char_count_digits dec_val_append list_all_iff
      is_ascii_digit_def)

lemma zfill_digits:
  assumes "all_digits s" "length s \<le> w"
  shows "length (zfill w s) = w" and "all_digits (zfill w s)" and "dec_val (zfill w s) = dec_val s"
  using assms by (auto simp: zfill_def dec_val_append all_digits_def list_all_iff
      is_ascii_digit_def)

lemma length_show_nat: "n < 10 ^ k \<Longrightarrow> 0 < k \<Longrightarrow> length (show_nat n) \<le> k"
proof (induction n arbitrary: k rule: show_nat.induct)
  case (1 n)
  show ?case
  proof (cases "n < 10")
    case True
    with 1 show ?thesis by (subst show_nat.simps) simp
  next
    case False
    with 1(2) obtain k' where k: "k = Suc k'" "0 < k'"
      by (cases k; cases "k - 1") auto
    then have "n div 10 < 10 ^ k'" using 1(2) by (simp add: div_less_iff_less_mult mult.commute)
    with 1(1) [OF False _ k(2)] False k(1) show ?thesis by (subst show_nat.simps) simp
  qed
qed

section \<open>Lists\<close>

lemma find_Some_split:
  "List.find P xs = Some x \<Longrightarrow> P x \<and> x \<in> set xs"
  by (induction xs) (auto split: if_splits)

end
