(* ===== verification/Http.thy ===== *)
theory Http
  imports Prelude
begin

text \<open>
  HTTP messages as the handlers and middleware see them: JSON values, header maps, requests and
  responses. Header names are case-insensitive, so the map is keyed by the lower-case name;
  \<open>HeaderMap::insert\<close> replaces the values of its name.
\<close>

datatype json = JNull | JBool bool | JNum int | JStr string
  | JArr "json list" | JObj "(string \<times> json) list"

text \<open>A body is raw bytes, or a value that \<open>axum::Json\<close> serialises.\<close>

datatype body = Bytes string | JsonBody json

type_synonym headers = "string \<rightharpoonup> string"

definition header_insert :: "string \<Rightarrow> string \<Rightarrow> headers \<Rightarrow> headers" where
  "header_insert name v h = h(to_lowercase name \<mapsto> v)"

definition header_get :: "headers \<Rightarrow> string \<Rightarrow> string option" where
  "header_get h name = h (to_lowercase name)"

record response =
  status :: nat
  rheaders :: headers
  rbody :: body

definition set_header :: "string \<Rightarrow> string \<Rightarrow> response \<Rightarrow> response" where
  "set_header name v r = r\<lparr>rheaders := header_insert name v (rheaders r)\<rparr>"

text \<open>\<open>(status, Json(body)).into_response()\<close>.\<close>

definition json_response :: "nat \<Rightarrow> json \<Rightarrow> response" where
  "json_response st b =
     \<lparr>status = st, rheaders = Map.empty(''content-type'' \<mapsto> ''application/json''),
      rbody = JsonBody b\<rparr>"

lemma header_get_insert [simp]:
  "header_get (header_insert n v h) m =
     (if to_lowercase m = to_lowercase n then Some v else header_get h m)"
  by (simp add: header_get_def header_insert_def)

lemma set_header_simps [simp]:
  "status (set_header n v r) = status r"
  "rbody (set_header n v r) = rbody r"
  "header_get (rheaders (set_header n v r)) m =
     (if to_lowercase m = to_lowercase n then Some v else header_get (rheaders r) m)"
  by (simp_all add: set_header_def)

lemma json_response_simps [simp]:
  "status (json_response st b) = st"
  "rbody (json_response st b) = JsonBody b"
  "header_get (rheaders (json_response st b)) n =
     (if to_lowercase n = ''content-type'' then Some ''application/json'' else None)"
  by (simp_all add: json_response_def header_get_def)

text \<open>The header names the program uses, in lower case.\<close>

lemma lowercase_names [simp]:
  "to_lowercase ''Retry-After'' = ''retry-after''"
  "to_lowercase ''content-type'' = ''content-type''"
  "to_lowercase ''X-RateLimit-Limit'' = ''x-ratelimit-limit''"
  "to_lowercase ''X-RateLimit-Remaining'' = ''x-ratelimit-remaining''"
  "to_lowercase ''X-RateLimit-Reset'' = ''x-ratelimit-reset''"
  "to_lowercase ''RateLimit-Limit'' = ''ratelimit-limit''"
  "to_lowercase ''RateLimit-Remaining'' = ''ratelimit-remaining''"
  "to_lowercase ''RateLimit-Reset'' = ''ratelimit-reset''"
  "to_lowercase ''X-RateLimit-Tier'' = ''x-ratelimit-tier''"
  "to_lowercase ''X-RateLimit-Degraded'' = ''x-ratelimit-degraded''"
  "to_lowercase ''X-Idempotent-Replay'' = ''x-idempotent-replay''"
  "to_lowercase ''X-Quota-Limit'' = ''x-quota-limit''"
  "to_lowercase ''X-Quota-Remaining'' = ''x-quota-remaining''"
  "to_lowercase ''X-Quota-Period'' = ''x-quota-period''"
  "to_lowercase ''X-TipJar-Signature'' = ''x-tipjar-signature''"
  "to_lowercase ''X-TipJar-Delivery-Id'' = ''x-tipjar-delivery-id''"
  "to_lowercase ''X-TipJar-Event-Type'' = ''x-tipjar-event-type''"
  by code_simp+

text \<open>A success status is 2xx, a client error 4xx, a server error 5xx.\<close>

definition is_success :: "nat \<Rightarrow> bool" where "is_success s \<longleftrightarrow> 200 \<le> s \<and> s < 300"
definition is_client_error :: "nat \<Rightarrow> bool" where "is_client_error s \<longleftrightarrow> 400 \<le> s \<and> s < 500"
definition is_server_error :: "nat \<Rightarrow> bool" where "is_server_error s \<longleftrightarrow> 500 \<le> s \<and> s < 600"

end
