(* ===== verification/App_Errors.thy ===== *)
theory App_Errors
  imports Http
begin

text \<open>
  The error values of the program (\<open>src/errors/\<close>): what goes wrong in the database, in the
  Stellar pipeline and in validation, the top-level \<open>AppError\<close>, and how each becomes an HTTP
  response. The task-local request id that \<open>to_error_response\<close> reads is an argument.
  The messages of the source with a dash outside ASCII carry its three UTF-8 bytes.
\<close>

section \<open>Data\<close>

datatype database_error =
    NotFound string string
  | UniqueViolation string
  | QueryFailed

datatype stellar_error =
    TransactionNotFound string
  | InvalidTransaction string
  | NetworkUnavailable
  | CircuitBreakerOpen
  | TransactionFailed string string
  | OperationFailed string string
  | StellarRateLimited nat
  | GatewayTimeout
  | DestinationUnfunded string
  | InsufficientBalance string string
  | MemoTooLong nat

datatype validation_error =
    InvalidJson string
  | InvalidFields "(string \<times> json) list"
  | InvalidRequest string

datatype app_error =
    Database database_error
  | Stellar stellar_error
  | Validation validation_error
  | CreatorNotFound string
  | Unauthorized string
  | Forbidden string
  | Conflict string string
  | ServiceUnavailable string
  | RateLimited string "nat option"
  | IdempotencyKeyReused string
  | IdempotencyKeyLocked nat
  | Internal

record error_response =
  er_error :: string
  er_code :: string
  er_status :: nat
  er_details :: "json option"
  er_request_id :: "string option"

section \<open>Constructors\<close>

definition not_found :: "string \<Rightarrow> app_error" where
  "not_found message = Database (NotFound ''resource'' message)"

definition bad_request :: "string \<Rightarrow> app_error" where
  "bad_request message = Validation (InvalidRequest message)"

definition rate_limited_with_retry :: "string \<Rightarrow> nat \<Rightarrow> app_error" where
  "rate_limited_with_retry message retry_after_secs = RateLimited message (Some retry_after_secs)"

section \<open>Database errors\<close>

text \<open>What \<open>from_sqlx\<close> looks at of an \<open>sqlx::Error\<close>: a database error with its SQLSTATE and
  the constraint it names, or anything else.\<close>

datatype sqlx_error = SqlxDatabase "string option" "string option" | SqlxOther

fun from_sqlx :: "sqlx_error \<Rightarrow> database_error" where
  "from_sqlx (SqlxDatabase code constraint) =
     (if code = Some ''23505''
      then UniqueViolation (case constraint of Some name \<Rightarrow> name | None \<Rightarrow> ''unknown'')
      else QueryFailed)"
| "from_sqlx SqlxOther = QueryFailed"

definition app_error_from_sqlx :: "sqlx_error \<Rightarrow> app_error" where
  "app_error_from_sqlx e = Database (from_sqlx e)"

fun db_code :: "database_error \<Rightarrow> string" where
  "db_code (NotFound _ _) = ''DB_NOT_FOUND''"
| "db_code (UniqueViolation _) = ''DB_UNIQUE_VIOLATION''"
| "db_code QueryFailed = ''DB_QUERY_FAILED''"

fun db_message :: "database_error \<Rightarrow> string" where
  "db_message (NotFound entity _) = entity @ '' not found''"
| "db_message (UniqueViolation field) = ''A record with this '' @ field @ '' already exists''"
| "db_message QueryFailed = ''Unable to complete database operation''"

fun db_details :: "database_error \<Rightarrow> json" where
  "db_details (NotFound entity identifier) =
     JObj [(''entity'', JStr entity), (''identifier'', JStr identifier)]"
| "db_details (UniqueViolation field) = JObj [(''field'', JStr field)]"
| "db_details QueryFailed = JObj []"

section \<open>Stellar errors\<close>

definition em_dash :: string where
  "em_dash = map char_of [226, 128, 148 :: nat]"

fun stellar_code :: "stellar_error \<Rightarrow> string" where
  "stellar_code (TransactionNotFound _) = ''STELLAR_TX_NOT_FOUND''"
| "stellar_code (InvalidTransaction _) = ''STELLAR_INVALID_TX''"
| "stellar_code NetworkUnavailable = ''STELLAR_NETWORK_UNAVAILABLE''"
| "stellar_code CircuitBreakerOpen = ''STELLAR_CIRCUIT_OPEN''"
| "stellar_code (TransactionFailed _ _) = ''STELLAR_TX_FAILED''"
| "stellar_code (OperationFailed _ _) = ''STELLAR_OP_FAILED''"
| "stellar_code (StellarRateLimited _) = ''STELLAR_RATE_LIMITED''"
| "stellar_code GatewayTimeout = ''STELLAR_GATEWAY_TIMEOUT''"
| "stellar_code (DestinationUnfunded _) = ''STELLAR_DESTINATION_UNFUNDED''"
| "stellar_code (InsufficientBalance _ _) = ''STELLAR_INSUFFICIENT_BALANCE''"
| "stellar_code (MemoTooLong _) = ''STELLAR_MEMO_TOO_LONG''"

fun stellar_message :: "stellar_error \<Rightarrow> string" where
  "stellar_message (TransactionNotFound _) =
     ''Transaction not found or unsuccessful on the Stellar network''"
| "stellar_message (InvalidTransaction reason) = ''Invalid Stellar transaction: '' @ reason"
| "stellar_message NetworkUnavailable = ''Unable to verify transaction on the Stellar network''"
| "stellar_message CircuitBreakerOpen = ''Transaction verification is temporarily unavailable''"
| "stellar_message (TransactionFailed _ message) = message"
| "stellar_message (OperationFailed _ message) = message"
| "stellar_message (StellarRateLimited secs) =
     ''Too many requests to Stellar network. Please retry after '' @ show_nat secs @ '' seconds.''"
| "stellar_message GatewayTimeout =
     ''Stellar network timed out. Your tip may have been submitted '' @ em_dash
     @ '' please check your transaction status before retrying.''"
| "stellar_message (DestinationUnfunded address) =
     ''The destination account '' @ take (min 8 (length address)) address
     @ '' does not exist on the Stellar network. ''
     @ ''It must be funded with at least 1 XLM before receiving a tip.''"
| "stellar_message (InsufficientBalance available required) =
     ''Insufficient spendable balance. You have '' @ available
     @ '' XLM available but '' @ required @ '' XLM is required.''"
| "stellar_message (MemoTooLong actual) =
     ''Tip memo is '' @ show_nat actual
     @ '' bytes (UTF-8), but Stellar memos are limited to 28 bytes. ''
     @ ''Please shorten your memo.''"

fun stellar_details :: "stellar_error \<Rightarrow> json" where
  "stellar_details (TransactionNotFound hash) = JObj [(''transaction_hash'', JStr hash)]"
| "stellar_details (InvalidTransaction reason) = JObj [(''reason'', JStr reason)]"
| "stellar_details NetworkUnavailable = JObj []"
| "stellar_details CircuitBreakerOpen = JObj []"
| "stellar_details (TransactionFailed code _) = JObj [(''result_code'', JStr code)]"
| "stellar_details (OperationFailed code _) = JObj [(''result_code'', JStr code)]"
| "stellar_details (StellarRateLimited secs) = JObj [(''retry_after_secs'', JNum (int secs))]"
| "stellar_details GatewayTimeout =
     JObj [(''action'', JStr ''check_transaction_status_before_retry'')]"
| "stellar_details (DestinationUnfunded address) = JObj [(''destination'', JStr address)]"
| "stellar_details (InsufficientBalance available required) =
     JObj [(''available_xlm'', JStr available), (''required_xlm'', JStr required)]"
| "stellar_details (MemoTooLong actual) =
     JObj [(''actual_bytes'', JNum (int actual)), (''max_bytes'', JNum 28)]"

section \<open>Validation errors\<close>

fun validation_code :: "validation_error \<Rightarrow> string" where
  "validation_code (InvalidJson _) = ''INVALID_JSON''"
| "validation_code (InvalidFields _) = ''VALIDATION_ERROR''"
| "validation_code (InvalidRequest _) = ''INVALID_REQUEST''"

fun validation_message :: "validation_error \<Rightarrow> string" where
  "validation_message (InvalidJson reason) = ''Invalid JSON payload: '' @ reason"
| "validation_message (InvalidFields _) = ''One or more fields failed validation''"
| "validation_message (InvalidRequest message) = message"

fun validation_details :: "validation_error \<Rightarrow> json" where
  "validation_details (InvalidJson reason) = JObj [(''reason'', JStr reason)]"
| "validation_details (InvalidFields fs) = JObj [(''fields'', JObj fs)]"
| "validation_details (InvalidRequest _) = JObj []"

section \<open>The top-level error\<close>

fun database_status :: "database_error \<Rightarrow> nat" where
  "database_status (NotFound _ _) = 404"
| "database_status (UniqueViolation _) = 409"
| "database_status QueryFailed = 500"

fun stellar_status :: "stellar_error \<Rightarrow> nat" where
  "stellar_status (TransactionNotFound _) = 422"
| "stellar_status (InvalidTransaction _) = 422"
| "stellar_status NetworkUnavailable = 502"
| "stellar_status CircuitBreakerOpen = 503"
| "stellar_status (TransactionFailed _ _) = 422"
| "stellar_status (OperationFailed _ _) = 422"
| "stellar_status (StellarRateLimited _) = 429"
| "stellar_status GatewayTimeout = 504"
| "stellar_status (DestinationUnfunded _) = 422"
| "stellar_status (InsufficientBalance _ _) = 422"
| "stellar_status (MemoTooLong _) = 422"

fun status_code :: "app_error \<Rightarrow> nat" where
  "status_code (Database e) = database_status e"
| "status_code (Stellar e) = stellar_status e"
| "status_code (Validation _) = 400"
| "status_code (CreatorNotFound _) = 404"
| "status_code (Unauthorized _) = 401"
| "status_code (Forbidden _) = 403"
| "status_code (Conflict _ _) = 409"
| "status_code (ServiceUnavailable _) = 503"
| "status_code (RateLimited _ _) = 429"
| "status_code (IdempotencyKeyReused _) = 422"
| "status_code (IdempotencyKeyLocked _) = 409"
| "status_code Internal = 500"

fun code_message_details :: "app_error \<Rightarrow> string \<times> string \<times> json option" where
  "code_message_details (Database err) =
     (if err = QueryFailed then (db_code err, ''Internal server error'', None)
      else (db_code err, db_message err, Some (db_details err)))"
| "code_message_details (Stellar err) =
     (stellar_code err, stellar_message err, Some (stellar_details err))"
| "code_message_details (Validation err) =
     (validation_code err, validation_message err, Some (validation_details err))"
| "code_message_details (CreatorNotFound username) =
     (''CREATOR_NOT_FOUND'', ''Creator not found'', Some (JObj [(''username'', JStr username)]))"
| "code_message_details (Unauthorized message) = (''UNAUTHORIZED'', message, None)"
| "code_message_details (Forbidden message) = (''FORBIDDEN'', message, None)"
| "code_message_details (Conflict code message) = (code, message, None)"
| "code_message_details (ServiceUnavailable message) = (''SERVICE_UNAVAILABLE'', message, None)"
| "code_message_details (RateLimited message retry_after) =
     (''RATE_LIMIT_EXCEEDED'', message,
      map_option (\<lambda>s. JObj [(''retry_after_secs'', JNum (int s))]) retry_after)"
| "code_message_details (IdempotencyKeyReused message) = (''IDEMPOTENCY_KEY_REUSED'', message, None)"
| "code_message_details (IdempotencyKeyLocked secs) =
     (''IDEMPOTENCY_KEY_LOCKED'', ''A request with this Idempotency-Key is already in progress'',
      Some (JObj [(''retry_after_secs'', JNum (int secs))]))"
| "code_message_details Internal = (''INTERNAL_ERROR'', ''Internal server error'', None)"

definition app_code :: "app_error \<Rightarrow> string" where
  "app_code e = fst (code_message_details e)"

definition to_error_response :: "string option \<Rightarrow> app_error \<Rightarrow> error_response" where
  "to_error_response request_id e =
     (case code_message_details e of (code, message, details) \<Rightarrow>
        \<lparr>er_error = message, er_code = code, er_status = status_code e,
         er_details = details, er_request_id = request_id\<rparr>)"

text \<open>\<open>Serialize for ErrorResponse\<close>: absent options are skipped.\<close>

definition error_response_json :: "error_response \<Rightarrow> json" where
  "error_response_json r = JObj
     ([(''error'', JStr (er_error r)), (''code'', JStr (er_code r)),
       (''status'', JNum (int (er_status r)))]
      @ (case er_details r of Some d \<Rightarrow> [(''details'', d)] | None \<Rightarrow> [])
      @ (case er_request_id r of Some i \<Rightarrow> [(''request_id'', JStr i)] | None \<Rightarrow> []))"

fun retry_after_secs :: "app_error \<Rightarrow> nat option" where
  "retry_after_secs (RateLimited _ secs) = secs"
| "retry_after_secs (IdempotencyKeyLocked secs) = Some secs"
| "retry_after_secs _ = None"

definition into_response :: "string option \<Rightarrow> app_error \<Rightarrow> response" where
  "into_response request_id e =
     (let body = error_response_json (to_error_response request_id e);
          resp = json_response (status_code e) body
      in case retry_after_secs e of
           Some secs \<Rightarrow> set_header ''Retry-After'' (show_nat secs) resp
         | None \<Rightarrow> resp)"

section \<open>Result-code tables\<close>

fun map_tx_result_code :: "string \<Rightarrow> string option" where
  "map_tx_result_code c =
    (if c = ''tx_success'' then Some ''Transaction succeeded.''
     else if c = ''tx_failed'' then Some ''One or more operations failed.''
     else if c = ''tx_too_early''
       then Some ''Transaction was submitted before its valid time window.''
     else if c = ''tx_too_late''
       then Some (''Transaction has expired '' @ em_dash
                  @ '' please resubmit with a new timebounds.'')
     else if c = ''tx_missing_operation'' then Some ''Transaction has no operations.''
     else if c = ''tx_bad_seq''
       then Some (''Sequence number mismatch '' @ em_dash
                  @ '' another transaction was submitted concurrently.'')
     else if c = ''tx_bad_auth''
       then Some ''Insufficient or invalid signatures on the transaction.''
     else if c = ''tx_insufficient_balance''
       then Some ''The source account has insufficient XLM to pay the fee.''
     else if c = ''tx_no_source_account'' then Some ''The source account does not exist.''
     else if c = ''tx_insufficient_fee''
       then Some ''Fee is too low for current network surge pricing. Please increase the fee.''
     else if c = ''tx_bad_auth_extra'' then Some ''Transaction has extraneous signatures.''
     else if c = ''tx_internal_error''
       then Some (''Horizon internal error '' @ em_dash @ '' please retry.'')
     else None)"

fun map_op_result_code :: "string \<Rightarrow> string option" where
  "map_op_result_code c =
    (if c = ''op_success'' then Some ''Operation succeeded.''
     else if c = ''op_malformed'' then Some ''Operation is malformed or invalid.''
     else if c = ''op_underfunded'' then Some ''Insufficient balance to send this amount.''
     else if c = ''op_src_no_trust''
       then Some ''Source account is missing a trustline for this asset.''
     else if c = ''op_src_not_authorized''
       then Some ''Source account is not authorized to send this asset.''
     else if c = ''op_no_destination''
       then Some ''Destination account does not exist and must be created with at least 1 XLM.''
     else if c = ''op_no_trust''
       then Some ''Destination account is missing a trustline for this asset.''
     else if c = ''op_not_authorized''
       then Some ''Destination is not authorized to hold this asset.''
     else if c = ''op_line_full''
       then Some ''Destination account has reached its trustline limit.''
     else if c = ''op_no_issuer'' then Some ''Asset issuer account does not exist.''
     else if c = ''op_already_exists''
       then Some ''Destination account already exists (for createAccount).''
     else if c = ''op_not_enough_native''
       then Some (''Insufficient native XLM for the destination'' @ [CHR 0x27]
                  @ ''s minimum reserve.'')
     else None)"

section \<open>Every error becomes a well-formed error response\<close>

lemma database_status_range: "database_status e \<in> {404, 409, 500}"
  by (cases e) auto

lemma stellar_status_range: "stellar_status e \<in> {422, 429, 502, 503, 504}"
  by (cases e) auto

lemma status_code_class: "is_client_error (status_code e) \<or> is_server_error (status_code e)"
proof (cases e)
  case (Database d)
  then show ?thesis using database_status_range [of d]
    by (auto simp: is_client_error_def is_server_error_def)
next
  case (Stellar s)
  then show ?thesis using stellar_status_range [of s]
    by (auto simp: is_client_error_def is_server_error_def)
qed (simp_all add: is_client_error_def is_server_error_def)

lemma into_response_status [simp]: "status (into_response rid e) = status_code e"
  by (simp add: into_response_def Let_def split: option.splits)

lemma into_response_body [simp]:
  "rbody (into_response rid e) = JsonBody (error_response_json (to_error_response rid e))"
  by (simp add: into_response_def Let_def split: option.splits)

lemma into_response_retry_after [simp]:
  "header_get (rheaders (into_response rid e)) ''Retry-After'' =
     map_option show_nat (retry_after_secs e)"
  by (cases "retry_after_secs e")
     (simp_all add: into_response_def Let_def)

text \<open>Every \<open>AppError\<close> becomes a response with a 4xx or 5xx status, whose JSON
  envelope repeats that status and the error's stable code, and which carries a
  \<open>Retry-After\<close> header exactly for the errors that know how long to wait, with that number of
  seconds.\<close>

theorem into_response_envelope:
  "status (into_response rid e) = status_code e
   \<and> 400 \<le> status_code e \<and> status_code e < 600
   \<and> (\<exists>rest. rbody (into_response rid e) =
        JsonBody (JObj ([(''error'', JStr (fst (snd (code_message_details e)))),
                         (''code'', JStr (app_code e)),
                         (''status'', JNum (int (status_code e)))] @ rest)))
   \<and> header_get (rheaders (into_response rid e)) ''Retry-After''
       = map_option show_nat (retry_after_secs e)"
proof -
  have "400 \<le> status_code e \<and> status_code e < 600"
    using status_code_class [of e] by (auto simp: is_client_error_def is_server_error_def)
  then show ?thesis
    by (auto simp: into_response_retry_after error_response_json_def to_error_response_def
        app_code_def split: prod.splits)
qed

lemma status_code_500: "status_code e = 500 \<longleftrightarrow> e = Database QueryFailed \<or> e = Internal"
proof (cases e)
  case (Database d)
  then show ?thesis by (cases d) auto
next
  case (Stellar s)
  then show ?thesis using stellar_status_range [of s] by auto
qed auto

text \<open>Status 500 is kept for unexpected internal failures, a failed query or an
  internal error, and these reach the client with a fixed message and no details, whatever caused
  them.\<close>

theorem internal_errors_are_opaque:
  assumes "status_code e = 500"
  shows "(e = Database QueryFailed \<or> e = Internal)
    \<and> er_error (to_error_response rid e) = ''Internal server error''
    \<and> er_details (to_error_response rid e) = None"
  using assms by (auto simp: status_code_500 to_error_response_def)

theorem internal_errors_are_opaque_witness:
  "status_code (Database (from_sqlx SqlxOther)) = 500
   \<and> er_error (to_error_response None (Database (from_sqlx SqlxOther))) = ''Internal server error''
   \<and> er_details (to_error_response None (Database (from_sqlx SqlxOther))) = None"
proof -
  have h: "status_code (Database (from_sqlx SqlxOther)) = 500" by simp
  show ?thesis using h internal_errors_are_opaque [OF h, of None] by blast
qed

end
