(* ===== verification/Amounts.thy ===== *)
theory Amounts
  imports App_Errors
begin

text \<open>
  Money and addresses as text: the request validators (\<open>src/validation/amount.rs\<close>,
  \<open>src/validation/stellar.rs\<close>) and the converter of Horizon amounts
  (\<open>StellarService::xlm_to_stroops\<close> in \<open>src/services/stellar_service.rs\<close>). An amount is an
  \<open>i64\<close> number of stroops, kept as an \<open>int\<close> with the range checks and the wrap-around
  written out. The base32 decoder of the crate \<open>data_encoding\<close> is a parameter.
\<close>

unbundle bit_operations_syntax

section \<open>Converting amounts to stroops\<close>

definition STROOPS_PER_XLM :: int where "STROOPS_PER_XLM = 10000000"
definition STELLAR_DECIMAL_PLACES :: nat where "STELLAR_DECIMAL_PLACES = 7"

definition invalid_tx :: "string \<Rightarrow> app_error" where
  "invalid_tx reason = Stellar (InvalidTransaction reason)"

definition quoted :: "string \<Rightarrow> string" where
  "quoted s = CHR 0x27 # s @ [CHR 0x27]"

definition split_amount :: "string \<Rightarrow> string \<times> string" where
  "split_amount s = (case split_once (CHR ''.'') s of Some (w, f) \<Rightarrow> (w, f) | None \<Rightarrow> (s, []))"

definition xlm_to_stroops :: "string \<Rightarrow> app_error + int" where
  "xlm_to_stroops amount_str =
     (let (whole_str, frac_str) = split_amount amount_str in
      if \<not> all_digits whole_str then
        Err (invalid_tx (''Amount '' @ quoted amount_str @ '' is not a non-negative decimal number''))
      else if frac_str \<noteq> [] \<and> \<not> all_digits frac_str then
        Err (invalid_tx (''Amount '' @ quoted amount_str @ '' has an invalid fractional part''))
      else if length frac_str > STELLAR_DECIMAL_PLACES then
        Err (invalid_tx (''Amount '' @ quoted amount_str @ '' has more than ''
               @ show_nat STELLAR_DECIMAL_PLACES @ '' decimal places''))
      else
        (case parse_i64 whole_str of
           None \<Rightarrow> Err (invalid_tx (''Amount '' @ quoted amount_str @ '' is too large''))
         | Some whole \<Rightarrow>
             (case parse_i64 (pad_right STELLAR_DECIMAL_PLACES frac_str) of
                None \<Rightarrow> Err (invalid_tx (''Amount '' @ quoted amount_str
                                @ '' has an invalid fractional part''))
              | Some fractional \<Rightarrow>
                  (case Option.bind (checked_mul_i64 whole STROOPS_PER_XLM)
                          (\<lambda>stroops. checked_add_i64 stroops fractional) of
                     Some v \<Rightarrow> Ok v
                   | None \<Rightarrow> Err (invalid_tx (''Amount '' @ quoted amount_str
                                     @ '' overflows i64 stroops''))))))"

definition xlm_to_stroops_str :: "string \<Rightarrow> string + int" where
  "xlm_to_stroops_str amount0 =
     (let amount = trim amount0;
          (whole_str, frac_str) = split_amount amount in
      if whole_str = [] then Err (''Invalid XLM amount: '' @ quoted amount)
      else
        (case parse_i64 whole_str of
           None \<Rightarrow> Err (''Cannot parse whole part '' @ quoted whole_str @ '' of amount ''
                        @ quoted amount)
         | Some whole \<Rightarrow>
             if whole < 0 then Err (''Amount must not be negative: '' @ quoted amount)
             else if length frac_str > 7 then
               Err (''Amount '' @ quoted amount @ '' has more than 7 decimal places'')
             else
               (case parse_i64 (take 7 (pad_right 7 frac_str)) of
                  None \<Rightarrow> Err (''Cannot parse fractional part of amount '' @ quoted amount)
                | Some fractional \<Rightarrow> Ok (wrap_i64 (wrap_i64 (whole * 10000000) + fractional)))))"

section \<open>Validating amounts\<close>

text \<open>\<open>str::parse::<f64>\<close> by the grammar of the standard library: an optional sign, then
  \<open>inf\<close>, \<open>infinity\<close> or \<open>nan\<close> in any case, or digits with an optional point and
  exponent. The validator only compares the result with zero, so the model keeps the exact decimal
  value \<open>m * 10^e\<close>; it rounds to zero when it is at most half the smallest subnormal,
  \<open>2^-1075\<close>.\<close>

datatype f64_text = F64_NaN | F64_Inf bool | F64_Num bool nat int

fun span_digits :: "string \<Rightarrow> string \<times> string" where
  "span_digits [] = ([], [])"
| "span_digits (c # s) =
     (if is_ascii_digit c then (let (d, r) = span_digits s in (c # d, r)) else ([], c # s))"

definition take_sign :: "string \<Rightarrow> bool \<times> string" where
  "take_sign s = (case s of [] \<Rightarrow> (False, [])
     | c # r \<Rightarrow> if c = CHR ''-'' then (True, r) else if c = CHR ''+'' then (False, r) else (False, s))"

definition parse_exponent :: "string \<Rightarrow> int option" where
  "parse_exponent s =
     (case s of [] \<Rightarrow> Some 0
      | c # r \<Rightarrow>
          if c = CHR ''e'' \<or> c = CHR ''E'' then
            (let (neg, d) = take_sign r in
             if all_digits d then Some (if neg then - int (dec_val d) else int (dec_val d))
             else None)
          else None)"

definition parse_decimal :: "bool \<Rightarrow> string \<Rightarrow> f64_text option" where
  "parse_decimal neg s =
     (let (i, r) = span_digits s;
          (f, r') = (case r of c # t \<Rightarrow> if c = CHR ''.'' then span_digits t else ([], r)
                     | [] \<Rightarrow> ([], []))
      in if i @ f = [] then None
         else map_option (\<lambda>e. F64_Num neg (dec_val (i @ f)) (e - int (length f)))
                (parse_exponent r'))"

definition parse_f64 :: "string \<Rightarrow> f64_text option" where
  "parse_f64 s =
     (let (neg, t) = take_sign s; l = to_lowercase t in
      if l = ''nan'' then Some F64_NaN
      else if l = ''inf'' \<or> l = ''infinity'' then Some (F64_Inf neg)
      else parse_decimal neg t)"

fun f64_le_zero :: "f64_text \<Rightarrow> bool" where
  "f64_le_zero F64_NaN = False"
| "f64_le_zero (F64_Inf neg) = neg"
| "f64_le_zero (F64_Num neg m e) =
     (neg \<or> (if 0 \<le> e then m = 0 else m * 2 ^ 1075 \<le> 10 ^ nat (- e)))"

text \<open>A \<open>validator::ValidationError\<close> as its code and message.\<close>

type_synonym field_error = "string \<times> string"

definition validate_xlm_amount :: "string \<Rightarrow> field_error + unit" where
  "validate_xlm_amount amount =
     (case parse_f64 amount of
        None \<Rightarrow> Err (''invalid_amount'', ''Amount must be a valid number'')
      | Some parsed \<Rightarrow>
          if f64_le_zero parsed then Err (''invalid_amount'', ''Amount must be greater than zero'')
          else
            (case split_char (CHR ''.'') amount of
               _ # decimals # _ \<Rightarrow>
                 if length decimals > 7
                 then Err (''invalid_amount'', ''Amount must have at most 7 decimal places'')
                 else Ok ()
             | _ \<Rightarrow> Ok ()))"

section \<open>Stellar addresses\<close>

definition validate_stellar_address :: "string \<Rightarrow> field_error + unit" where
  "validate_stellar_address address =
     (if length address \<noteq> 56 then
        Err (''invalid_stellar_address'', ''Stellar address must be exactly 56 characters'')
      else if \<not> starts_with address ''G'' then
        Err (''invalid_stellar_address'', ''Stellar address must start with '' @ quoted ''G'')
      else if \<not> list_all (\<lambda>c. is_ascii_alphanumeric c \<and> is_ascii_uppercase c) address then
        Err (''invalid_stellar_address'',
             ''Stellar address must contain only uppercase alphanumeric characters'')
      else Ok ())"

text \<open>CRC16 with the XMODEM polynomial, on 16-bit words as in the source: eight shifts per byte.\<close>

definition crc_shift :: "u16 \<Rightarrow> u16" where
  "crc_shift crc = (if crc AND 0x8000 \<noteq> 0 then push_bit 1 crc XOR 0x1021 else push_bit 1 crc)"

definition crc_byte :: "u16 \<Rightarrow> u8 \<Rightarrow> u16" where
  "crc_byte crc b = (crc_shift ^^ 8) (crc XOR push_bit 8 (ucast b))"

definition crc16_xmodem :: "u8 list \<Rightarrow> u16" where
  "crc16_xmodem data = foldl crc_byte 0 data"

definition ED25519_PUBLIC_KEY_VERSION :: u8 where
  "ED25519_PUBLIC_KEY_VERSION = push_bit 3 6"

definition u16_from_le_bytes :: "u8 \<Rightarrow> u8 \<Rightarrow> u16" where
  "u16_from_le_bytes lo hi = ucast lo OR push_bit 8 (ucast hi)"

text \<open>\<open>b32\<close> is \<open>BASE32_NOPAD.decode\<close> of the crate \<open>data_encoding\<close>.\<close>

definition decode_stellar_public_key ::
  "(string \<Rightarrow> u8 list option) \<Rightarrow> string \<Rightarrow> string + u8 list" where
  "decode_stellar_public_key b32 address =
     (case b32 address of
        None \<Rightarrow> Err ''Invalid Stellar public key encoding''
      | Some decoded \<Rightarrow>
          if length decoded \<noteq> 35 then Err ''Invalid Stellar public key length''
          else if decoded ! 0 \<noteq> ED25519_PUBLIC_KEY_VERSION then
            Err ''Invalid Stellar public key version''
          else
            (let payload = take 33 decoded;
                 checksum = u16_from_le_bytes (decoded ! 33) (decoded ! 34)
             in if crc16_xmodem payload \<noteq> checksum then Err ''Invalid Stellar public key checksum''
                else Ok (take 32 (drop 1 decoded))))"

section \<open>Exactness of the conversion\<close>

text \<open>The amounts of the specification: a whole part of digits, optionally followed by a point and
  at most seven digits.\<close>

definition amount_text :: "string \<Rightarrow> string \<Rightarrow> string \<Rightarrow> bool" where
  "amount_text s w f \<longleftrightarrow> all_digits w \<and> list_all is_ascii_digit f \<and> length f \<le> 7
     \<and> (s = w \<and> f = [] \<or> s = w @ ''.'' @ f)"

definition stroops_of :: "string \<Rightarrow> string \<Rightarrow> int" where
  "stroops_of w f = int (dec_val w * 10 ^ 7 + dec_val f * 10 ^ (7 - length f))"

lemma no_point_in_digits: "list_all is_ascii_digit s \<Longrightarrow> CHR ''.'' \<notin> set s"
  using digit_not_sign by (fastforce simp: list_all_iff)

lemma split_amount_text: "amount_text s w f \<Longrightarrow> split_amount s = (w, f)"
  using split_once_append [of "CHR ''.''" w f] no_point_in_digits [of w]
    split_once_None_iff [of "CHR ''.''" w]
  by (auto simp: amount_text_def split_amount_def all_digits_def)

lemma split_amount_cases:
  assumes "split_amount s = (w, f)"
  shows "s = w \<and> f = [] \<or> s = w @ ''.'' @ f"
  using assms split_once_Some [of "CHR ''.''" s]
  by (auto simp: split_amount_def split: option.splits)

lemma parse_frac:
  assumes "list_all is_ascii_digit f" "length f \<le> 7"
  shows "parse_i64 (pad_right 7 f) = Some (int (dec_val f * 10 ^ (7 - length f)))"
proof -
  note pad = pad_right_digits [OF assms]
  have d: "all_digits (pad_right 7 f)" using pad by (auto simp: all_digits_def)
  have "dec_val (pad_right 7 f) < 10 ^ 7" using dec_val_bound [OF pad(2)] pad(1) by simp
  then have "int (dec_val (pad_right 7 f)) \<le> i64_max" by (simp add: int_ranges)
  then show ?thesis using parse_i64_digits [OF d] pad(3) by simp
qed

lemma checked_stroops:
  assumes "0 \<le> a" "0 \<le> b"
  shows "Option.bind (checked_mul_i64 a STROOPS_PER_XLM) (\<lambda>x. checked_add_i64 x b) =
    (if a * 10000000 + b \<le> i64_max then Some (a * 10000000 + b) else None)"
  using assms
  by (auto simp: checked_mul_i64_def checked_add_i64_def in_i64_def STROOPS_PER_XLM_def int_ranges)

lemma xlm_to_stroops_text:
  assumes "amount_text s w f"
  shows "is_ok (xlm_to_stroops s) \<longleftrightarrow> stroops_of w f \<le> i64_max"
    and "stroops_of w f \<le> i64_max \<Longrightarrow> xlm_to_stroops s = Ok (stroops_of w f)"
proof -
  have A: "all_digits w" "list_all is_ascii_digit f" "length f \<le> 7"
    using assms by (auto simp: amount_text_def)
  define b where "b = int (dec_val f * 10 ^ (7 - length f))"
  have v: "stroops_of w f = int (dec_val w) * 10000000 + b"
    by (simp add: stroops_of_def b_def)
  have "0 \<le> b" by (simp add: b_def)
  then have big: "int (dec_val w) \<le> i64_max" if "int (dec_val w) * 10000000 + b \<le> i64_max"
    using that by (simp add: int_ranges)
  have "xlm_to_stroops s =
    (if int (dec_val w) \<le> i64_max
     then (case Option.bind (checked_mul_i64 (int (dec_val w)) STROOPS_PER_XLM)
                  (\<lambda>x. checked_add_i64 x b) of
             Some v \<Rightarrow> Ok v
           | None \<Rightarrow> Err (invalid_tx (''Amount '' @ quoted s @ '' overflows i64 stroops'')))
     else Err (invalid_tx (''Amount '' @ quoted s @ '' is too large'')))"
    using A parse_frac [OF A(2,3)]
    by (auto simp: xlm_to_stroops_def split_amount_text [OF assms] parse_i64_digits [OF A(1)]
        STELLAR_DECIMAL_PLACES_def all_digits_def b_def)
  then show "is_ok (xlm_to_stroops s) \<longleftrightarrow> stroops_of w f \<le> i64_max"
    and "stroops_of w f \<le> i64_max \<Longrightarrow> xlm_to_stroops s = Ok (stroops_of w f)"
    using big \<open>0 \<le> b\<close> by (simp_all add: checked_stroops v)
qed

lemma xlm_to_stroops_OkD:
  assumes "xlm_to_stroops s = Ok v"
  shows "\<exists>w f. amount_text s w f"
proof -
  obtain w f where sp: "split_amount s = (w, f)" by (cases "split_amount s")
  from assms have "all_digits w" "f = [] \<or> all_digits f" "length f \<le> 7"
    by (auto simp: xlm_to_stroops_def sp STELLAR_DECIMAL_PLACES_def split: if_splits)
  then have "amount_text s w f"
    using split_amount_cases [OF sp] by (auto simp: amount_text_def all_digits_def)
  then show ?thesis by blast
qed

text \<open>\<^bold>\<open>C29.\<close> The converter of Horizon amounts is exact: it accepts precisely the texts
  \<open>digits\<close> and \<open>digits.digits\<close> with at most seven decimals whose value fits an \<open>i64\<close>
  number of stroops, and returns that value, with no rounding, truncation or wrap-around.\<close>

theorem xlm_to_stroops_exact:
  "xlm_to_stroops s = Ok v \<longleftrightarrow> (\<exists>w f. amount_text s w f \<and> v = stroops_of w f \<and> v \<le> i64_max)"
proof
  assume ok: "xlm_to_stroops s = Ok v"
  then obtain w f where t: "amount_text s w f" using xlm_to_stroops_OkD by blast
  with ok xlm_to_stroops_text [OF t] show "\<exists>w f. amount_text s w f \<and> v = stroops_of w f \<and> v \<le> i64_max"
    by (metis is_ok_simps(1) sum.inject(2))
next
  assume "\<exists>w f. amount_text s w f \<and> v = stroops_of w f \<and> v \<le> i64_max"
  with xlm_to_stroops_text(2) show "xlm_to_stroops s = Ok v" by blast
qed

text \<open>Horizon renders an amount with the whole part, a point and exactly seven digits.\<close>

definition horizon_amount :: "nat \<Rightarrow> string" where
  "horizon_amount n = show_nat (n div 10 ^ 7) @ ''.'' @ zfill 7 (show_nat (n mod 10 ^ 7))"

lemma horizon_amount_text:
  "amount_text (horizon_amount n) (show_nat (n div 10 ^ 7)) (zfill 7 (show_nat (n mod 10 ^ 7)))"
  "stroops_of (show_nat (n div 10 ^ 7)) (zfill 7 (show_nat (n mod 10 ^ 7))) = int n"
proof -
  have "length (show_nat (n mod 10 ^ 7)) \<le> 7"
    by (rule length_show_nat) simp_all
  note z = zfill_digits [OF show_nat_digits this]
  show "amount_text (horizon_amount n) (show_nat (n div 10 ^ 7)) (zfill 7 (show_nat (n mod 10 ^ 7)))"
    using z(1,2) show_nat_digits [of "n div 10 ^ 7"]
    by (simp add: amount_text_def horizon_amount_def all_digits_def)
  show "stroops_of (show_nat (n div 10 ^ 7)) (zfill 7 (show_nat (n mod 10 ^ 7))) = int n"
    using z(1,3) by (simp add: stroops_of_def div_mult_mod_eq)
qed

lemma xlm_of_horizon_amount: "int n \<le> i64_max \<Longrightarrow> xlm_to_stroops (horizon_amount n) = Ok (int n)"
  using xlm_to_stroops_text(2) [OF horizon_amount_text(1)] horizon_amount_text(2) [of n]
  by simp

text \<open>Every amount Horizon can render is read back exactly.\<close>

theorem horizon_amount_roundtrip:
  assumes "int n \<le> i64_max"
  shows "xlm_to_stroops (horizon_amount n) = Ok (int n)"
  using assms by (rule xlm_of_horizon_amount)

theorem horizon_amount_roundtrip_witness:
  "int 105000000 \<le> i64_max \<and> xlm_to_stroops (horizon_amount 105000000) = Ok 105000000"
  using horizon_amount_roundtrip [of 105000000] by (simp add: int_ranges)

section \<open>The two converters\<close>

lemma amount_text_trim:
  assumes "amount_text s w f"
  shows "trim s = s"
proof (rule trim_all_graphic)
  have "graphic c" if "is_ascii_digit c" for c using digit_not_sign [OF that] by simp
  moreover have "graphic (CHR ''.'')" by (simp add: graphic_def)
  ultimately show "list_all graphic s"
    using assms by (auto simp: amount_text_def all_digits_def list_all_iff)
qed

lemma xlm_to_stroops_str_text:
  assumes "amount_text s w f" "stroops_of w f \<le> i64_max"
  shows "xlm_to_stroops_str s = Ok (stroops_of w f)"
proof -
  have A: "all_digits w" "list_all is_ascii_digit f" "length f \<le> 7" "w \<noteq> []"
    using assms by (auto simp: amount_text_def all_digits_def)
  define b where "b = int (dec_val f * 10 ^ (7 - length f))"
  have v: "stroops_of w f = int (dec_val w) * 10000000 + b" and "0 \<le> b"
    by (simp_all add: stroops_of_def b_def)
  have pad: "take 7 (pad_right 7 f) = pad_right 7 f"
    using pad_right_digits(1) [OF A(2,3)] by simp
  have le: "int (dec_val w) \<le> i64_max"
    and wrap: "wrap_i64 (int (dec_val w) * 10000000) = int (dec_val w) * 10000000"
      "wrap_i64 (int (dec_val w) * 10000000 + b) = int (dec_val w) * 10000000 + b"
    using assms(2) \<open>0 \<le> b\<close> by (auto simp: v in_i64_def int_ranges intro!: wrap_i64_id)
  show ?thesis
    using A le parse_frac [OF A(2,3), folded b_def]
    by (simp add: xlm_to_stroops_str_def amount_text_trim [OF assms(1)]
        split_amount_text [OF assms(1)] parse_i64_digits [OF A(1)] pad v wrap)
qed

text \<open>The two converters agree wherever the strict one succeeds: an amount the Horizon
  converter accepts is converted by the request converter to the same number of stroops, so a
  payment that matches the claim is never rejected for a difference between the two.\<close>

theorem converters_agree:
  assumes "xlm_to_stroops s = Ok v"
  shows "xlm_to_stroops_str s = Ok v"
proof -
  obtain w f where t: "amount_text s w f" using xlm_to_stroops_OkD [OF assms] by blast
  have le: "stroops_of w f \<le> i64_max" using xlm_to_stroops_text(1) [OF t] assms by simp
  show ?thesis
    using xlm_to_stroops_str_text [OF t le] xlm_to_stroops_text(2) [OF t le] assms by simp
qed

theorem converters_agree_witness:
  "xlm_to_stroops ''10.5'' = Ok 105000000 \<and> xlm_to_stroops_str ''10.5'' = Ok 105000000"
proof -
  have "amount_text ''10.5'' ''10'' ''5''"
    by (simp add: amount_text_def all_digits_def is_ascii_digit_def)
  moreover have "stroops_of ''10'' ''5'' = 105000000"
    by (simp add: stroops_of_def dec_val_def digit_val_def)
  ultimately have ok: "xlm_to_stroops ''10.5'' = Ok 105000000"
    using xlm_to_stroops_text(2) by (fastforce simp: int_ranges)
  from converters_agree [OF ok] ok show ?thesis by simp
qed

text \<open>The request converter is laxer than its contract: it accepts a sign inside the
  fraction (\<open>1.-5\<close> is 0.95 XLM), and in a release build an amount beyond the range of
  \<open>i64\<close> stroops wraps to a negative number instead of being an error. The Horizon converter
  rejects both.\<close>

theorem lax_converter_divergence:
  "xlm_to_stroops_str ''1.-5'' = Ok 9500000 \<and> \<not> is_ok (xlm_to_stroops ''1.-5'')
   \<and> xlm_to_stroops_str ''922337203686'' = Ok (- 9223372036849551616)
   \<and> \<not> is_ok (xlm_to_stroops ''922337203686'')"
proof -
  note eval = split_amount_def parse_i64_def all_digits_def is_ascii_digit_def dec_val_def
    digit_val_def pad_right_def char_count_def in_i64_def int_ranges
  have pad: "replicate 5 (CHR ''0'') = ''00000''" "replicate 7 (CHR ''0'') = ''0000000''"
    by (simp_all add: numeral_eq_Suc)
  have "trim ''1.-5'' = ''1.-5''" "trim ''922337203686'' = ''922337203686''"
    by (simp_all add: trim_all_graphic graphic_def)
  then have "xlm_to_stroops_str ''1.-5'' = Ok 9500000"
    "xlm_to_stroops_str ''922337203686'' = Ok (- 9223372036849551616)"
    by (simp_all add: xlm_to_stroops_str_def eval pad wrap_i64_def)
  moreover have "\<not> is_ok (xlm_to_stroops ''1.-5'')" "\<not> is_ok (xlm_to_stroops ''922337203686'')"
    by (simp_all add: xlm_to_stroops_def eval pad STELLAR_DECIMAL_PLACES_def STROOPS_PER_XLM_def
        checked_mul_i64_def)
  ultimately show ?thesis by simp
qed

section \<open>The validator accepts exactly the positive amounts\<close>

lemma span_digits_append:
  assumes "list_all is_ascii_digit w" "r = [] \<or> \<not> is_ascii_digit (hd r)"
  shows "span_digits (w @ r) = (w, r)"
  using assms by (induction w) (cases r; auto)+

lemma parse_f64_amount_text:
  assumes "amount_text s w f"
  shows "parse_f64 s = Some (F64_Num False (dec_val (w @ f)) (- int (length f)))"
proof -
  have w: "list_all is_ascii_digit w" "w \<noteq> []" and f: "list_all is_ascii_digit f"
    using assms by (auto simp: amount_text_def all_digits_def)
  obtain c t where s: "s = c # t" "is_ascii_digit c"
    using assms w by (cases w) (auto simp: amount_text_def)
  then have "take_sign s = (False, s)" "to_lower c = c" "c \<noteq> CHR ''n''" "c \<noteq> CHR ''i''"
    using digit_not_sign [of c]
    by (auto simp: take_sign_def to_lower_def is_ascii_uppercase_def is_ascii_digit_def)
  then have "parse_f64 s = parse_decimal False s"
    using s by (auto simp: parse_f64_def to_lowercase_def)
  moreover have "\<not> is_ascii_digit (CHR ''.'')" by (simp add: is_ascii_digit_def)
  then have "span_digits (w @ CHR ''.'' # f) = (w, CHR ''.'' # f)" "span_digits f = (f, [])"
    "span_digits w = (w, [])"
    using span_digits_append [of w "CHR ''.'' # f"] span_digits_append [of f "[]"]
      span_digits_append [of w "[]"] w f by auto
  then have "parse_decimal False s = Some (F64_Num False (dec_val (w @ f)) (- int (length f)))"
    using assms w by (auto simp: parse_decimal_def amount_text_def parse_exponent_def)
  ultimately show ?thesis by simp
qed

lemma split_char_amount_text:
  assumes "amount_text s w f"
  shows "split_char (CHR ''.'') s = [w] \<or> split_char (CHR ''.'') s = [w, f]"
proof -
  have "CHR ''.'' \<notin> set w" "CHR ''.'' \<notin> set f"
    using assms no_point_in_digits by (auto simp: amount_text_def all_digits_def)
  then show ?thesis
    using assms split_char_append [of "CHR ''.''" w f]
    by (auto simp: amount_text_def split_char_no_sep)
qed

lemma f64_le_zero_amount:
  assumes "k \<le> 7"
  shows "f64_le_zero (F64_Num False m (- int k)) \<longleftrightarrow> m = 0"
proof (cases "m = 0")
  case False
  have "(10 :: nat) ^ k \<le> 10 ^ 7" using assms by (rule power_increasing) simp
  also have "\<dots> < 2 ^ 24" by simp
  also have "\<dots> \<le> (2 :: nat) ^ 1075" by (rule power_increasing) simp_all
  also have "\<dots> \<le> m * 2 ^ 1075" using False by simp
  finally show ?thesis using False by simp
qed simp

text \<open>On the amounts that can be converted, the request validator accepts exactly the
  positive ones, although it decides through a floating-point parse.\<close>

theorem validator_accepts_positive_amounts:
  assumes "xlm_to_stroops s = Ok v"
  shows "is_ok (validate_xlm_amount s) \<longleftrightarrow> 0 < v"
proof -
  obtain w f where t: "amount_text s w f" using xlm_to_stroops_OkD [OF assms] by blast
  then have k: "length f \<le> 7" by (simp add: amount_text_def)
  have "stroops_of w f \<le> i64_max" using xlm_to_stroops_text(1) [OF t] assms by simp
  then have v: "v = stroops_of w f" using xlm_to_stroops_text(2) [OF t] assms by simp
  have "is_ok (validate_xlm_amount s) \<longleftrightarrow> dec_val (w @ f) \<noteq> 0"
    using split_char_amount_text [OF t] k
    by (auto simp: validate_xlm_amount_def parse_f64_amount_text [OF t] f64_le_zero_amount [OF k]
        simp del: f64_le_zero.simps)
  also have "\<dots> \<longleftrightarrow> 0 < v"
    unfolding v stroops_of_def of_nat_0_less_iff by (simp add: dec_val_append)
  finally show ?thesis .
qed

theorem validator_accepts_positive_amounts_witness:
  "xlm_to_stroops (horizon_amount 1) = Ok 1 \<and> is_ok (validate_xlm_amount (horizon_amount 1))"
proof -
  have ok: "xlm_to_stroops (horizon_amount 1) = Ok 1"
    using xlm_to_stroops_text(2) [OF horizon_amount_text(1) [of 1]] horizon_amount_text(2) [of 1]
    by (simp add: int_ranges)
  from validator_accepts_positive_amounts [OF ok] ok show ?thesis by simp
qed

section \<open>The checksum of a public key\<close>

lemma crc_top_bit: "crc AND 0x8000 \<noteq> 0 \<longleftrightarrow> bit crc 15" for crc :: u16
  using and_exp_eq_0_iff_not_bit [of crc 15] by simp

lemma crc_shift_bit_0: "bit (crc_shift x) 0 \<longleftrightarrow> bit x 15"
  by (simp add: crc_shift_def crc_top_bit bit_xor_iff bit_push_bit_iff del: push_bit_Suc)

lemma xor_word_cancel: "a XOR c = b XOR c \<longleftrightarrow> a = b" for a b c :: "'a :: len word"
  by (metis xor.assoc xor_self_eq xor.right_neutral)

lemma crc_shift_inj: "inj crc_shift"
proof (rule injI)
  fix x y :: u16 assume eq: "crc_shift x = crc_shift y"
  then have top: "bit x 15 \<longleftrightarrow> bit y 15" using crc_shift_bit_0 by metis
  with eq have push: "push_bit 1 x = push_bit 1 y"
    unfolding crc_shift_def crc_top_bit 
    by (cases "bit y 15") (simp_all only: xor_word_cancel if_True if_False simp_thms)
  have low: "bit x n \<longleftrightarrow> bit y n" if "n < 15" for n
    using arg_cong [OF push, of "\<lambda>w. bit w (n + 1)"] that
    by (simp only: bit_push_bit_iff) simp
  show "x = y"
  proof (rule bit_word_eqI)
    fix n assume "n < LENGTH(16)"
    then have "n < 15 \<or> n = 15" by auto
    then show "bit x n = bit y n" using top low by blast
  qed
qed

lemma crc_byte_inj_state: "crc_byte x b = crc_byte y b \<longleftrightarrow> x = y"
  using inj_fn [OF crc_shift_inj, of 8] by (auto simp: crc_byte_def inj_eq xor_word_cancel)

lemma byte_to_crc_inj: "push_bit 8 (ucast a :: u16) = push_bit 8 (ucast b) \<longleftrightarrow> a = b" for a b :: u8
proof
  assume eq: "push_bit 8 (ucast a :: u16) = push_bit 8 (ucast b)"
  show "a = b"
  proof (rule bit_word_eqI)
    fix n assume "n < LENGTH(8)"
    then show "bit a n = bit b n"
      using arg_cong [OF eq, of "\<lambda>w. bit w (n + 8)"] by (simp add: bit_push_bit_iff bit_ucast_iff)
  qed
qed simp

lemma crc_byte_inj_byte: "crc_byte x a = crc_byte x b \<longleftrightarrow> a = b"
proof -
  have "crc_byte x a = crc_byte x b \<longleftrightarrow>
      push_bit 8 (ucast a :: u16) XOR x = push_bit 8 (ucast b) XOR x"
    using inj_fn [OF crc_shift_inj, of 8] unfolding crc_byte_def
    by (simp add: inj_eq xor.commute)
  then show ?thesis by (simp only: xor_word_cancel byte_to_crc_inj)
qed

lemma crc_fold_inj: "foldl crc_byte x data = foldl crc_byte y data \<longleftrightarrow> x = y"
  by (induction data arbitrary: x y) (simp_all add: crc_byte_inj_state)

lemma crc16_single_byte:
  "crc16_xmodem (p @ a # q) = crc16_xmodem (p @ b # q) \<longleftrightarrow> a = b"
  by (simp add: crc16_xmodem_def crc_fold_inj crc_byte_inj_byte)

text \<open>The checksum protects a public key against the corruption of a byte: when an
  address decodes to a key and another differs from it in exactly one of the 33 payload bytes, the
  other is rejected.\<close>

theorem single_byte_corruption_rejected:
  assumes "b32 good = Some (p @ a # q)" and "b32 bad = Some (p @ b # q)"
    and "is_ok (decode_stellar_public_key b32 good)" and "length p < 33" and "a \<noteq> b"
  shows "\<not> is_ok (decode_stellar_public_key b32 bad)"
proof -
  let ?good = "p @ a # q" and ?bad = "p @ b # q"
  have len: "length ?good = 35"
    and crc: "crc16_xmodem (take 33 ?good) = u16_from_le_bytes (?good ! 33) (?good ! 34)"
    using assms(1,3) by (auto simp: decode_stellar_public_key_def Let_def split: if_splits)
  obtain n where n: "33 - length p = Suc n" using assms(4) by (cases "33 - length p") auto
  then have "take 33 ?good = p @ a # take n q" "take 33 ?bad = p @ b # take n q"
    using assms(4) by simp_all
  then have "crc16_xmodem (take 33 ?good) \<noteq> crc16_xmodem (take 33 ?bad)"
    using crc16_single_byte assms(5) by metis
  moreover have "?good ! 33 = ?bad ! 33" "?good ! 34 = ?bad ! 34"
    using assms(4) by (auto simp: nth_append nth_Cons')
  ultimately have "crc16_xmodem (take 33 ?bad) \<noteq> u16_from_le_bytes (?bad ! 33) (?bad ! 34)"
    using crc by simp
  then show ?thesis
    using assms(2) len by (auto simp: decode_stellar_public_key_def Let_def)
qed

text \<open>A decoder that knows two texts: the key of 32 zero bytes with its checksum, and the same with
  one byte changed.\<close>

definition zero_key :: "u8 list" where
  "zero_key = ED25519_PUBLIC_KEY_VERSION # replicate 32 0"

definition two_texts :: "string \<Rightarrow> u8 list option" where
  "two_texts s =
     (let crc = crc16_xmodem zero_key; sum = [ucast crc, ucast (drop_bit 8 crc)]
      in if s = ''A'' then Some (zero_key @ sum)
         else if s = ''B'' then Some (ED25519_PUBLIC_KEY_VERSION # 1 # replicate 31 0 @ sum)
         else None)"

lemma u16_le_bytes: "u16_from_le_bytes (ucast w) (ucast (drop_bit 8 w)) = w"
  by (rule bit_word_eqI)
     (auto simp: u16_from_le_bytes_def bit_or_iff bit_push_bit_iff bit_ucast_iff bit_drop_bit_eq)

theorem single_byte_corruption_rejected_witness:
  "is_ok (decode_stellar_public_key two_texts ''A'')
   \<and> \<not> is_ok (decode_stellar_public_key two_texts ''B'')"
proof -
  let ?crc = "crc16_xmodem zero_key"
  let ?sum = "[ucast ?crc, ucast (drop_bit 8 ?crc)] :: u8 list"
  have A: "two_texts ''A'' = Some ([ED25519_PUBLIC_KEY_VERSION] @ 0 # (replicate 31 0 @ ?sum))"
    by (simp add: two_texts_def zero_key_def Let_def numeral_eq_Suc)
  have B: "two_texts ''B'' = Some ([ED25519_PUBLIC_KEY_VERSION] @ 1 # (replicate 31 0 @ ?sum))"
    by (simp add: two_texts_def Let_def)
  have "two_texts ''A'' = Some (zero_key @ ?sum)" by (simp add: two_texts_def Let_def)
  then have ok: "is_ok (decode_stellar_public_key two_texts ''A'')"
    by (simp add: decode_stellar_public_key_def zero_key_def Let_def u16_le_bytes nth_append)
  have "length [ED25519_PUBLIC_KEY_VERSION] < 33" "(0 :: u8) \<noteq> 1" by simp_all
  from single_byte_corruption_rejected [OF A B ok this] ok show ?thesis by simp
qed

text \<open>The address validator rejects every text that contains a digit, although the
  base32 alphabet of Stellar addresses has the digits 2 to 7; the texts it accepts are the 56-letter
  ones that start with \<open>G\<close>.\<close>

theorem address_validator_rejects_digits:
  "is_ok (validate_stellar_address a) \<longleftrightarrow>
     length a = 56 \<and> hd a = CHR ''G'' \<and> list_all is_ascii_uppercase a"
  by (cases a)
     (auto simp: validate_stellar_address_def starts_with_iff is_ascii_alphanumeric_def list_all_iff)

end
