(* ===== verification/Retry.thy ===== *)
theory Retry
  imports Prelude
begin

text \<open>
  Retry with exponential backoff (\<open>src/services/retry.rs\<close>), which the Horizon client wraps
  around its requests. The operation is a state transformer: its environment (the network and
  everything else it may touch) is the state \<open>'s\<close> that each call reads and changes. The result
  carries the delays the loop slept, in order.
\<close>

record retry_config =
  max_retries :: nat
  base_delay :: duration
  max_delay :: duration

definition retry_config_default :: retry_config where
  "retry_config_default =
     \<lparr>max_retries = 3, base_delay = from_millis 500, max_delay = from_secs 10\<rparr>"

text \<open>\<open>config.base_delay.saturating_mul(2u32.saturating_pow(attempt)).min(config.max_delay)\<close>.\<close>

definition retry_delay :: "retry_config \<Rightarrow> nat \<Rightarrow> duration" where
  "retry_delay cfg attempt =
     min (sat_mul duration_max (base_delay cfg) (sat_pow u32_max 2 attempt)) (max_delay cfg)"

text \<open>The loop \<open>for attempt in 0..=config.max_retries\<close>, with the number of iterations left after
  this one as the structural argument. The range is never empty, so \<open>last_err\<close> is the error of
  the last iteration and the final \<open>expect\<close> cannot fail.\<close>

fun retry_from ::
  "retry_config \<Rightarrow> ('s \<Rightarrow> ('e + 'a) \<times> 's) \<Rightarrow> nat \<Rightarrow> nat \<Rightarrow> 's \<Rightarrow> ('e + 'a) \<times> 's \<times> duration list"
where
  "retry_from cfg operation 0 attempt s =
     (let (r, s') = operation s in (r, s', []))"
| "retry_from cfg operation (Suc left) attempt s =
     (let (r, s') = operation s in
      case r of
        Inr value \<Rightarrow> (Ok value, s', [])
      | Inl err \<Rightarrow>
          (let (r', s'', delays) = retry_from cfg operation left (Suc attempt) s'
           in (r', s'', retry_delay cfg attempt # delays)))"

definition with_retry ::
  "retry_config \<Rightarrow> ('s \<Rightarrow> ('e + 'a) \<times> 's) \<Rightarrow> 's \<Rightarrow> ('e + 'a) \<times> 's \<times> duration list" where
  "with_retry cfg operation s = retry_from cfg operation (max_retries cfg) 0 s"

section \<open>What a retried call does\<close>

text \<open>The \<open>n\<close>-th of a sequence of calls without any retry logic: its outcome, and the state it
  leaves.\<close>

fun nth_call :: "('s \<Rightarrow> ('e + 'a) \<times> 's) \<Rightarrow> nat \<Rightarrow> 's \<Rightarrow> ('e + 'a) \<times> 's" where
  "nth_call operation 0 s = operation s"
| "nth_call operation (Suc n) s = nth_call operation n (snd (operation s))"

lemma retry_from_calls:
  assumes "retry_from cfg operation left attempt s = (r, s', delays)"
  shows "length delays \<le> left
    \<and> (\<forall>i < length delays. \<not> is_ok (fst (nth_call operation i s)))
    \<and> (r, s') = nth_call operation (length delays) s
    \<and> (is_ok r \<or> length delays = left)
    \<and> delays = map (\<lambda>i. retry_delay cfg (attempt + i)) [0..<length delays]"
  using assms
proof (induction cfg operation left attempt s arbitrary: r s' delays rule: retry_from.induct)
  case (1 cfg operation attempt s)
  then show ?case by (auto split: prod.splits)
next
  case (2 cfg operation left attempt s)
  obtain r0 s0 where op: "operation s = (r0, s0)" by (cases "operation s")
  show ?case
  proof (cases r0)
    case (Inr v)
    with 2(2) op show ?thesis by auto
  next
    case (Inl e)
    obtain r1 s1 ds where rec: "retry_from cfg operation left (Suc attempt) s0 = (r1, s1, ds)"
      by (cases "retry_from cfg operation left (Suc attempt) s0")
    have res: "r = r1" "s' = s1" "delays = retry_delay cfg attempt # ds"
      using 2(2) op Inl rec by auto
    have IH: "length ds \<le> left" "\<forall>i < length ds. \<not> is_ok (fst (nth_call operation i s0))"
      "(r1, s1) = nth_call operation (length ds) s0" "is_ok r1 \<or> length ds = left"
      "ds = map (\<lambda>i. retry_delay cfg (Suc attempt + i)) [0..<length ds]"
      using 2(1) [OF op [symmetric] refl Inl rec] by blast+
    have "\<forall>i < length delays. \<not> is_ok (fst (nth_call operation i s))"
      using IH(2) op Inl by (auto simp: res less_Suc_eq_0_disj)
    moreover have "delays = map (\<lambda>i. retry_delay cfg (attempt + i)) [0..<length delays]"
      using IH(5) by (simp add: res upt_conv_Cons map_Suc_upt [symmetric] comp_def del: upt_Suc)
    ultimately show ?thesis
      using IH(1,3,4) op res by auto
  qed
qed

lemma with_retry_first_ok:
  "operation s = (Ok v, s') \<Longrightarrow> with_retry cfg operation s = (Ok v, s', [])"
  by (cases "max_retries cfg") (simp_all add: with_retry_def)

lemma retry_delay_mono: "i \<le> j \<Longrightarrow> retry_delay cfg i \<le> retry_delay cfg j"
  unfolding retry_delay_def
  by (intro min.mono order.refl sat_mul_mono sat_pow_mono) simp_all

lemma retry_delay_le: "retry_delay cfg i \<le> max_delay cfg"
  by (simp add: retry_delay_def)

text \<open>A retried operation is called until it first succeeds and at most
  \<open>max_retries + 1\<close> times: the calls before the last all failed, the result and the state are
  those of the last call, and the result is an error only when every attempt was used. It sleeps
  once between consecutive calls, for delays that never decrease and never exceed
  \<open>max_delay\<close>.\<close>

theorem with_retry_stops_at_first_success:
  assumes "with_retry cfg operation s = (r, s', delays)"
  shows "length delays \<le> max_retries cfg
    \<and> (\<forall>i < length delays. \<not> is_ok (fst (nth_call operation i s)))
    \<and> (r, s') = nth_call operation (length delays) s
    \<and> (is_ok r \<or> length delays = max_retries cfg)
    \<and> sorted delays \<and> (\<forall>d \<in> set delays. d \<le> max_delay cfg)"
proof -
  note all = retry_from_calls [OF assms [unfolded with_retry_def]]
  note ds = all [THEN conjunct2, THEN conjunct2, THEN conjunct2, THEN conjunct2]
  define n where "n = length delays"
  have ds': "delays = map (retry_delay cfg) [0..<n]"
    using ds unfolding n_def [symmetric] by simp
  have "sorted (map (retry_delay cfg) [0..<n])"
    by (auto simp: sorted_iff_nth_mono intro: retry_delay_mono)
  moreover have "\<forall>d \<in> set (map (retry_delay cfg) [0..<n]). d \<le> max_delay cfg"
    by (auto intro: retry_delay_le)
  ultimately have "sorted delays" "\<forall>d \<in> set delays. d \<le> max_delay cfg"
    unfolding ds' by simp_all
  with all show ?thesis by (elim conjE) (intro conjI)
qed

text \<open>An operation that fails while the number in its state is positive.\<close>

definition countdown :: "nat \<Rightarrow> (string + nat) \<times> nat" where
  "countdown n = (if n = 0 then Ok 7 else Err ''busy'', n - 1)"

theorem with_retry_stops_at_first_success_witness:
  "with_retry retry_config_default countdown 2 = (Ok 7, 0, [500000000, 1000000000])
   \<and> sorted [500000000, 1000000000 :: nat]"
proof -
  have "retry_delay retry_config_default 0 = 500000000"
    "retry_delay retry_config_default (Suc 0) = 1000000000"
    by (simp_all add: retry_delay_def retry_config_default_def duration_max_def int_ranges rust_std)
  moreover have "max_retries retry_config_default = Suc (Suc (Suc 0))"
    by (simp add: retry_config_default_def)
  ultimately have run:
    "with_retry retry_config_default countdown 2 = (Ok 7, 0, [500000000, 1000000000])"
    by (simp add: with_retry_def countdown_def)
  from with_retry_stops_at_first_success [OF run] run show ?thesis by blast
qed

end
