(* ===== verification/Circuit_Breaker.thy ===== *)
theory Circuit_Breaker
  imports Prelude
begin

text \<open>
  The consecutive-failure circuit breaker (\<open>src/services/circuit_breaker.rs\<close>): its
  configuration from the environment, its counters and the state they encode. The two atomics
  keep their widths (\<open>AtomicU32\<close>, \<open>AtomicU64\<close>), and the subtraction \<open>now - last_fail\<close> is
  the wrapping one of a release build (the manifest does not enable overflow checks; a debug build
  panics instead). The clock reading \<open>now_secs()\<close> is an argument.

  The locale \<open>breaker\<close> is what the clients of a breaker (the Horizon client, the webhook
  retry engine) rely on.
\<close>

section \<open>Configuration\<close>

datatype circuit_state = Closed | Open | HalfOpen

definition DEFAULT_FAILURE_THRESHOLD :: u32 where "DEFAULT_FAILURE_THRESHOLD = 5"
definition DEFAULT_RECOVERY_TIMEOUT_SECS :: nat where "DEFAULT_RECOVERY_TIMEOUT_SECS = 60"

record cb_config =
  cfg_failure_threshold :: u32
  cfg_recovery_timeout :: duration

definition cb_config_default :: cb_config where
  "cb_config_default =
     \<lparr>cfg_failure_threshold = DEFAULT_FAILURE_THRESHOLD,
      cfg_recovery_timeout = from_secs DEFAULT_RECOVERY_TIMEOUT_SECS\<rparr>"

text \<open>The loop of \<open>read_env_var\<close> over the candidate keys: the first value that is set, parses
  and is valid.\<close>

fun first_valid :: "(string \<Rightarrow> 'a option) \<Rightarrow> ('a \<Rightarrow> bool) \<Rightarrow> env \<Rightarrow> string list \<Rightarrow> 'a option" where
  "first_valid parse is_valid env [] = None"
| "first_valid parse is_valid env (key # keys) =
     (case env key of
        None \<Rightarrow> first_valid parse is_valid env keys
      | Some raw \<Rightarrow>
          (case parse (trim raw) of
             Some value \<Rightarrow> if is_valid value then Some value
                           else first_valid parse is_valid env keys
           | None \<Rightarrow> first_valid parse is_valid env keys))"

definition env_keys :: "string option \<Rightarrow> string \<Rightarrow> string list" where
  "env_keys pre name =
     (case pre of Some p \<Rightarrow> [to_uppercase p @ ''_'' @ name] | None \<Rightarrow> []) @ [name]"

definition read_env_var ::
  "(string \<Rightarrow> 'a option) \<Rightarrow> ('a \<Rightarrow> bool) \<Rightarrow> env \<Rightarrow> string option \<Rightarrow> string \<Rightarrow> 'a option" where
  "read_env_var parse is_valid env pre name = first_valid parse is_valid env (env_keys pre name)"

definition parse_u32 :: "string \<Rightarrow> u32 option" where
  "parse_u32 s = map_option of_nat (parse_unsigned u32_max s)"

definition cb_resolve :: "env \<Rightarrow> string option \<Rightarrow> cb_config" where
  "cb_resolve env pre =
     (let failure_threshold =
            (case read_env_var parse_u32 (\<lambda>t. 0 < t) env pre ''CIRCUIT_BREAKER_FAILURE_THRESHOLD''
             of Some t \<Rightarrow> t | None \<Rightarrow> DEFAULT_FAILURE_THRESHOLD);
          recovery_secs =
            (case read_env_var (parse_unsigned u64_max) (\<lambda>_. True) env pre
                    ''CIRCUIT_BREAKER_RECOVERY_TIMEOUT_SECS''
             of Some s \<Rightarrow> s | None \<Rightarrow> DEFAULT_RECOVERY_TIMEOUT_SECS)
      in \<lparr>cfg_failure_threshold = failure_threshold,
          cfg_recovery_timeout = from_secs recovery_secs\<rparr>)"

definition cb_config_from_env :: "env \<Rightarrow> cb_config" where
  "cb_config_from_env env = cb_resolve env None"

definition cb_config_from_env_prefixed :: "env \<Rightarrow> string \<Rightarrow> cb_config" where
  "cb_config_from_env_prefixed env pre = cb_resolve env (Some pre)"

section \<open>The breaker\<close>

record circuit_breaker =
  failure_threshold :: u32
  recovery_timeout :: duration
  failure_count :: u32
  last_failure_time :: u64

definition cb_new :: "u32 \<Rightarrow> duration \<Rightarrow> circuit_breaker" where
  "cb_new threshold timeout =
     \<lparr>failure_threshold = threshold, recovery_timeout = timeout,
      failure_count = 0, last_failure_time = 0\<rparr>"

definition cb_from_config :: "cb_config \<Rightarrow> circuit_breaker" where
  "cb_from_config c = cb_new (cfg_failure_threshold c) (cfg_recovery_timeout c)"

definition cb_state :: "circuit_breaker \<Rightarrow> u64 \<Rightarrow> circuit_state" where
  "cb_state cb now =
     (if failure_count cb < failure_threshold cb then Closed
      else if as_secs (recovery_timeout cb) \<le> unat (now - last_failure_time cb) then HalfOpen
      else Open)"

definition allow_request :: "circuit_breaker \<Rightarrow> u64 \<Rightarrow> bool" where
  "allow_request cb now =
     (case cb_state cb now of Closed \<Rightarrow> True | HalfOpen \<Rightarrow> True | Open \<Rightarrow> False)"

definition record_success :: "circuit_breaker \<Rightarrow> circuit_breaker" where
  "record_success cb = cb\<lparr>failure_count := 0\<rparr>"

definition record_failure :: "circuit_breaker \<Rightarrow> u64 \<Rightarrow> circuit_breaker" where
  "record_failure cb now =
     cb\<lparr>failure_count := failure_count cb + 1, last_failure_time := now\<rparr>"

section \<open>What clients rely on\<close>

locale breaker =
  fixes state_of :: "'b \<Rightarrow> u64 \<Rightarrow> circuit_state"
    and success :: "'b \<Rightarrow> 'b"
    and failure :: "'b \<Rightarrow> u64 \<Rightarrow> 'b"
    and usable :: "'b \<Rightarrow> bool"
  assumes usable_success [simp]: "usable b \<Longrightarrow> usable (success b)"
    and usable_failure [simp]: "usable b \<Longrightarrow> usable (failure b now)"
    and closed_after_success [simp]: "usable b \<Longrightarrow> state_of (success b) now = Closed"
begin

text \<open>The outcomes of a sequence of calls, each with the time it was recorded.\<close>

fun record_all :: "'b \<Rightarrow> (bool \<times> u64) list \<Rightarrow> 'b" where
  "record_all b [] = b"
| "record_all b ((ok, t) # es) = record_all (if ok then success b else failure b t) es"

lemma usable_record_all: "usable b \<Longrightarrow> usable (record_all b es)"
  by (induction b es rule: record_all.induct) auto

lemma record_all_snoc:
  "record_all b (es @ [(ok, t)]) =
     (if ok then success (record_all b es) else failure (record_all b es) t)"
  by (induction b es rule: record_all.induct) auto

lemma closed_after_last_success:
  "usable b \<Longrightarrow> state_of (record_all b (es @ [(True, t)])) now = Closed"
  by (simp add: record_all_snoc usable_record_all)

end

lemma record_simps [simp]:
  "failure_threshold (record_success cb) = failure_threshold cb"
  "failure_threshold (record_failure cb now) = failure_threshold cb"
  "recovery_timeout (record_success cb) = recovery_timeout cb"
  "recovery_timeout (record_failure cb now) = recovery_timeout cb"
  "failure_count (record_success cb) = 0"
  "failure_count (record_failure cb now) = failure_count cb + 1"
  "last_failure_time (record_success cb) = last_failure_time cb"
  "last_failure_time (record_failure cb now) = now"
  by (simp_all add: record_success_def record_failure_def)

lemma cb_new_simps [simp]:
  "failure_threshold (cb_new th d) = th" "recovery_timeout (cb_new th d) = d"
  "failure_count (cb_new th d) = 0" "last_failure_time (cb_new th d) = 0"
  by (simp_all add: cb_new_def)

interpretation cb: breaker cb_state record_success record_failure
  "\<lambda>b. 0 < failure_threshold b"
  by unfold_locales (simp_all add: cb_state_def)

lemma allow_request_iff: "allow_request cb now \<longleftrightarrow> cb_state cb now \<noteq> Open"
  by (cases "cb_state cb now") (simp_all add: allow_request_def)

section \<open>The counters encode the history of calls\<close>

text \<open>The specification keeps the history itself: how many failures it ends in, and when the last
  failure was recorded.\<close>

definition trailing_failures :: "(bool \<times> u64) list \<Rightarrow> nat" where
  "trailing_failures es = length (takeWhile (\<lambda>(ok, t). \<not> ok) (rev es))"

definition last_failure :: "(bool \<times> u64) list \<Rightarrow> u64" where
  "last_failure es = (case List.find (\<lambda>(ok, t). \<not> ok) (rev es) of Some (ok, t) \<Rightarrow> t | None \<Rightarrow> 0)"

lemma history_simps [simp]:
  "trailing_failures [] = 0" "last_failure [] = 0"
  "trailing_failures (es @ [(ok, t)]) = (if ok then 0 else Suc (trailing_failures es))"
  "last_failure (es @ [(ok, t)]) = (if ok then last_failure es else t)"
  by (simp_all add: trailing_failures_def last_failure_def)

definition spec_state :: "u32 \<Rightarrow> duration \<Rightarrow> (bool \<times> u64) list \<Rightarrow> u64 \<Rightarrow> circuit_state" where
  "spec_state threshold timeout es now =
     (if trailing_failures es < unat threshold then Closed
      else if unat (last_failure es) + as_secs timeout \<le> unat now then HalfOpen
      else Open)"

lemma record_all_counters:
  "failure_threshold (cb.record_all (cb_new th d) es) = th
   \<and> recovery_timeout (cb.record_all (cb_new th d) es) = d
   \<and> failure_count (cb.record_all (cb_new th d) es) = of_nat (trailing_failures es)
   \<and> last_failure_time (cb.record_all (cb_new th d) es) = last_failure es"
  by (induction es rule: rev_induct) (auto simp: cb.record_all_snoc split: prod.splits)

lemma unat_diff_le: "(a :: u64) \<le> b \<Longrightarrow> unat (b - a) = unat b - unat a"
  by (rule unat_sub)

text \<open>\<^bold>\<open>C31.\<close> The breaker's two counters refine the history of calls: after any sequence of
  recorded successes and failures, the state it reports is Closed while fewer than
  \<open>failure_threshold\<close> failures have been recorded since the last success, Open for
  \<open>recovery_timeout\<close> seconds after the last failure, and HalfOpen from then on. (Fewer than
  \<open>2^32\<close> consecutive failures, and a clock that does not run behind the last recorded one.)\<close>

theorem cb_state_refines_history:
  assumes "trailing_failures es < 2 ^ 32" and "last_failure es \<le> now"
  shows "cb_state (cb.record_all (cb_new threshold timeout) es) now =
    spec_state threshold timeout es now"
proof -
  have "unat (of_nat (trailing_failures es) :: u32) = trailing_failures es"
    using assms(1) by (simp add: unat_of_nat)
  then show ?thesis
    using unat_diff_le [OF assms(2)] assms(2) record_all_counters [of threshold timeout es]
    by (auto simp: cb_state_def spec_state_def word_less_nat_alt word_le_nat_alt)
qed

theorem cb_state_refines_history_witness:
  "trailing_failures [(False, 10), (False, 20)] < 2 ^ 32
   \<and> last_failure [(False, 10), (False, 20)] \<le> 49
   \<and> cb_state (cb.record_all (cb_new 2 (from_secs 30)) [(False, 10), (False, 20)]) 49 = Open
   \<and> spec_state 2 (from_secs 30) [(False, 10), (False, 20)] 49 = Open"
proof -
  have h1: "trailing_failures [(False, 10), (False, 20)] < 2 ^ 32"
    by (simp add: trailing_failures_def)
  have h2: "last_failure [(False, 10), (False, 20)] \<le> 49"
    by (simp add: last_failure_def)
  have s: "spec_state 2 (from_secs 30) [(False, 10), (False, 20)] 49 = Open"
    by (simp add: spec_state_def trailing_failures_def last_failure_def)
  show ?thesis
    using cb_state_refines_history [OF h1 h2, of 2 "from_secs 30"] h1 h2 s by simp
qed

text \<open>A clock that steps back opens the gate: when the reading is earlier than the last
  recorded failure, the unsigned difference wraps, and a tripped breaker reports HalfOpen and
  admits the request at once, although its recovery window has not passed.\<close>

theorem clock_step_back_admits:
  assumes "failure_threshold cb \<le> failure_count cb"
    and "now < last_failure_time cb"
    and "as_secs (recovery_timeout cb) + (unat (last_failure_time cb) - unat now) \<le> 2 ^ 64"
  shows "cb_state cb now = HalfOpen \<and> allow_request cb now"
proof -
  have lt: "unat now < unat (last_failure_time cb)"
    using assms(2) by (simp add: word_less_nat_alt)
  have "unat (now - last_failure_time cb) = unat now + 2 ^ 64 - unat (last_failure_time cb)"
    using lt by (simp add: unat_sub_if')
  then have "as_secs (recovery_timeout cb) \<le> unat (now - last_failure_time cb)"
    using assms(3) lt by linarith
  then have "cb_state cb now = HalfOpen"
    using assms(1) by (simp add: cb_state_def not_less)
  then show ?thesis by (simp add: allow_request_def)
qed

theorem clock_step_back_admits_witness:
  "allow_request (record_failure (cb_new 1 (from_secs 60)) 100) 99"
proof -
  let ?cb = "record_failure (cb_new 1 (from_secs 60)) 100"
  have "failure_threshold ?cb \<le> failure_count ?cb" "99 < last_failure_time ?cb"
    "as_secs (recovery_timeout ?cb) + (unat (last_failure_time ?cb) - unat (99 :: u64)) \<le> 2 ^ 64"
    by simp_all
  from clock_step_back_admits [OF this] show ?thesis by simp
qed

section \<open>Configuration is always usable\<close>

lemma first_valid_Some: "first_valid parse ok env keys = Some v \<Longrightarrow> ok v"
  by (induction keys) (auto split: option.splits if_splits)

definition valid_setting :: "(string \<Rightarrow> 'a option) \<Rightarrow> ('a \<Rightarrow> bool) \<Rightarrow> env \<Rightarrow> string \<Rightarrow> 'a option" where
  "valid_setting parse ok env key =
     (case env key of None \<Rightarrow> None
      | Some raw \<Rightarrow> (case parse (trim raw) of Some v \<Rightarrow> if ok v then Some v else None
                    | None \<Rightarrow> None))"

lemma first_valid_Cons:
  "first_valid parse ok env (key # keys) =
     (case valid_setting parse ok env key of Some v \<Rightarrow> Some v
      | None \<Rightarrow> first_valid parse ok env keys)"
  by (simp add: valid_setting_def split: option.splits)

text \<open>A configuration read from the environment never has threshold zero, whatever the
  variables hold, so a breaker built from it starts Closed; and the threshold is the prefixed
  variable's value if that is a valid one, else the global variable's, else the default.\<close>

theorem config_from_env_usable:
  "0 < cfg_failure_threshold (cb_config_from_env_prefixed env pre)
   \<and> cb_state (cb_from_config (cb_config_from_env_prefixed env pre)) now = Closed
   \<and> cfg_failure_threshold (cb_config_from_env_prefixed env pre) =
       (case valid_setting parse_u32 (\<lambda>t. 0 < t) env
               (to_uppercase pre @ ''_CIRCUIT_BREAKER_FAILURE_THRESHOLD'') of
          Some t \<Rightarrow> t
        | None \<Rightarrow> (case valid_setting parse_u32 (\<lambda>t. 0 < t) env
                           ''CIRCUIT_BREAKER_FAILURE_THRESHOLD'' of
                     Some t \<Rightarrow> t | None \<Rightarrow> 5))"
proof -
  let ?r = "read_env_var parse_u32 (\<lambda>t. 0 < t) env (Some pre) ''CIRCUIT_BREAKER_FAILURE_THRESHOLD''"
  have th: "cfg_failure_threshold (cb_config_from_env_prefixed env pre) =
      (case ?r of Some t \<Rightarrow> t | None \<Rightarrow> 5)"
    by (simp add: cb_config_from_env_prefixed_def cb_resolve_def Let_def
        DEFAULT_FAILURE_THRESHOLD_def split: option.split)
  have pos: "0 < (case ?r of Some t \<Rightarrow> t | None \<Rightarrow> (5 :: u32))"
    by (cases ?r) (auto simp: read_env_var_def dest: first_valid_Some)
  have r: "?r = (case valid_setting parse_u32 (\<lambda>t. 0 < t) env
                      (to_uppercase pre @ ''_CIRCUIT_BREAKER_FAILURE_THRESHOLD'') of
                 Some t \<Rightarrow> Some t
               | None \<Rightarrow> valid_setting parse_u32 (\<lambda>t. 0 < t) env
                            ''CIRCUIT_BREAKER_FAILURE_THRESHOLD'')"
    by (simp add: read_env_var_def env_keys_def first_valid_Cons del: first_valid.simps(2)
        split: option.split)
  have closed: "cb_state (cb_from_config c) now = Closed" if "0 < cfg_failure_threshold c" for c
    using that by (simp add: cb_from_config_def cb_state_def)
  from th pos closed r show ?thesis
    by (auto split: option.split)
qed

end
