(* ===== verification/Stellar_Verify.thy ===== *)
theory Stellar_Verify
  imports Amounts Retry Circuit_Breaker
begin

text \<open>
  The Horizon client and the on-chain verification of a tip
  (\<open>src/services/stellar_service.rs\<close>). The network is the state \<open>'n\<close> of a record of
  operations that stand for code outside the repository: \<open>http_get\<close> (the HTTP client), the clock
  and the JSON decoders of the response types. The service's breaker is threaded through the calls
  that read or change it.
\<close>

section \<open>Horizon's responses\<close>

record horizon_transaction =
  tx_id :: string
  tx_hash :: string
  successful :: bool
  source_account :: string
  memo :: "string option"
  memo_type :: "string option"

record horizon_operation =
  op_type :: string
  op_to :: "string option"
  op_amount :: "string option"
  asset_type :: "string option"

record horizon_fee_stats =
  last_ledger_base_fee :: "string option"
  fee_charged :: "string option option"

record horizon_account =
  account_id :: string
  subentry_count :: nat
  balances :: "(string \<times> string \<times> string option) list"

record reply =
  reply_status :: nat
  retry_after_header :: "string option"
  reply_body :: string

record 'n horizon_ops =
  http_get :: "string \<Rightarrow> 'n \<Rightarrow> reply option \<times> 'n"
  now_secs :: "'n \<Rightarrow> u64"
  decode_tx :: "string \<Rightarrow> horizon_transaction option"
  decode_operations :: "string \<Rightarrow> horizon_operation list option"
  decode_fee_stats :: "string \<Rightarrow> horizon_fee_stats option"
  decode_account :: "string \<Rightarrow> horizon_account option"

section \<open>The service\<close>

definition FEE_FLOOR_STROOPS :: nat where "FEE_FLOOR_STROOPS = 100"
definition FEE_CEILING_STROOPS :: nat where "FEE_CEILING_STROOPS = 10000"
definition MEMO_MAX_BYTES :: nat where "MEMO_MAX_BYTES = 28"

record tip_verify_request =
  req_transaction_hash :: string
  req_amount_stroops :: int
  req_destination :: string
  req_expected_memo :: "string option"
  req_source_account :: string

datatype verify_outcome = Confirmed | Rejected string

record stellar_service =
  horizon_url :: string
  rpc_url :: string
  network :: string
  submit_timeout :: duration
  svc_retry_config :: retry_config

definition default_horizon :: "string \<Rightarrow> string" where
  "default_horizon net =
     (if net = ''mainnet'' then ''https://horizon.stellar.org''
      else ''https://horizon-testnet.stellar.org'')"

text \<open>\<open>StellarService::new\<close>, with the breaker it creates.\<close>

definition stellar_service_new :: "env \<Rightarrow> string \<Rightarrow> string \<Rightarrow> stellar_service \<times> circuit_breaker" where
  "stellar_service_new env url net =
     (\<lparr>horizon_url = default_horizon net, rpc_url = url, network = net,
       submit_timeout = from_secs 30, svc_retry_config = retry_config_default\<rparr>,
      cb_from_config (cb_config_from_env_prefixed env ''HORIZON''))"

definition horizon_base :: "stellar_service \<Rightarrow> string" where
  "horizon_base svc = default_horizon (network svc)"

definition with_horizon_url :: "stellar_service \<Rightarrow> string \<Rightarrow> stellar_service" where
  "with_horizon_url svc url = svc\<lparr>horizon_url := url\<rparr>"

definition validate_memo :: "string \<Rightarrow> app_error + unit" where
  "validate_memo m =
     (let byte_len = length m in
      if byte_len > MEMO_MAX_BYTES then Err (Stellar (MemoTooLong byte_len)) else Ok ())"

definition fee_stats_value :: "horizon_fee_stats \<Rightarrow> nat option" where
  "fee_stats_value stats =
     Option.bind
       (case Option.bind (fee_charged stats) id of
          Some p99 \<Rightarrow> Some p99
        | None \<Rightarrow> last_ledger_base_fee stats)
       (parse_unsigned u64_max)"

definition clamp :: "nat \<Rightarrow> nat \<Rightarrow> nat \<Rightarrow> nat" where
  "clamp lo hi x = (if x < lo then lo else if x > hi then hi else x)"

definition fetch_base_fee :: "'n horizon_ops \<Rightarrow> stellar_service \<Rightarrow> 'n \<Rightarrow> nat \<times> 'n" where
  "fetch_base_fee ops svc n =
     (let (resp, n') = http_get ops (horizon_url svc @ ''/fee_stats'') n;
          raw = Option.bind resp (\<lambda>r. Option.bind (decode_fee_stats ops (reply_body r)) fee_stats_value)
      in (clamp FEE_FLOOR_STROOPS FEE_CEILING_STROOPS
            (case raw of Some v \<Rightarrow> v | None \<Rightarrow> FEE_FLOOR_STROOPS), n'))"

definition check_account_exists ::
  "'n horizon_ops \<Rightarrow> stellar_service \<Rightarrow> string \<Rightarrow> 'n \<Rightarrow> (app_error + horizon_account) \<times> 'n" where
  "check_account_exists ops svc address n =
     (let (resp, n') = http_get ops (horizon_url svc @ ''/accounts/'' @ address) n in
      (case resp of
         None \<Rightarrow> Err (Stellar NetworkUnavailable)
       | Some r \<Rightarrow>
           if reply_status r = 200 then
             (case decode_account ops (reply_body r) of
                Some a \<Rightarrow> Ok a
              | None \<Rightarrow> Err (invalid_tx ''Malformed account response from Horizon''))
           else if reply_status r = 404 then Err (Stellar (DestinationUnfunded address))
           else if reply_status r = 429 then
             Err (Stellar (StellarRateLimited
                    (case Option.bind (retry_after_header r) (parse_unsigned u64_max) of
                       Some s \<Rightarrow> s | None \<Rightarrow> 60)))
           else Err (Stellar NetworkUnavailable), n'))"

section \<open>Fetching a transaction\<close>

definition transaction_url :: "stellar_service \<Rightarrow> string \<Rightarrow> string" where
  "transaction_url svc hash = horizon_base svc @ ''/transactions/'' @ hash"

definition operations_url :: "stellar_service \<Rightarrow> string \<Rightarrow> string" where
  "operations_url svc hash = transaction_url svc hash @ ''/operations''"

text \<open>One attempt of \<open>fetch_transaction\<close>: the closure that \<open>with_retry\<close> calls.\<close>

definition get_transaction ::
  "'n horizon_ops \<Rightarrow> string \<Rightarrow> 'n \<Rightarrow> (app_error + horizon_transaction option) \<times> 'n" where
  "get_transaction ops url n =
     (let (resp, n') = http_get ops url n in
      (case resp of
         None \<Rightarrow> Err (Stellar NetworkUnavailable)
       | Some r \<Rightarrow>
           (let status = reply_status r in
            if status = 200 then
              (case decode_tx ops (reply_body r) of
                 Some tx \<Rightarrow> Ok (Some tx)
               | None \<Rightarrow> Err (invalid_tx ''Malformed Horizon response''))
            else if status = 404 then Ok None
            else if status = 429 \<or> (500 \<le> status \<and> status \<le> 599) then
              Err (Stellar NetworkUnavailable)
            else Err (invalid_tx (''Unexpected Horizon status: '' @ show_nat status))), n'))"

definition retry_504_config :: "env \<Rightarrow> retry_config" where
  "retry_504_config env =
     (let ms = (case Option.bind (env ''STELLAR_504_RETRY_DELAY_MS'') (parse_unsigned u64_max) of
                  Some v \<Rightarrow> v | None \<Rightarrow> 3000)
      in \<lparr>max_retries = 1, base_delay = from_millis ms, max_delay = from_millis ms\<rparr>)"

definition fetch_transaction ::
  "'n horizon_ops \<Rightarrow> env \<Rightarrow> stellar_service \<Rightarrow> string \<Rightarrow> circuit_breaker \<times> 'n
     \<Rightarrow> (app_error + horizon_transaction option) \<times> circuit_breaker \<times> 'n" where
  "fetch_transaction ops env svc hash st =
     (let (cb, n) = st in
      if \<not> allow_request cb (now_secs ops n) then (Err (Stellar CircuitBreakerOpen), cb, n)
      else
        (let (result, n', _) =
               with_retry (retry_504_config env) (get_transaction ops (transaction_url svc hash)) n;
             cb' = (case result of Inr _ \<Rightarrow> record_success cb
                    | Inl _ \<Rightarrow> record_failure cb (now_secs ops n'))
         in (result, cb', n')))"

definition get_operations ::
  "'n horizon_ops \<Rightarrow> string \<Rightarrow> 'n \<Rightarrow> (app_error + horizon_operation list) \<times> 'n" where
  "get_operations ops url n =
     (let (resp, n') = http_get ops url n in
      (case resp of
         None \<Rightarrow> Err (Stellar NetworkUnavailable)
       | Some r \<Rightarrow>
           if 200 \<le> reply_status r \<and> reply_status r \<le> 299 then
             (case decode_operations ops (reply_body r) of
                Some records \<Rightarrow> Ok records
              | None \<Rightarrow> Err (invalid_tx ''Malformed Horizon operations response''))
           else Err (Stellar NetworkUnavailable), n'))"

definition fetch_operations ::
  "'n horizon_ops \<Rightarrow> stellar_service \<Rightarrow> string \<Rightarrow> 'n
     \<Rightarrow> (app_error + horizon_operation list) \<times> 'n" where
  "fetch_operations ops svc hash n =
     (let (result, n', _) =
            with_retry (svc_retry_config svc) (get_operations ops (operations_url svc hash)) n
      in (result, n'))"

definition verify_transaction ::
  "'n horizon_ops \<Rightarrow> env \<Rightarrow> stellar_service \<Rightarrow> string \<Rightarrow> circuit_breaker \<times> 'n
     \<Rightarrow> (app_error + bool) \<times> circuit_breaker \<times> 'n" where
  "verify_transaction ops env svc hash st =
     (let (tx, cb, n) = fetch_transaction ops env svc hash st in
      (case tx of
         Inl e \<Rightarrow> Err e
       | Inr t \<Rightarrow> Ok (case t of Some t \<Rightarrow> successful t | None \<Rightarrow> False), cb, n))"

section \<open>Verifying a tip\<close>

definition is_payment_to :: "string \<Rightarrow> horizon_operation \<Rightarrow> bool" where
  "is_payment_to dest op \<longleftrightarrow>
     op_type op = ''payment'' \<and> asset_type op = Some ''native'' \<and> op_to op = Some dest"

text \<open>The decision on the operations (step 4), and the whole of \<open>verify_tip\<close>.\<close>

definition check_operations ::
  "tip_verify_request \<Rightarrow> horizon_operation list \<Rightarrow> app_error + verify_outcome" where
  "check_operations req operations =
     (case List.find (is_payment_to (req_destination req)) operations of
        None \<Rightarrow> Ok (Rejected (''No native payment to '' @ req_destination req
                         @ '' found in transaction''))
      | Some op \<Rightarrow>
          (case xlm_to_stroops (case op_amount op of Some a \<Rightarrow> a | None \<Rightarrow> ''0'') of
             Inl e \<Rightarrow> Err e
           | Inr on_chain_stroops \<Rightarrow>
               if on_chain_stroops \<noteq> req_amount_stroops req then
                 Ok (Rejected (''Amount mismatch: expected '' @ show_int (req_amount_stroops req)
                        @ '' stroops, on-chain '' @ show_int on_chain_stroops))
               else Ok Confirmed))"

definition memo_matches :: "tip_verify_request \<Rightarrow> horizon_transaction \<Rightarrow> bool" where
  "memo_matches req tx \<longleftrightarrow>
     (case req_expected_memo req of
        None \<Rightarrow> True
      | Some expected \<Rightarrow> (case memo tx of Some m \<Rightarrow> m | None \<Rightarrow> []) = expected)"

definition verify_tip ::
  "'n horizon_ops \<Rightarrow> env \<Rightarrow> stellar_service \<Rightarrow> tip_verify_request \<Rightarrow> circuit_breaker \<times> 'n
     \<Rightarrow> (app_error + verify_outcome) \<times> circuit_breaker \<times> 'n" where
  "verify_tip ops env svc req st =
     (let (r, cb, n) = fetch_transaction ops env svc (req_transaction_hash req) st in
      case r of
        Inl e \<Rightarrow> (Err e, cb, n)
      | Inr None \<Rightarrow> (Ok (Rejected ''Transaction not found on Stellar network''), cb, n)
      | Inr (Some tx) \<Rightarrow>
          if \<not> successful tx then
            (Ok (Rejected ''Transaction did not succeed on the Stellar network''), cb, n)
          else if source_account tx \<noteq> req_source_account req then
            (Ok (Rejected (''Source account mismatch: expected '' @ req_source_account req
                    @ '', got '' @ source_account tx)), cb, n)
          else if \<not> memo_matches req tx then
            (Ok (Rejected (''Memo mismatch: expected ''
                    @ quoted (case req_expected_memo req of Some m \<Rightarrow> m | None \<Rightarrow> [])
                    @ '', got '' @ quoted (case memo tx of Some m \<Rightarrow> m | None \<Rightarrow> []))), cb, n)
          else
            (let (ops_result, n') = fetch_operations ops svc (req_transaction_hash req) n in
             case ops_result of
               Inl e \<Rightarrow> (Err e, cb, n')
             | Inr operations \<Rightarrow> (check_operations req operations, cb, n')))"

section \<open>What the results rest on\<close>

text \<open>A retried call that returns a value got it from one call of the operation.\<close>

lemma nth_call_is_call: "\<exists>t. nth_call operation n s = operation t"
  by (induction n arbitrary: s) auto

lemma with_retry_is_call:
  assumes "with_retry cfg operation s = (r, s', ds)"
  shows "\<exists>t. (r, s') = operation t"
  using retry_from_calls [OF assms [unfolded with_retry_def]] nth_call_is_call [of operation _ s]
  by (metis (no_types))

lemma get_transaction_Some:
  assumes "get_transaction ops url n = (Ok (Some tx), n')"
  shows "\<exists>r. http_get ops url n = (Some r, n') \<and> reply_status r = 200
           \<and> decode_tx ops (reply_body r) = Some tx"
  using assms
  by (auto simp: get_transaction_def Let_def split: prod.splits option.splits if_splits)

lemma fetch_transaction_Some:
  assumes "fetch_transaction ops env svc hash (cb, n) = (Ok (Some tx), cb', n')"
  shows "\<exists>m r. http_get ops (transaction_url svc hash) m = (Some r, n') \<and> reply_status r = 200
           \<and> decode_tx ops (reply_body r) = Some tx"
proof -
  obtain ds where "with_retry (retry_504_config env) (get_transaction ops (transaction_url svc hash)) n
      = (Ok (Some tx), n', ds)"
    using assms by (auto simp: fetch_transaction_def Let_def split: prod.splits if_splits)
  from with_retry_is_call [OF this] obtain m
    where "get_transaction ops (transaction_url svc hash) m = (Ok (Some tx), n')"
    by metis
  from get_transaction_Some [OF this] show ?thesis by blast
qed

lemma fetch_operations_Ok:
  assumes "fetch_operations ops svc hash n = (Ok records, n')"
  shows "\<exists>m r. http_get ops (operations_url svc hash) m = (Some r, n')
           \<and> is_success (reply_status r) \<and> decode_operations ops (reply_body r) = Some records"
proof -
  obtain m where "get_operations ops (operations_url svc hash) m = (Ok records, n')"
    using assms with_retry_is_call
    by (fastforce simp: fetch_operations_def Let_def split: prod.splits)
  then show ?thesis
    by (auto simp: get_operations_def is_success_def Let_def
        split: prod.splits option.splits if_splits intro!: exI [of _ m])
qed

lemma check_operations_Confirmed:
  assumes "check_operations req records = Ok Confirmed"
  shows "\<exists>op \<in> set records. is_payment_to (req_destination req) op
    \<and> xlm_to_stroops (case op_amount op of Some a \<Rightarrow> a | None \<Rightarrow> ''0'')
        = Ok (req_amount_stroops req)"
  using assms find_Some_split
  by (fastforce simp: check_operations_def split: option.splits sum.splits if_splits)

text \<open>The evidence for a tip: at some moment Horizon answered the two requests with a successful
  transaction of the claimed source and memo, and with operations among which is a native payment
  of exactly the claimed stroops to the creator.\<close>

definition on_chain_payment :: "'n horizon_ops \<Rightarrow> stellar_service \<Rightarrow> tip_verify_request \<Rightarrow> bool" where
  "on_chain_payment ops svc req \<longleftrightarrow>
     (\<exists>n1 n2 n3 n4 r1 r2 tx records op.
        http_get ops (transaction_url svc (req_transaction_hash req)) n1 = (Some r1, n2)
      \<and> reply_status r1 = 200 \<and> decode_tx ops (reply_body r1) = Some tx
      \<and> successful tx \<and> source_account tx = req_source_account req \<and> memo_matches req tx
      \<and> http_get ops (operations_url svc (req_transaction_hash req)) n3 = (Some r2, n4)
      \<and> is_success (reply_status r2) \<and> decode_operations ops (reply_body r2) = Some records
      \<and> op \<in> set records \<and> is_payment_to (req_destination req) op
      \<and> xlm_to_stroops (case op_amount op of Some a \<Rightarrow> a | None \<Rightarrow> ''0'')
          = Ok (req_amount_stroops req))"

text \<open>The trait \<open>TipVerifier\<close>: what the verification worker relies on is that a confirmation
  has evidence. \<open>'s\<close> is the state a verifier threads.\<close>

locale tip_verifier =
  fixes verify :: "tip_verify_request \<Rightarrow> 's \<Rightarrow> (app_error + verify_outcome) \<times> 's"
    and evidence :: "tip_verify_request \<Rightarrow> bool"
  assumes confirmed_evidence: "verify req s = (Ok Confirmed, s') \<Longrightarrow> evidence req"

lemma verify_tip_evidence:
  assumes "verify_tip ops env svc req st = (Ok Confirmed, st')"
  shows "on_chain_payment ops svc req"
proof -
  obtain cb n where st: "st = (cb, n)" by (cases st)
  obtain r cb1 n1 where f: "fetch_transaction ops env svc (req_transaction_hash req) (cb, n) = (r, cb1, n1)"
    by (metis prod_cases3)
  from assms f obtain tx where r: "r = Ok (Some tx)"
    by (auto simp: verify_tip_def st split: sum.splits option.splits)
  with assms f have tx: "successful tx" "source_account tx = req_source_account req" "memo_matches req tx"
    by (auto simp: verify_tip_def st split: if_splits)
  obtain ro n2 where fo: "fetch_operations ops svc (req_transaction_hash req) n1 = (ro, n2)"
    by (metis surj_pair)
  from assms f r tx fo obtain records where ro: "ro = Ok records"
    "check_operations req records = Ok Confirmed"
    by (auto simp: verify_tip_def st split: sum.splits)
  show ?thesis
    unfolding on_chain_payment_def
    using fetch_transaction_Some [OF f [unfolded r]] fetch_operations_Ok [OF fo [unfolded ro(1)]]
      check_operations_Confirmed [OF ro(2)] tx by blast
qed

interpretation sv: tip_verifier "verify_tip ops env svc" "on_chain_payment ops svc"
  for ops env svc
  by unfold_locales (rule verify_tip_evidence)

text \<open>\<^bold>\<open>C4.\<close> A confirmed tip was paid: the verifier answers Confirmed only when Horizon served
  a successful transaction of the claimed source account and memo, and operations with a native
  payment of exactly the claimed number of stroops to the creator's address.\<close>

theorem confirmed_tip_was_paid:
  assumes "verify_tip ops env svc req st = (Ok Confirmed, st')"
  shows "on_chain_payment ops svc req"
  by (rule sv.confirmed_evidence [OF assms])

section \<open>Fetching under the circuit breaker\<close>

text \<open>With the breaker open no request leaves the process and nothing changes; with it
  closed or half-open Horizon is asked at most twice, and the breaker records exactly one outcome:
  a success when the call returned a transaction or its absence, else a failure at the time the
  call ended.\<close>

theorem fetch_transaction_breaker:
  "fetch_transaction ops env svc hash (cb, n) =
     (if cb_state cb (now_secs ops n) = Open then (Err (Stellar CircuitBreakerOpen), cb, n)
      else
        let first = get_transaction ops (transaction_url svc hash) n;
            (r, n') = (if is_ok (fst first) then first
                       else get_transaction ops (transaction_url svc hash) (snd first))
        in (r, if is_ok r then record_success cb else record_failure cb (now_secs ops n'), n'))"
proof (cases "cb_state cb (now_secs ops n) = Open")
  case True
  then show ?thesis by (simp add: fetch_transaction_def allow_request_iff)
next
  case False
  have "max_retries (retry_504_config env) = Suc 0"
    by (simp add: retry_504_config_def Let_def)
  with False show ?thesis
    by (auto simp: fetch_transaction_def allow_request_iff with_retry_def Let_def is_ok_def
        split: prod.splits sum.splits)
qed

text \<open>The base fee offered is always between the network's floor and the configured
  ceiling, whatever Horizon answers, and it is the parsed fee itself when that lies in the range.\<close>

theorem base_fee_bounds:
  "fetch_base_fee ops svc n = (fee, n') \<Longrightarrow>
     100 \<le> fee \<and> fee \<le> 10000
     \<and> (\<forall>r stats v. http_get ops (horizon_url svc @ ''/fee_stats'') n = (Some r, n')
          \<and> decode_fee_stats ops (reply_body r) = Some stats
          \<and> fee_stats_value stats = Some v \<and> 100 \<le> v \<and> v \<le> 10000 \<longrightarrow> fee = v)"
  by (auto simp: fetch_base_fee_def clamp_def FEE_FLOOR_STROOPS_def FEE_CEILING_STROOPS_def Let_def
      split: prod.splits option.splits if_splits)

section \<open>Concrete networks\<close>

text \<open>A Horizon that serves one transaction and its operations, with the text of a body standing
  for the value it decodes to. Its state counts the requests.\<close>

definition demo_tx :: horizon_transaction where
  "demo_tx = \<lparr>tx_id = ''t1'', tx_hash = ''h1'', successful = True, source_account = ''GA'',
              memo = Some ''hi'', memo_type = Some ''text''\<rparr>"

definition demo_op :: horizon_operation where
  "demo_op = \<lparr>op_type = ''payment'', op_to = Some ''GB'', op_amount = Some (horizon_amount 25000000),
              asset_type = Some ''native''\<rparr>"

definition demo_ops :: "nat horizon_ops" where
  "demo_ops =
     \<lparr>http_get = (\<lambda>url n.
        (Some \<lparr>reply_status = 200, retry_after_header = None,
               reply_body = (if ends_with url ''/operations'' then ''ops'' else ''tx'')\<rparr>, Suc n)),
      now_secs = (\<lambda>n. 0),
      decode_tx = (\<lambda>b. if b = ''tx'' then Some demo_tx else None),
      decode_operations = (\<lambda>b. if b = ''ops'' then Some [demo_op] else None),
      decode_fee_stats = (\<lambda>b. Some \<lparr>last_ledger_base_fee = Some ''250'', fee_charged = None\<rparr>),
      decode_account = (\<lambda>b. None)\<rparr>"

definition demo_service :: stellar_service where
  "demo_service = fst (stellar_service_new (\<lambda>_. None) ''rpc'' ''testnet'')"

definition demo_request :: tip_verify_request where
  "demo_request = \<lparr>req_transaction_hash = ''h1'', req_amount_stroops = 25000000,
     req_destination = ''GB'', req_expected_memo = Some ''hi'', req_source_account = ''GA''\<rparr>"

lemma demo_verifies:
  "verify_tip demo_ops (\<lambda>_. None) demo_service demo_request (cb_new 5 (from_secs 60), 0) =
     (Ok Confirmed, cb_new 5 (from_secs 60), 2)"
proof -
  have url: "operations_url demo_service ''h1'' = transaction_url demo_service ''h1'' @ ''/operations''"
    "\<not> ends_with (transaction_url demo_service ''h1'') ''/operations''"
    by (simp_all add: operations_url_def transaction_url_def horizon_base_def default_horizon_def
        demo_service_def stellar_service_new_def ends_with_def starts_with_def)
  have ends: "ends_with (u @ ''/operations'') ''/operations''" for u by (auto simp: ends_with_iff)
  have "get_transaction demo_ops (transaction_url demo_service ''h1'') 0 = (Ok (Some demo_tx), 1)"
    using url by (simp add: get_transaction_def demo_ops_def)
  note tx = with_retry_first_ok [of "get_transaction demo_ops (transaction_url demo_service ''h1'')",
      OF this]
  have "get_operations demo_ops (operations_url demo_service ''h1'') (Suc 0) = (Ok [demo_op], 2)"
    using url ends by (simp add: get_operations_def demo_ops_def)
  note ops = with_retry_first_ok [of "get_operations demo_ops (operations_url demo_service ''h1'')",
      OF this]
  have "fetch_transaction demo_ops (\<lambda>_. None) demo_service ''h1'' (cb_new 5 (from_secs 60), 0)
    = (Ok (Some demo_tx), record_success (cb_new 5 (from_secs 60)), 1)"
    by (simp add: fetch_transaction_def tx allow_request_def cb_state_def)
  moreover have "record_success (cb_new 5 (from_secs 60)) = cb_new 5 (from_secs 60)"
    by (simp add: record_success_def cb_new_def)
  moreover have "check_operations demo_request [demo_op] = Ok Confirmed"
    using horizon_amount_text [of 25000000] xlm_to_stroops_text(2) [of "horizon_amount 25000000"]
    by (simp add: check_operations_def demo_request_def demo_op_def is_payment_to_def int_ranges)
  ultimately show ?thesis
    by (simp add: verify_tip_def fetch_operations_def ops demo_request_def demo_tx_def
        memo_matches_def)
qed

theorem confirmed_tip_was_paid_witness: "on_chain_payment demo_ops demo_service demo_request"
  using confirmed_tip_was_paid [OF demo_verifies] .

theorem base_fee_bounds_witness:
  "fetch_base_fee demo_ops demo_service 0 = (250, 1) \<and> 100 \<le> (250 :: nat) \<and> (250 :: nat) \<le> 10000"
proof -
  have "parse_unsigned u64_max ''250'' = Some 250"
    by (simp add: parse_unsigned_def all_digits_def is_ascii_digit_def dec_val_def digit_val_def
        int_ranges)
  then have run: "fetch_base_fee demo_ops demo_service 0 = (250, 1)"
    by (simp add: fetch_base_fee_def demo_ops_def fee_stats_value_def clamp_def
        FEE_FLOOR_STROOPS_def FEE_CEILING_STROOPS_def)
  from base_fee_bounds [OF run] run show ?thesis by simp
qed

end
