(* ===== verification/Tip_Store.thy ===== *)
theory Tip_Store
  imports Stellar_Verify
begin

text \<open>
  Tips and the operations that change them: the status machine (\<open>src/models/tip.rs\<close>), the
  handlers that record, confirm, reject and read tips (\<open>src/controllers/tip_controller.rs\<close>), the
  verification queue (\<open>src/queue/mod.rs\<close>), its worker (\<open>src/queue/worker.rs\<close>) and the
  reconciliation pass (\<open>src/jobs/reconciliation.rs\<close>).

  The tables are part of the state: \<open>tips\<close> has its primary key, its unique transaction hash and
  its foreign key on \<open>creators\<close>, and every SQL statement is a function on them. \<open>db k\<close> says
  whether the \<open>k\<close>-th statement of an operation fails in the database, and how. Decoding a
  returned row into a \<open>Tip\<close> is the code \<open>sqlx\<close> derives, a parameter: it gets the columns the
  statement returns, and the row.
\<close>

section \<open>Status\<close>

datatype tip_status = PendingVerification | TipConfirmed | TipRejected

fun tip_status_as_str :: "tip_status \<Rightarrow> string" where
  "tip_status_as_str PendingVerification = ''pending_verification''"
| "tip_status_as_str TipConfirmed = ''confirmed''"
| "tip_status_as_str TipRejected = ''rejected''"

definition tip_status_from_str :: "string \<Rightarrow> string + tip_status" where
  "tip_status_from_str s =
     (if s = ''pending_verification'' then Ok PendingVerification
      else if s = ''confirmed'' then Ok TipConfirmed
      else if s = ''rejected'' then Ok TipRejected
      else Err (''unknown tip status: '' @ s))"

section \<open>Rows and entities\<close>

type_synonym uuid = string

record tip_row =
  row_id :: uuid
  row_creator :: string
  row_amount :: string
  row_hash :: string
  row_created_at :: int
  row_status :: tip_status
  row_source :: "string option"
  row_message :: "string option"
  row_visibility :: string

record tip =
  tip_id :: uuid
  tip_creator_username :: string
  tip_amount :: string
  tip_transaction_hash :: string
  tip_message :: "string option"
  tip_message_visibility :: "string option"
  tip_created_at :: int
  tip_status_of :: "tip_status option"
  tip_source_account :: "string option"

definition effective_status :: "tip \<Rightarrow> tip_status" where
  "effective_status t = (case tip_status_of t of Some s \<Rightarrow> s | None \<Rightarrow> TipConfirmed)"

definition is_confirmed :: "tip \<Rightarrow> bool" where
  "is_confirmed t \<longleftrightarrow> effective_status t = TipConfirmed"

text \<open>The request, after extraction and validation.\<close>

record record_tip_request =
  rq_username :: string
  rq_amount :: string
  rq_transaction_hash :: string
  rq_message :: "string option"
  rq_memo :: "string option"
  rq_source_account :: string

record verification_job =
  job_tip_id :: uuid
  job_transaction_hash :: string
  job_amount_stroops :: int
  job_destination :: string
  job_expected_memo :: "string option"
  job_source_account :: string
  job_attempt :: nat

text \<open>What the handlers make visible outside the tables and the cache: webhook events and broadcast
  events (creator, tipper, amount, time).\<close>

datatype effect =
    Webhook string tip
  | Broadcast string string nat int

record app_state =
  tips :: "tip_row list"
  creators :: "string \<rightharpoonup> string"
  tip_logs :: "(uuid \<times> string \<times> string) list"
  jobs :: "verification_job list"
  queue_open :: bool
  redis_connected :: bool
  cache :: "string \<rightharpoonup> tip list"
  effects :: "effect list"

type_synonym db = "nat \<Rightarrow> sqlx_error option"
type_synonym row_decoder = "string list \<Rightarrow> tip_row \<Rightarrow> sqlx_error + tip"

definition emit :: "effect \<Rightarrow> app_state \<Rightarrow> app_state" where
  "emit e s = s\<lparr>effects := effects s @ [e]\<rparr>"

section \<open>The verification queue\<close>

definition CHANNEL_CAPACITY :: nat where "CHANNEL_CAPACITY = 1024"

text \<open>\<open>sender.send(job).await\<close> waits for a free slot; once it completes, the job is in the
  channel, unless the receiver was dropped.\<close>

definition enqueue :: "verification_job \<Rightarrow> app_state \<Rightarrow> (string + unit) \<times> app_state" where
  "enqueue job s =
     (if queue_open s then (Ok (), s\<lparr>jobs := jobs s @ [job]\<rparr>)
      else (Err ''Verification queue full or closed: channel closed'', s))"

definition try_enqueue :: "verification_job \<Rightarrow> app_state \<Rightarrow> (string + unit) \<times> app_state" where
  "try_enqueue job s =
     (if \<not> queue_open s then (Err ''Verification queue try_send failed: channel closed'', s)
      else if length (jobs s) < CHANNEL_CAPACITY then (Ok (), s\<lparr>jobs := jobs s @ [job]\<rparr>)
      else (Err ''Verification queue try_send failed: no available capacity'', s))"

section \<open>Statements on the tables\<close>

definition tip_columns :: "string list" where
  "tip_columns = [''id'', ''creator_username'', ''amount'', ''transaction_hash'', ''created_at'',
                  ''status'', ''tipper_source_account'']"

text \<open>\<open>INSERT INTO tips \<dots> ON CONFLICT (transaction_hash) DO NOTHING RETURNING \<dots>\<close>: no row when
  the hash is taken; an error when another constraint fails.\<close>

definition insert_tip ::
  "sqlx_error option \<Rightarrow> tip_row \<Rightarrow> app_state \<Rightarrow> (sqlx_error + tip_row option) \<times> app_state" where
  "insert_tip fault r s =
     (case fault of
        Some e \<Rightarrow> (Err e, s)
      | None \<Rightarrow>
          if row_hash r \<in> row_hash ` set (tips s) then (Ok None, s)
          else if row_id r \<in> row_id ` set (tips s) then
            (Err (SqlxDatabase (Some ''23505'') (Some ''tips_pkey'')), s)
          else if creators s (row_creator r) = None then
            (Err (SqlxDatabase (Some ''23503'') (Some ''tips_creator_username_fkey'')), s)
          else (Ok (Some r), s\<lparr>tips := tips s @ [r]\<rparr>))"

text \<open>\<open>UPDATE tips SET status = \<dots> WHERE id = $1 AND status = 'pending_verification' RETURNING
  \<dots>\<close>.\<close>

definition is_pending :: "uuid \<Rightarrow> tip_row \<Rightarrow> bool" where
  "is_pending i r \<longleftrightarrow> row_id r = i \<and> row_status r = PendingVerification"

definition update_pending ::
  "sqlx_error option \<Rightarrow> uuid \<Rightarrow> tip_status \<Rightarrow> app_state
     \<Rightarrow> (sqlx_error + tip_row option) \<times> app_state" where
  "update_pending fault i st s =
     (case fault of
        Some e \<Rightarrow> (Err e, s)
      | None \<Rightarrow>
          (case List.find (is_pending i) (tips s) of
             None \<Rightarrow> (Ok None, s)
           | Some r \<Rightarrow>
               (Ok (Some (r\<lparr>row_status := st\<rparr>)),
                s\<lparr>tips := map (\<lambda>r. if is_pending i r then r\<lparr>row_status := st\<rparr> else r)
                            (tips s)\<rparr>)))"

text \<open>\<open>fetch_optional\<close> of \<open>query_as\<close>: the row, if there is one, through the decoder.\<close>

definition decode_opt ::
  "row_decoder \<Rightarrow> (sqlx_error + tip_row option) \<Rightarrow> app_error + tip option" where
  "decode_opt from_row r =
     (case r of
        Inl e \<Rightarrow> Err (app_error_from_sqlx e)
      | Inr None \<Rightarrow> Ok None
      | Inr (Some row) \<Rightarrow>
          (case from_row tip_columns row of
             Inl e \<Rightarrow> Err (app_error_from_sqlx e)
           | Inr t \<Rightarrow> Ok (Some t)))"

text \<open>\<open>let _ = INSERT INTO tip_logs \<dots>\<close>: a failure is ignored.\<close>

definition log_tip :: "sqlx_error option \<Rightarrow> tip \<Rightarrow> string \<Rightarrow> app_state \<Rightarrow> app_state" where
  "log_tip fault t action s =
     (case fault of
        Some e \<Rightarrow> s
      | None \<Rightarrow> s\<lparr>tip_logs := tip_logs s @ [(tip_id t, tip_creator_username t, action)]\<rparr>)"

definition creator_tips_pattern :: "string \<Rightarrow> string" where
  "creator_tips_pattern username = ''creator:'' @ username @ '':tips:*''"

text \<open>\<open>redis_client::del\<close> on one key: \<open>DEL\<close> removes that very key.\<close>

definition invalidate_tips :: "tip \<Rightarrow> app_state \<Rightarrow> app_state" where
  "invalidate_tips t s =
     (if redis_connected s
      then s\<lparr>cache := (cache s)(creator_tips_pattern (tip_creator_username t) := None)\<rparr> else s)"

section \<open>Recording a tip\<close>

text \<open>The row the insert stores: the columns the statement does not name take the table's defaults
  (a null \<open>message\<close>, the visibility \<open>public\<close>).\<close>

definition new_row :: "uuid \<Rightarrow> int \<Rightarrow> record_tip_request \<Rightarrow> tip_row" where
  "new_row i now req =
     \<lparr>row_id = i, row_creator = rq_username req, row_amount = rq_amount req,
      row_hash = rq_transaction_hash req, row_created_at = now,
      row_status = PendingVerification, row_source = Some (rq_source_account req),
      row_message = None, row_visibility = ''public''\<rparr>"

definition job_of_request :: "tip \<Rightarrow> record_tip_request \<Rightarrow> int \<Rightarrow> string \<Rightarrow> verification_job" where
  "job_of_request t req stroops destination =
     \<lparr>job_tip_id = tip_id t, job_transaction_hash = rq_transaction_hash req,
      job_amount_stroops = stroops, job_destination = destination,
      job_expected_memo = rq_memo req, job_source_account = rq_source_account req,
      job_attempt = 0\<rparr>"

text \<open>The statement \<open>SELECT wallet_address FROM creators WHERE username = $1\<close>.\<close>

definition fetch_wallet ::
  "sqlx_error option \<Rightarrow> string \<Rightarrow> app_state \<Rightarrow> sqlx_error + string option" where
  "fetch_wallet fault username s = (case fault of Some e \<Rightarrow> Err e | None \<Rightarrow> Ok (creators s username))"

text \<open>The part of the handler after the row is stored: the audit log, the amount, the creator's
  wallet, the job, the broadcast and the cache. \<open>violates\<close> is the moderation verdict on a
  message.\<close>

definition after_insert ::
  "db \<Rightarrow> record_tip_request \<Rightarrow> tip \<Rightarrow> app_state \<Rightarrow> (app_error + tip) \<times> app_state" where
  "after_insert db req t s0 =
     (let s1 = log_tip (db 1) t ''submitted'' s0 in
      case xlm_to_stroops_str (rq_amount req) of
        Inl e \<Rightarrow> (Err (Validation (InvalidRequest (''Invalid tip amount: '' @ e))), s1)
      | Inr stroops \<Rightarrow>
          (case fetch_wallet (db 2) (rq_username req) s1 of
             Inl e \<Rightarrow> (Err (app_error_from_sqlx e), s1)
           | Inr None \<Rightarrow> (Err (CreatorNotFound (rq_username req)), s1)
           | Inr (Some destination) \<Rightarrow>
               (let s2 = snd (enqueue (job_of_request t req stroops destination) s1);
                    amount = (case parse_unsigned u64_max (tip_amount t) of Some n \<Rightarrow> n | None \<Rightarrow> 0);
                    s3 = emit (Broadcast (tip_creator_username t) (rq_source_account req)
                                 amount (tip_created_at t)) s2
                in (Ok t, invalidate_tips t s3))))"

definition record_tip ::
  "row_decoder \<Rightarrow> (string \<Rightarrow> bool) \<Rightarrow> db \<Rightarrow> uuid \<Rightarrow> int \<Rightarrow> record_tip_request \<Rightarrow> app_state
     \<Rightarrow> (app_error + tip) \<times> app_state" where
  "record_tip from_row violates db i now req s =
     (if (case rq_message req of Some m \<Rightarrow> trim m \<noteq> [] \<and> violates m | None \<Rightarrow> False) then
        (Err (Validation (InvalidRequest ''Tip message was rejected by content moderation'')), s)
      else
        (let (inserted, s0) = insert_tip (db 0) (new_row i now req) s in
         case decode_opt from_row inserted of
           Inl e \<Rightarrow> (Err e, s0)
         | Inr None \<Rightarrow>
             (Err (Conflict ''DUPLICATE_TX_HASH''
                     (''A tip with transaction hash '' @ quoted (rq_transaction_hash req)
                      @ '' has already been submitted'')), s0)
         | Inr (Some t) \<Rightarrow> after_insert db req t s0))"

section \<open>Settling a tip\<close>

text \<open>\<open>to_value\<close> is the serialisation of the webhook payload by \<open>serde_json\<close>; \<open>None\<close> is its
  error.\<close>

definition confirm_tip ::
  "row_decoder \<Rightarrow> (tip \<Rightarrow> json option) \<Rightarrow> db \<Rightarrow> uuid \<Rightarrow> app_state \<Rightarrow> (app_error + unit) \<times> app_state"
where
  "confirm_tip from_row to_value db i s =
     (let (updated, s0) = update_pending (db 0) i TipConfirmed s in
      case decode_opt from_row updated of
        Inl e \<Rightarrow> (Err e, s0)
      | Inr None \<Rightarrow> (Err (Database (NotFound ''tip'' i)), s0)
      | Inr (Some t) \<Rightarrow>
          (let s2 = invalidate_tips t (log_tip (db 1) t ''confirmed'' s0) in
           case to_value t of
             None \<Rightarrow> (Err Internal, s2)
           | Some payload \<Rightarrow> (Ok (), emit (Webhook ''tip.confirmed'' t) s2)))"

definition reject_tip ::
  "row_decoder \<Rightarrow> db \<Rightarrow> uuid \<Rightarrow> string \<Rightarrow> app_state \<Rightarrow> (app_error + unit) \<times> app_state" where
  "reject_tip from_row db i reason s =
     (let (updated, s0) = update_pending (db 0) i TipRejected s in
      case decode_opt from_row updated of
        Inl e \<Rightarrow> (Err e, s0)
      | Inr None \<Rightarrow> (Err (Database (NotFound ''tip'' i)), s0)
      | Inr (Some t) \<Rightarrow>
          (Ok (), invalidate_tips t (log_tip (db 1) t (''rejected: '' @ reason) s0)))"

section \<open>Reading tips\<close>

fun decode_all :: "row_decoder \<Rightarrow> tip_row list \<Rightarrow> sqlx_error + tip list" where
  "decode_all from_row [] = Ok []"
| "decode_all from_row (r # rs) =
     (case from_row tip_columns r of
        Inl e \<Rightarrow> Err e
      | Inr t \<Rightarrow> (case decode_all from_row rs of Inl e \<Rightarrow> Err e | Inr ts \<Rightarrow> Ok (t # ts)))"

definition get_tips_for_creator ::
  "row_decoder \<Rightarrow> db \<Rightarrow> string \<Rightarrow> app_state \<Rightarrow> (app_error + tip list) \<times> app_state" where
  "get_tips_for_creator from_row db username s =
     (let rows = rev (sort_key row_created_at
                   (filter (\<lambda>r. row_creator r = username \<and> row_status r = TipConfirmed) (tips s)));
          result = (case db 0 of Some e \<Rightarrow> Err e | None \<Rightarrow> decode_all from_row rows)
      in case result of
           Inl e \<Rightarrow> (Err (app_error_from_sqlx e), s)
         | Inr ts \<Rightarrow>
             (Ok ts,
              if redis_connected s
              then s\<lparr>cache := (cache s)(''creator:'' @ username @ '':tips:all'' \<mapsto> ts)\<rparr> else s))"

section \<open>Recording in bulk\<close>

definition record_tip_in_tx ::
  "row_decoder \<Rightarrow> sqlx_error option \<Rightarrow> uuid \<Rightarrow> int \<Rightarrow> record_tip_request \<Rightarrow> app_state
     \<Rightarrow> (app_error + tip) \<times> app_state" where
  "record_tip_in_tx from_row fault i now req s =
     (let (inserted, s0) = insert_tip fault (new_row i now req) s in
      case decode_opt from_row inserted of
        Inl e \<Rightarrow> (Err e, s0)
      | Inr None \<Rightarrow>
          (Err (Conflict ''DUPLICATE_TX_HASH''
                  (''Duplicate transaction hash: '' @ rq_transaction_hash req)), s0)
      | Inr (Some t) \<Rightarrow> (Ok t, s0))"

text \<open>The loop of \<open>bulk_record_tips\<close> inside its transaction: the savepoint of request \<open>k\<close>
  fails when \<open>db (3 * k)\<close> does, its insert with \<open>db (3 * k + 1)\<close>, and the release or the rollback
  of the savepoint with \<open>db (3 * k + 2)\<close>. A failed request is undone to the state at its
  savepoint. \<open>None\<close> is the early return, which drops the transaction.\<close>

fun bulk_loop ::
  "row_decoder \<Rightarrow> db \<Rightarrow> int \<Rightarrow> nat \<Rightarrow> (uuid \<times> record_tip_request) list \<Rightarrow> app_state
     \<Rightarrow> (tip list \<times> app_state) option" where
  "bulk_loop from_row db now k [] s = Some ([], s)"
| "bulk_loop from_row db now k ((i, req) # reqs) s =
     (if db (3 * k) \<noteq> None then None
      else
        (case record_tip_in_tx from_row (db (3 * k + 1)) i now req s of
           (Inr t, s1) \<Rightarrow>
             if db (3 * k + 2) \<noteq> None then None
             else map_option (\<lambda>(ts, s'). (t # ts, s')) (bulk_loop from_row db now (Suc k) reqs s1)
         | (Inl e, s1) \<Rightarrow>
             if db (3 * k + 2) \<noteq> None then None
             else bulk_loop from_row db now (Suc k) reqs s))"

definition bulk_record_tips ::
  "row_decoder \<Rightarrow> sqlx_error option \<Rightarrow> db \<Rightarrow> sqlx_error option \<Rightarrow> int
     \<Rightarrow> (uuid \<times> record_tip_request) list \<Rightarrow> app_state \<Rightarrow> (app_error + tip list) \<times> app_state" where
  "bulk_record_tips from_row begin_fault db commit_fault now reqs s =
     (if begin_fault \<noteq> None then (Err Internal, s)
      else
        (case bulk_loop from_row db now 0 reqs s of
           None \<Rightarrow> (Err Internal, s)
         | Some (ts, s') \<Rightarrow>
             (case commit_fault of
                Some e \<Rightarrow> (Err (app_error_from_sqlx e), s)
              | None \<Rightarrow> (Ok ts, s'))))"

section \<open>The worker\<close>

definition MAX_ATTEMPTS :: nat where "MAX_ATTEMPTS = 5"

definition request_of_job :: "verification_job \<Rightarrow> tip_verify_request" where
  "request_of_job job =
     \<lparr>req_transaction_hash = job_transaction_hash job, req_amount_stroops = job_amount_stroops job,
      req_destination = job_destination job, req_expected_memo = job_expected_memo job,
      req_source_account = job_source_account job\<rparr>"

definition worker_backoff :: "nat \<Rightarrow> duration" where
  "worker_backoff attempt = from_secs (min (sat_pow u64_max 2 (attempt + 1)) 64)"

text \<open>What follows the verifier's answer.\<close>

definition settle ::
  "row_decoder \<Rightarrow> (tip \<Rightarrow> json option) \<Rightarrow> db \<Rightarrow> verification_job
     \<Rightarrow> app_error + verify_outcome \<Rightarrow> app_state \<Rightarrow> app_state" where
  "settle from_row to_value db job answer s =
     (case answer of
        Inr Confirmed \<Rightarrow> snd (confirm_tip from_row to_value db (job_tip_id job) s)
      | Inr (Rejected reason) \<Rightarrow> snd (reject_tip from_row db (job_tip_id job) reason s)
      | Inl e \<Rightarrow> snd (enqueue (job\<lparr>job_attempt := job_attempt job + 1\<rparr>) s))"

text \<open>A job run to its end, with the verifier's state \<open>'v\<close> and the backoff it slept.\<close>

definition process_job ::
  "(tip_verify_request \<Rightarrow> 'v \<Rightarrow> (app_error + verify_outcome) \<times> 'v) \<Rightarrow> row_decoder
     \<Rightarrow> (tip \<Rightarrow> json option) \<Rightarrow> db \<Rightarrow> verification_job \<Rightarrow> 'v \<times> app_state
     \<Rightarrow> ('v \<times> app_state) \<times> duration list" where
  "process_job verify from_row to_value db job st =
     (let (v, s) = st in
      if MAX_ATTEMPTS \<le> job_attempt job then ((v, s), [])
      else
        (let (answer, v') = verify (request_of_job job) v in
         ((v', settle from_row to_value db job answer s),
          if is_ok answer then [] else [worker_backoff (job_attempt job)])))"

section \<open>Reconciliation\<close>

definition STUCK_AFTER :: int where "STUCK_AFTER = 5 * 60"

definition fetch_stuck_tips :: "sqlx_error option \<Rightarrow> int \<Rightarrow> app_state \<Rightarrow> sqlx_error + tip_row list" where
  "fetch_stuck_tips fault now s =
     (case fault of
        Some e \<Rightarrow> Err e
      | None \<Rightarrow>
          Ok (take 100 (sort_key row_created_at
                (filter (\<lambda>r. row_status r = PendingVerification
                            \<and> row_created_at r < now - STUCK_AFTER) (tips s)))))"

definition job_of_row :: "tip_row \<Rightarrow> int \<Rightarrow> string \<Rightarrow> verification_job" where
  "job_of_row r stroops destination =
     \<lparr>job_tip_id = row_id r, job_transaction_hash = row_hash r, job_amount_stroops = stroops,
      job_destination = destination, job_expected_memo = None,
      job_source_account = (case row_source r of Some a \<Rightarrow> a | None \<Rightarrow> []), job_attempt = 0\<rparr>"

text \<open>The loop over the stuck tips; \<open>db (Suc k)\<close> is the wallet lookup of the \<open>k\<close>-th.\<close>

fun redrive :: "db \<Rightarrow> nat \<Rightarrow> tip_row list \<Rightarrow> app_state \<Rightarrow> nat \<times> app_state" where
  "redrive db k [] s = (0, s)"
| "redrive db k (r # rs) s =
     (case xlm_to_stroops_str (row_amount r) of
        Inl e \<Rightarrow> redrive db (Suc k) rs s
      | Inr stroops \<Rightarrow>
          (case fetch_wallet (db (Suc k)) (row_creator r) s of
             Inr (Some destination) \<Rightarrow>
               (let (sent, s') = enqueue (job_of_row r stroops destination) s;
                    (n, s'') = redrive db (Suc k) rs s'
                in (if is_ok sent then Suc n else n, s''))
           | Inr None \<Rightarrow> redrive db (Suc k) rs s
           | Inl e \<Rightarrow> redrive db (Suc k) rs s))"

definition reconcile_once :: "db \<Rightarrow> int \<Rightarrow> app_state \<Rightarrow> nat \<times> app_state" where
  "reconcile_once db now s =
     (case fetch_stuck_tips (db 0) now s of
        Inl e \<Rightarrow> (0, s)
      | Inr stuck \<Rightarrow> if stuck = [] then (0, s) else redrive db 0 stuck s)"

end
