(* ===== verification/Tip_Pipeline.thy ===== *)
theory Tip_Pipeline
  imports Tip_Store
begin

text \<open>
  The life of a tip across the handlers, the queue, the worker and the reconciliation pass. The
  tasks interleave: a job is taken from the queue, verified and settled in separate steps, between
  which any other task may run, and the process may crash and lose its queue. The step relation
  is over the application state, the verifier's state and the jobs in progress with the answer
  they got.

  The locale \<open>row_decoding\<close> is what the handlers rely on of the code \<open>sqlx\<close> derives; the locale
  \<open>pipeline\<close> adds the trait \<open>TipVerifier\<close> and carries the invariant of the reachable states.
\<close>

section \<open>The steps\<close>

type_synonym running = "(verification_job \<times> (app_error + verify_outcome) option) list"

type_synonym 'v config = "app_state \<times> 'v \<times> running"

type_synonym 'v verifier = "tip_verify_request \<Rightarrow> 'v \<Rightarrow> (app_error + verify_outcome) \<times> 'v"

inductive pipeline_step ::
  "'v verifier \<Rightarrow> row_decoder \<Rightarrow> (tip \<Rightarrow> json option) \<Rightarrow> 'v config \<Rightarrow> 'v config \<Rightarrow> bool"
  for verify from_row to_value where
  submit: "record_tip from_row violates db i now req s = (r, s') \<Longrightarrow>
    pipeline_step verify from_row to_value (s, v, run) (s', v, run)"
| bulk: "bulk_record_tips from_row bf db cf now reqs s = (r, s') \<Longrightarrow>
    pipeline_step verify from_row to_value (s, v, run) (s', v, run)"
| read: "get_tips_for_creator from_row db username s = (r, s') \<Longrightarrow>
    pipeline_step verify from_row to_value (s, v, run) (s', v, run)"
| receive: "jobs s = job # rest \<Longrightarrow>
    pipeline_step verify from_row to_value (s, v, run)
      (s\<lparr>jobs := rest\<rparr>, v, if MAX_ATTEMPTS \<le> job_attempt job then run else run @ [(job, None)])"
| answer: "verify (request_of_job job) v = (ans, v') \<Longrightarrow>
    pipeline_step verify from_row to_value (s, v, a @ (job, None) # b) (s, v', a @ (job, Some ans) # b)"
| finish: "pipeline_step verify from_row to_value (s, v, a @ (job, Some ans) # b)
      (settle from_row to_value db job ans s, v, a @ b)"
| reconcile: "reconcile_once db now s = (n, s') \<Longrightarrow>
    pipeline_step verify from_row to_value (s, v, run) (s', v, run)"
| crash: "pipeline_step verify from_row to_value (s, v, run) (s\<lparr>jobs := []\<rparr>, v, [])"
| shutdown: "pipeline_step verify from_row to_value (s, v, run) (s\<lparr>queue_open := False\<rparr>, v, run)"

inductive_cases pipeline_stepE: "pipeline_step verify from_row to_value c c'"

definition pipeline_reachable ::
  "'v verifier \<Rightarrow> row_decoder \<Rightarrow> (tip \<Rightarrow> json option) \<Rightarrow> 'v config \<Rightarrow> 'v config \<Rightarrow> bool" where
  "pipeline_reachable verify from_row to_value = (pipeline_step verify from_row to_value)\<^sup>*\<^sup>*"

section \<open>What a tip and a job claim\<close>

definition source_of_row :: "tip_row \<Rightarrow> string" where
  "source_of_row r = (case row_source r of Some a \<Rightarrow> a | None \<Rightarrow> [])"

text \<open>The payment a row claims, in the terms of the verifier.\<close>

definition claims_payment :: "app_state \<Rightarrow> tip_row \<Rightarrow> tip_verify_request \<Rightarrow> bool" where
  "claims_payment s r req \<longleftrightarrow>
     req_transaction_hash req = row_hash r
   \<and> xlm_to_stroops_str (row_amount r) = Ok (req_amount_stroops req)
   \<and> creators s (row_creator r) = Some (req_destination req)
   \<and> req_source_account req = source_of_row r"

definition job_ok :: "app_state \<Rightarrow> verification_job \<Rightarrow> bool" where
  "job_ok s job \<longleftrightarrow>
     (\<exists>r \<in> set (tips s). row_id r = job_tip_id job \<and> claims_payment s r (request_of_job job))"

definition webhook_tips :: "effect list \<Rightarrow> uuid list" where
  "webhook_tips es = concat (map (\<lambda>e. case e of Webhook n t \<Rightarrow> [tip_id t] | _ \<Rightarrow> []) es)"

definition status_of :: "app_state \<Rightarrow> uuid \<Rightarrow> tip_status option" where
  "status_of s i = map_option row_status (List.find (\<lambda>r. row_id r = i) (tips s))"

definition confirmed_ids :: "app_state \<Rightarrow> uuid set" where
  "confirmed_ids s = {row_id r | r. r \<in> set (tips s) \<and> row_status r = TipConfirmed}"

section \<open>Rows only move forward\<close>

text \<open>Every operation keeps all rows and changes at most the status of pending ones.\<close>

definition moves :: "tip_row \<Rightarrow> tip_row \<Rightarrow> bool" where
  "moves r r' \<longleftrightarrow> (\<exists>st. r' = r\<lparr>row_status := st\<rparr>
     \<and> (st = row_status r \<or> row_status r = PendingVerification))"

definition extends :: "app_state \<Rightarrow> app_state \<Rightarrow> bool" where
  "extends s s' \<longleftrightarrow> creators s' = creators s
     \<and> (\<forall>r \<in> set (tips s). \<exists>r' \<in> set (tips s'). moves r r')"

lemma moves_refl [simp]: "moves r r"
  unfolding moves_def by (rule exI [of _ "row_status r"]) simp

lemma moves_trans: "moves r r' \<Longrightarrow> moves r' r'' \<Longrightarrow> moves r r''"
  unfolding moves_def by (elim exE) (auto intro: exI [of _ "row_status r''"])

lemma moves_simps:
  assumes "moves r r'"
  shows "row_id r' = row_id r" "row_hash r' = row_hash r" "row_amount r' = row_amount r"
    "row_creator r' = row_creator r" "source_of_row r' = source_of_row r"
    "row_status r \<noteq> PendingVerification \<Longrightarrow> r' = r"
  using assms by (auto simp: moves_def source_of_row_def)

lemma extends_refl [simp]: "tips s' = tips s \<Longrightarrow> creators s' = creators s \<Longrightarrow> extends s s'"
  unfolding extends_def by (metis moves_refl)

lemma extends_trans [trans]: "extends s s' \<Longrightarrow> extends s' s'' \<Longrightarrow> extends s s''"
  unfolding extends_def by (metis moves_trans)

lemma claims_payment_moves:
  "extends s s' \<Longrightarrow> moves r r' \<Longrightarrow> claims_payment s r req \<Longrightarrow> claims_payment s' r' req"
  by (simp add: claims_payment_def extends_def moves_simps)

lemma job_ok_extends: "extends s s' \<Longrightarrow> job_ok s job \<Longrightarrow> job_ok s' job"
  unfolding job_ok_def by (metis claims_payment_moves extends_def moves_simps(1))

section \<open>What the statements and the bookkeeping keep\<close>

text \<open>The log, the cache, the queue and the broadcasts do not touch the tables or the webhooks.\<close>

definition same_tables :: "app_state \<Rightarrow> app_state \<Rightarrow> bool" where
  "same_tables s s' \<longleftrightarrow> tips s' = tips s \<and> creators s' = creators s
     \<and> webhook_tips (effects s') = webhook_tips (effects s)"

lemma webhook_tips_append [simp]: "webhook_tips (es @ es') = webhook_tips es @ webhook_tips es'"
  by (simp add: webhook_tips_def)

lemma webhook_tips_simps [simp]:
  "webhook_tips [] = []" "webhook_tips [Broadcast a b n u] = []" "webhook_tips [Webhook e t] = [tip_id t]"
  by (simp_all add: webhook_tips_def)

lemma same_tables_simps [simp]:
  "same_tables s s"
  "same_tables s (log_tip f t a s') \<longleftrightarrow> same_tables s s'"
  "same_tables s (invalidate_tips t s') \<longleftrightarrow> same_tables s s'"
  "same_tables s (emit (Broadcast a b n u) s') \<longleftrightarrow> same_tables s s'"
  "same_tables s (snd (enqueue job s')) \<longleftrightarrow> same_tables s s'"
  "same_tables s (s'\<lparr>jobs := js\<rparr>) \<longleftrightarrow> same_tables s s'"
  "same_tables s (s'\<lparr>queue_open := op\<rparr>) \<longleftrightarrow> same_tables s s'"
  "same_tables s (s'\<lparr>cache := c\<rparr>) \<longleftrightarrow> same_tables s s'"
  by (auto simp: same_tables_def log_tip_def invalidate_tips_def emit_def enqueue_def
      split: option.split)

lemma jobs_simps [simp]:
  "jobs (log_tip f t a s) = jobs s" "jobs (invalidate_tips t s) = jobs s" "jobs (emit e s) = jobs s"
  by (auto simp: log_tip_def invalidate_tips_def emit_def split: option.split)

lemma set_jobs_enqueue: "set (jobs (snd (enqueue job s))) \<subseteq> insert job (set (jobs s))"
  by (auto simp: enqueue_def)

lemma insert_tip_cases:
  assumes "insert_tip f r s = (res, s')"
  obtains (kept) "s' = s" "\<forall>row. res \<noteq> Ok (Some row)"
  | (stored) "res = Ok (Some r)" "s' = s\<lparr>tips := tips s @ [r]\<rparr>"
      "row_hash r \<notin> row_hash ` set (tips s)" "row_id r \<notin> row_id ` set (tips s)"
      "creators s (row_creator r) \<noteq> None"
  using assms by (auto simp: insert_tip_def split: option.splits if_splits)

definition set_status :: "uuid \<Rightarrow> tip_status \<Rightarrow> tip_row \<Rightarrow> tip_row" where
  "set_status i st r = (if is_pending i r then r\<lparr>row_status := st\<rparr> else r)"

lemma set_status_simps [simp]:
  "row_id (set_status i st r) = row_id r" "row_hash (set_status i st r) = row_hash r"
  by (simp_all add: set_status_def)

lemma update_pending_cases:
  assumes "update_pending f i st s = (res, s')"
  obtains (kept) "s' = s" "\<forall>row. res \<noteq> Ok (Some row)"
  | (changed) r where "r \<in> set (tips s)" "is_pending i r" "res = Ok (Some (r\<lparr>row_status := st\<rparr>))"
      "s' = s\<lparr>tips := map (set_status i st) (tips s)\<rparr>"
  using assms find_Some_split
  by (fastforce simp: update_pending_def set_status_def [abs_def] split: option.splits)

lemma set_status_extends: "extends s (s\<lparr>tips := map (set_status i st) (tips s)\<rparr>)"
proof -
  have "moves r (set_status i st r)" for r
    by (auto simp: moves_def set_status_def is_pending_def intro: exI [of _ "row_status r"])
  then show ?thesis by (fastforce simp: extends_def)
qed

lemma append_extends: "extends s (s\<lparr>tips := tips s @ [r]\<rparr>)"
  unfolding extends_def using moves_refl by fastforce

lemma same_tables_extends: "same_tables s s' \<Longrightarrow> extends s s'"
  by (simp add: same_tables_def)

section \<open>The invariant of the tables, the queue and the webhooks\<close>

text \<open>\<open>evidence\<close> is what a confirmation rests on.\<close>

definition paid :: "(tip_verify_request \<Rightarrow> bool) \<Rightarrow> app_state \<Rightarrow> tip_row \<Rightarrow> bool" where
  "paid evidence s r \<longleftrightarrow> (\<exists>req. claims_payment s r req \<and> evidence req)"

definition state_inv :: "(tip_verify_request \<Rightarrow> bool) \<Rightarrow> app_state \<Rightarrow> bool" where
  "state_inv evidence s \<longleftrightarrow>
     distinct (map row_id (tips s)) \<and> distinct (map row_hash (tips s))
   \<and> (\<forall>job \<in> set (jobs s). job_ok s job)
   \<and> (\<forall>r \<in> set (tips s). row_status r = TipConfirmed \<longrightarrow> paid evidence s r)
   \<and> distinct (webhook_tips (effects s)) \<and> set (webhook_tips (effects s)) \<subseteq> confirmed_ids s"

definition run_inv :: "(tip_verify_request \<Rightarrow> bool) \<Rightarrow> app_state \<Rightarrow> running \<Rightarrow> bool" where
  "run_inv evidence s run \<longleftrightarrow>
     (\<forall>(job, ans) \<in> set run. job_ok s job
        \<and> (ans = Some (Ok Confirmed) \<longrightarrow> evidence (request_of_job job)))"

lemma run_inv_extends: "extends s s' \<Longrightarrow> run_inv evidence s run \<Longrightarrow> run_inv evidence s' run"
  using job_ok_extends by (fastforce simp: run_inv_def)

lemma paid_moves: "extends s s' \<Longrightarrow> moves r r' \<Longrightarrow> paid evidence s r \<Longrightarrow> paid evidence s' r'"
  unfolding paid_def using claims_payment_moves by blast

lemma state_inv_frame:
  assumes "state_inv evidence s" "same_tables s s'"
    "\<And>job. job \<in> set (jobs s') \<Longrightarrow> job \<in> set (jobs s) \<or> job_ok s job"
  shows "state_inv evidence s'"
proof -
  have ext: "extends s s'" using assms(2) by (rule same_tables_extends)
  have "job_ok s' job" if "job \<in> set (jobs s')" for job
    using assms(1,3) that job_ok_extends [OF ext] unfolding state_inv_def by blast
  moreover have "paid evidence s' r" if "r \<in> set (tips s')" "row_status r = TipConfirmed" for r
    using assms(1,2) that paid_moves [OF ext moves_refl]
    unfolding state_inv_def same_tables_def by metis
  ultimately show ?thesis
    using assms(1,2) by (auto simp: state_inv_def same_tables_def confirmed_ids_def)
qed

lemma state_inv_insert:
  assumes "state_inv evidence s" "row_status r = PendingVerification"
    "row_hash r \<notin> row_hash ` set (tips s)" "row_id r \<notin> row_id ` set (tips s)"
  shows "state_inv evidence (s\<lparr>tips := tips s @ [r]\<rparr>)"
  using assms job_ok_extends [OF append_extends] paid_moves [OF append_extends moves_refl]
  unfolding state_inv_def confirmed_ids_def by auto

lemma confirmed_ids_set_status:
  "confirmed_ids s \<subseteq> confirmed_ids (s\<lparr>tips := map (set_status i st) (tips s)\<rparr>)"
  by (force simp: confirmed_ids_def set_status_def is_pending_def)

lemma state_inv_set_status:
  assumes inv: "state_inv evidence s"
    and pay: "\<And>r. st = TipConfirmed \<Longrightarrow> r \<in> set (tips s) \<Longrightarrow> row_id r = i \<Longrightarrow> paid evidence s r"
  shows "state_inv evidence (s\<lparr>tips := map (set_status i st) (tips s)\<rparr>)"
proof -
  let ?s = "s\<lparr>tips := map (set_status i st) (tips s)\<rparr>"
  have mv: "moves r (set_status i st r)" for r
    by (auto simp: moves_def set_status_def is_pending_def intro: exI [of _ "row_status r"])
  note ext = set_status_extends [of s i st]
  have "paid evidence ?s (set_status i st r)"
    if "r \<in> set (tips s)" "row_status (set_status i st r) = TipConfirmed" for r
  proof -
    have "paid evidence s r"
      using that inv pay [OF _ that(1)]
      by (auto simp: set_status_def is_pending_def state_inv_def split: if_splits)
    then show ?thesis by (rule paid_moves [OF ext mv])
  qed
  then show ?thesis
    using inv job_ok_extends [OF ext] confirmed_ids_set_status [of s i st]
    unfolding state_inv_def by (auto simp: comp_def)
qed

lemma state_inv_webhook:
  assumes "state_inv evidence s" "tip_id t \<in> confirmed_ids s"
    "tip_id t \<notin> set (webhook_tips (effects s))"
  shows "state_inv evidence (emit (Webhook n t) s)"
proof -
  have ext: "extends s (emit (Webhook n t) s)" by (simp add: emit_def)
  show ?thesis
    using assms job_ok_extends [OF ext] paid_moves [OF ext moves_refl]
    by (auto simp: state_inv_def emit_def confirmed_ids_def)
qed

lemma state_inv_confirm:
  assumes inv: "state_inv evidence s" and ok: "job_ok s job" and ev: "evidence (request_of_job job)"
    and r: "r \<in> set (tips s)" "is_pending (job_tip_id job) r"
    and s0: "s0 = s\<lparr>tips := map (set_status (job_tip_id job) TipConfirmed) (tips s)\<rparr>"
  shows "state_inv evidence s0" and "job_tip_id job \<in> confirmed_ids s0"
    and "job_tip_id job \<notin> set (webhook_tips (effects s0))"
proof -
  have same: "r1 = r2" if "r1 \<in> set (tips s)" "r2 \<in> set (tips s)" "row_id r1 = row_id r2" for r1 r2
    using that inv by (auto simp: state_inv_def distinct_map inj_on_def)
  have "paid evidence s r" if "r \<in> set (tips s)" "row_id r = job_tip_id job" for r
    using ok ev that same unfolding job_ok_def paid_def by metis
  with inv show "state_inv evidence s0"
    unfolding s0 by (intro state_inv_set_status) auto
  show "job_tip_id job \<in> confirmed_ids s0"
    unfolding confirmed_ids_def
    by (rule CollectI, rule exI [of _ "r\<lparr>row_status := TipConfirmed\<rparr>"])
       (use r in \<open>auto simp: s0 set_status_def is_pending_def image_iff intro!: bexI [of _ r]\<close>)
  have "job_tip_id job \<notin> confirmed_ids s"
    using r same by (force simp: confirmed_ids_def is_pending_def)
  with inv show "job_tip_id job \<notin> set (webhook_tips (effects s0))"
    by (auto simp: s0 state_inv_def)
qed

lemma state_inv_bookkeeping:
  "state_inv evidence s \<Longrightarrow> state_inv evidence (invalidate_tips t (log_tip f u a s))"
  by (rule state_inv_frame) auto

lemma extends_bookkeeping:
  assumes "extends s s0"
  shows "extends s (invalidate_tips t (log_tip f u a s0))"
    and "extends s (emit e (invalidate_tips t (log_tip f u a s0)))"
proof -
  have *: "same_tables s0 (invalidate_tips t (log_tip f u a s0))" by simp
  show "extends s (invalidate_tips t (log_tip f u a s0))"
    by (rule extends_trans [OF assms same_tables_extends [OF *]])
  then show "extends s (emit e (invalidate_tips t (log_tip f u a s0)))"
    by (rule extends_trans) (simp add: emit_def)
qed

section \<open>The operations keep the invariant\<close>

text \<open>What the handlers rely on of a row decoder: the entity has the row's fields.\<close>

locale row_decoding =
  fixes from_row :: row_decoder
  assumes decoded: "from_row cols r = Ok t \<Longrightarrow>
    tip_id t = row_id r \<and> tip_creator_username t = row_creator r \<and> tip_amount t = row_amount r
    \<and> tip_transaction_hash t = row_hash r \<and> tip_created_at t = row_created_at r"
begin

lemma decode_opt_Some:
  "decode_opt from_row res = Ok (Some t) \<Longrightarrow> \<exists>row. res = Ok (Some row) \<and> tip_id t = row_id row"
  using decoded by (auto simp: decode_opt_def split: sum.splits option.splits)

end

text \<open>The pipeline over any verifier and any decoder that keep their contracts.\<close>

locale pipeline = tip_verifier verify evidence + row_decoding from_row
  for verify :: "'v verifier" and evidence and from_row +
  fixes to_value :: "tip \<Rightarrow> json option"
begin

lemma after_insert_inv:
  assumes inv: "state_inv evidence s" and t: "tip_id t = i"
    and row: "new_row i now req \<in> set (tips s)"
    and run: "after_insert db req t s = (res, s')"
  shows "state_inv evidence s' \<and> same_tables s s'"
proof -
  let ?s1 = "log_tip (db 1) t ''submitted'' s"
  have creators: "creators ?s1 = creators s"
    by (simp add: log_tip_def split: option.split)
  consider "s' = ?s1"
    | stroops dest where "xlm_to_stroops_str (rq_amount req) = Ok stroops"
      "creators s (rq_username req) = Some dest"
      "s' = invalidate_tips t (emit (Broadcast (tip_creator_username t) (rq_source_account req)
              (case parse_unsigned u64_max (tip_amount t) of Some n \<Rightarrow> n | None \<Rightarrow> 0)
              (tip_created_at t)) (snd (enqueue (job_of_request t req stroops dest) ?s1)))"
    using run creators
    by (auto simp: after_insert_def fetch_wallet_def Let_def split: sum.splits option.splits)
  then show ?thesis
  proof cases
    case 1
    then show ?thesis using inv by (auto intro: state_inv_frame)
  next
    case (2 stroops dest)
    have ok: "job_ok s (job_of_request t req stroops dest)"
      using row t 2(1,2)
      by (auto simp: job_ok_def job_of_request_def request_of_job_def claims_payment_def new_row_def
          source_of_row_def intro!: bexI [OF _ row])
    show ?thesis
      unfolding 2(3) using ok set_jobs_enqueue [of "job_of_request t req stroops dest" ?s1]
      by (intro conjI state_inv_frame [OF inv]) auto
  qed
qed

lemma record_tip_inv:
  assumes inv: "state_inv evidence s"
    and run: "record_tip from_row violates db i now req s = (r, s')"
  shows "state_inv evidence s' \<and> extends s s'"
proof -
  obtain res s0 where ins: "insert_tip (db 0) (new_row i now req) s = (res, s0)"
    by (metis surj_pair)
  from ins show ?thesis
  proof (cases rule: insert_tip_cases)
    case kept
    then have "s' = s"
      using run ins decode_opt_Some
      by (auto simp: record_tip_def split: if_splits sum.splits option.splits)
    with inv show ?thesis by simp
  next
    case stored
    let ?s0 = "s\<lparr>tips := tips s @ [new_row i now req]\<rparr>"
    have inv0: "state_inv evidence ?s0"
      using state_inv_insert [OF inv] stored by (simp add: new_row_def)
    have "tip_id t = i" if "decode_opt from_row res = Ok (Some t)" for t
      using decode_opt_Some [OF that] stored by (auto simp: new_row_def)
    then have "s' = s \<or> s' = ?s0 \<or> (\<exists>t res'. tip_id t = i \<and> after_insert db req t ?s0 = (res', s'))"
      using run ins stored
      by (auto simp: record_tip_def split: if_splits sum.splits option.splits)
    then show ?thesis
      using inv inv0 append_extends after_insert_inv [OF inv0] same_tables_extends extends_trans
      by (metis (no_types, lifting) app_state.select_convs(1) app_state.surjective
          app_state.update_convs(1) extends_refl in_set_conv_decomp)
  qed
qed

lemma confirm_tip_inv:
  assumes inv: "state_inv evidence s" and ok: "job_ok s job" and ev: "evidence (request_of_job job)"
    and run: "confirm_tip from_row to_value db (job_tip_id job) s = (r, s')"
  shows "state_inv evidence s' \<and> extends s s'"
proof -
  obtain res s0 where upd: "update_pending (db 0) (job_tip_id job) TipConfirmed s = (res, s0)"
    by (metis surj_pair)
  from upd show ?thesis
  proof (cases rule: update_pending_cases)
    case kept
    then have "s' = s"
      using run upd decode_opt_Some
      by (auto simp: confirm_tip_def split: sum.splits option.splits)
    with inv show ?thesis by simp
  next
    case (changed row)
    note inv0 = state_inv_confirm [OF inv ok ev changed(1,2,4)]
    have ext: "extends s s0" unfolding changed by (rule set_status_extends)
    let ?bk = "\<lambda>t. invalidate_tips t (log_tip (db 1) t ''confirmed'' s0)"
    have bk: "state_inv evidence (?bk t)" "same_tables s0 (?bk t)" for t
      using inv0(1) by (simp_all add: state_inv_bookkeeping)
    consider "s' = s0" | t where "s' = ?bk t"
      | t where "tip_id t = job_tip_id job" "s' = emit (Webhook ''tip.confirmed'' t) (?bk t)"
      using run upd decode_opt_Some changed
      by (fastforce simp: confirm_tip_def is_pending_def Let_def split: sum.splits option.splits)
    then show ?thesis
    proof cases
      case 1
      with inv0(1) ext show ?thesis by simp
    next
      case 2
      with bk(1) extends_bookkeeping(1) [OF ext] show ?thesis by simp
    next
      case (3 t)
      have "state_inv evidence s'"
        unfolding 3(2) using bk inv0(2,3) 3(1)
        by (intro state_inv_webhook) (auto simp: same_tables_def confirmed_ids_def)
      then show ?thesis using extends_bookkeeping(2) [OF ext] 3(2) by simp
    qed
  qed
qed

lemma reject_tip_inv:
  assumes inv: "state_inv evidence s"
    and run: "reject_tip from_row db i reason s = (r, s')"
  shows "state_inv evidence s' \<and> extends s s'"
proof -
  obtain res s0 where upd: "update_pending (db 0) i TipRejected s = (res, s0)"
    by (metis surj_pair)
  from upd have s0: "state_inv evidence s0 \<and> extends s s0"
    by (cases rule: update_pending_cases)
       (use inv in \<open>auto intro!: state_inv_set_status set_status_extends\<close>)
  have "s' = s0 \<or> (\<exists>t. s' = invalidate_tips t (log_tip (db 1) t (''rejected: '' @ reason) s0))"
    using run upd by (auto simp: reject_tip_def split: sum.splits option.splits)
  then show ?thesis
    using s0 state_inv_bookkeeping extends_bookkeeping(1) by blast
qed

lemma settle_inv:
  assumes "state_inv evidence s" "job_ok s job" "ans = Ok Confirmed \<Longrightarrow> evidence (request_of_job job)"
  shows "state_inv evidence (settle from_row to_value db job ans s)
    \<and> extends s (settle from_row to_value db job ans s)"
proof (cases ans)
  case (Inl e)
  have "job_ok s (job\<lparr>job_attempt := n\<rparr>)" for n
    using assms(2) by (simp add: job_ok_def request_of_job_def)
  then show ?thesis
    using assms(1) Inl set_jobs_enqueue [of "job\<lparr>job_attempt := job_attempt job + 1\<rparr>" s]
    by (auto simp: settle_def intro!: state_inv_frame [OF assms(1)] same_tables_extends)
next
  case (Inr out)
  then show ?thesis
    using confirm_tip_inv [OF assms(1,2,3) surjective_pairing]
      reject_tip_inv [OF assms(1) surjective_pairing]
    by (cases out) (simp_all add: settle_def)
qed

lemma record_tip_in_tx_inv:
  assumes "state_inv evidence s" "record_tip_in_tx from_row f i now req s = (r, s')"
  shows "state_inv evidence s' \<and> extends s s'"
proof -
  obtain res s0 where ins: "insert_tip f (new_row i now req) s = (res, s0)" by (metis surj_pair)
  then have "s' = s0"
    using assms(2) by (auto simp: record_tip_in_tx_def split: sum.splits option.splits)
  moreover from ins have "state_inv evidence s0 \<and> extends s s0"
  proof (cases rule: insert_tip_cases)
    case stored
    then show ?thesis
      using state_inv_insert [OF assms(1)] append_extends by (simp add: new_row_def)
  qed (use assms(1) in simp)
  ultimately show ?thesis by simp
qed

lemma bulk_loop_inv:
  "state_inv evidence s \<Longrightarrow> bulk_loop from_row db now k reqs s = Some (ts, s') \<Longrightarrow>
     state_inv evidence s' \<and> extends s s'"
proof (induction reqs arbitrary: k s ts)
  case (Cons ir reqs)
  obtain i req where ir: "ir = (i, req)" by (cases ir)
  obtain r s1 where r: "record_tip_in_tx from_row (db (3 * k + 1)) i now req s = (r, s1)"
    by (metis surj_pair)
  note inv1 = record_tip_in_tx_inv [OF Cons.prems(1) r]
  show ?case
  proof (cases r)
    case (Inl e)
    then have "bulk_loop from_row db now (Suc k) reqs s = Some (ts, s')"
      using Cons.prems(2) r by (auto simp: ir split: if_splits)
    from Cons.IH [OF Cons.prems(1) this] show ?thesis .
  next
    case (Inr t)
    then obtain ts' where "bulk_loop from_row db now (Suc k) reqs s1 = Some (ts', s')"
      using Cons.prems(2) r by (auto simp: ir split: if_splits)
    from Cons.IH [OF _ this] inv1 show ?thesis using extends_trans by blast
  qed
qed simp

lemma bulk_inv:
  assumes "state_inv evidence s" "bulk_record_tips from_row bf db cf now reqs s = (r, s')"
  shows "state_inv evidence s' \<and> extends s s'"
  using assms bulk_loop_inv
  by (fastforce simp: bulk_record_tips_def split: if_splits option.splits)

lemma read_inv:
  assumes "state_inv evidence s" "get_tips_for_creator from_row db u s = (r, s')"
  shows "state_inv evidence s' \<and> extends s s'"
proof -
  have "same_tables s s' \<and> jobs s' = jobs s"
    using assms(2) by (auto simp: get_tips_for_creator_def Let_def split: sum.splits if_splits)
  then show ?thesis using assms(1) by (auto intro: state_inv_frame same_tables_extends)
qed

lemma redrive_inv:
  "state_inv evidence s \<Longrightarrow> set rs \<subseteq> set (tips s) \<Longrightarrow> redrive db k rs s = (n, s') \<Longrightarrow>
     state_inv evidence s' \<and> same_tables s s'"
proof (induction rs arbitrary: k s n)
  case (Cons r rs)
  consider "redrive db (Suc k) rs s = (n, s')"
    | stroops dest n' where "xlm_to_stroops_str (row_amount r) = Ok stroops"
      "creators s (row_creator r) = Some dest"
      "redrive db (Suc k) rs (snd (enqueue (job_of_row r stroops dest) s)) = (n', s')"
    using Cons.prems(3)
    by (fastforce simp: fetch_wallet_def split: sum.splits option.splits prod.splits)
  then show ?case
  proof cases
    case 1
    with Cons show ?thesis by simp
  next
    case (2 stroops dest n')
    let ?job = "job_of_row r stroops dest"
    have "job_ok s ?job"
      using 2 Cons.prems(2)
      by (auto simp: job_ok_def job_of_row_def request_of_job_def claims_payment_def
          source_of_row_def intro!: bexI [of _ r])
    then have "state_inv evidence (snd (enqueue ?job s))"
      using set_jobs_enqueue [of ?job s] by (intro state_inv_frame [OF Cons.prems(1)]) auto
    moreover have same: "same_tables s (snd (enqueue ?job s))" by simp
    ultimately show ?thesis
      using Cons.IH [OF _ _ 2(3)] Cons.prems(2) same unfolding same_tables_def by simp
  qed
qed simp

lemma reconcile_inv:
  assumes "state_inv evidence s" "reconcile_once db now s = (n, s')"
  shows "state_inv evidence s' \<and> extends s s'"
proof -
  have "set rs \<subseteq> set (tips s)" if "fetch_stuck_tips f now s = Ok rs" for f rs
    using that by (auto simp: fetch_stuck_tips_def dest: in_set_takeD split: option.splits)
  then show ?thesis
    using assms redrive_inv same_tables_extends
    by (fastforce simp: reconcile_once_def split: sum.splits if_splits)
qed

lemma step_inv:
  assumes "pipeline_step verify from_row to_value (s, v, run) (s', v', run')"
    and "state_inv evidence s" "run_inv evidence s run"
  shows "state_inv evidence s' \<and> run_inv evidence s' run' \<and> extends s s'"
  using assms(1)
proof (cases rule: pipeline_step.cases)
  case (submit violates db i now req r)
  then show ?thesis using record_tip_inv assms run_inv_extends by blast
next
  case (bulk bf db cf now reqs r)
  then show ?thesis using bulk_inv assms run_inv_extends by blast
next
  case (read db username r)
  then show ?thesis using read_inv assms run_inv_extends by blast
next
  case (receive job rest)
  have ext: "extends s s'" and inv: "state_inv evidence s'"
    using receive assms(2) by (auto intro: state_inv_frame)
  have "job_ok s job" using receive assms(2) by (simp add: state_inv_def)
  then have "run_inv evidence s run'" using receive assms(3) by (auto simp: run_inv_def)
  then show ?thesis using ext inv run_inv_extends by blast
next
  case (answer job ans a b)
  then show ?thesis
    using assms(2,3) confirmed_evidence by (auto simp: run_inv_def)
next
  case (finish a job ans b db)
  then have ok: "job_ok s job" "ans = Ok Confirmed \<Longrightarrow> evidence (request_of_job job)"
    and run: "run_inv evidence s run'"
    using assms(3) by (auto simp: run_inv_def)
  show ?thesis
    using settle_inv [OF assms(2) ok] run run_inv_extends finish by blast
next
  case (reconcile db now n)
  then show ?thesis using reconcile_inv assms run_inv_extends by blast
next
  case crash
  then show ?thesis using assms(2) by (auto simp: run_inv_def intro: state_inv_frame)
next
  case shutdown
  then have "state_inv evidence s'" "extends s s'" using assms(2) by (auto intro: state_inv_frame)
  then show ?thesis using shutdown assms(3) run_inv_extends by blast
qed

lemma reachable_inv:
  assumes "pipeline_reachable verify from_row to_value (s, v, run) (s', v', run')"
    and "state_inv evidence s" "run_inv evidence s run"
  shows "state_inv evidence s' \<and> run_inv evidence s' run' \<and> extends s s'"
proof -
  let ?ok = "\<lambda>c. state_inv evidence (fst c) \<and> run_inv evidence (fst c) (snd (snd c)) \<and> extends s (fst c)"
  have "?ok c" if "(pipeline_step verify from_row to_value)\<^sup>*\<^sup>* (s, v, run) c" for c
    using that
  proof (induction rule: rtranclp_induct)
    case base
    then show ?case using assms(2,3) by simp
  next
    case (step c c')
    obtain s1 v1 run1 s2 v2 run2 where c: "c = (s1, v1, run1)" "c' = (s2, v2, run2)"
      by (cases c; cases c')
    show ?case
      using step_inv [OF step(2) [unfolded c]] step(3) extends_trans by (simp add: c) blast
  qed
  from this [OF assms(1) [unfolded pipeline_reachable_def]] show ?thesis by simp
qed

end

section \<open>The decoder that sqlx derives\<close>

text \<open>\<open>#[derive(sqlx::FromRow)]\<close> on \<open>Tip\<close>: a column of the struct that the row does not have is
  an error (\<open>ColumnNotFound\<close>), except for the two fields marked \<open>#[sqlx(default)]\<close>.\<close>

definition tip_required_columns :: "string list" where
  "tip_required_columns = [''id'', ''creator_username'', ''amount'', ''transaction_hash'', ''message'',
                           ''message_visibility'', ''created_at'']"

definition derived_from_row :: row_decoder where
  "derived_from_row cols r =
     (if list_all (\<lambda>c. c \<in> set cols) tip_required_columns
      then Ok \<lparr>tip_id = row_id r, tip_creator_username = row_creator r, tip_amount = row_amount r,
               tip_transaction_hash = row_hash r, tip_message = row_message r,
               tip_message_visibility = Some (row_visibility r), tip_created_at = row_created_at r,
               tip_status_of = (if ''status'' \<in> set cols then Some (row_status r) else None),
               tip_source_account =
                 (if ''tipper_source_account'' \<in> set cols then row_source r else None)\<rparr>
      else Err SqlxOther)"

text \<open>The same decoder over statements that also return the two message columns.\<close>

definition full_from_row :: row_decoder where
  "full_from_row cols = derived_from_row (cols @ [''message'', ''message_visibility''])"

lemma derived_row_decoding: "row_decoding derived_from_row"
  by unfold_locales (auto simp: derived_from_row_def split: if_splits)

lemma full_row_decoding: "row_decoding full_from_row"
  by unfold_locales (auto simp: full_from_row_def derived_from_row_def split: if_splits)

interpretation derived: pipeline "verify_tip ops env svc" "on_chain_payment ops svc" derived_from_row to_value
  for ops env svc to_value
  by (rule pipeline.intro [OF sv.tip_verifier_axioms derived_row_decoding])

interpretation full: pipeline "verify_tip ops env svc" "on_chain_payment ops svc" full_from_row to_value
  for ops env svc to_value
  by (rule pipeline.intro [OF sv.tip_verifier_axioms full_row_decoding])

section \<open>The life of a tip\<close>

definition pipeline_init :: "app_state \<Rightarrow> bool" where
  "pipeline_init s \<longleftrightarrow> tips s = [] \<and> jobs s = [] \<and> effects s = []"

lemma init_inv: "pipeline_init s \<Longrightarrow> state_inv evidence s \<and> run_inv evidence s []"
  by (simp add: pipeline_init_def state_inv_def run_inv_def)

lemma stellar_reachable_inv:
  assumes "row_decoding from_row" "pipeline_init s0"
    and "pipeline_reachable (verify_tip ops env svc) from_row to_value (s0, v0, []) (s, v, run)"
  shows "state_inv (on_chain_payment ops svc) s \<and> run_inv (on_chain_payment ops svc) s run"
  using pipeline.reachable_inv [OF pipeline.intro [OF sv.tip_verifier_axioms assms(1)] assms(3)]
    init_inv [OF assms(2)] by blast


text \<open>\<^bold>\<open>C2.\<close> A tip is announced at most once and only when it is confirmed: the webhook events
  of any run are for distinct tips, and each of those rows is confirmed. Transaction hashes and
  tip ids stay unique.\<close>

theorem webhooks_at_most_once:
  assumes "row_decoding from_row" and "pipeline_init s0"
    and "pipeline_reachable (verify_tip ops env svc) from_row to_value (s0, v0, []) (s, v, run)"
  shows "distinct (webhook_tips (effects s)) \<and> set (webhook_tips (effects s)) \<subseteq> confirmed_ids s
    \<and> distinct (map row_hash (tips s)) \<and> distinct (map row_id (tips s))"
  using stellar_reachable_inv [OF assms] by (simp add: state_inv_def)

text \<open>\<^bold>\<open>C3.\<close> The status machine: no step loses a row or changes anything of it but its status,
  and the status changes only from \<open>pending_verification\<close>; confirmed and rejected are final.\<close>

theorem settled_tips_are_final:
  assumes "row_decoding from_row" and "pipeline_init s0"
    and "pipeline_reachable (verify_tip ops env svc) from_row to_value (s0, v0, []) (s, v, run)"
    and "pipeline_reachable (verify_tip ops env svc) from_row to_value (s, v, run) (s', v', run')"
    and "r \<in> set (tips s)"
  shows "\<exists>r' \<in> set (tips s'). r' = r
    \<or> (row_status r = PendingVerification \<and> r' = r\<lparr>row_status := row_status r'\<rparr>)"
proof -
  have "extends s s'"
    using pipeline.reachable_inv [OF pipeline.intro [OF sv.tip_verifier_axioms assms(1)] assms(4)]
      stellar_reachable_inv [OF assms(1-3)] by blast
  then obtain r' where r': "r' \<in> set (tips s')" "moves r r'"
    using assms(5) unfolding extends_def by blast
  from r'(2) obtain st where st: "r' = r\<lparr>row_status := st\<rparr>"
    "st = row_status r \<or> row_status r = PendingVerification"
    unfolding moves_def by blast
  then show ?thesis using r'(1) by (intro bexI [of _ r']) auto
qed

section \<open>The pipeline at work\<close>

definition demo_state :: app_state where
  "demo_state = \<lparr>tips = [], creators = [''alice'' \<mapsto> ''GB''], tip_logs = [], jobs = [],
     queue_open = True, redis_connected = False, cache = Map.empty, effects = []\<rparr>"

definition demo_tip_request :: record_tip_request where
  "demo_tip_request = \<lparr>rq_username = ''alice'', rq_amount = ''2.5'', rq_transaction_hash = ''h1'',
     rq_message = None, rq_memo = Some ''hi'', rq_source_account = ''GA''\<rparr>"

definition demo_tip :: "tip_status \<Rightarrow> tip" where
  "demo_tip st = \<lparr>tip_id = ''t1'', tip_creator_username = ''alice'', tip_amount = ''2.5'',
     tip_transaction_hash = ''h1'', tip_message = None, tip_message_visibility = Some ''public'',
     tip_created_at = 0, tip_status_of = Some st, tip_source_account = Some ''GA''\<rparr>"

definition demo_job :: verification_job where
  "demo_job = job_of_request (demo_tip PendingVerification) demo_tip_request 25000000 ''GB''"

definition demo_recorded :: app_state where
  "demo_recorded = demo_state\<lparr>tips := [new_row ''t1'' 0 demo_tip_request],
     tip_logs := [(''t1'', ''alice'', ''submitted'')], jobs := [demo_job],
     effects := [Broadcast ''alice'' ''GA'' 0 0]\<rparr>"

definition demo_confirmed :: app_state where
  "demo_confirmed = demo_recorded\<lparr>tips := [(new_row ''t1'' 0 demo_tip_request)\<lparr>row_status := TipConfirmed\<rparr>],
     tip_logs := [(''t1'', ''alice'', ''submitted''), (''t1'', ''alice'', ''confirmed'')], jobs := [],
     effects := [Broadcast ''alice'' ''GA'' 0 0, Webhook ''tip.confirmed'' (demo_tip TipConfirmed)]\<rparr>"

lemma full_from_row_demo:
  "full_from_row tip_columns ((new_row ''t1'' 0 demo_tip_request)\<lparr>row_status := st\<rparr>) = Ok (demo_tip st)"
  "full_from_row tip_columns (new_row ''t1'' 0 demo_tip_request) = Ok (demo_tip PendingVerification)"
  by (simp_all add: full_from_row_def derived_from_row_def tip_required_columns_def tip_columns_def
      new_row_def demo_tip_request_def demo_tip_def)

lemma demo_amount: "xlm_to_stroops_str ''2.5'' = Ok 25000000"
proof -
  have t: "amount_text ''2.5'' ''2'' ''5''"
    by (simp add: amount_text_def all_digits_def is_ascii_digit_def)
  have "stroops_of ''2'' ''5'' = 25000000"
    by (simp add: stroops_of_def dec_val_def digit_val_def)
  with xlm_to_stroops_str_text [OF t] show ?thesis by (simp add: int_ranges)
qed

lemma demo_records:
  "record_tip full_from_row (\<lambda>_. False) (\<lambda>_. None) ''t1'' 0 demo_tip_request demo_state =
     (Ok (demo_tip PendingVerification), demo_recorded)"
proof -
  have "insert_tip None (new_row ''t1'' 0 demo_tip_request) demo_state =
    (Ok (Some (new_row ''t1'' 0 demo_tip_request)),
     demo_state\<lparr>tips := [new_row ''t1'' 0 demo_tip_request]\<rparr>)"
    by (simp add: insert_tip_def demo_state_def new_row_def demo_tip_request_def)
  moreover have "parse_unsigned u64_max ''2.5'' = None"
    by (simp add: parse_unsigned_def all_digits_def is_ascii_digit_def)
  moreover have "rq_message demo_tip_request = None" "rq_amount demo_tip_request = ''2.5''"
    "rq_username demo_tip_request = ''alice''" "rq_source_account demo_tip_request = ''GA''"
    by (simp_all add: demo_tip_request_def)
  ultimately show ?thesis
    by (simp add: record_tip_def decode_opt_def full_from_row_demo after_insert_def demo_amount
        fetch_wallet_def log_tip_def enqueue_def emit_def invalidate_tips_def demo_recorded_def
        demo_state_def demo_tip_def demo_job_def)
qed

lemma demo_settles:
  "settle full_from_row (\<lambda>_. Some JNull) (\<lambda>_. None) demo_job (Ok Confirmed) (demo_recorded\<lparr>jobs := []\<rparr>)
     = demo_confirmed"
proof -
  have "update_pending None ''t1'' TipConfirmed (demo_recorded\<lparr>jobs := []\<rparr>) =
    (Ok (Some ((new_row ''t1'' 0 demo_tip_request)\<lparr>row_status := TipConfirmed\<rparr>)),
     demo_recorded\<lparr>jobs := [],
       tips := [(new_row ''t1'' 0 demo_tip_request)\<lparr>row_status := TipConfirmed\<rparr>]\<rparr>)"
    by (simp add: update_pending_def demo_recorded_def is_pending_def new_row_def)
  then show ?thesis
    by (simp add: settle_def confirm_tip_def decode_opt_def full_from_row_demo log_tip_def
        invalidate_tips_def emit_def demo_job_def job_of_request_def demo_tip_def demo_confirmed_def
        demo_recorded_def demo_state_def)
qed

lemma demo_run:
  "pipeline_reachable (verify_tip demo_ops (\<lambda>_. None) demo_service) full_from_row (\<lambda>_. Some JNull)
     (demo_state, (cb_new 5 (from_secs 60), 0), [])
     (demo_confirmed, (cb_new 5 (from_secs 60), 2), [])"
proof -
  let ?step = "pipeline_step (verify_tip demo_ops (\<lambda>_. None) demo_service) full_from_row (\<lambda>_. Some JNull)"
  let ?v = "(cb_new 5 (from_secs 60), 0)" and ?v' = "(cb_new 5 (from_secs 60), 2)"
  have "?step (demo_state, ?v, []) (demo_recorded, ?v, [])"
    by (rule pipeline_step.submit [OF demo_records])
  moreover have "?step (demo_recorded, ?v, []) (demo_recorded\<lparr>jobs := []\<rparr>, ?v, [(demo_job, None)])"
    using pipeline_step.receive [of demo_recorded demo_job "[]" _ _ _ ?v "[]"]
    by (simp add: demo_recorded_def demo_job_def job_of_request_def MAX_ATTEMPTS_def)
  moreover have "request_of_job demo_job = demo_request"
    by (simp add: request_of_job_def demo_job_def job_of_request_def demo_tip_request_def
        demo_request_def)
  with demo_verifies have "?step (demo_recorded\<lparr>jobs := []\<rparr>, ?v, [(demo_job, None)])
      (demo_recorded\<lparr>jobs := []\<rparr>, ?v', [(demo_job, Some (Ok Confirmed))])"
    using pipeline_step.answer [of "verify_tip demo_ops (\<lambda>_. None) demo_service" demo_job ?v _ ?v' _ _ _ "[]" "[]"]
    by simp
  moreover have "?step (demo_recorded\<lparr>jobs := []\<rparr>, ?v', [(demo_job, Some (Ok Confirmed))])
      (demo_confirmed, ?v', [])"
    using pipeline_step.finish [of _ full_from_row "\<lambda>_. Some JNull" "demo_recorded\<lparr>jobs := []\<rparr>" ?v' "[]"
        demo_job "Ok Confirmed" "[]" "\<lambda>_. None"]
    by (simp add: demo_settles)
  ultimately show ?thesis
    unfolding pipeline_reachable_def by (meson converse_rtranclp_into_rtranclp rtranclp.rtrancl_refl)
qed

lemma demo_init: "pipeline_init demo_state"
  by (simp add: pipeline_init_def demo_state_def)

lemma demo_row:
  "(new_row ''t1'' 0 demo_tip_request)\<lparr>row_status := TipConfirmed\<rparr> \<in> set (tips demo_confirmed)"
  by (simp add: demo_confirmed_def)


theorem webhooks_at_most_once_witness:
  "webhook_tips (effects demo_confirmed) = [''t1''] \<and> ''t1'' \<in> confirmed_ids demo_confirmed"
proof -
  have "webhook_tips (effects demo_confirmed) = [''t1'']"
    by (simp add: demo_confirmed_def webhook_tips_def demo_tip_def)
  with webhooks_at_most_once [OF full_row_decoding demo_init demo_run] show ?thesis by simp
qed

theorem settled_tips_are_final_witness:
  "\<exists>r' \<in> set (tips demo_confirmed).
     r' = (new_row ''t1'' 0 demo_tip_request)\<lparr>row_status := TipConfirmed\<rparr>"
proof -
  let ?verify = "verify_tip demo_ops (\<lambda>_. None) demo_service"
  have stay: "pipeline_reachable ?verify full_from_row (\<lambda>_. Some JNull) c c" for c
    by (simp add: pipeline_reachable_def)
  from settled_tips_are_final [OF full_row_decoding demo_init demo_run stay demo_row]
  show ?thesis by simp
qed

end
