(* ===== verification/Tip_Handlers.thy ===== *)
theory Tip_Handlers
  imports Tip_Pipeline
begin

text \<open>
  What single runs of the handlers, the worker and the reconciliation pass do, branch by branch,
  beside the invariant of \<open>Tip_Pipeline\<close>.
\<close>

section \<open>Recording\<close>

text \<open>A recorded tip is stored once and handed to the verifier: when \<open>record_tip\<close>
  succeeds, the transaction hash was new, exactly one pending row was added, exactly one job with
  the row's payment was queued (if the queue is open), and no webhook fired. A second submission of
  the same hash is a conflict that changes nothing.\<close>

theorem record_tip_outcomes:
  "(record_tip from_row violates db i now req s = (Ok t, s') \<longrightarrow>
      rq_transaction_hash req \<notin> row_hash ` set (tips s)
    \<and> tips s' = tips s @ [new_row i now req]
    \<and> (\<exists>stroops dest. xlm_to_stroops_str (rq_amount req) = Ok stroops
         \<and> creators s (rq_username req) = Some dest
         \<and> jobs s' = jobs s @ (if queue_open s then [job_of_request t req stroops dest] else []))
    \<and> webhook_tips (effects s') = webhook_tips (effects s))
   \<and> (db 0 = None \<and> rq_message req = None \<and> rq_transaction_hash req \<in> row_hash ` set (tips s) \<longrightarrow>
      record_tip from_row violates db i now req s =
        (Err (Conflict ''DUPLICATE_TX_HASH''
                (''A tip with transaction hash '' @ quoted (rq_transaction_hash req)
                 @ '' has already been submitted'')), s))"
proof (intro conjI impI)
  let ?r = "new_row i now req" and ?s0 = "s\<lparr>tips := tips s @ [new_row i now req]\<rparr>"
  assume run: "record_tip from_row violates db i now req s = (Ok t, s')"
  obtain res s0 where ins: "insert_tip (db 0) ?r s = (res, s0)" by (metis surj_pair)
  with run obtain row where res: "res = Ok (Some row)" "after_insert db req t s0 = (Ok t, s')"
    by (auto simp: record_tip_def decode_opt_def after_insert_def Let_def
        split: if_splits sum.splits option.splits)
  with ins have st: "s0 = ?s0" "row_hash ?r \<notin> row_hash ` set (tips s)"
    by (auto elim: insert_tip_cases)
  then show "rq_transaction_hash req \<notin> row_hash ` set (tips s)" by (simp add: new_row_def)
  let ?s1 = "log_tip (db 1) t ''submitted'' ?s0"
  have s1: "tips ?s1 = tips ?s0" "jobs ?s1 = jobs s" "creators ?s1 = creators s"
    "effects ?s1 = effects s" "queue_open ?s1 = queue_open s"
    by (simp_all add: log_tip_def split: option.split)
  from res(2) obtain stroops dest where *: "xlm_to_stroops_str (rq_amount req) = Ok stroops"
    "creators s (rq_username req) = Some dest"
    "s' = invalidate_tips t (emit (Broadcast (tip_creator_username t) (rq_source_account req)
              (case parse_unsigned u64_max (tip_amount t) of Some n \<Rightarrow> n | None \<Rightarrow> 0)
              (tip_created_at t)) (snd (enqueue (job_of_request t req stroops dest) ?s1)))"
    using s1 by (auto simp: st(1) after_insert_def fetch_wallet_def Let_def
        split: sum.splits option.splits)
  show "tips s' = tips s @ [?r]" "webhook_tips (effects s') = webhook_tips (effects s)"
    using s1 by (simp_all add: *(3) invalidate_tips_def emit_def enqueue_def)
  show "\<exists>stroops dest. xlm_to_stroops_str (rq_amount req) = Ok stroops
      \<and> creators s (rq_username req) = Some dest
      \<and> jobs s' = jobs s @ (if queue_open s then [job_of_request t req stroops dest] else [])"
    using *(1,2) s1 by (simp add: *(3) invalidate_tips_def emit_def enqueue_def)
next
  assume "db 0 = None \<and> rq_message req = None \<and> rq_transaction_hash req \<in> row_hash ` set (tips s)"
  then show "record_tip from_row violates db i now req s =
      (Err (Conflict ''DUPLICATE_TX_HASH''
              (''A tip with transaction hash '' @ quoted (rq_transaction_hash req)
               @ '' has already been submitted'')), s)"
    by (simp add: record_tip_def insert_tip_def decode_opt_def new_row_def)
qed

theorem record_tip_outcomes_witness:
  "jobs demo_recorded = [demo_job]
   \<and> fst (record_tip full_from_row (\<lambda>_. False) (\<lambda>_. None) ''t2'' 9 demo_tip_request demo_recorded)
       = Err (Conflict ''DUPLICATE_TX_HASH''
                (''A tip with transaction hash '' @ quoted ''h1'' @ '' has already been submitted''))"
proof -
  have "rq_message demo_tip_request = None" "rq_transaction_hash demo_tip_request = ''h1''"
    "''h1'' \<in> row_hash ` set (tips demo_recorded)"
    by (simp_all add: demo_tip_request_def demo_recorded_def new_row_def)
  then have "fst (record_tip full_from_row (\<lambda>_. False) (\<lambda>_. None) ''t2'' 9 demo_tip_request demo_recorded)
       = Err (Conflict ''DUPLICATE_TX_HASH''
                (''A tip with transaction hash '' @ quoted ''h1'' @ '' has already been submitted''))"
    using record_tip_outcomes [of full_from_row "\<lambda>_. False" "\<lambda>_. None" "''t2''" 9 demo_tip_request
        demo_recorded] by simp
  moreover have "jobs demo_recorded = [demo_job]"
    using record_tip_outcomes [of full_from_row "\<lambda>_. False" "\<lambda>_. None" "''t1''" 0 demo_tip_request
        demo_state "demo_tip PendingVerification" demo_recorded]
    by (simp add: demo_recorded_def)
  ultimately show ?thesis by simp
qed

section \<open>The rows the handlers cannot read\<close>

lemma derived_misses_columns: "derived_from_row tip_columns r = Err SqlxOther"
  by (simp add: derived_from_row_def tip_required_columns_def tip_columns_def)

lemma decode_derived: "decode_opt derived_from_row res \<noteq> Ok (Some t)"
  by (simp add: decode_opt_def derived_misses_columns split: sum.split option.split)

lemma update_pending_tips:
  "tips (snd (update_pending f i st s)) =
     (if f = None then map (set_status i st) (tips s) else tips s)"
proof (cases "f = None \<and> List.find (is_pending i) (tips s) = None")
  case True
  then have "map (set_status i st) (tips s) = tips s"
    by (auto simp: find_None_iff set_status_def intro: map_idI)
  with True show ?thesis by (simp add: update_pending_def)
qed (auto simp: update_pending_def set_status_def [abs_def] split: option.split)

text \<open>With the decoder the crate derives for \<open>Tip\<close>, whose fields \<open>message\<close> and
  \<open>message_visibility\<close> have no column in the statements, confirming a tip changes its row and then
  fails, and no webhook fires. Recording a tip also always fails, and queues no job.\<close>

theorem derived_decoder_fails:
  "\<not> is_ok (fst (confirm_tip derived_from_row to_value db i s))
   \<and> effects (snd (confirm_tip derived_from_row to_value db i s)) = effects s
   \<and> tips (snd (confirm_tip derived_from_row to_value db i s)) =
       (if db 0 = None then map (set_status i TipConfirmed) (tips s) else tips s)
   \<and> \<not> is_ok (fst (record_tip derived_from_row violates db i now req s))
   \<and> jobs (snd (record_tip derived_from_row violates db i now req s)) = jobs s"
proof -
  let ?u = "update_pending (db 0) i TipConfirmed s" and ?n = "insert_tip (db 0) (new_row i now req) s"
  have "confirm_tip derived_from_row to_value db i s =
    (case decode_opt derived_from_row (fst ?u) of
       Inl e \<Rightarrow> (Err e, snd ?u) | Inr _ \<Rightarrow> (Err (Database (NotFound ''tip'' i)), snd ?u))"
    using decode_derived
    by (auto simp: confirm_tip_def split: prod.split sum.split option.split)
  moreover have "effects (snd ?u) = effects s" by (simp add: update_pending_def split: option.split)
  moreover have "jobs (snd ?n) = jobs s" by (simp add: insert_tip_def split: option.split)
  ultimately show ?thesis
    using decode_derived update_pending_tips [of "db 0" i TipConfirmed s]
    by (auto simp: record_tip_def split: prod.splits sum.splits option.splits)
qed

section \<open>The worker\<close>



section \<open>Reconciliation\<close>

text \<open>The jobs a list of stuck rows gives: those whose amount converts and whose creator exists.\<close>

definition redrive_jobs :: "(string \<rightharpoonup> string) \<Rightarrow> tip_row list \<Rightarrow> verification_job list" where
  "redrive_jobs wallets rs =
     List.map_filter (\<lambda>r. case xlm_to_stroops_str (row_amount r) of
         Inl e \<Rightarrow> None
       | Inr n \<Rightarrow> map_option (job_of_row r n) (wallets (row_creator r))) rs"

lemma redrive_jobs_simps [simp]:
  "redrive_jobs w [] = []"
  "redrive_jobs w (r # rs) =
     (case xlm_to_stroops_str (row_amount r) of
        Inl e \<Rightarrow> []
      | Inr n \<Rightarrow> (case w (row_creator r) of None \<Rightarrow> [] | Some a \<Rightarrow> [job_of_row r n a]))
     @ redrive_jobs w rs"
  by (simp_all add: redrive_jobs_def map_filter_simps split: sum.split option.split)

lemma redrive_no_faults:
  assumes "queue_open s"
  shows "redrive (\<lambda>_. None) k rs s =
    (length (redrive_jobs (creators s) rs), s\<lparr>jobs := jobs s @ redrive_jobs (creators s) rs\<rparr>)"
  using assms
proof (induction rs arbitrary: k s)
  case (Cons r rs)
  then show ?case
    by (simp add: fetch_wallet_def enqueue_def split: sum.split option.split)
qed simp

text \<open>A reconciliation pass re-queues the stuck tips: with the database and the queue
  working, it appends one job for each of the hundred oldest pending rows that are more than five
  minutes old, whose amount converts and whose creator exists, and returns their number. None of
  these jobs asks for a memo.\<close>

theorem reconcile_requeues_stuck_tips:
  assumes "queue_open s"
  shows "let stuck = take 100 (sort_key row_created_at (filter (\<lambda>r. row_status r = PendingVerification
                        \<and> row_created_at r < now - 300) (tips s)));
             js = redrive_jobs (creators s) stuck
         in reconcile_once (\<lambda>_. None) now s = (length js, s\<lparr>jobs := jobs s @ js\<rparr>)
            \<and> list_all (\<lambda>j. job_expected_memo j = None \<and> job_attempt j = 0) js"
proof -
  have "list_all (\<lambda>j. job_expected_memo j = None \<and> job_attempt j = 0) (redrive_jobs w rs)" for w rs
    by (auto simp: redrive_jobs_def map_filter_def list_all_iff job_of_row_def
        split: sum.splits option.splits)
  then show ?thesis
    using redrive_no_faults [OF assms]
    by (simp add: reconcile_once_def fetch_stuck_tips_def STUCK_AFTER_def Let_def)
qed

theorem reconcile_requeues_stuck_tips_witness:
  "\<exists>j. reconcile_once (\<lambda>_. None) 301 (demo_recorded\<lparr>jobs := []\<rparr>) = (1, demo_recorded\<lparr>jobs := [j]\<rparr>)
       \<and> job_tip_id j = ''t1'' \<and> job_expected_memo j = None"
proof -
  have open_q: "queue_open (demo_recorded\<lparr>jobs := []\<rparr>)"
    by (simp add: demo_recorded_def demo_state_def)
  have "redrive_jobs (creators (demo_recorded\<lparr>jobs := []\<rparr>)) [new_row ''t1'' 0 demo_tip_request] =
    [job_of_row (new_row ''t1'' 0 demo_tip_request) 25000000 ''GB'']"
    by (simp add: new_row_def demo_tip_request_def demo_amount demo_recorded_def demo_state_def)
  then show ?thesis
    using reconcile_requeues_stuck_tips [OF open_q, of 301]
    by (intro exI [of _ "job_of_row (new_row ''t1'' 0 demo_tip_request) 25000000 ''GB''"])
       (simp add: demo_recorded_def new_row_def job_of_row_def Let_def)
qed

end
