(* ===== verification/Redis.thy ===== *)
theory Redis
  imports Prelude
begin

text \<open>
  What the program relies on of the Redis server: string keys with a value and an expiry, read and
  written by single commands (a Lua script runs as one atomic unit, so a script is a composition
  of these). The server is not part of the repository, so it is a record of operations on its
  state \<open>'s\<close>, with the documented laws of the commands as the locale \<open>redis_store\<close>; times are
  milliseconds of the server's clock. The interpretation on a keyspace with expiry times shows
  that the laws can hold and gives the witnesses something to run on.
\<close>

record ('v, 's) redis_ops =
  r_get :: "int \<Rightarrow> string \<Rightarrow> 's \<Rightarrow> 'v option"
  r_set_px :: "int \<Rightarrow> string \<Rightarrow> 'v \<Rightarrow> int \<Rightarrow> 's \<Rightarrow> 's"
  r_del :: "int \<Rightarrow> string \<Rightarrow> 's \<Rightarrow> 's"
  r_pttl :: "int \<Rightarrow> string \<Rightarrow> 's \<Rightarrow> int"

locale redis_store =
  fixes R :: "('v, 's) redis_ops"
  assumes get_set_px: "0 < ttl \<Longrightarrow> t \<le> t' \<Longrightarrow>
      r_get R t' k' (r_set_px R t k v ttl s) =
        (if k' = k then (if t' < t + ttl then Some v else None) else r_get R t' k' s)"
    and get_del: "t \<le> t' \<Longrightarrow>
      r_get R t' k' (r_del R t k s) = (if k' = k then None else r_get R t' k' s)"
    and get_earlier: "t \<le> t' \<Longrightarrow> r_get R t' k s = Some v \<Longrightarrow> r_get R t k s = Some v"

text \<open>\<open>SET key value NX PX ttl\<close>, the lock primitive: store only when the key has no live value.\<close>

definition r_set_nx_px ::
  "('v, 's) redis_ops \<Rightarrow> int \<Rightarrow> string \<Rightarrow> 'v \<Rightarrow> int \<Rightarrow> 's \<Rightarrow> bool \<times> 's" where
  "r_set_nx_px R t k v ttl s =
     (if r_get R t k s = None then (True, r_set_px R t k v ttl s) else (False, s))"

context redis_store
begin

lemma set_nx_px_exclusive:
  assumes "0 < ttl" "r_set_nx_px R t k v ttl s = (True, s')" "t \<le> t'" "t' < t + ttl"
  shows "r_get R t' k s' = Some v" and "r_set_nx_px R t' k w ttl' s' = (False, s')"
proof -
  have "s' = r_set_px R t k v ttl s" using assms(2) by (auto simp: r_set_nx_px_def split: if_splits)
  then show "r_get R t' k s' = Some v" using get_set_px [OF assms(1,3)] assms(4) by simp
  then show "r_set_nx_px R t' k w ttl' s' = (False, s')" by (simp add: r_set_nx_px_def)
qed

end

section \<open>A keyspace\<close>

type_synonym 'v keyspace = "string \<rightharpoonup> 'v \<times> int"

definition ks_get :: "int \<Rightarrow> string \<Rightarrow> 'v keyspace \<Rightarrow> 'v option" where
  "ks_get t k m = (case m k of Some (v, e) \<Rightarrow> if t < e then Some v else None | None \<Rightarrow> None)"

definition ks_set_px :: "int \<Rightarrow> string \<Rightarrow> 'v \<Rightarrow> int \<Rightarrow> 'v keyspace \<Rightarrow> 'v keyspace" where
  "ks_set_px t k v ttl m = m(k \<mapsto> (v, t + ttl))"

definition ks_del :: "int \<Rightarrow> string \<Rightarrow> 'v keyspace \<Rightarrow> 'v keyspace" where
  "ks_del t k m = m(k := None)"

definition ks_pttl :: "int \<Rightarrow> string \<Rightarrow> 'v keyspace \<Rightarrow> int" where
  "ks_pttl t k m = (case m k of Some (v, e) \<Rightarrow> if t < e then e - t else - 2 | None \<Rightarrow> - 2)"

definition keyspace_ops :: "('v, 'v keyspace) redis_ops" where
  "keyspace_ops = \<lparr>r_get = ks_get, r_set_px = ks_set_px, r_del = ks_del, r_pttl = ks_pttl\<rparr>"

interpretation ks: redis_store keyspace_ops
  by unfold_locales
     (auto simp: keyspace_ops_def ks_get_def ks_set_px_def ks_del_def
       split: option.splits if_splits prod.splits)

end
