(* ===== verification/Gcra.thy ===== *)
theory Gcra
  imports Redis
begin

text \<open>
  The distributed rate limiter's admission check: the Lua script and its wrapper
  (\<open>src/gateway/rate_limit_script.rs\<close>). The script keeps one number per key, the theoretical
  arrival time (TAT). Its Lua numbers and the \<open>f64\<close> division of the wrapper are exact below
  \<open>2^53\<close>, far above any millisecond clock, so the model computes with \<open>int\<close>; the \<open>i64\<close>
  arithmetic of the wrapper keeps its wrap-around.
\<close>

section \<open>The script\<close>

record gcra_decision =
  allowed :: bool
  remaining :: int
  limit_of :: int
  reset_after_secs :: nat
  decision_retry_after :: nat

text \<open>The result of the script and, when it admits, the TAT it stores.\<close>

definition gcra_script ::
  "int option \<Rightarrow> int \<Rightarrow> int \<Rightarrow> int \<Rightarrow> (int \<times> int \<times> int \<times> int) \<times> int option" where
  "gcra_script stored now emission_interval burst =
     (let burst_offset = emission_interval * (burst - 1);
          tat = (case stored of None \<Rightarrow> now | Some t \<Rightarrow> if t < now then now else t);
          separation = tat - now
      in if separation > burst_offset then ((0, 0, separation - burst_offset, tat - now), None)
         else
           (let new_tat = tat + emission_interval;
                new_separation = new_tat - now;
                left = (burst_offset - new_separation) div emission_interval + 1
            in ((1, if left < 0 then 0 else left, 0, new_separation), Some new_tat)))"

definition ms_to_secs_ceil :: "int \<Rightarrow> nat" where
  "ms_to_secs_ceil ms = (if ms \<le> 0 then 0 else nat ((ms + 999) div 1000))"

text \<open>\<open>(period_ms as f64 / limit as f64).ceil() as i64\<close>.\<close>

definition emission_interval_ms :: "int \<Rightarrow> int \<Rightarrow> int" where
  "emission_interval_ms period_ms limit = - ((- period_ms) div limit)"

definition gcra_ttl :: "int \<Rightarrow> int \<Rightarrow> int \<Rightarrow> int" where
  "gcra_ttl period_ms ei burst =
     wrap_i64 (wrap_i64 (period_ms + wrap_i64 (ei * wrap_i64 burst)) + 1000)"

text \<open>The whole check: \<open>rt\<close> is the server's clock. \<open>None\<close> is a Redis error: the connection
  failed (\<open>up\<close> is false), or the script's \<open>SET\<close> got a time to live that is not positive.\<close>

definition gcra_check ::
  "(int, 's) redis_ops \<Rightarrow> bool \<Rightarrow> int \<Rightarrow> string \<Rightarrow> nat \<Rightarrow> nat \<Rightarrow> nat \<Rightarrow> int \<Rightarrow> 's
     \<Rightarrow> gcra_decision option \<times> 's" where
  "gcra_check R up rt key limit0 burst0 period_secs now_ms s =
     (let limit = int (max limit0 1);
          burst = int (max burst0 1);
          period_ms = int (max period_secs 1) * 1000;
          ei = emission_interval_ms period_ms limit;
          ttl_ms = gcra_ttl period_ms ei burst
      in if \<not> up then (None, s)
         else
           (let ((ok, left, retry_after_ms, reset_after_ms), new_tat) =
                  gcra_script (r_get R rt key s) now_ms ei burst;
                decision = \<lparr>allowed = (ok = 1), remaining = left, limit_of = wrap_i64 limit,
                            reset_after_secs = ms_to_secs_ceil reset_after_ms,
                            decision_retry_after = ms_to_secs_ceil retry_after_ms\<rparr>
            in case new_tat of
                 None \<Rightarrow> (Some decision, s)
               | Some t \<Rightarrow>
                   if ttl_ms \<le> 0 then (None, s)
                   else (Some decision, r_set_px R rt key t ttl_ms s)))"

section \<open>The admission bound\<close>

text \<open>A sequence of checks on one key, with no expiry: the times of the admitted ones.\<close>

fun gcra_admitted :: "int \<Rightarrow> int \<Rightarrow> int option \<Rightarrow> int list \<Rightarrow> int list" where
  "gcra_admitted ei burst stored [] = []"
| "gcra_admitted ei burst stored (now # nows) =
     (case snd (gcra_script stored now ei burst) of
        None \<Rightarrow> gcra_admitted ei burst stored nows
      | Some tat \<Rightarrow> now # gcra_admitted ei burst (Some tat) nows)"

lemma gcra_script_admit:
  "snd (gcra_script stored now ei burst) = Some t \<longleftrightarrow>
     (let tat = (case stored of None \<Rightarrow> now | Some t \<Rightarrow> max t now)
      in tat - now \<le> ei * (burst - 1) \<and> t = tat + ei)"
  by (auto simp: gcra_script_def Let_def max_def split: option.splits)

lemma gcra_script_reject:
  "snd (gcra_script stored now ei burst) = None \<longleftrightarrow>
     (\<exists>t. stored = Some t \<and> 0 \<le> t - now \<and> ei * (burst - 1) < t - now) \<or> ei * (burst - 1) < 0"
  by (auto simp: gcra_script_def Let_def split: option.splits)

text \<open>The admissions after one that left the TAT at \<open>t\<close>: the \<open>i\<close>-th cannot come before the TAT it
  needs has drained.\<close>

lemma gcra_admitted_after:
  assumes "0 \<le> ei" "i < length (gcra_admitted ei burst (Some t) nows)"
  shows "t + int i * ei \<le> gcra_admitted ei burst (Some t) nows ! i + ei * (burst - 1)"
  using assms(2)
proof (induction nows arbitrary: t i)
  case (Cons now nows)
  show ?case
  proof (cases "snd (gcra_script (Some t) now ei burst)")
    case None
    with Cons show ?thesis by simp
  next
    case (Some t')
    then have t': "max t now - now \<le> ei * (burst - 1)" "t' = max t now + ei"
      by (simp_all add: gcra_script_admit Let_def)
    show ?thesis
    proof (cases i)
      case 0
      with Some t' show ?thesis by (simp add: max_def split: if_splits)
    next
      case (Suc j)
      with Cons.prems Some have "t' + int j * ei
          \<le> gcra_admitted ei burst (Some t') nows ! j + ei * (burst - 1)"
        by (intro Cons.IH) simp
      moreover have "t + int i * ei \<le> t' + int j * ei"
        using t'(2) by (simp add: Suc algebra_simps)
      ultimately show ?thesis using Some Suc by simp
    qed
  qed
qed simp

lemma gcra_admitted_suffix:
  assumes "i < length (gcra_admitted ei burst stored nows)"
  shows "\<exists>t rest. drop (Suc i) (gcra_admitted ei burst stored nows) = gcra_admitted ei burst (Some t) rest
    \<and> gcra_admitted ei burst stored nows ! i + ei \<le> t"
  using assms
proof (induction nows arbitrary: stored i)
  case (Cons now nows)
  show ?case
  proof (cases "snd (gcra_script stored now ei burst)")
    case None
    with Cons show ?thesis by simp
  next
    case (Some t)
    then have "now + ei \<le> t" by (auto simp: gcra_script_admit Let_def split: option.splits)
    with Some Cons show ?thesis by (cases i) auto
  qed
qed simp

text \<open>However the checks of a key arrive, between the \<open>i\<close>-th and a later \<open>j\<close>-th admission there
  is time for \<open>j - i + 1\<close> requests at the sustained rate, less the burst.\<close>

lemma gcra_admission_bound:
  assumes "0 \<le> ei" and "i \<le> j" and "j < length (gcra_admitted ei burst stored nows)"
  shows "int (j - i + 1) * ei
    \<le> gcra_admitted ei burst stored nows ! j - gcra_admitted ei burst stored nows ! i + burst * ei"
proof (cases "i = j")
  case True
  let ?as = "gcra_admitted ei burst stored nows"
  have "ei \<le> burst * ei"
  proof (rule ccontr)
    assume "\<not> ei \<le> burst * ei"
    then have "ei * (burst - 1) < 0" by (simp add: algebra_simps)
    then have "snd (gcra_script st now ei burst) = None" for st now
      by (simp add: gcra_script_reject)
    then have "gcra_admitted ei burst st xs = []" for st xs by (induction xs) simp_all
    with assms(3) show False by simp
  qed
  with True show ?thesis by simp
next
  case False
  let ?as = "gcra_admitted ei burst stored nows"
  obtain t rest where d: "drop (Suc i) ?as = gcra_admitted ei burst (Some t) rest" "?as ! i + ei \<le> t"
    using gcra_admitted_suffix [OF le_less_trans [OF assms(2,3)]] by blast
  define k where "k = j - Suc i"
  have k: "j = Suc i + k" using False assms(2) by (simp add: k_def)
  then have "k < length (drop (Suc i) ?as)" and "drop (Suc i) ?as ! k = ?as ! j"
    using assms(3) by simp_all
  then have "t + int k * ei \<le> ?as ! j + ei * (burst - 1)"
    using gcra_admitted_after [OF assms(1), of k burst t rest] d(1) by simp
  with d(2) k show ?thesis by (simp add: algebra_simps)
qed

section \<open>The check over Redis\<close>

text \<open>The script reads the stored TAT only through this value.\<close>

definition eff_tat :: "int option \<Rightarrow> int \<Rightarrow> int" where
  "eff_tat stored now = (case stored of None \<Rightarrow> now | Some t \<Rightarrow> max t now)"

lemma gcra_script_eff:
  "eff_tat a now = eff_tat b now \<Longrightarrow> gcra_script a now ei burst = gcra_script b now ei burst"
  by (auto simp: gcra_script_def eff_tat_def Let_def max_def split: option.splits if_splits)

lemma gcra_script_new_tat:
  "snd (gcra_script stored now ei burst) = Some t \<Longrightarrow> t \<le> now + ei * burst"
  by (auto simp: gcra_script_admit Let_def algebra_simps split: option.splits)

lemma gcra_script_allowed:
  "fst (fst (gcra_script stored now ei burst)) = 1 \<longleftrightarrow> snd (gcra_script stored now ei burst) \<noteq> None"
  by (simp add: gcra_script_def Let_def)

text \<open>The times admitted by a sequence of checks of one key against a working server, each made at
  its reading of the clock.\<close>

fun gcra_run ::
  "(int, 's) redis_ops \<Rightarrow> string \<Rightarrow> nat \<Rightarrow> nat \<Rightarrow> nat \<Rightarrow> int list \<Rightarrow> 's \<Rightarrow> int list" where
  "gcra_run R key limit burst period [] s = []"
| "gcra_run R key limit burst period (now # nows) s =
     (let (d, s') = gcra_check R True now key limit burst period now s;
          rest = gcra_run R key limit burst period nows s'
      in case d of Some d \<Rightarrow> if allowed d then now # rest else rest | None \<Rightarrow> rest)"

definition ttl_fits :: "nat \<Rightarrow> nat \<Rightarrow> nat \<Rightarrow> bool" where
  "ttl_fits limit burst period \<longleftrightarrow>
     (let period_ms = int (max period 1) * 1000; b = int (max burst 1) in
      period_ms + emission_interval_ms period_ms (int (max limit 1)) * b + 1000 \<le> i64_max)"

lemma emission_interval_pos: "0 < period_ms \<Longrightarrow> 0 < limit \<Longrightarrow> 0 < emission_interval_ms period_ms limit"
  unfolding emission_interval_ms_def by (simp add: div_neg_pos_less0)

lemma emission_interval_covers:
  assumes "0 < limit"
  shows "period_ms \<le> limit * emission_interval_ms period_ms limit"
proof -
  have "limit * ((- period_ms) div limit) + (- period_ms) mod limit = - period_ms"
    by (rule mult_div_mod_eq)
  moreover have "0 \<le> (- period_ms) mod limit" using assms by simp
  ultimately show ?thesis unfolding emission_interval_ms_def by linarith
qed

lemma gcra_ttl_exact:
  assumes "0 < p" "0 < ei" "0 < b" "p + ei * b + 1000 \<le> i64_max"
  shows "gcra_ttl p ei b = p + ei * b + 1000"
proof -
  define x where "x = ei * b"
  have "b \<le> x" "0 < x" using assms(2,3) by (simp_all add: x_def mult_le_cancel_right1)
  then have "in_i64 b" "in_i64 x" "in_i64 (p + x)" "in_i64 (p + x + 1000)"
    using assms(1,3,4) by (simp_all add: x_def [symmetric] in_i64_def i64_min_def)
  then show ?thesis by (simp add: gcra_ttl_def x_def [symmetric] wrap_i64_id)
qed

text \<open>The limiter's view of the server: its values are TATs.\<close>

locale gcra_store = redis_store R for R :: "(int, 's) redis_ops"
begin

text \<open>A key expires only after its TAT is in the past, so expiry changes no decision.\<close>

lemma gcra_run_admitted:
  assumes fits: "ttl_fits limit burst period"
    and "sorted (now0 # nows)" "\<And>t. now0 \<le> t \<Longrightarrow> eff_tat (r_get R t key s) t = eff_tat stored t"
  defines "p \<equiv> int (max period 1) * 1000" and "b \<equiv> int (max burst 1)"
  defines "ei \<equiv> emission_interval_ms p (int (max limit 1))"
  shows "gcra_run R key limit burst period nows s = gcra_admitted ei b stored nows"
  using assms(2,3)
proof (induction nows arbitrary: now0 s stored)
  case (Cons now nows)
  have pos: "0 < p" "0 < b" "0 < ei"
    by (simp_all add: p_def b_def ei_def emission_interval_pos max_def)
  have ttl: "gcra_ttl p ei b = p + ei * b + 1000"
    using fits pos by (intro gcra_ttl_exact) (simp_all add: ttl_fits_def p_def b_def ei_def Let_def)
  have "0 < ei * b" using pos by simp
  with ttl pos(1) have ttl_pos: "0 < gcra_ttl p ei b" by linarith
  have now: "now0 \<le> now" "sorted (now # nows)" using Cons.prems(1) by simp_all
  have script: "gcra_script (r_get R now key s) now ei b = gcra_script stored now ei b"
    by (rule gcra_script_eff [OF Cons.prems(2) [OF now(1)]])
  obtain ok left retry_ms reset_ms nt where
    g: "gcra_script stored now ei b = ((ok, left, retry_ms, reset_ms), nt)"
    by (metis prod.exhaust)
  have ok: "ok = 1 \<longleftrightarrow> nt \<noteq> None" using gcra_script_allowed [of stored now ei b] by (simp add: g)
  have chk: "gcra_check R True now key limit burst period now s =
    (Some \<lparr>allowed = (ok = 1), remaining = left, limit_of = wrap_i64 (int (max limit 1)),
           reset_after_secs = ms_to_secs_ceil reset_ms,
           decision_retry_after = ms_to_secs_ceil retry_ms\<rparr>,
     case nt of None \<Rightarrow> s | Some t \<Rightarrow> r_set_px R now key t (gcra_ttl p ei b) s)"
    unfolding gcra_check_def Let_def p_def [symmetric] b_def [symmetric] ei_def [symmetric] script g
    using ttl_pos by (simp split: option.split)
  show ?case
  proof (cases nt)
    case None
    then have "gcra_run R key limit burst period nows s = gcra_admitted ei b stored nows"
      using now Cons.prems(2) by (intro Cons.IH [OF now(2)]) auto
    then show ?thesis using None chk ok g by simp
  next
    case (Some t)
    let ?s = "r_set_px R now key t (gcra_ttl p ei b) s"
    have "t \<le> now + ei * b" by (rule gcra_script_new_tat [of stored]) (simp add: g Some)
    then have "eff_tat (r_get R u key ?s) u = eff_tat (Some t) u" if "now \<le> u" for u
      using that pos get_set_px [OF ttl_pos that, of key key t s] ttl
      by (auto simp: eff_tat_def)
    then have "gcra_run R key limit burst period nows ?s = gcra_admitted ei b (Some t) nows"
      by (intro Cons.IH [OF now(2)])
    then show ?thesis using Some chk ok g by simp
  qed
qed simp

lemma gcra_run_empty:
  assumes "ttl_fits limit burst period" "sorted nows" "\<And>t. r_get R t key s = None"
  shows "gcra_run R key limit burst period nows s =
    gcra_admitted (emission_interval_ms (int (max period 1) * 1000) (int (max limit 1)))
      (int (max burst 1)) None nows"
proof (cases nows)
  case (Cons now rest)
  show ?thesis
    by (rule gcra_run_admitted [of _ _ _ now]) (use assms Cons in auto)
qed simp

end

interpretation gks: gcra_store keyspace_ops
  by (rule gcra_store.intro [OF ks.redis_store_axioms])

text \<open>\<^bold>\<open>C6.\<close> The distributed limit holds: among the requests a key is admitted, any that fall
  within one period of each other number at most \<open>limit + burst\<close>, for every server that keeps the
  laws of \<open>GET\<close> and \<open>SET PX\<close>, with the keys expiring as the check asks.\<close>

theorem gcra_window_bound:
  assumes "redis_store R" and "ttl_fits limit burst period" and "sorted nows"
    and "\<And>t. r_get R t key s = None"
    and "i \<le> j" and "j < length (gcra_run R key limit burst period nows s)"
    and "gcra_run R key limit burst period nows s ! j - gcra_run R key limit burst period nows s ! i
           \<le> int (max period 1) * 1000"
  shows "j - i + 1 \<le> max limit 1 + max burst 1"
proof -
  let ?p = "int (max period 1) * 1000" and ?l = "int (max limit 1)" and ?b = "int (max burst 1)"
  let ?ei = "emission_interval_ms ?p ?l"
  have pos: "0 < ?ei" by (simp add: emission_interval_pos)
  note run = gcra_store.gcra_run_empty [OF gcra_store.intro [OF assms(1)] assms(2,3,4)]
  have "int (j - i + 1) * ?ei \<le> ?p + ?b * ?ei"
    using gcra_admission_bound [of ?ei i j ?b None nows] pos assms(5-7) unfolding run by simp
  also have "\<dots> \<le> ?l * ?ei + ?b * ?ei"
    using emission_interval_covers [of ?l ?p] by simp
  finally have "int (j - i + 1) * ?ei \<le> (?l + ?b) * ?ei" by (simp add: algebra_simps)
  then have "int (j - i + 1) \<le> ?l + ?b" using pos by (rule mult_right_le_imp_le)
  then show ?thesis by linarith
qed

theorem gcra_window_bound_witness:
  "gcra_run keyspace_ops ''k'' 60 2 60 [0, 0, 0, 1000] Map.empty = [0, 0, 1000]
   \<and> (2 :: nat) - 0 + 1 \<le> max 60 1 + max 2 1"
proof -
  have fits: "ttl_fits 60 2 60" by (simp add: ttl_fits_def emission_interval_ms_def int_ranges)
  have none: "r_get keyspace_ops t ''k'' Map.empty = (None :: int option)" for t
    by (simp add: keyspace_ops_def ks_get_def)
  have "gcra_admitted 1000 2 None [0, 0, 0, 1000] = [0, 0, 1000]"
    by (simp add: gcra_script_def Let_def)
  then have run: "gcra_run keyspace_ops ''k'' 60 2 60 [0, 0, 0, 1000] Map.empty = [0, 0, 1000]"
    using gks.gcra_run_empty [OF fits _ none, of "[0, 0, 0, 1000]"]
    by (simp add: emission_interval_ms_def)
  show ?thesis
    using gcra_window_bound [OF ks.redis_store_axioms fits _ none, of "[0, 0, 0, 1000]" 0 2] run
    by simp
qed

section \<open>What the client is told\<close>

lemma ms_to_secs_ceil_bounds:
  "ms \<le> int (ms_to_secs_ceil ms) * 1000"
  "0 < ms \<Longrightarrow> (int (ms_to_secs_ceil ms) - 1) * 1000 < ms"
  by (auto simp: ms_to_secs_ceil_def)

text \<open>A rejected request changes nothing, and its \<open>Retry-After\<close> is exact: with no other
  request of the key in between, a retry after that many seconds is admitted, and one a second
  earlier is not.\<close>

theorem gcra_retry_after_exact:
  assumes "gcra_script (Some tat) now ei burst = ((ok, left, retry_ms, reset_ms), None)"
    and "0 < ei" and "1 \<le> burst"
  shows "ok = 0 \<and> 0 < retry_ms
    \<and> snd (gcra_script (Some tat) (now + int (ms_to_secs_ceil retry_ms) * 1000) ei burst) \<noteq> None
    \<and> snd (gcra_script (Some tat) (now + (int (ms_to_secs_ceil retry_ms) - 1) * 1000) ei burst) = None"
proof -
  have nn: "0 \<le> ei * (burst - 1)" using assms(2,3) by simp
  have r: "ok = 0" "retry_ms = tat - now - ei * (burst - 1)" "0 < retry_ms" "now < tat"
    using assms(1) nn by (auto simp: gcra_script_def Let_def split: if_splits)
  have admit: "snd (gcra_script (Some tat) u ei burst) = None \<longleftrightarrow> u < now + retry_ms" for u
    using nn r by (auto simp: gcra_script_reject)
  show ?thesis
    using r ms_to_secs_ceil_bounds [of retry_ms] by (auto simp: admit)
qed

theorem gcra_retry_after_exact_witness:
  "gcra_script (Some 2500) 0 1000 2 = ((0, 0, 1500, 2500), None)
   \<and> snd (gcra_script (Some 2500) 2000 1000 2) \<noteq> None
   \<and> snd (gcra_script (Some 2500) 1000 1000 2) = None"
proof -
  have run: "gcra_script (Some 2500) 0 1000 2 = ((0, 0, 1500, 2500), None)"
    by (simp add: gcra_script_def)
  from gcra_retry_after_exact [OF run] run show ?thesis by (simp add: ms_to_secs_ceil_def)
qed

lemma gcra_same_instant:
  assumes "0 < ei" "now \<le> tat"
  shows "length (gcra_admitted ei burst (Some tat) (replicate n now)) =
    min n (nat ((ei * (burst - 1) - (tat - now)) div ei + 1))"
  using assms(2)
proof (induction n arbitrary: tat)
  case (Suc n)
  let ?room = "ei * (burst - 1) - (tat - now)"
  show ?case
  proof (cases "0 \<le> ?room")
    case True
    then have adm: "snd (gcra_script (Some tat) now ei burst) = Some (tat + ei)"
      using Suc.prems by (simp add: gcra_script_admit Let_def max_def)
    have "length (gcra_admitted ei burst (Some (tat + ei)) (replicate n now)) =
        min n (nat ((ei * (burst - 1) - (tat + ei - now)) div ei + 1))"
      using Suc.prems assms(1) by (intro Suc.IH) simp
    moreover have "ei * (burst - 1) - (tat + ei - now) = ?room - ei" by simp
    moreover have "(?room - ei) div ei = ?room div ei - 1"
      using assms(1) div_mult_self1 [of ei ?room "-1"] by simp
    ultimately have "length (gcra_admitted ei burst (Some (tat + ei)) (replicate n now)) =
        min n (nat (?room div ei))" by simp
    moreover have "0 \<le> ?room div ei" using True assms(1) by (simp add: pos_imp_zdiv_nonneg_iff)
    ultimately show ?thesis using adm by (simp add: nat_add_distrib)
  next
    case False
    then have rej: "snd (gcra_script (Some tat) now ei burst) = None"
      using Suc.prems by (auto simp: gcra_script_reject)
    moreover have "gcra_admitted ei burst (Some tat) (replicate m now) = []" for m
      using rej by (induction m) simp_all
    moreover have "?room div ei < 0" using False assms(1) by (simp add: div_neg_pos_less0)
    ultimately show ?thesis by simp
  qed
qed simp

text \<open>The \<open>remaining\<close> count is exact: after an admission that reports \<open>r\<close> remaining, of
  any number of further requests at the same instant exactly the first \<open>r\<close> are admitted.\<close>

theorem gcra_remaining_exact:
  assumes "gcra_script stored now ei burst = ((ok, left, retry_ms, reset_ms), Some tat)"
    and "0 < ei"
  shows "length (gcra_admitted ei burst (Some tat) (replicate n now)) = min n (nat left)"
proof -
  have t: "now \<le> tat" and
    l: "nat left = nat ((ei * (burst - 1) - (tat - now)) div ei + 1)"
    using assms by (auto simp: gcra_script_def Let_def split: if_splits option.splits)
  show ?thesis using gcra_same_instant [OF assms(2) t] l by simp
qed

theorem gcra_remaining_exact_witness:
  "gcra_script None 0 1000 3 = ((1, 2, 0, 1000), Some 1000)
   \<and> length (gcra_admitted 1000 3 (Some 1000) (replicate 5 0)) = 2"
proof -
  have run: "gcra_script None 0 1000 3 = ((1, 2, 0, 1000), Some 1000)"
    by (simp add: gcra_script_def)
  from gcra_remaining_exact [OF run, of 5] run show ?thesis by simp
qed

end
