(* ===== verification/Auth_Tokens.thy ===== *)
theory Auth_Tokens
  imports App_Errors Redis
begin

text \<open>
  Tokens (\<open>src/services/auth_service.rs\<close>, \<open>src/security/token_revocation.rs\<close>,
  \<open>src/middleware/auth.rs\<close>): the signing keys, issuing and validating tokens, one-time and backup
  codes, the denylist and the epoch of a user, and the middleware in front of the protected routes.
  An outer \<open>None\<close> is a panic: a missing \<open>JWT_SECRET\<close>. Seconds are Unix time; Redis counts
  milliseconds of the same clock. Encrypted columns are their plain text. A header is what
  \<open>to_str\<close> returns.

  The JWT, bcrypt, base32 and TOTP libraries are parameters. The locale \<open>jwt_library\<close> states what
  the code relies on: a token made with a key and HS256 keeps its header and decodes, with the same
  key, to its claims while they are valid, and only then. The locale \<open>epoch_counter\<close> states what
  \<open>GET\<close> and \<open>INCR\<close> do to a key without expiry.
\<close>

section \<open>Claims and keys\<close>

record claims =
  cl_sub :: string
  cl_kind :: string
  cl_role :: string
  cl_exp :: nat
  cl_iat :: nat
  cl_nbf :: nat
  cl_iss :: string
  cl_aud :: string
  cl_jti :: string
  cl_family :: "string option"
  cl_tv :: int

datatype jwt_alg = HS256 | OtherAlg string

record jwt_header =
  jh_alg :: jwt_alg
  jh_kid :: "string option"

text \<open>\<open>jwt_decode now leeway secret token\<close> checks the signature and the times.\<close>

record jwt_ops =
  jwt_encode :: "jwt_header \<Rightarrow> claims \<Rightarrow> string \<Rightarrow> string option"
  jwt_decode_header :: "string \<Rightarrow> jwt_header option"
  jwt_decode :: "nat \<Rightarrow> nat \<Rightarrow> string \<Rightarrow> string \<Rightarrow> claims option"

definition ACCESS_TOKEN_SECS :: nat where "ACCESS_TOKEN_SECS = 900"
definition REFRESH_TOKEN_SECS :: nat where "REFRESH_TOKEN_SECS = 604800"
definition CLOCK_SKEW_LEEWAY_SECS :: nat where "CLOCK_SKEW_LEEWAY_SECS = 30"

definition jwt_issuer :: "env \<Rightarrow> string" where
  "jwt_issuer env = (case env ''JWT_ISSUER'' of Some v \<Rightarrow> v | None \<Rightarrow> ''stellar-tipjar-backend'')"

definition jwt_audience :: "env \<Rightarrow> string" where
  "jwt_audience env = (case env ''JWT_AUDIENCE'' of Some v \<Rightarrow> v | None \<Rightarrow> ''stellar-tipjar-api'')"

record keyset =
  ks_keys :: "string \<rightharpoonup> string"
  ks_active_kid :: string

text \<open>One entry \<open>kid:secret\<close> of \<open>JWT_SIGNING_KEYS\<close>; entries with an empty part are skipped.\<close>

definition add_key_pair :: "string \<Rightarrow> (string \<rightharpoonup> string) \<Rightarrow> (string \<rightharpoonup> string)" where
  "add_key_pair raw keys =
     (let pair = trim raw;
          (kid, secret) = (case split_once (CHR '':'') pair of
             Some (a, b) \<Rightarrow> (trim a, trim b) | None \<Rightarrow> (trim pair, []))
      in if pair = [] \<or> kid = [] \<or> secret = [] then keys else keys(kid \<mapsto> secret))"

definition load_keyset :: "env \<Rightarrow> (app_error + keyset) option" where
  "load_keyset env =
     (case env ''JWT_SIGNING_KEYS'' of
        Some raw \<Rightarrow>
          (let keys = fold add_key_pair (split_char (CHR '','') raw) Map.empty in
           Some (case env ''JWT_ACTIVE_KID'' of
                   None \<Rightarrow> Err Internal
                 | Some kid \<Rightarrow> if keys kid = None then Err Internal
                              else Ok \<lparr>ks_keys = keys, ks_active_kid = kid\<rparr>))
      | None \<Rightarrow>
          map_option (\<lambda>secret. Ok \<lparr>ks_keys = [''default'' \<mapsto> secret], ks_active_kid = ''default''\<rparr>)
            (env ''JWT_SECRET''))"

definition sign :: "jwt_ops \<Rightarrow> claims \<Rightarrow> keyset \<Rightarrow> app_error + string" where
  "sign J c keys =
     (case ks_keys keys (ks_active_kid keys) of
        None \<Rightarrow> Err Internal
      | Some secret \<Rightarrow>
          (case jwt_encode J \<lparr>jh_alg = HS256, jh_kid = Some (ks_active_kid keys)\<rparr> c secret of
             None \<Rightarrow> Err Internal | Some t \<Rightarrow> Ok t))"

section \<open>Issuing\<close>

record issued_tokens =
  it_access_token :: string
  it_refresh_token :: string
  it_access_jti :: string
  it_refresh_jti :: string

definition access_claims :: "env \<Rightarrow> nat \<Rightarrow> string \<Rightarrow> string \<Rightarrow> string \<Rightarrow> int \<Rightarrow> claims" where
  "access_claims env now jti username role tv =
     \<lparr>cl_sub = username, cl_kind = ''access'', cl_role = role, cl_exp = now + ACCESS_TOKEN_SECS,
      cl_iat = now, cl_nbf = now, cl_iss = jwt_issuer env, cl_aud = jwt_audience env, cl_jti = jti,
      cl_family = None, cl_tv = tv\<rparr>"

definition refresh_claims :: "env \<Rightarrow> nat \<Rightarrow> string \<Rightarrow> string \<Rightarrow> string \<Rightarrow> string \<Rightarrow> int \<Rightarrow> claims" where
  "refresh_claims env now jti username role family tv =
     \<lparr>cl_sub = username, cl_kind = ''refresh'', cl_role = role, cl_exp = now + REFRESH_TOKEN_SECS,
      cl_iat = now, cl_nbf = now, cl_iss = jwt_issuer env, cl_aud = jwt_audience env, cl_jti = jti,
      cl_family = Some family, cl_tv = tv\<rparr>"

definition issue_tokens ::
  "jwt_ops \<Rightarrow> env \<Rightarrow> nat \<Rightarrow> string \<Rightarrow> string \<Rightarrow> string \<Rightarrow> string \<Rightarrow> string \<Rightarrow> int \<Rightarrow> (app_error + issued_tokens) option" where
  "issue_tokens J env now access_jti refresh_jti username role family tv =
     (case load_keyset env of
        None \<Rightarrow> None
      | Some (Inl e) \<Rightarrow> Some (Err e)
      | Some (Inr keys) \<Rightarrow>
          Some (case sign J (access_claims env now access_jti username role tv) keys of
             Inl e \<Rightarrow> Err e
           | Inr a \<Rightarrow>
               (case sign J (refresh_claims env now refresh_jti username role family tv) keys of
                  Inl e \<Rightarrow> Err e
                | Inr r \<Rightarrow> Ok \<lparr>it_access_token = a, it_refresh_token = r,
                               it_access_jti = access_jti, it_refresh_jti = refresh_jti\<rparr>)))"

section \<open>Validating\<close>

definition unauthorized_token :: app_error where
  "unauthorized_token = Unauthorized ''Invalid or expired token''"

definition validate_token :: "jwt_ops \<Rightarrow> env \<Rightarrow> nat \<Rightarrow> string \<Rightarrow> string \<Rightarrow> (app_error + claims) option" where
  "validate_token J env now token expected_kind =
     (case load_keyset env of
        None \<Rightarrow> None
      | Some (Inl e) \<Rightarrow> Some (Err e)
      | Some (Inr keys) \<Rightarrow>
          Some (case jwt_decode_header J token of
             None \<Rightarrow> Err unauthorized_token
           | Some h \<Rightarrow>
               if jh_alg h \<noteq> HS256 then Err unauthorized_token
               else (case ks_keys keys (case jh_kid h of Some k \<Rightarrow> k | None \<Rightarrow> ks_active_kid keys) of
                  None \<Rightarrow> Err unauthorized_token
                | Some secret \<Rightarrow>
                    (case jwt_decode J now CLOCK_SKEW_LEEWAY_SECS secret token of
                       None \<Rightarrow> Err unauthorized_token
                     | Some c \<Rightarrow>
                         if cl_iss c \<noteq> jwt_issuer env \<or> cl_aud c \<noteq> jwt_audience env
                         then Err unauthorized_token
                         else if cl_kind c \<noteq> expected_kind then Err (Unauthorized ''Invalid token kind'')
                         else Ok c))))"

section \<open>Codes\<close>

text \<open>\<open>bcrypt_hash\<close> gets the salt; \<open>None\<close> is an error of the library. \<open>totp_custom\<close> has the arguments of
  the library: the period, the number of digits, the secret and the time.\<close>

record crypto_ops =
  bcrypt_hash :: "string \<Rightarrow> string \<Rightarrow> string option"
  bcrypt_verify :: "string \<Rightarrow> string \<Rightarrow> bool option"
  base32_decode :: "string \<Rightarrow> u8 list option"
  totp_custom :: "nat \<Rightarrow> nat \<Rightarrow> u8 list \<Rightarrow> nat \<Rightarrow> string"

definition hash_password :: "crypto_ops \<Rightarrow> string \<Rightarrow> string \<Rightarrow> app_error + string" where
  "hash_password C salt password = (case bcrypt_hash C salt password of Some h \<Rightarrow> Ok h | None \<Rightarrow> Err Internal)"

definition verify_password :: "crypto_ops \<Rightarrow> string \<Rightarrow> string \<Rightarrow> app_error + bool" where
  "verify_password C password hash = (case bcrypt_verify C password hash of Some b \<Rightarrow> Ok b | None \<Rightarrow> Err Internal)"

text \<open>The step of each offset is computed from the clock and passed as the period; the time passed is
  the constant 30.\<close>

definition totp_step :: "int \<Rightarrow> int \<Rightarrow> nat" where
  "totp_step now offset = nat (max 0 (max i64_min (min i64_max (now + offset * 30)))) div 30"

definition validate_totp_code :: "crypto_ops \<Rightarrow> int \<Rightarrow> string \<Rightarrow> string \<Rightarrow> app_error + bool" where
  "validate_totp_code C now secret code =
     (case base32_decode C secret of
        None \<Rightarrow> Err (Unauthorized ''Invalid two-factor secret'')
      | Some bytes \<Rightarrow> Ok (list_ex (\<lambda>offset. code = totp_custom C (totp_step now offset) 6 bytes 30) [-1, 0, 1]))"

fun verify_backup_code :: "crypto_ops \<Rightarrow> string \<Rightarrow> string list \<Rightarrow> app_error + nat option" where
  "verify_backup_code C code [] = Ok None"
| "verify_backup_code C code (h # hs) =
     (case bcrypt_verify C code h of
        None \<Rightarrow> Err Internal
      | Some True \<Rightarrow> Ok (Some 0)
      | Some False \<Rightarrow> map_sum id (map_option Suc) (verify_backup_code C code hs))"

section \<open>Revocation\<close>

record 'c counter_ops =
  c_get :: "string \<Rightarrow> 'c \<Rightarrow> int option"
  c_incr :: "string \<Rightarrow> 'c \<Rightarrow> 'c"

record ('r, 'c) revocations =
  rv_denied :: 'r
  rv_epochs :: 'c

definition denylist_key :: "string \<Rightarrow> string" where "denylist_key jti = ''revoked_jti:'' @ jti"
definition epoch_key :: "string \<Rightarrow> string" where "epoch_key username = ''token_epoch:'' @ username"

definition revoke_jti ::
  "(string, 'r) redis_ops \<Rightarrow> bool \<Rightarrow> int \<Rightarrow> string \<Rightarrow> int \<Rightarrow> ('r, 'c) revocations \<Rightarrow> ('r, 'c) revocations" where
  "revoke_jti R fault now_ms jti ttl_secs s =
     (if ttl_secs \<le> 0 \<or> fault then s
      else s\<lparr>rv_denied := r_set_px R now_ms (denylist_key jti) ''1'' (1000 * ttl_secs) (rv_denied s)\<rparr>)"

definition bump_epoch :: "'c counter_ops \<Rightarrow> bool \<Rightarrow> string \<Rightarrow> ('r, 'c) revocations \<Rightarrow> ('r, 'c) revocations" where
  "bump_epoch K fault username s =
     (if fault then s else s\<lparr>rv_epochs := c_incr K (epoch_key username) (rv_epochs s)\<rparr>)"

definition epoch_of :: "'c counter_ops \<Rightarrow> string \<Rightarrow> ('r, 'c) revocations \<Rightarrow> int" where
  "epoch_of K username s = (case c_get K (epoch_key username) (rv_epochs s) of Some n \<Rightarrow> n | None \<Rightarrow> 0)"

definition current_epoch :: "'c counter_ops \<Rightarrow> bool \<Rightarrow> string \<Rightarrow> ('r, 'c) revocations \<Rightarrow> int" where
  "current_epoch K fault username s = (if fault then 0 else epoch_of K username s)"

definition check_not_revoked ::
  "(string, 'r) redis_ops \<Rightarrow> 'c counter_ops \<Rightarrow> bool \<Rightarrow> int \<Rightarrow> string \<Rightarrow> string \<Rightarrow> int \<Rightarrow> ('r, 'c) revocations
     \<Rightarrow> app_error + unit" where
  "check_not_revoked R K fault now_ms jti username token_tv s =
     (if fault then Err (ServiceUnavailable ''Unable to verify session status'')
      else if r_get R now_ms (denylist_key jti) (rv_denied s) \<noteq> None
      then Err (Unauthorized ''Token has been revoked'')
      else if token_tv < epoch_of K username s then Err (Unauthorized ''Token has been revoked'')
      else Ok ())"

section \<open>The middleware\<close>

datatype role = Guest | Supporter | CreatorRole | Moderator | Admin

definition role_try_from :: "string \<Rightarrow> role option" where
  "role_try_from s =
     (if s = ''guest'' then Some Guest else if s = ''supporter'' then Some Supporter
      else if s = ''creator'' then Some CreatorRole else if s = ''moderator'' then Some Moderator
      else if s = ''admin'' then Some Admin else None)"

datatype permission = CreateCreator | UpdateCreator | DeleteCreator | SendTip | WithdrawFunds
  | ViewAnalytics | ManageUsers | ModerateContent

fun allowed_for :: "permission \<Rightarrow> role \<Rightarrow> bool" where
  "allowed_for p Admin = True"
| "allowed_for p Moderator \<longleftrightarrow> p \<in> {ModerateContent, ViewAnalytics}"
| "allowed_for p CreatorRole \<longleftrightarrow> p \<in> {CreateCreator, UpdateCreator, WithdrawFunds, ViewAnalytics}"
| "allowed_for p Supporter \<longleftrightarrow> p = SendTip"
| "allowed_for p Guest = False"

text \<open>Who the request is, or why it is refused; without Redis nothing is checked beyond the token.\<close>

definition authenticate ::
  "jwt_ops \<Rightarrow> (string, 'r) redis_ops \<Rightarrow> 'c counter_ops \<Rightarrow> env \<Rightarrow> bool \<Rightarrow> bool \<Rightarrow> int \<Rightarrow> headers \<Rightarrow> ('r, 'c) revocations
     \<Rightarrow> (app_error + claims \<times> role) option" where
  "authenticate J R K env redis fault now_ms hs s =
     (case Option.bind (header_get hs ''authorization'') (strip_prefix ''Bearer '') of
        None \<Rightarrow> Some (Err (Unauthorized ''Missing Authorization header''))
      | Some token \<Rightarrow>
          (case validate_token J env (nat (now_ms div 1000)) token ''access'' of
             None \<Rightarrow> None
           | Some (Inl e) \<Rightarrow> Some (Err unauthorized_token)
           | Some (Inr c) \<Rightarrow>
               Some (case (if redis then check_not_revoked R K fault now_ms (cl_jti c) (cl_sub c) (cl_tv c) s
                           else Ok ()) of
                       Inl e \<Rightarrow> Err e
                     | Inr u \<Rightarrow> Ok (c, case role_try_from (cl_role c) of Some r \<Rightarrow> r | None \<Rightarrow> Guest))))"

definition require_auth ::
  "jwt_ops \<Rightarrow> (string, 'r) redis_ops \<Rightarrow> 'c counter_ops \<Rightarrow> env \<Rightarrow> bool \<Rightarrow> bool \<Rightarrow> int \<Rightarrow> headers \<Rightarrow> ('r, 'c) revocations
     \<Rightarrow> (claims \<times> role \<Rightarrow> response) \<Rightarrow> response option" where
  "require_auth J R K env redis fault now_ms hs s next =
     map_option (\<lambda>r. case r of Inl e \<Rightarrow> into_response None e | Inr who \<Rightarrow> next who)
       (authenticate J R K env redis fault now_ms hs s)"

section \<open>Tokens round-trip, also across a key rotation\<close>

locale jwt_library =
  fixes J :: jwt_ops
  assumes header_of: "jwt_encode J h c k = Some t \<Longrightarrow> jwt_decode_header J t = Some h"
    and decode_encode: "jwt_encode J h c k = Some t \<Longrightarrow> jh_alg h = HS256 \<Longrightarrow>
      jwt_decode J now leeway k t = (if now \<le> cl_exp c + leeway \<and> cl_nbf c \<le> now + leeway then Some c else None)"

definition in_validity :: "nat \<Rightarrow> claims \<Rightarrow> bool" where
  "in_validity t c \<longleftrightarrow> t \<le> cl_exp c + CLOCK_SKEW_LEEWAY_SECS \<and> cl_nbf c \<le> t + CLOCK_SKEW_LEEWAY_SECS"

text \<open>The answer the validator owes a token with claims \<open>c\<close> of this issuer.\<close>

definition verdict :: "nat \<Rightarrow> string \<Rightarrow> claims \<Rightarrow> app_error + claims" where
  "verdict t kind c =
     (if \<not> in_validity t c then Err unauthorized_token
      else if cl_kind c \<noteq> kind then Err (Unauthorized ''Invalid token kind'') else Ok c)"

context jwt_library
begin

lemma validate_signed:
  assumes "sign J c keys = Ok t" and "load_keyset env = Some (Ok keys')"
    and "ks_keys keys' (ks_active_kid keys) = ks_keys keys (ks_active_kid keys)"
    and "cl_iss c = jwt_issuer env" and "cl_aud c = jwt_audience env"
  shows "validate_token J env now t kind = Some (verdict now kind c)"
proof -
  obtain secret where k: "ks_keys keys (ks_active_kid keys) = Some secret"
    and t: "jwt_encode J \<lparr>jh_alg = HS256, jh_kid = Some (ks_active_kid keys)\<rparr> c secret = Some t"
    using assms(1) by (auto simp: sign_def split: option.splits)
  show ?thesis
    using assms(2-5) k header_of [OF t] decode_encode [OF t]
    by (auto simp: validate_token_def verdict_def in_validity_def)
qed

lemma validate_issued:
  assumes "issue_tokens J env now aj rj u role fam tv = Some (Ok it)"
    and "load_keyset env = Some (Ok keys)" and "load_keyset env' = Some (Ok keys')"
    and "ks_keys keys' (ks_active_kid keys) = ks_keys keys (ks_active_kid keys)"
    and "jwt_issuer env' = jwt_issuer env" and "jwt_audience env' = jwt_audience env"
  shows "validate_token J env' t (it_access_token it) kind = Some (verdict t kind (access_claims env now aj u role tv))"
    and "validate_token J env' t (it_refresh_token it) kind = Some (verdict t kind (refresh_claims env now rj u role fam tv))"
proof -
  have a: "sign J (access_claims env now aj u role tv) keys = Ok (it_access_token it)"
    and r: "sign J (refresh_claims env now rj u role fam tv) keys = Ok (it_refresh_token it)"
    using assms(1,2) by (auto simp: issue_tokens_def split: sum.splits)
  show "validate_token J env' t (it_access_token it) kind = Some (verdict t kind (access_claims env now aj u role tv))"
    by (rule validate_signed [OF a assms(3,4)]) (simp_all add: access_claims_def assms(5,6))
  show "validate_token J env' t (it_refresh_token it) kind = Some (verdict t kind (refresh_claims env now rj u role fam tv))"
    by (rule validate_signed [OF r assms(3,4)]) (simp_all add: refresh_claims_def assms(5,6))
qed

end

text \<open>A library that knows a fixed table of tokens: the laws can hold.\<close>

type_synonym token_table = "(string \<times> jwt_header \<times> claims \<times> string) list"

definition table_jwt :: "token_table \<Rightarrow> jwt_ops" where
  "table_jwt tab =
     \<lparr>jwt_encode = (\<lambda>h c k. map_option fst (List.find (\<lambda>(t, h', c', k'). h' = h \<and> c' = c \<and> k' = k) tab)),
      jwt_decode_header = (\<lambda>t. map_option fst (map_of tab t)),
      jwt_decode = (\<lambda>now leeway k t. case map_of tab t of
         Some (h, c, k') \<Rightarrow>
           if k' = k \<and> jh_alg h = HS256 \<and> now \<le> cl_exp c + leeway \<and> cl_nbf c \<le> now + leeway then Some c else None
       | None \<Rightarrow> None)\<rparr>"

lemma table_jwt_library:
  assumes "distinct (map fst tab)"
  shows "jwt_library (table_jwt tab)"
proof -
  have "map_of tab t = Some (h, c, k)" if "jwt_encode (table_jwt tab) h c k = Some t" for h c k t
    using that assms by (auto simp: table_jwt_def find_Some_iff in_set_conv_nth [symmetric]
        intro!: map_of_is_SomeI dest: nth_mem)
  then show ?thesis by unfold_locales (auto simp: table_jwt_def)
qed

text \<open>\<^bold>\<open>C15.\<close> Tokens round-trip: an issued token is validated, with exactly the claims it was issued with,
  from 30 seconds before it was issued to 30 seconds after it expires, under its own kind and no
  other; and this stays so when the keys are rotated, as long as the key that signed it is still
  in the set.\<close>

theorem issued_tokens_validate:
  assumes "jwt_library J"
    and "issue_tokens J env now aj rj u role fam tv = Some (Ok it)"
    and "load_keyset env = Some (Ok keys)" and "load_keyset env' = Some (Ok keys')"
    and "ks_keys keys' (ks_active_kid keys) = ks_keys keys (ks_active_kid keys)"
    and "jwt_issuer env' = jwt_issuer env" and "jwt_audience env' = jwt_audience env"
  shows "(validate_token J env' t (it_access_token it) ''access'' = Some (Ok (access_claims env now aj u role tv))
      \<longleftrightarrow> now \<le> t + 30 \<and> t \<le> now + 930)
    \<and> (validate_token J env' t (it_refresh_token it) ''refresh'' = Some (Ok (refresh_claims env now rj u role fam tv))
      \<longleftrightarrow> now \<le> t + 30 \<and> t \<le> now + 604830)
    \<and> (\<forall>c. validate_token J env' t (it_refresh_token it) ''access'' \<noteq> Some (Ok c)
         \<and> validate_token J env' t (it_access_token it) ''refresh'' \<noteq> Some (Ok c))"
  unfolding jwt_library.validate_issued [OF assms]
  by (auto simp: verdict_def in_validity_def access_claims_def refresh_claims_def
      ACCESS_TOKEN_SECS_def REFRESH_TOKEN_SECS_def CLOCK_SKEW_LEEWAY_SECS_def)

definition demo_vars :: env where "demo_vars = [''JWT_SECRET'' \<mapsto> ''s'']"

text \<open>After a rotation: the old key is still known, a new one signs.\<close>

definition rotated_vars :: env where
  "rotated_vars = [''JWT_SIGNING_KEYS'' \<mapsto> ''default:s,k2:t'', ''JWT_ACTIVE_KID'' \<mapsto> ''k2'']"

definition demo_access :: claims where "demo_access = access_claims demo_vars 1000 ''ja'' ''bob'' ''creator'' 0"
definition demo_refresh :: claims where "demo_refresh = refresh_claims demo_vars 1000 ''jr'' ''bob'' ''creator'' ''fam'' 0"

definition demo_tokens :: token_table where
  "demo_tokens =
     [(''access'', \<lparr>jh_alg = HS256, jh_kid = Some ''default''\<rparr>, demo_access, ''s''),
      (''refresh'', \<lparr>jh_alg = HS256, jh_kid = Some ''default''\<rparr>, demo_refresh, ''s'')]"

interpretation tj: jwt_library "table_jwt demo_tokens"
  by (rule table_jwt_library) (simp add: demo_tokens_def)

lemma demo_keyset: "load_keyset demo_vars = Some (Ok \<lparr>ks_keys = [''default'' \<mapsto> ''s''], ks_active_kid = ''default''\<rparr>)"
  by (simp add: load_keyset_def demo_vars_def)

lemma demo_issue:
  "issue_tokens (table_jwt demo_tokens) demo_vars 1000 ''ja'' ''jr'' ''bob'' ''creator'' ''fam'' 0 =
     Some (Ok \<lparr>it_access_token = ''access'', it_refresh_token = ''refresh'', it_access_jti = ''ja'', it_refresh_jti = ''jr''\<rparr>)"
proof -
  have "demo_access \<noteq> demo_refresh" by (simp add: demo_access_def demo_refresh_def access_claims_def refresh_claims_def)
  then show ?thesis
    by (simp add: issue_tokens_def demo_keyset sign_def table_jwt_def demo_tokens_def
        flip: demo_access_def demo_refresh_def)
qed

lemma load_keyset_keys:
  assumes "env ''JWT_SIGNING_KEYS'' = Some raw" and "env ''JWT_ACTIVE_KID'' = Some kid"
    and "fold add_key_pair (split_char (CHR '','') raw) Map.empty kid = Some secret"
  shows "load_keyset env = Some (Ok \<lparr>ks_keys = fold add_key_pair (split_char (CHR '','') raw) Map.empty, ks_active_kid = kid\<rparr>)"
  using assms by (simp add: load_keyset_def)

theorem issued_tokens_validate_witness:
  "validate_token (table_jwt demo_tokens) rotated_vars 1900 ''access'' ''access'' = Some (Ok demo_access)"
proof -
  let ?keys = "fold add_key_pair (split_char (CHR '','') ''default:s,k2:t'') Map.empty"
  have keys: "?keys ''default'' = Some ''s''" "?keys ''k2'' = Some ''t''"
    by (simp_all add: add_key_pair_def trim_all_graphic graphic_def)
  have rot: "load_keyset rotated_vars = Some (Ok \<lparr>ks_keys = ?keys, ks_active_kid = ''k2''\<rparr>)"
    by (rule load_keyset_keys [OF _ _ keys(2)]) (simp_all add: rotated_vars_def)
  have "jwt_issuer rotated_vars = jwt_issuer demo_vars" "jwt_audience rotated_vars = jwt_audience demo_vars"
    by (simp_all add: jwt_issuer_def jwt_audience_def rotated_vars_def demo_vars_def)
  note valid = issued_tokens_validate [OF tj.jwt_library_axioms demo_issue demo_keyset rot _ this, of 1900]
  have "ks_keys \<lparr>ks_keys = ?keys, ks_active_kid = ''k2''\<rparr> ''default'' = Some ''s''"
    unfolding keyset.simps by (rule keys(1))
  then show ?thesis using valid unfolding demo_access_def by (simp del: split_char.simps fold_simps)
qed

section \<open>One-time codes\<close>

text \<open>What the TOTP library documents: the code is the HOTP of the number of whole periods in the time.\<close>

locale totp_library =
  fixes C :: crypto_ops and hotp :: "nat \<Rightarrow> u8 list \<Rightarrow> nat \<Rightarrow> string"
  assumes totp_is_hotp: "0 < step \<Longrightarrow> totp_custom C step digits secret time = hotp digits secret (time div step)"
begin

lemma totp_counter_zero:
  assumes "30 < step"
  shows "totp_custom C step digits secret 30 = hotp digits secret 0"
  using assms totp_is_hotp [of step] by simp

end

definition demo_crypto :: crypto_ops where
  "demo_crypto = \<lparr>bcrypt_hash = (\<lambda>salt p. Some (salt @ p)), bcrypt_verify = (\<lambda>p h. Some (p = h)),
     base32_decode = (\<lambda>s. Some []), totp_custom = (\<lambda>step digits secret time. zfill digits (show_nat (time div step)))\<rparr>"

interpretation dt: totp_library demo_crypto "\<lambda>digits secret n. zfill digits (show_nat n)"
  by unfold_locales (simp add: demo_crypto_def)

text \<open>The second factor does not depend on time: from the 16th minute of 1970 on, the period passed to
  the TOTP library is the number of half-minutes since 1970 and the time passed is 30, so the only
  code accepted for a secret is the one of counter 0, at any moment, and no code of an
  authenticator is accepted unless it happens to equal it.\<close>

theorem totp_code_never_changes:
  assumes "totp_library C hotp" and "base32_decode C secret = Some bytes" and "960 \<le> now" and "now + 30 \<le> i64_max"
  shows "validate_totp_code C now secret code = Ok (code = hotp 6 bytes 0)"
proof -
  have "30 < totp_step now off" if "off \<in> {-1, 0, 1}" for off
  proof -
    have "max i64_min (min i64_max (now + off * 30)) = now + off * 30"
      using that assms(3,4) by (auto simp: int_ranges)
    moreover have "930 \<le> now + off * 30" using that assms(3) by auto
    ultimately have "totp_step now off = nat (now + off * 30) div 30" "930 \<le> nat (now + off * 30)"
      by (auto simp: totp_step_def)
    moreover from this(2) have "930 div 30 \<le> nat (now + off * 30) div 30" by (rule div_le_mono)
    ultimately show ?thesis by simp
  qed
  then have "totp_custom C (totp_step now off) 6 bytes 30 = hotp 6 bytes 0" if "off \<in> {-1, 0, 1}" for off
    using that totp_library.totp_counter_zero [OF assms(1)] by blast
  then show ?thesis using assms(2) by (simp add: validate_totp_code_def)
qed

theorem totp_code_never_changes_witness:
  "validate_totp_code demo_crypto 1700000000 ''s'' ''000000'' = Ok True"
proof -
  have "zfill 6 (show_nat 0) = ''000000''" by code_simp
  with totp_code_never_changes [OF dt.totp_library_axioms, of "''s''" "[]" 1700000000 "''000000''"] show ?thesis
    by (simp add: int_ranges) (simp add: demo_crypto_def)
qed

section \<open>Revocation\<close>

locale epoch_counter =
  fixes K :: "'c counter_ops"
  assumes get_incr: "c_get K k' (c_incr K k s) =
    (let n = (case c_get K k s of Some n \<Rightarrow> n | None \<Rightarrow> 0)
     in if k' = k \<and> n < i64_max then Some (n + 1) else c_get K k' s)"
begin

lemma bump_epoch_less:
  assumes "epoch_of K u s < i64_max"
  shows "epoch_of K u (bump_epoch K False u s) = epoch_of K u s + 1"
  using assms by (simp add: epoch_of_def bump_epoch_def get_incr)

lemma bump_epoch_le: "epoch_of K u s \<le> epoch_of K u (bump_epoch K fault v s)"
  by (auto simp: epoch_of_def bump_epoch_def get_incr Let_def split: option.splits)

end

definition map_counter :: "(string \<rightharpoonup> int) counter_ops" where
  "map_counter = \<lparr>c_get = (\<lambda>k m. m k), c_incr = (\<lambda>k m. let n = (case m k of Some n \<Rightarrow> n | None \<Rightarrow> 0)
     in if n < i64_max then m(k \<mapsto> n + 1) else m)\<rparr>"

interpretation mc: epoch_counter map_counter
  by unfold_locales (auto simp: map_counter_def Let_def)

text \<open>Everything that writes to the revocation store.\<close>

datatype rev_op = DenyJti bool int string int | BumpEpoch bool string

fun rev_step :: "(string, 'r) redis_ops \<Rightarrow> 'c counter_ops \<Rightarrow> rev_op \<Rightarrow> ('r, 'c) revocations \<Rightarrow> ('r, 'c) revocations" where
  "rev_step R K (DenyJti fault now_ms jti ttl) s = revoke_jti R fault now_ms jti ttl s"
| "rev_step R K (BumpEpoch fault u) s = bump_epoch K fault u s"

context epoch_counter
begin

lemma rev_run_epoch: "epoch_of K u s \<le> epoch_of K u (fold (rev_step R K) ops s)"
proof (induction ops arbitrary: s)
  case (Cons x ops)
  have "epoch_of K u s \<le> epoch_of K u (rev_step R K x s)"
    by (cases x) (auto simp: revoke_jti_def epoch_of_def intro: bump_epoch_le [unfolded epoch_of_def])
  with Cons [of "rev_step R K x s"] show ?case by simp
qed simp

end

lemma stale_token_refused:
  assumes "cl_tv c < epoch_of K (cl_sub c) s" and "header_get hs ''authorization'' = Some (''Bearer '' @ token)"
    and "validate_token J env (nat (t div 1000)) token ''access'' = Some (Ok c)"
  shows "\<exists>e. authenticate J R K env True fault t hs s = Some (Err e)"
  using assms by (auto simp: authenticate_def check_not_revoked_def)

text \<open>Raising a user's epoch, as a password change and ``log out everywhere'' do, ends every access
  token issued to the user before: whatever is revoked afterwards, no such token is let through at
  any later time, and it is not let through either while Redis cannot be reached.\<close>

theorem epoch_bump_ends_tokens:
  assumes "epoch_counter K" and "epoch_of K (cl_sub c) s < i64_max" and "cl_tv c \<le> epoch_of K (cl_sub c) s"
    and "header_get hs ''authorization'' = Some (''Bearer '' @ token)"
    and "validate_token J env (nat (t div 1000)) token ''access'' = Some (Ok c)"
  shows "\<exists>e. authenticate J R K env True fault t hs (fold (rev_step R K) ops (bump_epoch K False (cl_sub c) s)) = Some (Err e)"
proof -
  have "cl_tv c < epoch_of K (cl_sub c) (bump_epoch K False (cl_sub c) s)"
    unfolding epoch_counter.bump_epoch_less [OF assms(1,2)] using assms(3) by linarith
  also have "\<dots> \<le> epoch_of K (cl_sub c) (fold (rev_step R K) ops (bump_epoch K False (cl_sub c) s))"
    by (rule epoch_counter.rev_run_epoch [OF assms(1)])
  finally show ?thesis by (rule stale_token_refused [OF _ assms(4,5)])
qed

definition bearer :: "string \<Rightarrow> headers" where
  "bearer token = [''authorization'' \<mapsto> ''Bearer '' @ token]"

lemma bearer_authorization [simp]: "header_get (bearer token) ''authorization'' = Some (''Bearer '' @ token)"
proof -
  have "to_lowercase ''authorization'' = ''authorization''" by code_simp
  then show ?thesis by (simp add: bearer_def header_get_def)
qed

definition no_revocations :: "(string keyspace, string \<rightharpoonup> int) revocations" where
  "no_revocations = \<lparr>rv_denied = Map.empty, rv_epochs = Map.empty\<rparr>"

lemma demo_validate:
  "validate_token (table_jwt demo_tokens) demo_vars t ''access'' ''access'' = Some (verdict t ''access'' demo_access)"
  using tj.validate_issued(1) [OF demo_issue demo_keyset demo_keyset] by (simp add: demo_access_def)

lemma demo_verdict: "verdict t ''access'' demo_access = (if 970 \<le> t \<and> t \<le> 1930 then Ok demo_access else Err unauthorized_token)"
  by (auto simp: verdict_def in_validity_def demo_access_def access_claims_def ACCESS_TOKEN_SECS_def
      CLOCK_SKEW_LEEWAY_SECS_def)

theorem epoch_bump_ends_tokens_witness:
  "\<exists>e. authenticate (table_jwt demo_tokens) keyspace_ops map_counter demo_vars True False 1100000 (bearer ''access'')
     (bump_epoch map_counter False ''bob'' no_revocations) = Some (Err e)"
proof -
  have sub: "cl_sub demo_access = ''bob''" "cl_tv demo_access = 0" by (simp_all add: demo_access_def access_claims_def)
  have e: "epoch_of map_counter ''bob'' no_revocations = 0"
    by (simp add: epoch_of_def no_revocations_def map_counter_def)
  have v: "validate_token (table_jwt demo_tokens) demo_vars (nat (1100000 div 1000)) ''access'' ''access'' = Some (Ok demo_access)"
    unfolding demo_validate demo_verdict by simp
  show ?thesis
    using epoch_bump_ends_tokens [OF mc.epoch_counter_axioms _ _ bearer_authorization v, of no_revocations keyspace_ops False "[]"]
    by (simp add: sub e int_ranges)
qed

text \<open>A logout does not outlive the token: the access token is refused from the logout on, but the
  denylist entry ends when the token expires while the validator still grants 30 seconds, so
  between the two, with the user's epoch unchanged, the logged-out token is let through again.\<close>

theorem logged_out_token_revives:
  assumes "jwt_library J" and "redis_store R"
    and "issue_tokens J env now aj rj u role fam tv = Some (Ok it)" and "load_keyset env = Some (Ok keys)"
    and "header_get hs ''authorization'' = Some (''Bearer '' @ it_access_token it)"
    and "1000 * int now \<le> t0" and "t0 \<le> t" and "epoch_of K u s \<le> tv"
    and "0 < left" and "left = int (now + ACCESS_TOKEN_SECS) - t0 div 1000"
  shows "authenticate J R K env True False t hs (revoke_jti R False t0 aj left s) = Some (
    if t < t0 + 1000 * left then Err (Unauthorized ''Token has been revoked'')
    else if t div 1000 \<le> int now + 930 then
      Ok (access_claims env now aj u role tv, case role_try_from role of Some r \<Rightarrow> r | None \<Rightarrow> Guest)
    else Err unauthorized_token)"
proof -
  let ?c = "access_claims env now aj u role tv"
  have c: "cl_jti ?c = aj" "cl_sub ?c = u" "cl_tv ?c = tv" "cl_role ?c = role" by (simp_all add: access_claims_def)
  have time: "int now \<le> t div 1000" using assms(6,7) by simp
  have v: "validate_token J env (nat (t div 1000)) (it_access_token it) ''access'' =
      Some (if t div 1000 \<le> int now + 930 then Ok ?c else Err unauthorized_token)"
    using jwt_library.validate_issued(1) [OF assms(1,3,4,4)] time
    by (auto simp: verdict_def in_validity_def access_claims_def ACCESS_TOKEN_SECS_def CLOCK_SKEW_LEEWAY_SECS_def
        nat_le_iff)
  have "r_get R t (denylist_key aj) (r_set_px R t0 (denylist_key aj) ''1'' (1000 * left) (rv_denied s))
      = (if t < t0 + 1000 * left then Some ''1'' else None)"
    using redis_store.get_set_px [OF assms(2) _ assms(7)] assms(9) by simp
  moreover have "t div 1000 \<le> int now + 930" if "t < t0 + 1000 * left"
  proof -
    have "t < 1000 * (t0 div 1000) + 1000 + 1000 * left" 
      using that mult_div_mod_eq [of 1000 t0] pos_mod_bound [of 1000 t0] by linarith
    then show ?thesis using assms(10) by (simp add: ACCESS_TOKEN_SECS_def)
  qed
  ultimately show ?thesis
    using assms(5,8,9)
    by (simp add: authenticate_def v check_not_revoked_def revoke_jti_def epoch_of_def c)
qed

theorem logged_out_token_revives_witness:
  "authenticate (table_jwt demo_tokens) keyspace_ops map_counter demo_vars True False 1899000 (bearer ''access'')
      (revoke_jti keyspace_ops False 1000000 ''ja'' 900 no_revocations) = Some (Err (Unauthorized ''Token has been revoked''))
   \<and> authenticate (table_jwt demo_tokens) keyspace_ops map_counter demo_vars True False 1915000 (bearer ''access'')
      (revoke_jti keyspace_ops False 1000000 ''ja'' 900 no_revocations) = Some (Ok (demo_access, CreatorRole))"
proof -
  have e: "epoch_of map_counter ''bob'' no_revocations \<le> 0"
    by (simp add: epoch_of_def no_revocations_def map_counter_def)
  have hs: "header_get (bearer ''access'') ''authorization'' = Some (''Bearer '' @ it_access_token
      \<lparr>it_access_token = ''access'', it_refresh_token = ''refresh'', it_access_jti = ''ja'', it_refresh_jti = ''jr''\<rparr>)"
    by simp
  have left: "(900 :: int) = int (1000 + ACCESS_TOKEN_SECS) - 1000000 div 1000" by (simp add: ACCESS_TOKEN_SECS_def)
  have start: "1000 * int 1000 \<le> 1000000" by simp
  have roles: "(case role_try_from ''creator'' of Some r \<Rightarrow> r | None \<Rightarrow> Guest) = CreatorRole" by (simp add: role_try_from_def)
  note revives = logged_out_token_revives [OF tj.jwt_library_axioms ks.redis_store_axioms demo_issue demo_keyset
      hs start _ e _ left, folded demo_access_def, unfolded roles]
  show ?thesis using revives [of 1899000] revives [of 1915000] by simp
qed

end
