(* ===== verification/Rate_Limiter.thy ===== *)
theory Rate_Limiter
  imports Gcra Http Auth_Tokens
begin

text \<open>
  The gateway's rate-limiting middleware (\<open>src/gateway/rate_limiter.rs\<close>) and what it consults:
  the policy for a degraded limiter (\<open>rate_limit_policy.rs\<close>), the trusted client address
  (\<open>client_ip.rs\<close>) and the caller's identity (\<open>context.rs\<close>). Environment variables, the parser
  of IP addresses and the handler behind the middleware are arguments; the handler is a function on
  its world \<open>'w\<close>, so that a theorem can say that it was not run.
\<close>

section \<open>Callers\<close>

text \<open>A bearer token (its subject, its role and the claims), an API key (its id, the key, its
  name and its permissions), or no credentials.\<close>

datatype gateway_identity =
    Jwt string string claims
  | ApiKey string string string "string list"
  | Anonymous

datatype caller_tier = AnonymousTier | Free | Premium | Admin

definition env_u64 :: "env \<Rightarrow> string \<Rightarrow> nat \<Rightarrow> nat" where
  "env_u64 env key fallback =
     (case Option.bind (env key) (parse_unsigned u64_max) of Some v \<Rightarrow> v | None \<Rightarrow> fallback)"

fun tier_limits :: "env \<Rightarrow> caller_tier \<Rightarrow> nat \<times> nat" where
  "tier_limits env AnonymousTier =
     (env_u64 env ''RATE_LIMIT_ANON_RPM'' 30, env_u64 env ''RATE_LIMIT_ANON_BURST'' 10)"
| "tier_limits env Free =
     (env_u64 env ''RATE_LIMIT_FREE_RPM'' 120, env_u64 env ''RATE_LIMIT_FREE_BURST'' 30)"
| "tier_limits env Premium =
     (env_u64 env ''RATE_LIMIT_PREMIUM_RPM'' 600, env_u64 env ''RATE_LIMIT_PREMIUM_BURST'' 120)"
| "tier_limits env Admin =
     (env_u64 env ''RATE_LIMIT_ADMIN_RPM'' 6000, env_u64 env ''RATE_LIMIT_ADMIN_BURST'' 1000)"

fun tier_as_str :: "caller_tier \<Rightarrow> string" where
  "tier_as_str AnonymousTier = ''anonymous''"
| "tier_as_str Free = ''free''"
| "tier_as_str Premium = ''premium''"
| "tier_as_str Admin = ''admin''"

definition has_any :: "string list \<Rightarrow> string list \<Rightarrow> bool" where
  "has_any names permissions \<longleftrightarrow> list_ex (\<lambda>p. p \<in> set names) permissions"

fun tier_from_identity :: "gateway_identity option \<Rightarrow> caller_tier" where
  "tier_from_identity (Some (Jwt subject role claims)) =
     (if role = ''admin'' \<or> role = ''superadmin'' then Admin
      else if role = ''premium'' then Premium else Free)"
| "tier_from_identity (Some (ApiKey key_id key name permissions)) =
     (if has_any [''*'', ''admin''] permissions then Admin
      else if has_any [''premium''] permissions then Premium else Free)"
| "tier_from_identity (Some Anonymous) = AnonymousTier"
| "tier_from_identity None = AnonymousTier"

section \<open>Paths\<close>

definition last_path_segment :: "string \<Rightarrow> string option" where
  "last_path_segment path =
     (case filter (\<lambda>s. s \<noteq> [] \<and> \<not> starts_with s ''v'')
             (split_char (CHR ''/'') (trim_start_char (CHR ''/'') path)) of
        [] \<Rightarrow> None
      | segs \<Rightarrow> Some (replace_char (CHR ''-'') (CHR ''_'') (to_uppercase (last segs))))"

record route_rate_config = ov_rpm :: nat ov_burst :: nat

definition route_override :: "env \<Rightarrow> string \<Rightarrow> route_rate_config option" where
  "route_override env path =
     (case last_path_segment path of
        None \<Rightarrow> None
      | Some key \<Rightarrow>
          (case Option.bind (env (''ROUTE_RL_'' @ key @ ''_RPM'')) (parse_unsigned u64_max) of
             None \<Rightarrow> None
           | Some rpm \<Rightarrow>
               Some \<lparr>ov_rpm = rpm,
                     ov_burst = (case Option.bind (env (''ROUTE_RL_'' @ key @ ''_BURST''))
                                        (parse_unsigned u64_max) of
                                   Some b \<Rightarrow> b | None \<Rightarrow> rpm div 4)\<rparr>))"

section \<open>The policy of a degraded limiter\<close>

datatype fail_policy = FailOpen | FailClosed

definition FAIL_CLOSED_MARKERS :: "string list" where
  "FAIL_CLOSED_MARKERS = [''/auth/'', ''/login'', ''/register'', ''/password'', ''/api-keys'',
                          ''/mfa'', ''/2fa'', ''/otp'']"

definition parse_policy_env :: "env \<Rightarrow> string \<Rightarrow> fail_policy option" where
  "parse_policy_env env var =
     (case env var of
        None \<Rightarrow> None
      | Some raw \<Rightarrow>
          (let v = to_lowercase raw in
           if v \<in> {''closed'', ''fail_closed'', ''fail-closed''} then Some FailClosed
           else if v \<in> {''open'', ''fail_open'', ''fail-open''} then Some FailOpen
           else None))"

definition resolve_policy :: "env \<Rightarrow> string \<Rightarrow> fail_policy" where
  "resolve_policy env path =
     (case Option.bind (last_path_segment path)
             (\<lambda>segment. parse_policy_env env (''RATE_LIMIT_FAIL_POLICY_'' @ segment)) of
        Some policy \<Rightarrow> policy
      | None \<Rightarrow>
          (case parse_policy_env env ''RATE_LIMIT_FAIL_POLICY_DEFAULT'' of
             Some policy \<Rightarrow> policy
           | None \<Rightarrow>
               if list_ex (contains path) FAIL_CLOSED_MARKERS then FailClosed else FailOpen))"

section \<open>The client's address\<close>

record request =
  req_path :: string
  req_identity :: "gateway_identity option"
  req_xff :: "string option"
  req_peer :: "string option"

definition trusted_proxy_depth :: "env \<Rightarrow> nat" where
  "trusted_proxy_depth env = env_u64 env ''TRUSTED_PROXY_DEPTH'' 0"

definition xff_hops :: "string \<Rightarrow> string list" where
  "xff_hops header = filter (\<lambda>s. s \<noteq> []) (map trim (split_char (CHR '','') header))"

definition resolve_from_xff :: "(string \<Rightarrow> string option) \<Rightarrow> string \<Rightarrow> nat \<Rightarrow> string option" where
  "resolve_from_xff parse_ip header depth =
     (let hops = xff_hops header in
      if hops = [] \<or> length hops < depth then None
      else (let idx = length hops - depth in
            if idx < length hops then parse_ip (hops ! idx) else None))"

definition extract_client_ip :: "(string \<Rightarrow> string option) \<Rightarrow> env \<Rightarrow> request \<Rightarrow> string" where
  "extract_client_ip parse_ip env req =
     (let depth = trusted_proxy_depth env;
          peer = (case req_peer req of Some ip \<Rightarrow> ip | None \<Rightarrow> ''0.0.0.0'')
      in if 0 < depth then
           (case req_xff req of
              Some header \<Rightarrow>
                (case resolve_from_xff parse_ip header depth of Some ip \<Rightarrow> ip | None \<Rightarrow> peer)
            | None \<Rightarrow> peer)
         else peer)"

definition client_key :: "(string \<Rightarrow> string option) \<Rightarrow> env \<Rightarrow> request \<Rightarrow> string" where
  "client_key parse_ip env req =
     (case req_identity req of
        Some (Jwt subject role claims) \<Rightarrow> ''rl:jwt:'' @ subject
      | Some (ApiKey key_id key name permissions) \<Rightarrow> ''rl:apikey:'' @ take 16 key
      | _ \<Rightarrow> ''rl:ip:'' @ extract_client_ip parse_ip env req)"

section \<open>The middleware\<close>

definition add_rate_limit_headers :: "nat \<Rightarrow> int \<Rightarrow> nat \<Rightarrow> response \<Rightarrow> response" where
  "add_rate_limit_headers limit left reset r =
     (let l = show_nat limit; m = show_nat (nat (max left 0)); t = show_nat reset in
      set_header ''RateLimit-Reset'' t (set_header ''RateLimit-Remaining'' m
        (set_header ''RateLimit-Limit'' l (set_header ''X-RateLimit-Reset'' t
          (set_header ''X-RateLimit-Remaining'' m (set_header ''X-RateLimit-Limit'' l r))))))"

definition opt_json :: "string option \<Rightarrow> json" where
  "opt_json s = (case s of Some v \<Rightarrow> JStr v | None \<Rightarrow> JNull)"

definition too_many_requests ::
  "string option \<Rightarrow> string \<Rightarrow> nat \<Rightarrow> string \<Rightarrow> nat \<Rightarrow> nat \<Rightarrow> response" where
  "too_many_requests request_id message retry_after tier limit reset =
     (let b = JObj [(''error'', JStr message), (''code'', JStr ''RATE_LIMIT_EXCEEDED''),
                    (''status'', JNum 429),
                    (''details'', JObj [(''tier'', JStr tier), (''limit_rpm'', JNum (int limit)),
                       (''retry_after_secs'', JNum (int retry_after)),
                       (''reset_at_secs'', JNum (int reset))]),
                    (''request_id'', opt_json request_id)]
      in add_rate_limit_headers limit 0 reset
           (set_header ''Retry-After'' (show_nat retry_after) (json_response 429 b)))"

definition degraded_fail_closed :: "string option \<Rightarrow> string \<Rightarrow> response" where
  "degraded_fail_closed request_id tier =
     set_header ''Retry-After'' ''1''
       (json_response 503 (JObj [(''error'', JStr (''Rate limiting is temporarily unavailable and this ''
             @ ''endpoint fails closed for safety. Please retry shortly.'')),
          (''code'', JStr ''RATE_LIMIT_DEGRADED''), (''status'', JNum 503),
          (''details'', JObj [(''tier'', JStr tier)]), (''request_id'', opt_json request_id)]))"

text \<open>\<open>configured\<close> is whether the application has a Redis connection, \<open>up\<close> whether the call
  succeeds; \<open>rt\<close> is the server's clock and \<open>now_ms\<close> the process's.\<close>

definition gateway_rate_limit ::
  "(int, 's) redis_ops \<Rightarrow> (string \<Rightarrow> string option) \<Rightarrow> env \<Rightarrow> bool \<Rightarrow> bool \<Rightarrow> int \<Rightarrow> int
     \<Rightarrow> string option \<Rightarrow> ('w \<Rightarrow> response \<times> 'w) \<Rightarrow> request \<Rightarrow> 's \<Rightarrow> 'w \<Rightarrow> response \<times> 's \<times> 'w" where
  "gateway_rate_limit R parse_ip env configured up rt now_ms request_id handler req s w =
     (let path = req_path req;
          tier = tier_from_identity (req_identity req);
          tier_str = tier_as_str tier;
          (rpm, burst) = (case route_override env path of
                            Some ov \<Rightarrow> (ov_rpm ov, ov_burst ov) | None \<Rightarrow> tier_limits env tier);
          key = client_key parse_ip env req;
          (result, s') = (if configured
                          then gcra_check R up rt (key @ '':gcra'') rpm burst 60 now_ms s
                          else (None, s))
      in case result of
           Some decision \<Rightarrow>
             if \<not> allowed decision then
               (too_many_requests request_id ''Rate limit exceeded. Please slow down.''
                  (decision_retry_after decision) tier_str (as_u64 (limit_of decision))
                  (reset_after_secs decision), s', w)
             else
               (let (resp, w') = handler w in
                (set_header ''X-RateLimit-Tier'' tier_str
                   (add_rate_limit_headers (as_u64 (limit_of decision)) (remaining decision)
                      (reset_after_secs decision) resp), s', w'))
         | None \<Rightarrow>
             (case resolve_policy env path of
                FailClosed \<Rightarrow> (degraded_fail_closed request_id tier_str, s', w)
              | FailOpen \<Rightarrow>
                  (let reset = 60 - (as_u64 now_ms div 1000) mod 60;
                       (resp, w') = handler w
                   in (set_header ''X-RateLimit-Degraded'' ''true''
                         (set_header ''X-RateLimit-Tier'' tier_str
                            (add_rate_limit_headers rpm (wrap_i64 (int rpm)) reset resp)), s', w'))))"

section \<open>What reaches the handler\<close>

text \<open>The gate: a request over its limit gets a 429 with the exact \<open>Retry-After\<close>, and a
  request on a route that fails closed gets a 503 while the limiter is degraded (Redis not
  configured, or failing); in both cases the handler is not run and the limiter's state does not
  change. Every other request runs the handler and keeps its status and body.\<close>

theorem rate_limit_gate:
  assumes "(case route_override env (req_path req) of Some ov \<Rightarrow> (ov_rpm ov, ov_burst ov)
            | None \<Rightarrow> tier_limits env (tier_from_identity (req_identity req))) = (rpm, burst)"
    and "(if configured then gcra_check R up rt (client_key parse_ip env req @ '':gcra'') rpm burst 60 now_ms s
          else (None, s)) = (result, s1)"
    and "gateway_rate_limit R parse_ip env configured up rt now_ms rid handler req s w = (resp, s', w')"
  shows "s' = s1 \<and>
    (case result of
       Some d \<Rightarrow>
         if allowed d then status resp = status (fst (handler w)) \<and> rbody resp = rbody (fst (handler w))
                           \<and> w' = snd (handler w)
         else status resp = 429 \<and> w' = w
              \<and> header_get (rheaders resp) ''Retry-After'' = Some (show_nat (decision_retry_after d))
     | None \<Rightarrow>
         if resolve_policy env (req_path req) = FailClosed
         then status resp = 503 \<and> w' = w \<and> header_get (rheaders resp) ''Retry-After'' = Some ''1''
         else status resp = status (fst (handler w)) \<and> rbody resp = rbody (fst (handler w))
              \<and> w' = snd (handler w))"
  using assms(3) unfolding gateway_rate_limit_def Let_def assms(1) prod.case assms(2)
  by (auto simp: too_many_requests_def degraded_fail_closed_def add_rate_limit_headers_def Let_def
      split: option.splits if_splits fail_policy.splits prod.splits)

text \<open>A request to log in, with no Redis connection.\<close>

definition login_request :: request where
  "login_request = \<lparr>req_path = ''/api/v1/login'', req_identity = None, req_xff = None,
                    req_peer = Some ''10.0.0.1''\<rparr>"

lemma login_fails_closed: "resolve_policy (\<lambda>_. None) ''/api/v1/login'' = FailClosed"
  by (simp add: resolve_policy_def parse_policy_env_def FAIL_CLOSED_MARKERS_def starts_with_def
      bind_eq_Some_conv split: option.split)

theorem rate_limit_gate_witness:
  "\<exists>resp. gateway_rate_limit (keyspace_ops :: (int, int keyspace) redis_ops) Some (\<lambda>_. None) False True
       0 0 None (\<lambda>n :: nat. (json_response 200 JNull, n + 1)) login_request Map.empty 0
     = (resp, Map.empty, 0) \<and> status resp = 503"
proof -
  let ?run = "gateway_rate_limit (keyspace_ops :: (int, int keyspace) redis_ops) Some (\<lambda>_. None) False True
       0 0 None (\<lambda>n :: nat. (json_response 200 JNull, n + 1)) login_request Map.empty 0"
  obtain resp s' w' where run: "?run = (resp, s', w')" by (metis prod_cases3)
  have limits: "(case route_override (\<lambda>_. None) (req_path login_request) of
      Some ov \<Rightarrow> (ov_rpm ov, ov_burst ov)
    | None \<Rightarrow> tier_limits (\<lambda>_. None) (tier_from_identity (req_identity login_request))) = (30, 10)"
    by (simp add: route_override_def login_request_def env_u64_def split: option.split)
  from rate_limit_gate [OF limits _ run] run show ?thesis
    using login_fails_closed by (simp add: login_request_def)
qed

section \<open>The client's address cannot be forged\<close>

lemma xff_hops_append: "xff_hops (forged @ '','' @ header) = xff_hops forged @ xff_hops header"
  by (simp add: xff_hops_def split_char_append_sep)

text \<open>What a client puts in front of \<open>X-Forwarded-For\<close> does not matter: once the trusted
  proxies have appended at least \<open>depth\<close> hops, any prefix leaves the resolved address unchanged.\<close>

theorem forged_hops_ignored:
  assumes "depth \<le> length (xff_hops header)" and "0 < depth"
  shows "resolve_from_xff parse_ip (forged @ '','' @ header) depth = resolve_from_xff parse_ip header depth"
proof -
  let ?f = "xff_hops forged" and ?h = "xff_hops header"
  have idx: "length (?f @ ?h) - depth = length ?f + (length ?h - depth)" using assms(1) by simp
  show ?thesis
    using assms unfolding resolve_from_xff_def Let_def xff_hops_append idx nth_append_length_plus
    by auto
qed

theorem forged_hops_ignored_witness:
  "resolve_from_xff Some (''6.6.6.6'' @ '','' @ ''1.2.3.4'') 1 = Some ''1.2.3.4''"
proof -
  have h: "xff_hops ''1.2.3.4'' = [''1.2.3.4'']"
    by (simp add: xff_hops_def split_char_no_sep trim_all_graphic graphic_def)
  have "resolve_from_xff Some ''1.2.3.4'' 1 = Some ''1.2.3.4''"
    by (simp add: resolve_from_xff_def h)
  with forged_hops_ignored [of 1 "''1.2.3.4''" Some "''6.6.6.6''"] h show ?thesis by simp
qed

end
