(* ===== verification/Idempotency_Store.thy ===== *)
theory Idempotency_Store
  imports Redis
begin

text \<open>
  The storage of the idempotency subsystem (\<open>src/idempotency/store.rs\<close>, \<open>error.rs\<close>): the Redis
  backend and the Postgres fallback, which share the protocol of the trait \<open>IdempotencyBackend\<close>,
  here the locale \<open>idempotency_backend\<close>. Times are milliseconds of one clock; \<open>flt k\<close> is the
  error of the \<open>k\<close>-th command of an operation, if it fails. The compression of the crate
  \<open>flate2\<close> is a record of two functions; a stored record is the value itself, its JSON encoding
  being that of \<open>serde_json\<close> in both directions.
\<close>

section \<open>The protocol\<close>

datatype idempotency_error = Backend string | Serialization string

fun is_backend_unavailable :: "idempotency_error \<Rightarrow> bool" where
  "is_backend_unavailable (Backend _) = True"
| "is_backend_unavailable (Serialization _) = False"

record stored_response =
  st_status :: nat
  st_content_type :: "string option"
  st_body :: string

datatype decision = Proceed string | Replay stored_response | Mismatch | Conflicting nat

type_synonym faults = "nat \<Rightarrow> string option"

record gzip =
  gz_compress :: "string \<Rightarrow> string"
  gz_decompress :: "string \<Rightarrow> string option"

definition decompress :: "gzip \<Rightarrow> string \<Rightarrow> idempotency_error + string" where
  "decompress gz b =
     (case gz_decompress gz b of Some x \<Rightarrow> Ok x | None \<Rightarrow> Err (Serialization ''corrupt gzip stream''))"

section \<open>The Redis backend\<close>

record redis_record =
  rr_status :: nat
  rr_content_type :: "string option"
  rr_fingerprint :: string
  rr_body_gzip :: string

datatype idem_value = LockToken string | DoneRecord redis_record

definition lock_key :: "string \<Rightarrow> string" where "lock_key scope = ''idem:lock:'' @ scope"
definition done_key :: "string \<Rightarrow> string" where "done_key scope = ''idem:done:'' @ scope"

text \<open>The first command of \<open>begin\<close>: \<open>None\<close> when nothing is completed yet.\<close>

definition replay_decision ::
  "gzip \<Rightarrow> string \<Rightarrow> redis_record \<Rightarrow> idempotency_error + decision" where
  "replay_decision gz fingerprint r =
     (if rr_fingerprint r = fingerprint then
        (case decompress gz (rr_body_gzip r) of
           Inl e \<Rightarrow> Err e
         | Inr b \<Rightarrow> Ok (Replay \<lparr>st_status = rr_status r, st_content_type = rr_content_type r,
                               st_body = b\<rparr>))
      else Ok Mismatch)"

definition redis_check_done ::
  "(idem_value, 's) redis_ops \<Rightarrow> gzip \<Rightarrow> faults \<Rightarrow> int \<Rightarrow> string \<Rightarrow> string \<Rightarrow> 's
     \<Rightarrow> (idempotency_error + decision) option" where
  "redis_check_done R gz flt t scope fingerprint s =
     (case flt 0 of
        Some e \<Rightarrow> Some (Err (Backend e))
      | None \<Rightarrow>
          (case r_get R t (done_key scope) s of
             None \<Rightarrow> None
           | Some (DoneRecord r) \<Rightarrow> Some (replay_decision gz fingerprint r)
           | Some (LockToken _) \<Rightarrow> Some (Err (Serialization ''expected struct RedisRecord''))))"

text \<open>The rest of \<open>begin\<close>: acquire the lock, or report how long it is still held.\<close>

definition redis_try_lock ::
  "(idem_value, 's) redis_ops \<Rightarrow> faults \<Rightarrow> int \<Rightarrow> string \<Rightarrow> string \<Rightarrow> int \<Rightarrow> 's
     \<Rightarrow> (idempotency_error + decision) \<times> 's" where
  "redis_try_lock R flt t scope token lock_ttl s =
     (case flt 1 of
        Some e \<Rightarrow> (Err (Backend e), s)
      | None \<Rightarrow>
          if lock_ttl \<le> 0 then (Err (Backend ''ERR invalid expire time''), s)
          else
            (let (acquired, s') = r_set_nx_px R t (lock_key scope) (LockToken token) lock_ttl s in
             if acquired then (Ok (Proceed token), s')
             else
               (let pttl = (case flt 2 of Some e \<Rightarrow> 1000 | None \<Rightarrow> r_pttl R t (lock_key scope) s')
                in (Ok (Conflicting (max (nat (max pttl 0) div 1000) 1)), s'))))"

definition redis_begin ::
  "(idem_value, 's) redis_ops \<Rightarrow> gzip \<Rightarrow> faults \<Rightarrow> int \<Rightarrow> string \<Rightarrow> string \<Rightarrow> string \<Rightarrow> int \<Rightarrow> 's
     \<Rightarrow> (idempotency_error + decision) \<times> 's" where
  "redis_begin R gz flt t token scope fingerprint lock_ttl s =
     (case redis_check_done R gz flt t scope fingerprint s of
        Some d \<Rightarrow> (d, s)
      | None \<Rightarrow> redis_try_lock R flt t scope token lock_ttl s)"

text \<open>The compare-and-delete script.\<close>

definition release_redis_lock ::
  "(idem_value, 's) redis_ops \<Rightarrow> string option \<Rightarrow> int \<Rightarrow> string \<Rightarrow> string \<Rightarrow> 's
     \<Rightarrow> (idempotency_error + unit) \<times> 's" where
  "release_redis_lock R fault t scope token s =
     (case fault of
        Some e \<Rightarrow> (Err (Backend e), s)
      | None \<Rightarrow>
          (Ok (), if r_get R t (lock_key scope) s = Some (LockToken token)
                  then r_del R t (lock_key scope) s else s))"

definition redis_complete ::
  "(idem_value, 's) redis_ops \<Rightarrow> gzip \<Rightarrow> faults \<Rightarrow> int \<Rightarrow> string \<Rightarrow> string \<Rightarrow> string
     \<Rightarrow> stored_response \<Rightarrow> int \<Rightarrow> nat \<Rightarrow> 's \<Rightarrow> (idempotency_error + unit) \<times> 's" where
  "redis_complete R gz flt t scope token fingerprint response entry_ttl_secs max_body s =
     (let body_gzip = gz_compress gz (st_body response) in
      if length body_gzip \<le> max_body then
        (case (if entry_ttl_secs \<le> 0 then Some ''ERR invalid expire time'' else flt 0) of
           Some e \<Rightarrow> (Err (Backend e), s)
         | None \<Rightarrow>
             (let rec = \<lparr>rr_status = st_status response, rr_content_type = st_content_type response,
                         rr_fingerprint = fingerprint, rr_body_gzip = body_gzip\<rparr>
              in release_redis_lock R (flt 1) t scope token
                   (r_set_px R t (done_key scope) (DoneRecord rec) (entry_ttl_secs * 1000) s)))
      else release_redis_lock R (flt 1) t scope token s)"

definition redis_fail ::
  "(idem_value, 's) redis_ops \<Rightarrow> faults \<Rightarrow> int \<Rightarrow> string \<Rightarrow> string \<Rightarrow> 's
     \<Rightarrow> (idempotency_error + unit) \<times> 's" where
  "redis_fail R flt t scope token s = release_redis_lock R (flt 0) t scope token s"

section \<open>The Postgres backend\<close>

record pg_row =
  pg_in_flight :: bool
  pg_status :: "nat option"
  pg_content_type :: "string option"
  pg_body :: "string option"
  pg_fingerprint :: string
  pg_created_at :: int
  pg_expires_at :: int

type_synonym pg_table = "string \<rightharpoonup> pg_row"

definition fresh_row :: "int \<Rightarrow> string \<Rightarrow> pg_row" where
  "fresh_row t fingerprint =
     \<lparr>pg_in_flight = True, pg_status = None, pg_content_type = None, pg_body = None,
      pg_fingerprint = fingerprint, pg_created_at = t, pg_expires_at = t + 3600000\<rparr>"

text \<open>\<open>begin\<close> on a row that exists and has not expired.\<close>

definition pg_inspect ::
  "gzip \<Rightarrow> string option \<Rightarrow> int \<Rightarrow> string \<Rightarrow> string \<Rightarrow> string \<Rightarrow> int \<Rightarrow> pg_row \<Rightarrow> pg_table
     \<Rightarrow> (idempotency_error + decision) \<times> pg_table" where
  "pg_inspect gz fault t token scope fingerprint lock_ttl r m =
     (if \<not> pg_in_flight r then
        (if pg_fingerprint r = fingerprint then
           (case decompress gz (case pg_body r of Some b \<Rightarrow> b | None \<Rightarrow> []) of
              Inl e \<Rightarrow> Err e
            | Inr b \<Rightarrow> Ok (Replay \<lparr>st_status = (case pg_status r of Some n \<Rightarrow> n | None \<Rightarrow> 200),
                                  st_content_type = pg_content_type r, st_body = b\<rparr>))
         else Ok Mismatch, m)
      else
        (case fault of
           Some e \<Rightarrow> (Err (Backend e), m)
         | None \<Rightarrow>
             if pg_created_at r < t - lock_ttl
             then (Ok (Proceed token),
                   m(scope \<mapsto> r\<lparr>pg_created_at := t, pg_fingerprint := fingerprint\<rparr>))
             else (Ok (Conflicting (max (nat (lock_ttl div 1000)) 1)), m)))"

text \<open>\<open>begin\<close>: the insert, the look at the row, and for an expired row its deletion and the
  recursive call. With the table not changed by others in between, the recursive call inserts, so
  the recursion is one level deep; \<open>flt (k + 3)\<close> and so on are the commands of that call.\<close>

definition pg_begin ::
  "gzip \<Rightarrow> faults \<Rightarrow> int \<Rightarrow> string \<Rightarrow> string \<Rightarrow> string \<Rightarrow> int \<Rightarrow> pg_table
     \<Rightarrow> (idempotency_error + decision) \<times> pg_table" where
  "pg_begin gz flt t token scope fingerprint lock_ttl m =
     (case flt 0 of
        Some e \<Rightarrow> (Err (Backend e), m)
      | None \<Rightarrow>
          (case m scope of
             None \<Rightarrow> (Ok (Proceed token), m(scope \<mapsto> fresh_row t fingerprint))
           | Some r \<Rightarrow>
               (case flt 1 of
                  Some e \<Rightarrow> (Err (Backend e), m)
                | None \<Rightarrow>
                    if t < pg_expires_at r then
                      pg_inspect gz (flt 2) t token scope fingerprint lock_ttl r m
                    else
                      (case flt 2 of
                         Some e \<Rightarrow> (Err (Backend e), m)
                       | None \<Rightarrow>
                           (case flt 3 of
                              Some e \<Rightarrow> (Err (Backend e), m(scope := None))
                            | None \<Rightarrow> (Ok (Proceed token), m(scope \<mapsto> fresh_row t fingerprint)))))))"

text \<open>\<open>complete\<close>: an \<open>UPDATE\<close>, so it changes nothing when there is no row.\<close>

definition pg_complete ::
  "gzip \<Rightarrow> faults \<Rightarrow> int \<Rightarrow> string \<Rightarrow> string \<Rightarrow> string \<Rightarrow> stored_response \<Rightarrow> int \<Rightarrow> nat \<Rightarrow> pg_table
     \<Rightarrow> (idempotency_error + unit) \<times> pg_table" where
  "pg_complete gz flt t scope token fingerprint response entry_ttl_secs max_body m =
     (let body_gzip = gz_compress gz (st_body response);
          stored = (if length body_gzip \<le> max_body then Some body_gzip else None)
      in case flt 0 of
           Some e \<Rightarrow> (Err (Backend e), m)
         | None \<Rightarrow>
             (Ok (), case m scope of
                None \<Rightarrow> m
              | Some r \<Rightarrow>
                  m(scope \<mapsto> r\<lparr>pg_in_flight := False, pg_status := Some (st_status response),
                               pg_content_type := st_content_type response, pg_body := stored,
                               pg_expires_at := t + entry_ttl_secs * 1000\<rparr>)))"

definition pg_fail ::
  "faults \<Rightarrow> int \<Rightarrow> string \<Rightarrow> string \<Rightarrow> pg_table \<Rightarrow> (idempotency_error + unit) \<times> pg_table" where
  "pg_fail flt t scope token m =
     (case flt 0 of
        Some e \<Rightarrow> (Err (Backend e), m)
      | None \<Rightarrow>
          (Ok (), case m scope of
             Some r \<Rightarrow> if pg_in_flight r then m(scope := None) else m
           | None \<Rightarrow> m))"

section \<open>The contract of a backend\<close>

text \<open>The laws of the trait's three operations, with the commands working: a begun request locks its
  scope; a completed one is replayed to the same fingerprint and refused to another; a failed one
  is released. \<open>cacheable\<close> says which responses are kept, \<open>deadline\<close> when the entry of a scope
  expires even though its request is still running, if it does.\<close>

locale idempotency_backend =
  fixes start :: "int \<Rightarrow> string \<Rightarrow> string \<Rightarrow> string \<Rightarrow> 's \<Rightarrow> (idempotency_error + decision) \<times> 's"
    and finish :: "int \<Rightarrow> string \<Rightarrow> string \<Rightarrow> string \<Rightarrow> stored_response \<Rightarrow> 's
                   \<Rightarrow> (idempotency_error + unit) \<times> 's"
    and abandon :: "int \<Rightarrow> string \<Rightarrow> string \<Rightarrow> 's \<Rightarrow> (idempotency_error + unit) \<times> 's"
    and lock_ttl entry_ttl :: int
    and cacheable :: "stored_response \<Rightarrow> bool"
    and deadline :: "'s \<Rightarrow> string \<Rightarrow> int option"
  assumes start_locks:
    "start t tok scope fp s = (Ok (Proceed tok'), s') \<Longrightarrow> t \<le> t' \<Longrightarrow> t' < t + lock_ttl \<Longrightarrow>
     (\<And>d. deadline s' scope = Some d \<Longrightarrow> t' < d) \<Longrightarrow>
       \<exists>n. start t' tok2 scope fp2 s' = (Ok (Conflicting n), s') \<and> 1 \<le> n"
    and finish_replays:
    "start t tok scope fp s = (Ok (Proceed tok'), s') \<Longrightarrow> t \<le> t1 \<Longrightarrow>
     finish t1 scope tok' fp resp s' = (Ok (), s'') \<Longrightarrow> cacheable resp \<Longrightarrow>
     t1 \<le> t2 \<Longrightarrow> t2 < t1 + entry_ttl \<Longrightarrow>
       start t2 tok2 scope fp2 s'' = (Ok (if fp2 = fp then Replay resp else Mismatch), s'')"
    and finish_ok:
    "start t tok scope fp s = (Ok (Proceed tok'), s') \<Longrightarrow> t \<le> t1 \<Longrightarrow>
       fst (finish t1 scope tok' fp resp s') = Ok ()"
    and abandon_releases:
    "start t tok scope fp s = (Ok (Proceed tok'), s') \<Longrightarrow> t \<le> t1 \<Longrightarrow>
     abandon t1 scope tok' s' = (Ok (), s'') \<Longrightarrow> t1 \<le> t2 \<Longrightarrow>
       fst (start t2 tok2 scope fp2 s'') = Ok (Proceed tok2)"
begin

text \<open>Between its begin and its completion, and after it, no second request of the scope runs.\<close>

lemma runs_once:
  assumes "start t tok scope fp s = (Ok (Proceed tok'), s')" "t \<le> t1"
    and "finish t1 scope tok' fp resp s' = (Ok (), s'')" "cacheable resp"
  shows "t \<le> u \<Longrightarrow> u < t + lock_ttl \<Longrightarrow> (\<And>d. deadline s' scope = Some d \<Longrightarrow> u < d) \<Longrightarrow>
      fst (start u tok2 scope fp2 s') \<noteq> Ok (Proceed tok3)"
    and "t1 \<le> u \<Longrightarrow> u < t1 + entry_ttl \<Longrightarrow> fst (start u tok2 scope fp2 s'') \<noteq> Ok (Proceed tok3)"
  using start_locks [OF assms(1), of u tok2 fp2] finish_replays [OF assms, of u tok2 fp2] by auto

end

definition gz_lossless :: "gzip \<Rightarrow> bool" where
  "gz_lossless gz \<longleftrightarrow> (\<forall>b. gz_decompress gz (gz_compress gz b) = Some b)"

definition fits_body :: "gzip \<Rightarrow> nat \<Rightarrow> stored_response \<Rightarrow> bool" where
  "fits_body gz max_body resp \<longleftrightarrow> length (gz_compress gz (st_body resp)) \<le> max_body"

abbreviation no_faults :: faults where "no_faults \<equiv> (\<lambda>_. None)"

lemma keys_distinct [simp]: "lock_key a \<noteq> done_key b" "done_key b \<noteq> lock_key a"
  by (simp_all add: lock_key_def done_key_def)

locale redis_idempotency = redis_store R
  for R :: "(idem_value, 's) redis_ops" +
  fixes gz :: gzip and lock_ttl entry_secs :: int and max_body :: nat
  assumes lossless: "gz_lossless gz" and ttls: "0 < lock_ttl" "0 < entry_secs"
begin

abbreviation rbegin where "rbegin t tok scope fp s \<equiv> redis_begin R gz no_faults t tok scope fp lock_ttl s"

lemma redis_proceed:
  assumes "rbegin t tok scope fp s = (Ok (Proceed tok'), s')"
  shows "tok' = tok" "r_get R t (done_key scope) s = None"
    and "s' = r_set_px R t (lock_key scope) (LockToken tok) lock_ttl s"
  using assms ttls
  by (auto simp: redis_begin_def redis_check_done_def redis_try_lock_def r_set_nx_px_def
      replay_decision_def Let_def split: option.splits idem_value.splits if_splits sum.splits)

lemma not_done_later: "r_get R t k s = None \<Longrightarrow> t \<le> u \<Longrightarrow> r_get R u k s = None"
  using get_earlier by (metis not_Some_eq)

lemma redis_start_locks:
  assumes "rbegin t tok scope fp s = (Ok (Proceed tok'), s')" "t \<le> u" "u < t + lock_ttl"
  shows "\<exists>n. rbegin u tok2 scope fp2 s' = (Ok (Conflicting n), s') \<and> 1 \<le> n"
proof -
  note p = redis_proceed [OF assms(1)]
  have "r_get R u (done_key scope) s' = None" "r_get R u (lock_key scope) s' = Some (LockToken tok)"
    using get_set_px [OF ttls(1) assms(2)] assms(3) not_done_later [OF p(2) assms(2)]
    by (simp_all add: p(3))
  then show ?thesis
    using ttls by (simp add: redis_begin_def redis_check_done_def redis_try_lock_def r_set_nx_px_def)
qed

lemma redis_released:
  assumes "rbegin t tok scope fp s = (Ok (Proceed tok'), s')" "t \<le> t1" "t1 \<le> u"
    and "s'' = snd (release_redis_lock R None t1 scope tok' s')"
  shows "r_get R u (lock_key scope) s'' = None" "r_get R u (done_key scope) s'' = None"
proof -
  note p = redis_proceed [OF assms(1)]
  have tu: "t \<le> u" using assms(2,3) by simp
  have lock: "r_get R v (lock_key scope) s' = (if v < t + lock_ttl then Some (LockToken tok) else None)"
    if "t \<le> v" for v using get_set_px [OF ttls(1) that] by (simp add: p(3))
  have other: "r_get R u (done_key scope) s' = None"
    using get_set_px [OF ttls(1) tu] not_done_later [OF p(2) tu] by (simp add: p(3))
  show "r_get R u (lock_key scope) s'' = None"
    using assms(3,4) lock [OF assms(2)] lock [OF tu] get_del [OF assms(3)]
    by (auto simp: release_redis_lock_def p(1))
  show "r_get R u (done_key scope) s'' = None"
    using assms(3,4) other get_del [OF assms(3)] by (auto simp: release_redis_lock_def)
qed

lemma redis_finish_ok:
  "fst (redis_complete R gz no_faults t1 scope tok fp resp entry_secs max_body s) = Ok ()"
  using ttls by (simp add: redis_complete_def release_redis_lock_def Let_def)

lemma redis_finish_replays:
  assumes "0 < entry_secs" "fits_body gz max_body resp" "t1 \<le> u" "u < t1 + entry_secs * 1000"
    and "redis_complete R gz no_faults t1 scope tok fp resp entry_secs max_body s' = (Ok (), s'')"
  shows "rbegin u tok2 scope fp2 s'' = (Ok (if fp2 = fp then Replay resp else Mismatch), s'')"
proof -
  let ?rec = "\<lparr>rr_status = st_status resp, rr_content_type = st_content_type resp,
               rr_fingerprint = fp, rr_body_gzip = gz_compress gz (st_body resp)\<rparr>"
  let ?s1 = "r_set_px R t1 (done_key scope) (DoneRecord ?rec) (entry_secs * 1000) s'"
  have s'': "s'' = snd (release_redis_lock R None t1 scope tok ?s1)"
    using assms by (simp add: redis_complete_def fits_body_def)
  have "r_get R u (done_key scope) ?s1 = Some (DoneRecord ?rec)"
    using get_set_px [of "entry_secs * 1000" t1 u] assms(1,3,4) by simp
  then have "r_get R u (done_key scope) s'' = Some (DoneRecord ?rec)"
    using get_del [OF assms(3)] by (simp add: s'' release_redis_lock_def)
  then show ?thesis
    using lossless by (simp add: redis_begin_def redis_check_done_def replay_decision_def
        decompress_def gz_lossless_def)
qed

end

sublocale redis_idempotency \<subseteq> idempotency_backend
  "\<lambda>t tok scope fp s. redis_begin R gz no_faults t tok scope fp lock_ttl s"
  "\<lambda>t scope tok fp resp s. redis_complete R gz no_faults t scope tok fp resp entry_secs max_body s"
  "\<lambda>t scope tok s. redis_fail R no_faults t scope tok s"
  lock_ttl "entry_secs * 1000" "fits_body gz max_body" "\<lambda>s scope. None"
proof (unfold_locales, goal_cases)
  case (1 t tok scope fp s tok' s' t' tok2 fp2)
  then show ?case using redis_start_locks by blast
next
  case (2 t tok scope fp s tok' s' t1 resp s'' t2 tok2 fp2)
  then show ?case using redis_finish_replays [OF ttls(2)] by blast
next
  case (3 t tok scope fp s tok' s' t1 resp)
  show ?case by (rule redis_finish_ok)
next
  case (4 t tok scope fp s tok' s' t1 s'' t2 tok2 fp2)
  then have "s'' = snd (release_redis_lock R None t1 scope tok' s')" by (simp add: redis_fail_def)
  from redis_released [OF 4(1,2,4) this] ttls show ?case
    by (simp add: redis_begin_def redis_check_done_def redis_try_lock_def r_set_nx_px_def)
qed

locale pg_idempotency =
  fixes gz :: gzip and lock_ttl entry_secs :: int and max_body :: nat
  assumes lossless: "gz_lossless gz" and ttls: "0 < lock_ttl" "lock_ttl \<le> 3600000" "0 < entry_secs"
begin

abbreviation pbegin where "pbegin t tok scope fp m \<equiv> pg_begin gz no_faults t tok scope fp lock_ttl m"

text \<open>A request that may proceed owns an in-flight row of its fingerprint, created now.\<close>

lemma pg_proceed:
  assumes "pbegin t tok scope fp m = (Ok (Proceed tok'), m')"
  shows "tok' = tok \<and> (\<exists>r. m' scope = Some r \<and> pg_in_flight r \<and> pg_fingerprint r = fp
    \<and> pg_created_at r = t \<and> t < pg_expires_at r
    \<and> (pg_expires_at r = t + 3600000 \<or> (\<exists>r0. m scope = Some r0 \<and> pg_expires_at r = pg_expires_at r0)))"
  using assms
  by (auto simp: pg_begin_def pg_inspect_def fresh_row_def split: option.splits if_splits sum.splits)

lemma pg_start_locks:
  assumes "pbegin t tok scope fp m = (Ok (Proceed tok'), m')" "t \<le> u" "u < t + lock_ttl"
    and "\<And>d. map_option pg_expires_at (m' scope) = Some d \<Longrightarrow> u < d"
  shows "\<exists>n. pbegin u tok2 scope fp2 m' = (Ok (Conflicting n), m') \<and> 1 \<le> n"
  using pg_proceed [OF assms(1)] assms(2-4) by (auto simp: pg_begin_def pg_inspect_def)

lemma pg_finish_replays:
  assumes "pbegin t tok scope fp m = (Ok (Proceed tok'), m')" "fits_body gz max_body resp"
    and "pg_complete gz no_faults t1 scope tok' fp resp entry_secs max_body m' = (Ok (), m'')"
    and "u < t1 + entry_secs * 1000"
  shows "pbegin u tok2 scope fp2 m'' = (Ok (if fp2 = fp then Replay resp else Mismatch), m'')"
  using pg_proceed [OF assms(1)] assms(2-4) lossless
  by (auto simp: pg_complete_def pg_begin_def pg_inspect_def fits_body_def gz_lossless_def
      decompress_def Let_def)

end

sublocale pg_idempotency \<subseteq> idempotency_backend
  "\<lambda>t tok scope fp m. pg_begin gz no_faults t tok scope fp lock_ttl m"
  "\<lambda>t scope tok fp resp m. pg_complete gz no_faults t scope tok fp resp entry_secs max_body m"
  "\<lambda>t scope tok m. pg_fail no_faults t scope tok m"
  lock_ttl "entry_secs * 1000" "fits_body gz max_body" "\<lambda>m scope. map_option pg_expires_at (m scope)"
proof (unfold_locales, goal_cases)
  case (1 t tok scope fp m tok' m' u tok2 fp2)
  then show ?case by (rule pg_start_locks)
next
  case (2 t tok scope fp m tok' m' t1 resp m'' u tok2 fp2)
  then show ?case using pg_finish_replays by blast
next
  case (3 t tok scope fp m tok' m' t1 resp)
  show ?case by (simp add: pg_complete_def Let_def)
next
  case (4 t tok scope fp m tok' m' t1 m'' u tok2 fp2)
  then have "m'' scope = None" using pg_proceed [OF 4(1)] by (auto simp: pg_fail_def)
  then show ?case by (simp add: pg_begin_def)
qed

section \<open>Both backends on concrete stores\<close>

definition plain_gzip :: gzip where
  "plain_gzip = \<lparr>gz_compress = id, gz_decompress = Some\<rparr>"

interpretation ri: redis_idempotency keyspace_ops plain_gzip 30000 86400 65536
  by unfold_locales (simp_all add: gz_lossless_def plain_gzip_def)

interpretation pgi: pg_idempotency plain_gzip 30000 86400 65536
  by unfold_locales (simp_all add: gz_lossless_def plain_gzip_def)

section \<open>Two gaps in the exclusion\<close>

text \<open>The Redis backend can run a request twice: the look for a completed response and the
  attempt to lock are two commands. When the first request completes between them, its lock is
  free again and the second request proceeds, though a response with its own fingerprint is stored
  and would be replayed had it looked a moment later.\<close>

theorem redis_begin_race:
  "let R = keyspace_ops; gz = plain_gzip; resp = \<lparr>st_status = 201, st_content_type = None, st_body = ''x''\<rparr>;
       s1 = snd (redis_begin R gz no_faults 0 ''t1'' ''k'' ''f'' 30000 Map.empty);
       looked = redis_check_done R gz no_faults 10 ''k'' ''f'' s1;
       s2 = snd (redis_complete R gz no_faults 11 ''k'' ''t1'' ''f'' resp 86400 65536 s1)
   in looked = None
    \<and> fst (redis_try_lock R no_faults 12 ''k'' ''t2'' 30000 s2) = Ok (Proceed ''t2'')
    \<and> fst (redis_begin R gz no_faults 12 ''t2'' ''k'' ''f'' 30000 s2) = Ok (Replay resp)"
  by (simp add: redis_begin_def redis_check_done_def redis_try_lock_def redis_complete_def
      release_redis_lock_def r_set_nx_px_def replay_decision_def decompress_def plain_gzip_def
      keyspace_ops_def ks_get_def ks_set_px_def ks_del_def Let_def lock_key_def done_key_def)

text \<open>The Postgres backend loses a reclaimed lock: reclaiming a crashed request's row renews
  its creation time but not its expiry, so a request that comes one hour after the row was first
  made proceeds although the reclaiming request holds a fresh lock.\<close>

theorem pg_reclaimed_lock_lost:
  "let m1 = snd (pg_begin plain_gzip no_faults 0 ''t1'' ''k'' ''f'' 30000 Map.empty);
       (d2, m2) = pg_begin plain_gzip no_faults 3599000 ''t2'' ''k'' ''f'' 30000 m1;
       d3 = fst (pg_begin plain_gzip no_faults 3600000 ''t3'' ''k'' ''f'' 30000 m2)
   in d2 = Ok (Proceed ''t2'') \<and> d3 = Ok (Proceed ''t3'')"
  by (simp add: pg_begin_def pg_inspect_def fresh_row_def Let_def)

end
