(* ===== verification/Idempotency.thy ===== *)
theory Idempotency
  imports Idempotency_Store App_Errors
begin

text \<open>
  The idempotency service over the two backends (\<open>src/idempotency/service.rs\<close>), the fingerprints
  (\<open>fingerprint.rs\<close>) and the middleware that gives a route \<open>Idempotency-Key\<close> semantics
  (\<open>middleware.rs\<close>). SHA-256 (as hexadecimal text), the UUID parser and the collection of a body
  into bytes are arguments; the handler is a function on its world \<open>'w\<close>.
\<close>

section \<open>Fingerprints\<close>

definition compute_fingerprint :: "(string \<Rightarrow> string) \<Rightarrow> string \<Rightarrow> string \<Rightarrow> string \<Rightarrow> string" where
  "compute_fingerprint sha meth path b = sha (meth @ [CHR 0x00] @ path @ [CHR 0x00] @ b)"

definition compute_scope_hash :: "(string \<Rightarrow> string) \<Rightarrow> string \<Rightarrow> string \<Rightarrow> string \<Rightarrow> string" where
  "compute_scope_hash sha caller route key =
     sha (caller @ [CHR 0x00] @ route @ [CHR 0x00] @ key)"

section \<open>The service\<close>

record idempotency_config =
  entry_ttl_secs :: int
  lock_ttl_ms :: int
  max_body_bytes :: nat

definition env_or :: "env \<Rightarrow> string \<Rightarrow> nat \<Rightarrow> nat" where
  "env_or env key d = (case Option.bind (env key) (parse_unsigned u64_max) of Some v \<Rightarrow> v | None \<Rightarrow> d)"

definition idempotency_config_default :: "env \<Rightarrow> idempotency_config" where
  "idempotency_config_default env =
     \<lparr>entry_ttl_secs = int (env_or env ''IDEMPOTENCY_TTL_SECONDS'' (24 * 3600)),
      lock_ttl_ms = int (env_or env ''IDEMPOTENCY_LOCK_TTL_MS'' 30000),
      max_body_bytes = env_or env ''IDEMPOTENCY_MAX_BODY_BYTES'' (64 * 1024)\<rparr>"

record execution_guard =
  guard_scope :: string
  guard_fingerprint :: string
  guard_token :: string

datatype outcome =
    OProceed execution_guard
  | OReplay stored_response
  | OMismatch
  | OConflict nat

text \<open>The service: its configuration and libraries, whether Redis is configured, and the faults of
  the commands of each backend in one operation.\<close>

record 's idem_env =
  ie_config :: idempotency_config
  ie_redis :: "(idem_value, 's) redis_ops option"
  ie_gzip :: gzip
  ie_redis_faults :: faults
  ie_pg_faults :: faults

definition outcome_of :: "string \<Rightarrow> string \<Rightarrow> decision \<Rightarrow> outcome" where
  "outcome_of scope fp d =
     (case d of
        Proceed token \<Rightarrow>
          OProceed \<lparr>guard_scope = scope, guard_fingerprint = fp, guard_token = token\<rparr>
      | Replay r \<Rightarrow> OReplay r
      | Mismatch \<Rightarrow> OMismatch
      | Conflicting n \<Rightarrow> OConflict n)"

definition idem_begin ::
  "'s idem_env \<Rightarrow> (string \<Rightarrow> string) \<Rightarrow> int \<Rightarrow> string \<Rightarrow> string \<Rightarrow> string \<Rightarrow> string \<Rightarrow> string
     \<Rightarrow> 's \<times> pg_table \<Rightarrow> (idempotency_error + outcome) \<times> 's \<times> pg_table" where
  "idem_begin I sha t token caller route key fp st =
     (let (s, m) = st;
          scope = compute_scope_hash sha caller route key;
          cfg = ie_config I;
          pg = (\<lambda>s. let (d, m') = pg_begin (ie_gzip I) (ie_pg_faults I) t token scope fp (lock_ttl_ms cfg) m
                    in (map_sum id (outcome_of scope fp) d, s, m'))
      in case ie_redis I of
           None \<Rightarrow> pg s
         | Some R \<Rightarrow>
             (case redis_begin R (ie_gzip I) (ie_redis_faults I) t token scope fp (lock_ttl_ms cfg) s of
                (Inr d, s') \<Rightarrow> (Ok (outcome_of scope fp d), s', m)
              | (Inl e, s') \<Rightarrow> if is_backend_unavailable e then pg s' else (Err e, s', m)))"

definition idem_complete ::
  "'s idem_env \<Rightarrow> int \<Rightarrow> execution_guard \<Rightarrow> stored_response \<Rightarrow> 's \<times> pg_table
     \<Rightarrow> (idempotency_error + unit) \<times> 's \<times> pg_table" where
  "idem_complete I t g resp st =
     (let (s, m) = st; cfg = ie_config I;
          (r, m') = pg_complete (ie_gzip I) (ie_pg_faults I) t (guard_scope g) (guard_token g)
                      (guard_fingerprint g) resp (entry_ttl_secs cfg) (max_body_bytes cfg) m
      in case r of
           Inl e \<Rightarrow> (Err e, s, m')
         | Inr _ \<Rightarrow>
             (Ok (), case ie_redis I of
                       None \<Rightarrow> s
                     | Some R \<Rightarrow>
                         snd (redis_complete R (ie_gzip I) (ie_redis_faults I) t (guard_scope g)
                                (guard_token g) (guard_fingerprint g) resp (entry_ttl_secs cfg)
                                (max_body_bytes cfg) s), m'))"

definition idem_fail ::
  "'s idem_env \<Rightarrow> int \<Rightarrow> execution_guard \<Rightarrow> 's \<times> pg_table
     \<Rightarrow> (idempotency_error + unit) \<times> 's \<times> pg_table" where
  "idem_fail I t g st =
     (let (s, m) = st;
          s' = (case ie_redis I of
                  None \<Rightarrow> s
                | Some R \<Rightarrow> snd (redis_fail R (ie_redis_faults I) t (guard_scope g) (guard_token g) s));
          (r, m') = pg_fail (ie_pg_faults I) t (guard_scope g) (guard_token g) m
      in (r, s', m'))"

section \<open>The middleware\<close>

record idem_request =
  iq_method :: string
  iq_path :: string
  iq_key :: "string option"
  iq_subject :: "string option"
  iq_ip :: "string option"
  iq_body :: "string option"

definition resolve_principal :: "idem_request \<Rightarrow> string" where
  "resolve_principal q =
     (case iq_subject q of
        Some sub \<Rightarrow> ''user:'' @ sub
      | None \<Rightarrow> (case iq_ip q of Some ip \<Rightarrow> ''ip:'' @ ip | None \<Rightarrow> ''anon:unscoped''))"

definition build_replay_response :: "stored_response \<Rightarrow> response" where
  "build_replay_response stored =
     \<lparr>status = (if 100 \<le> st_status stored \<and> st_status stored \<le> 999 then st_status stored else 200),
      rheaders = (case st_content_type stored of
                    Some ct \<Rightarrow> header_insert ''content-type'' ct (header_insert ''X-Idempotent-Replay'' ''true'' Map.empty)
                  | None \<Rightarrow> header_insert ''X-Idempotent-Replay'' ''true'' Map.empty),
      rbody = Bytes (st_body stored)\<rparr>"

text \<open>What happens to the response of the handler: it is stored, or the lock is released, and it is
  returned with its collected body. \<open>t1\<close> is the time the handler ended.\<close>

definition settle_execution ::
  "'s idem_env \<Rightarrow> (body \<Rightarrow> string option) \<Rightarrow> int \<Rightarrow> string option \<Rightarrow> execution_guard \<Rightarrow> response
     \<Rightarrow> 's \<times> pg_table \<Rightarrow> response \<times> 's \<times> pg_table" where
  "settle_execution I collect t1 rid g resp st =
     (case collect (rbody resp) of
        None \<Rightarrow> (into_response rid Internal, snd (idem_fail I t1 g st))
      | Some bytes \<Rightarrow>
          (let stored = \<lparr>st_status = status resp,
                         st_content_type = header_get (rheaders resp) ''content-type'', st_body = bytes\<rparr>;
               st' = (if status resp < 500 then snd (idem_complete I t1 g stored st)
                      else snd (idem_fail I t1 g st))
           in (set_header ''X-Idempotent-Replay'' ''false'' (resp\<lparr>rbody := Bytes bytes\<rparr>), st')))"

definition idempotency_middleware ::
  "'s idem_env \<Rightarrow> (string \<Rightarrow> string) \<Rightarrow> (string \<Rightarrow> bool) \<Rightarrow> (body \<Rightarrow> string option) \<Rightarrow> int \<Rightarrow> int
     \<Rightarrow> string \<Rightarrow> string option \<Rightarrow> (idem_request \<Rightarrow> 'w \<Rightarrow> response \<times> 'w) \<Rightarrow> idem_request
     \<Rightarrow> ('s \<times> pg_table) \<times> 'w \<Rightarrow> response \<times> ('s \<times> pg_table) \<times> 'w" where
  "idempotency_middleware I sha is_uuid collect t t1 token rid handler q stw =
     (let (st, w) = stw;
          run = (\<lambda>st. let (resp, w') = handler q w in (resp, st, w'))
      in if iq_method q \<notin> {''POST'', ''PUT'', ''PATCH'', ''DELETE''} then run st
         else
           (case iq_key q of
              None \<Rightarrow> run st
            | Some key \<Rightarrow>
                if \<not> is_uuid key then
                  (into_response rid (bad_request ''Idempotency-Key must be a valid UUID''), st, w)
                else
                  (case iq_body q of
                     None \<Rightarrow> (into_response rid (bad_request ''Invalid request body''), st, w)
                   | Some b \<Rightarrow>
                       (let route = iq_method q @ '' '' @ iq_path q;
                            fp = compute_fingerprint sha (iq_method q) (iq_path q) b;
                            (r, st') = idem_begin I sha t token (resolve_principal q) route key fp st
                        in case r of
                             Inl e \<Rightarrow> run st'
                           | Inr (OReplay stored) \<Rightarrow> (build_replay_response stored, st', w)
                           | Inr OMismatch \<Rightarrow>
                               (into_response rid (IdempotencyKeyReused
                                  ''This Idempotency-Key was already used with a different request body''),
                                st', w)
                           | Inr (OConflict n) \<Rightarrow>
                               (into_response rid (IdempotencyKeyLocked n), st', w)
                           | Inr (OProceed g) \<Rightarrow>
                               (let (resp, w') = handler q w;
                                    (resp', st'') = settle_execution I collect t1 rid g resp st'
                                in (resp', st'', w'))))))"

section \<open>Requests with a key\<close>

text \<open>A request the middleware guards, with its key and body, and the service over Redis with every
  command working.\<close>

definition guarded :: "(string \<Rightarrow> bool) \<Rightarrow> idem_request \<Rightarrow> string \<Rightarrow> string \<Rightarrow> bool" where
  "guarded is_uuid q key b \<longleftrightarrow> iq_method q \<in> {''POST'', ''PUT'', ''PATCH'', ''DELETE''}
     \<and> iq_key q = Some key \<and> is_uuid key \<and> iq_body q = Some b"

definition on_redis :: "'s idem_env \<Rightarrow> (idem_value, 's) redis_ops \<Rightarrow> bool" where
  "on_redis I R \<longleftrightarrow> ie_redis I = Some R \<and> ie_redis_faults I = no_faults \<and> ie_pg_faults I = no_faults
     \<and> redis_idempotency R (ie_gzip I) (lock_ttl_ms (ie_config I)) (entry_ttl_secs (ie_config I))"

definition scope_of :: "(string \<Rightarrow> string) \<Rightarrow> idem_request \<Rightarrow> string \<Rightarrow> string" where
  "scope_of sha q key =
     compute_scope_hash sha (resolve_principal q) (iq_method q @ '' '' @ iq_path q) key"

definition fingerprint_of :: "(string \<Rightarrow> string) \<Rightarrow> idem_request \<Rightarrow> string \<Rightarrow> string" where
  "fingerprint_of sha q b = compute_fingerprint sha (iq_method q) (iq_path q) b"

text \<open>The service's begin for a request, which the middleware runs.\<close>

definition begin_for ::
  "'s idem_env \<Rightarrow> (string \<Rightarrow> string) \<Rightarrow> int \<Rightarrow> string \<Rightarrow> idem_request \<Rightarrow> string \<Rightarrow> string \<Rightarrow> 's \<times> pg_table
     \<Rightarrow> (idempotency_error + outcome) \<times> 's \<times> pg_table" where
  "begin_for I sha t token q key b st =
     idem_begin I sha t token (resolve_principal q) (iq_method q @ '' '' @ iq_path q) key
       (fingerprint_of sha q b) st"

lemma middleware_guarded:
  assumes "guarded is_uuid q key b"
  shows "idempotency_middleware I sha is_uuid collect t t1 token rid handler q (st, w) =
    (let (r, st') = begin_for I sha t token q key b st in
     case r of
       Inl e \<Rightarrow> (let (resp, w') = handler q w in (resp, st', w'))
     | Inr (OReplay stored) \<Rightarrow> (build_replay_response stored, st', w)
     | Inr OMismatch \<Rightarrow> (into_response rid (IdempotencyKeyReused
           ''This Idempotency-Key was already used with a different request body''), st', w)
     | Inr (OConflict n) \<Rightarrow> (into_response rid (IdempotencyKeyLocked n), st', w)
     | Inr (OProceed g) \<Rightarrow>
         (let (resp, w') = handler q w; (resp', st'') = settle_execution I collect t1 rid g resp st'
          in (resp', st'', w')))"
  using assms unfolding guarded_def begin_for_def fingerprint_of_def
  by (simp add: idempotency_middleware_def Let_def split: prod.split sum.split outcome.split)

lemma begin_for_redis:
  assumes "on_redis I R"
  shows "begin_for I sha t token q key b (s, m) =
    (let (d, s') = redis_begin R (ie_gzip I) no_faults t token (scope_of sha q key) (fingerprint_of sha q b)
                     (lock_ttl_ms (ie_config I)) s
     in case d of
          Inr d \<Rightarrow> (Ok (outcome_of (scope_of sha q key) (fingerprint_of sha q b) d), s', m)
        | Inl e \<Rightarrow>
            if is_backend_unavailable e then
              (let (d, m') = pg_begin (ie_gzip I) no_faults t token (scope_of sha q key)
                               (fingerprint_of sha q b) (lock_ttl_ms (ie_config I)) m
               in (map_sum id (outcome_of (scope_of sha q key) (fingerprint_of sha q b)) d, s', m'))
            else (Err e, s', m))"
  using assms
  by (simp add: begin_for_def idem_begin_def on_redis_def scope_of_def Let_def split: prod.split sum.split)

text \<open>With Redis working a request proceeds only with the Redis lock.\<close>

lemma redis_begin_not_unavailable:
  assumes "on_redis I R"
    and "redis_begin R (ie_gzip I) no_faults t token scope fp (lock_ttl_ms (ie_config I)) s = (Err e, s')"
  shows "\<not> is_backend_unavailable e"
proof -
  have "0 < lock_ttl_ms (ie_config I)"
    using assms(1) by (simp add: on_redis_def redis_idempotency_def redis_idempotency_axioms_def)
  then show ?thesis
    using assms(2)
    by (auto simp: redis_begin_def redis_check_done_def redis_try_lock_def replay_decision_def
        decompress_def Let_def split: option.splits idem_value.splits if_splits prod.splits)
qed

lemma begin_for_proceed:
  assumes "on_redis I R" "begin_for I sha t token q key b (s, m) = (Ok (OProceed g), st')"
  shows "\<exists>s'. redis_begin R (ie_gzip I) no_faults t token (scope_of sha q key) (fingerprint_of sha q b)
      (lock_ttl_ms (ie_config I)) s = (Ok (Proceed (guard_token g)), s') \<and> st' = (s', m)
      \<and> guard_scope g = scope_of sha q key \<and> guard_fingerprint g = fingerprint_of sha q b"
  using assms(2) redis_begin_not_unavailable [OF assms(1)]
  by (fastforce simp: begin_for_redis [OF assms(1)] outcome_of_def
      split: prod.splits sum.splits decision.splits if_splits)

section \<open>A request runs once\<close>

text \<open>What a first, successful run of a guarded request leaves for the next request of its
  scope.\<close>

lemma after_execution:
  assumes I: "on_redis I R" and q: "guarded is_uuid q key b"
    and first: "begin_for I sha t token q key b st = (Ok (OProceed g), st1)"
    and h: "handler q w = (resp, w')" "status resp < 500" "collect (rbody resp) = Some bytes"
    and fits: "fits_body (ie_gzip I) (max_body_bytes (ie_config I))
                 \<lparr>st_status = status resp, st_content_type = ct, st_body = bytes\<rparr>"
    and ct: "ct = header_get (rheaders resp) ''content-type''"
    and run: "idempotency_middleware I sha is_uuid collect t t1 token rid handler q (st, w) = (resp1, st2, w1)"
    and times: "t \<le> t1" "t1 \<le> t2" "t2 < t1 + entry_ttl_secs (ie_config I) * 1000"
    and same: "scope_of sha q' key' = scope_of sha q key"
  shows "begin_for I sha t2 token2 q' key' b' st2 =
    (Ok (if fingerprint_of sha q' b' = fingerprint_of sha q b
         then OReplay \<lparr>st_status = status resp, st_content_type = ct, st_body = bytes\<rparr>
         else OMismatch), st2)" and "w1 = w'"
proof -
  let ?cfg = "ie_config I" and ?gz = "ie_gzip I"
  let ?stored = "\<lparr>st_status = status resp, st_content_type = ct, st_body = bytes\<rparr>"
  have loc: "redis_idempotency R ?gz (lock_ttl_ms ?cfg) (entry_ttl_secs ?cfg)"
    using I by (simp add: on_redis_def)
  obtain s m where st: "st = (s, m)" by (cases st)
  obtain s1 where s1: "redis_begin R ?gz no_faults t token (scope_of sha q key) (fingerprint_of sha q b)
      (lock_ttl_ms ?cfg) s = (Ok (Proceed (guard_token g)), s1)" "st1 = (s1, m)"
    "guard_scope g = scope_of sha q key" "guard_fingerprint g = fingerprint_of sha q b"
    using begin_for_proceed [OF I first [unfolded st]] by blast
  let ?done = "redis_complete R ?gz no_faults t1 (scope_of sha q key) (guard_token g)
      (fingerprint_of sha q b) ?stored (entry_ttl_secs ?cfg) (max_body_bytes ?cfg) s1"
  obtain s2 where fin: "?done = (Ok (), s2)"
    using redis_idempotency.redis_finish_ok [OF loc] by (metis prod.collapse)
  obtain m3 where "pg_complete ?gz no_faults t1 (scope_of sha q key) (guard_token g) (fingerprint_of sha q b)
      ?stored (entry_ttl_secs ?cfg) (max_body_bytes ?cfg) m = (Ok (), m3)"
    by (simp add: pg_complete_def Let_def)
  then have "w1 = w' \<and> fst st2 = s2"
    using run middleware_guarded [OF q, of I sha collect t t1 token rid handler st w] first h s1 I fin ct
    by (auto simp: settle_execution_def idem_complete_def on_redis_def Let_def split: prod.splits sum.splits)
  then obtain m2 where st2: "st2 = (s2, m2)" and w1: "w1 = w'" by (cases st2) auto
  show "w1 = w'" by (rule w1)
  have "0 < entry_ttl_secs ?cfg"
    using loc by (simp add: redis_idempotency_def redis_idempotency_axioms_def)
  note replay = redis_idempotency.redis_finish_replays [OF loc this fits times(2,3) fin]
  show "begin_for I sha t2 token2 q' key' b' st2 =
    (Ok (if fingerprint_of sha q' b' = fingerprint_of sha q b then OReplay ?stored else OMismatch), st2)"
    unfolding st2 begin_for_redis [OF I] same replay by (simp add: outcome_of_def)
qed


text \<open>A service over a keyspace, with identity functions for the hash and the compression, and a
  handler that counts its runs.\<close>

definition demo_idem :: "idem_value keyspace idem_env" where
  "demo_idem = \<lparr>ie_config = \<lparr>entry_ttl_secs = 86400, lock_ttl_ms = 30000, max_body_bytes = 65536\<rparr>,
     ie_redis = Some keyspace_ops, ie_gzip = plain_gzip, ie_redis_faults = no_faults,
     ie_pg_faults = no_faults\<rparr>"

definition demo_post :: "string \<Rightarrow> idem_request" where
  "demo_post b = \<lparr>iq_method = ''POST'', iq_path = ''/tips'', iq_key = Some ''u'', iq_subject = Some ''a'',
     iq_ip = None, iq_body = Some b\<rparr>"

definition demo_handler :: "idem_request \<Rightarrow> nat \<Rightarrow> response \<times> nat" where
  "demo_handler q n = (\<lparr>status = 201, rheaders = Map.empty, rbody = Bytes ''ok''\<rparr>, n + 1)"

definition demo_collect :: "body \<Rightarrow> string option" where
  "demo_collect b = (case b of Bytes x \<Rightarrow> Some x | JsonBody _ \<Rightarrow> None)"

lemma demo_on_redis: "on_redis demo_idem keyspace_ops"
  using ri.redis_idempotency_axioms by (simp add: on_redis_def demo_idem_def)

lemma demo_guarded: "guarded (\<lambda>k. k = ''u'') (demo_post b) ''u'' b"
  by (simp add: guarded_def demo_post_def)

lemma demo_first: "\<exists>g st1. begin_for demo_idem id 0 ''t'' (demo_post b) ''u'' b (Map.empty, Map.empty) = (Ok (OProceed g), st1)"
proof -
  have "lock_ttl_ms (ie_config demo_idem) = 30000" by (simp add: demo_idem_def)
  moreover have "r_get keyspace_ops 0 k Map.empty = (None :: idem_value option)" for k
    by (simp add: keyspace_ops_def ks_get_def)
  ultimately show ?thesis
    by (simp add: begin_for_redis [OF demo_on_redis] redis_begin_def redis_check_done_def
        redis_try_lock_def r_set_nx_px_def outcome_of_def)
qed

lemma demo_fits: "fits_body (ie_gzip demo_idem) (max_body_bytes (ie_config demo_idem))
    \<lparr>st_status = 201, st_content_type = None, st_body = ''ok''\<rparr>"
  by (simp add: fits_body_def demo_idem_def plain_gzip_def)

lemma demo_response:
  "demo_handler q 0 = (\<lparr>status = 201, rheaders = Map.empty, rbody = Bytes ''ok''\<rparr>, 1)"
  by (simp add: demo_handler_def)


text \<open>A key is bound to its request: after such a run, a request of the same caller, route
  and key with another fingerprint is refused with 422 and not run.\<close>

theorem reused_key_is_refused:
  assumes "on_redis I R" and "guarded is_uuid q key b" and "guarded is_uuid q' key b'"
    and "begin_for I sha t token q key b st = (Ok (OProceed g), st1)"
    and "handler q w = (resp, w')" and "status resp < 500"
    and "collect (rbody resp) = Some bytes"
    and "fits_body (ie_gzip I) (max_body_bytes (ie_config I))
           \<lparr>st_status = status resp, st_content_type = header_get (rheaders resp) ''content-type'',
            st_body = bytes\<rparr>"
    and "idempotency_middleware I sha is_uuid collect t t1 token rid handler q (st, w) = (resp1, st2, w1)"
    and "t \<le> t1" and "t1 \<le> t2" and "t2 < t1 + entry_ttl_secs (ie_config I) * 1000"
    and "resolve_principal q' = resolve_principal q" and "iq_method q' = iq_method q"
    and "iq_path q' = iq_path q" and "fingerprint_of sha q' b' \<noteq> fingerprint_of sha q b"
  shows "\<exists>resp2. idempotency_middleware I sha is_uuid collect t2 t3 token2 rid2 handler q' (st2, w2)
      = (resp2, st2, w2) \<and> status resp2 = 422"
proof -
  have "scope_of sha q' key = scope_of sha q key" using assms(13-15) by (simp add: scope_of_def)
  note b = after_execution(1) [OF assms(1,2,4,5,6,7,8) refl assms(9-12) this, of token2 b']
  show ?thesis
    unfolding middleware_guarded [OF assms(3)] b using assms(16) by (simp add: into_response_def)
qed

theorem reused_key_is_refused_witness:
  "\<exists>resp1 st2 w1 resp2.
     idempotency_middleware demo_idem id (\<lambda>k. k = ''u'') demo_collect 0 5 ''t'' None demo_handler
       (demo_post ''x'') ((Map.empty, Map.empty), 0) = (resp1, st2, w1)
   \<and> idempotency_middleware demo_idem id (\<lambda>k. k = ''u'') demo_collect 10 15 ''t2'' None demo_handler
       (demo_post ''y'') (st2, 1) = (resp2, st2, 1) \<and> status resp2 = 422"
proof -
  obtain g st1 where first: "begin_for demo_idem id 0 ''t'' (demo_post ''x'') ''u'' ''x'' (Map.empty, Map.empty)
      = (Ok (OProceed g), st1)" using demo_first by blast
  obtain resp1 st2 w1 where run: "idempotency_middleware demo_idem id (\<lambda>k. k = ''u'') demo_collect 0 5 ''t''
      None demo_handler (demo_post ''x'') ((Map.empty, Map.empty), 0) = (resp1, st2, w1)"
    by (metis prod_cases3)
  have same: "resolve_principal (demo_post ''y'') = resolve_principal (demo_post ''x'')"
    "iq_method (demo_post ''y'') = iq_method (demo_post ''x'')"
    "iq_path (demo_post ''y'') = iq_path (demo_post ''x'')"
    "fingerprint_of id (demo_post ''y'') ''y'' \<noteq> fingerprint_of id (demo_post ''x'') ''x''"
    by (simp_all add: demo_post_def resolve_principal_def fingerprint_of_def compute_fingerprint_def)
  show ?thesis
    using reused_key_is_refused [OF demo_on_redis demo_guarded demo_guarded first demo_response _ _ _ run
        _ _ _ same, of "''ok''" 10 15 "''t2''" None 1] run demo_fits
    by (auto simp: demo_collect_def header_get_def demo_idem_def)
qed

section \<open>The write-through to Postgres\<close>

text \<open>A response completed under the Redis lock is not in Postgres: completing updates a row
  that the Redis path never inserted, so the table still has no entry for the request and cannot
  replay it once Redis is down.\<close>

theorem write_through_is_lost:
  assumes "on_redis I R" and "begin_for I sha t token q key b (s, m) = (Ok (OProceed g), st1)"
    and "m (scope_of sha q key) = None"
  shows "snd (snd (idem_complete I t1 g resp st1)) = m"
  using begin_for_proceed [OF assms(1,2)] assms(1,3)
  by (auto simp: idem_complete_def pg_complete_def on_redis_def Let_def split: option.split)

theorem write_through_is_lost_witness:
  "\<exists>g st1. begin_for demo_idem id 0 ''t'' (demo_post ''x'') ''u'' ''x'' (Map.empty, Map.empty) = (Ok (OProceed g), st1)
     \<and> snd (snd (idem_complete demo_idem 5 g \<lparr>st_status = 201, st_content_type = None, st_body = ''ok''\<rparr> st1))
         = Map.empty"
proof -
  obtain g st1 where first: "begin_for demo_idem id 0 ''t'' (demo_post ''x'') ''u'' ''x'' (Map.empty, Map.empty)
      = (Ok (OProceed g), st1)" using demo_first by blast
  with write_through_is_lost [OF demo_on_redis first] show ?thesis by auto
qed

end
