(* ===== verification/Token_Family.thy ===== *)
theory Token_Family
  imports App_Errors
begin

text \<open>
  Refresh-token families (\<open>src/services/token_family_service.rs\<close>): rotation with reuse detection,
  and revocation. The table maps a family id to its row; times are seconds. The check-and-update of
  a rotation runs in one transaction that holds the row's lock, so it is one step; \<open>fault\<close> says
  that a statement of the operation failed, which rolls it back.
\<close>

section \<open>Families\<close>

definition FAMILY_TTL_SECS :: int where "FAMILY_TTL_SECS = 7 * 24 * 3600"

record token_family =
  fam_id :: string
  fam_username :: string
  fam_current_jti :: string
  fam_revoked :: bool
  fam_revoked_reason :: "string option"
  fam_user_agent :: "string option"
  fam_ip_address :: "string option"
  fam_created_at :: int
  fam_rotated_at :: int
  fam_expires_at :: int

datatype rotation_outcome = Rotated | ReuseDetected | AlreadyRevoked | Expired | FamilyNotFound

definition decide_rotation :: "token_family \<Rightarrow> string \<Rightarrow> int \<Rightarrow> rotation_outcome" where
  "decide_rotation f presented now =
     (if fam_revoked f then AlreadyRevoked
      else if now > fam_expires_at f then Expired
      else if fam_current_jti f = presented then Rotated
      else ReuseDetected)"

type_synonym families = "string \<rightharpoonup> token_family"

definition create_family ::
  "sqlx_error option \<Rightarrow> string \<Rightarrow> int \<Rightarrow> string \<Rightarrow> string \<Rightarrow> string option \<Rightarrow> string option \<Rightarrow> families
     \<Rightarrow> (app_error + string) \<times> families" where
  "create_family fault i now username jti user_agent ip m =
     (case (if m i \<noteq> None then Some (SqlxDatabase (Some ''23505'') (Some ''refresh_token_families_pkey''))
            else fault) of
        Some e \<Rightarrow> (Err (app_error_from_sqlx e), m)
      | None \<Rightarrow>
          (Ok i, m(i \<mapsto> \<lparr>fam_id = i, fam_username = username, fam_current_jti = jti, fam_revoked = False,
                        fam_revoked_reason = None, fam_user_agent = user_agent, fam_ip_address = ip,
                        fam_created_at = now, fam_rotated_at = now,
                        fam_expires_at = now + FAMILY_TTL_SECS\<rparr>)))"

definition rotate_or_detect_reuse ::
  "sqlx_error option \<Rightarrow> int \<Rightarrow> string \<Rightarrow> string \<Rightarrow> string \<Rightarrow> families
     \<Rightarrow> (app_error + rotation_outcome) \<times> families" where
  "rotate_or_detect_reuse fault now i presented new_jti m =
     (case fault of
        Some e \<Rightarrow> (Err (app_error_from_sqlx e), m)
      | None \<Rightarrow>
          (case m i of
             None \<Rightarrow> (Ok FamilyNotFound, m)
           | Some f \<Rightarrow>
               (let outcome = decide_rotation f presented now in
                (Ok outcome,
                 case outcome of
                   Rotated \<Rightarrow> m(i \<mapsto> f\<lparr>fam_current_jti := new_jti, fam_rotated_at := now\<rparr>)
                 | ReuseDetected \<Rightarrow>
                     m(i \<mapsto> f\<lparr>fam_revoked := True, fam_revoked_reason := Some ''reuse_detected''\<rparr>)
                 | _ \<Rightarrow> m))))"

definition revoke :: "string \<Rightarrow> token_family \<Rightarrow> token_family" where
  "revoke reason f =
     (if fam_revoked f then f else f\<lparr>fam_revoked := True, fam_revoked_reason := Some reason\<rparr>)"

definition revoke_family ::
  "sqlx_error option \<Rightarrow> string \<Rightarrow> string \<Rightarrow> families \<Rightarrow> (app_error + bool) \<times> families" where
  "revoke_family fault i reason m =
     (case fault of
        Some e \<Rightarrow> (Err (app_error_from_sqlx e), m)
      | None \<Rightarrow>
          (case m i of
             None \<Rightarrow> (Ok False, m)
           | Some f \<Rightarrow> (Ok (\<not> fam_revoked f), m(i \<mapsto> revoke reason f))))"

definition revoke_all_for_user ::
  "sqlx_error option \<Rightarrow> string \<Rightarrow> string \<Rightarrow> families \<Rightarrow> (app_error + nat) \<times> families" where
  "revoke_all_for_user fault username reason m =
     (case fault of
        Some e \<Rightarrow> (Err (app_error_from_sqlx e), m)
      | None \<Rightarrow>
          (Ok (card {i. \<exists>f. m i = Some f \<and> fam_username f = username \<and> \<not> fam_revoked f}),
           \<lambda>i. map_option (\<lambda>f. if fam_username f = username then revoke reason f else f) (m i)))"

definition is_active :: "token_family \<Rightarrow> int \<Rightarrow> bool" where
  "is_active f now \<longleftrightarrow> \<not> fam_revoked f \<and> fam_expires_at f > now"

section \<open>Sequences of operations\<close>

text \<open>What may happen to the families, in any order and by anyone: logins, refreshes with any
  presented token (the client's, or a stolen one), and revocations. A faulty statement is one of
  them.\<close>

datatype fam_op =
    Login "sqlx_error option" string int string string "string option" "string option"
  | Refresh "sqlx_error option" int string string string
  | Revoke "sqlx_error option" string string
  | RevokeAll "sqlx_error option" string string

text \<open>The table after an operation, and the token it accepted, as family and \<open>jti\<close>.\<close>

fun fam_step :: "fam_op \<Rightarrow> families \<Rightarrow> families \<times> (string \<times> string) list" where
  "fam_step (Login e i now u jti ua ip) m = (snd (create_family e i now u jti ua ip m), [])"
| "fam_step (Refresh e now i presented new_jti) m =
     (let (r, m') = rotate_or_detect_reuse e now i presented new_jti m
      in (m', if r = Ok Rotated then [(i, presented)] else []))"
| "fam_step (Revoke e i reason) m = (snd (revoke_family e i reason m), [])"
| "fam_step (RevokeAll e u reason) m = (snd (revoke_all_for_user e u reason m), [])"

fun fam_run :: "fam_op list \<Rightarrow> families \<Rightarrow> families \<times> (string \<times> string) list" where
  "fam_run [] m = (m, [])"
| "fam_run (x # xs) m =
     (let (m', a) = fam_step x m; (m'', as) = fam_run xs m' in (m'', a @ as))"

text \<open>The token an operation issues.\<close>

fun issues :: "fam_op \<Rightarrow> string list" where
  "issues (Login e i now u jti ua ip) = [jti]"
| "issues (Refresh e now i presented new_jti) = [new_jti]"
| "issues _ = []"

section \<open>Tokens are single-use\<close>

lemma step_accepts:
  assumes "fam_step x m = (m', a)"
  shows "a = [] \<or> (\<exists>i f. a = [(i, fam_current_jti f)] \<and> m i = Some f
    \<and> (\<forall>f'. m' i = Some f' \<longrightarrow> fam_current_jti f' \<in> set (issues x)))"
  using assms
  by (cases x) (auto simp: rotate_or_detect_reuse_def decide_rotation_def Let_def
      split: option.splits if_splits)

lemma step_current:
  assumes "fam_step x m = (m', a)" "m' i = Some f'"
  shows "fam_current_jti f' \<in> set (issues x) \<or> (\<exists>f. m i = Some f \<and> fam_current_jti f = fam_current_jti f')"
  using assms
  by (cases x) (auto simp: create_family_def rotate_or_detect_reuse_def revoke_family_def revoke_def
      revoke_all_for_user_def Let_def split: option.splits if_splits rotation_outcome.splits)

text \<open>Every accepted token was current, so it was issued before; and it is never current again.\<close>

lemma run_accepts:
  assumes "fam_run xs m = (m', acc)" "distinct (concat (map issues xs))"
    and "\<And>i f. m i = Some f \<Longrightarrow> fam_current_jti f \<notin> set (concat (map issues xs))"
  shows "distinct acc \<and> (\<forall>(i, j) \<in> set acc.
    (\<exists>f. m i = Some f \<and> fam_current_jti f = j) \<or> j \<in> set (concat (map issues xs)))"
  using assms
proof (induction xs arbitrary: m acc)
  case (Cons x xs)
  obtain m1 a where x: "fam_step x m = (m1, a)" by (metis surj_pair)
  obtain acc1 where xs: "fam_run xs m1 = (m', acc1)" and acc: "acc = a @ acc1"
    using Cons.prems(1) x by (auto split: prod.splits)
  have later: "fam_current_jti f \<notin> set (concat (map issues xs))" if "m1 i = Some f" for i f
    using step_current [OF x that] Cons.prems(2,3) by fastforce
  have IH: "distinct acc1" "\<forall>(i, j) \<in> set acc1.
      (\<exists>f. m1 i = Some f \<and> fam_current_jti f = j) \<or> j \<in> set (concat (map issues xs))"
    using Cons.IH [OF xs _ later] Cons.prems(2) by auto
  have fresh: "(i, j) \<notin> set acc1" if a: "a = [(i, j)]" for i j
  proof
    assume "(i, j) \<in> set acc1"
    then have "(\<exists>f1. m1 i = Some f1 \<and> fam_current_jti f1 = j) \<or> j \<in> set (concat (map issues xs))"
      by (rule bspec [OF IH(2), THEN split_conv [THEN iffD1]])
    moreover obtain f where "m i = Some f" "fam_current_jti f = j"
      "\<forall>f'. m1 i = Some f' \<longrightarrow> fam_current_jti f' \<in> set (issues x)"
      using step_accepts [OF x] a by auto
    ultimately show False using Cons.prems(3) by fastforce
  qed
  have "\<forall>(i, j) \<in> set a. \<exists>f. m i = Some f \<and> fam_current_jti f = j"
    using step_accepts [OF x] by auto
  moreover have "\<forall>(i, j) \<in> set acc1. (\<exists>f. m i = Some f \<and> fam_current_jti f = j)
      \<or> j \<in> set (concat (map issues (x # xs)))"
    using IH(2) step_current [OF x] by fastforce
  ultimately have "\<forall>(i, j) \<in> set acc. (\<exists>f. m i = Some f \<and> fam_current_jti f = j)
      \<or> j \<in> set (concat (map issues (x # xs)))"
    unfolding acc by auto
  moreover have "a = [] \<or> (\<exists>i j. a = [(i, j)])" using step_accepts [OF x] by blast
  then have "distinct acc" using IH(1) fresh unfolding acc by fastforce
  ultimately show ?case by blast
qed simp_all

text \<open>\<^bold>\<open>C7.\<close> A refresh token works once: whatever logins, refreshes and revocations happen, in any
  order and with any presented tokens, no family accepts the same token twice, as long as the
  tokens the server issues are distinct.\<close>

theorem refresh_token_single_use:
  assumes "distinct (concat (map issues xs))" and "fam_run xs Map.empty = (m', acc)"
  shows "distinct acc"
  using run_accepts [OF assms(2,1)] by simp

theorem refresh_token_single_use_witness:
  "\<exists>m'. fam_run [Login None ''f'' 0 ''u'' ''j0'' None None, Refresh None 1 ''f'' ''j0'' ''j1'',
                 Refresh None 2 ''f'' ''j0'' ''j2''] Map.empty = (m', [(''f'', ''j0'')])
        \<and> distinct [(''f'', ''j0'')]"
proof -
  let ?xs = "[Login None ''f'' 0 ''u'' ''j0'' None None, Refresh None 1 ''f'' ''j0'' ''j1'',
              Refresh None 2 ''f'' ''j0'' ''j2'']"
  obtain m' where run: "fam_run ?xs Map.empty = (m', [(''f'', ''j0'')])"
    by (simp add: create_family_def rotate_or_detect_reuse_def decide_rotation_def FAMILY_TTL_SECS_def)
  have "distinct (concat (map issues ?xs))" by simp
  from refresh_token_single_use [OF this run] run show ?thesis by blast
qed

section \<open>Reuse kills the family\<close>

lemma revoked_step:
  assumes "m i = Some f" "fam_revoked f" "fam_step x m = (m', a)"
  shows "(\<exists>f'. m' i = Some f' \<and> fam_revoked f') \<and> (\<forall>j. (i, j) \<notin> set a)"
  using assms
  by (cases x) (auto simp: create_family_def rotate_or_detect_reuse_def decide_rotation_def
      revoke_family_def revoke_def revoke_all_for_user_def Let_def
      split: option.splits if_splits rotation_outcome.splits)

lemma revoked_run:
  "m i = Some f \<Longrightarrow> fam_revoked f \<Longrightarrow> fam_run xs m = (m', acc) \<Longrightarrow> \<forall>j. (i, j) \<notin> set acc"
proof (induction xs arbitrary: m f acc)
  case (Cons x xs)
  obtain m1 a where x: "fam_step x m = (m1, a)" by (metis surj_pair)
  obtain acc1 where "fam_run xs m1 = (m', acc1)" "acc = a @ acc1"
    using Cons.prems(3) x by (auto split: prod.splits)
  with revoked_step [OF Cons.prems(1,2) x] Cons.IH show ?case by auto
qed simp

text \<open>A replayed token kills its family: presenting any token but the current one to a live
  family is detected, and from then on, whatever happens, that family accepts no token, the
  legitimate one included.\<close>

theorem reuse_revokes_family:
  assumes "m i = Some f" and "\<not> fam_revoked f" and "now \<le> fam_expires_at f"
    and "fam_current_jti f \<noteq> stolen"
    and "rotate_or_detect_reuse None now i stolen new_jti m = (r, m1)"
    and "fam_run xs m1 = (m', acc)"
  shows "r = Ok ReuseDetected \<and> (\<forall>j. (i, j) \<notin> set acc)"
proof -
  have "r = Ok ReuseDetected" "\<exists>f1. m1 i = Some f1 \<and> fam_revoked f1"
    using assms(1-5) by (auto simp: rotate_or_detect_reuse_def decide_rotation_def Let_def)
  with revoked_run [OF _ _ assms(6)] show ?thesis by blast
qed

definition demo_family :: token_family where
  "demo_family = \<lparr>fam_id = ''f'', fam_username = ''u'', fam_current_jti = ''j1'', fam_revoked = False,
     fam_revoked_reason = None, fam_user_agent = None, fam_ip_address = None, fam_created_at = 0,
     fam_rotated_at = 1, fam_expires_at = 604800\<rparr>"

theorem reuse_revokes_family_witness:
  "\<exists>m1 m' acc. rotate_or_detect_reuse None 2 ''f'' ''j0'' ''x'' [''f'' \<mapsto> demo_family]
      = (Ok ReuseDetected, m1)
   \<and> fam_run [Refresh None 3 ''f'' ''j1'' ''j2''] m1 = (m', acc) \<and> (\<forall>j. (''f'', j) \<notin> set acc)"
proof -
  obtain r m1 where rot: "rotate_or_detect_reuse None 2 ''f'' ''j0'' ''x'' [''f'' \<mapsto> demo_family] = (r, m1)"
    by (metis surj_pair)
  obtain m' acc where run: "fam_run [Refresh None 3 ''f'' ''j1'' ''j2''] m1 = (m', acc)"
    by (metis surj_pair)
  have live: "[''f'' \<mapsto> demo_family] ''f'' = Some demo_family" "\<not> fam_revoked demo_family"
    "2 \<le> fam_expires_at demo_family" "fam_current_jti demo_family \<noteq> ''j0''"
    by (simp_all add: demo_family_def)
  from reuse_revokes_family [OF live rot run] rot run show ?thesis by blast
qed

end
