(* ===== verification/Webhook_Signature.thy ===== *)
theory Webhook_Signature
  imports Http
begin

unbundle bit_operations_syntax

text \<open>
  The signature scheme of webhook deliveries (\<open>src/webhooks/signature.rs\<close>): the header
  \<open>t=<ts>,v1=<hex>[,v1=<hex>]\<close>, its parser, and the receiver's verification with the tolerance
  window and the constant-time comparison. \<open>hmac secret message\<close> stands for the hex encoding of
  HMAC-SHA-256 (the crates \<open>hmac\<close>, \<open>sha2\<close> and \<open>hex\<close>); of it only \<open>hex_digest\<close> is used.
  Timestamps are \<open>u64\<close> values, as naturals below \<open>2^64\<close>; the clock reading is an argument.
\<close>

section \<open>Signing\<close>

type_synonym mac = "string \<Rightarrow> string \<Rightarrow> string"

definition SIGNATURE_TOLERANCE_SECS :: nat where "SIGNATURE_TOLERANCE_SECS = 300"

definition compute_v1 :: "mac \<Rightarrow> string \<Rightarrow> nat \<Rightarrow> string \<Rightarrow> string" where
  "compute_v1 hmac secret timestamp raw_body = hmac secret (show_nat timestamp @ ''.'' @ raw_body)"

definition build_signature_header_at :: "mac \<Rightarrow> string list \<Rightarrow> string \<Rightarrow> nat \<Rightarrow> string" where
  "build_signature_header_at hmac secrets raw_body timestamp =
     join '','' ((''t='' @ show_nat timestamp)
                 # map (\<lambda>secret. ''v1='' @ compute_v1 hmac secret timestamp raw_body) secrets)"

definition generate_signature :: "mac \<Rightarrow> string \<Rightarrow> string \<Rightarrow> string" where
  "generate_signature hmac secret payload = compute_v1 hmac secret 0 payload"

section \<open>Verification\<close>

record parsed_signature =
  sig_timestamp :: nat
  sig_v1_values :: "string list"

text \<open>The loop over the parts: the last \<open>t=\<close> decides the timestamp, also when its number does not
  parse.\<close>

fun parse_parts :: "string list \<Rightarrow> nat option \<Rightarrow> string list \<Rightarrow> nat option \<times> string list" where
  "parse_parts [] ts vs = (ts, vs)"
| "parse_parts (part # parts) ts vs =
     (let p = trim part in
      case strip_prefix ''t='' p of
        Some n \<Rightarrow> parse_parts parts (parse_unsigned u64_max n) vs
      | None \<Rightarrow>
          (case strip_prefix ''v1='' p of
             Some sig \<Rightarrow> parse_parts parts ts (vs @ [sig])
           | None \<Rightarrow> parse_parts parts ts vs))"

definition parse_signature_header :: "string \<Rightarrow> parsed_signature option" where
  "parse_signature_header header =
     (case parse_parts (split_char (CHR '','') header) None [] of
        (Some ts, vs) \<Rightarrow> Some \<lparr>sig_timestamp = ts, sig_v1_values = vs\<rparr>
      | (None, vs) \<Rightarrow> None)"

datatype signature_error =
    MalformedHeader
  | NoSignatureValues
  | TimestampOutOfWindow nat nat nat
  | SignatureMismatch

text \<open>The accumulator \<open>diff\<close> of the constant-time comparison is a byte.\<close>

definition constant_time_eq :: "u8 list \<Rightarrow> u8 list \<Rightarrow> bool" where
  "constant_time_eq a b =
     (if length a \<noteq> length b then False
      else fold (\<lambda>(x, y) diff. diff OR (x XOR y)) (zip a b) 0 = 0)"

definition as_bytes :: "string \<Rightarrow> u8 list" where
  "as_bytes s = map (\<lambda>c. of_nat (byte c)) s"

definition verify_signature_at ::
  "mac \<Rightarrow> string \<Rightarrow> string \<Rightarrow> string \<Rightarrow> nat \<Rightarrow> nat \<Rightarrow> signature_error + unit" where
  "verify_signature_at hmac header raw_body secret tolerance now =
     (case parse_signature_header header of
        None \<Rightarrow> Err MalformedHeader
      | Some parsed \<Rightarrow>
          (let age = now - sig_timestamp parsed;
               skew = sig_timestamp parsed - now
           in if tolerance < age \<or> tolerance < skew
              then Err (TimestampOutOfWindow (sig_timestamp parsed) now tolerance)
              else if sig_v1_values parsed = [] then Err NoSignatureValues
              else
                (let expected = as_bytes (compute_v1 hmac secret (sig_timestamp parsed) raw_body)
                 in if list_ex (\<lambda>v. constant_time_eq (as_bytes v) expected) (sig_v1_values parsed)
                    then Ok () else Err SignatureMismatch)))"

section \<open>The comparison is equality\<close>

lemma fold_or_eq_0:
  "fold (\<lambda>(x, y) diff. diff OR (x XOR y)) ps d = 0 \<longleftrightarrow> d = 0 \<and> (\<forall>(x, y) \<in> set ps. x = (y :: u8))"
proof (induction ps arbitrary: d)
  case (Cons p ps)
  have "x XOR y = 0 \<longleftrightarrow> x = y" for x y :: u8
    by (metis bit.xor_self xor.assoc xor.left_neutral xor.commute)
  then show ?case by (auto simp: Cons.IH or_eq_0_iff split: prod.splits)
qed simp

lemma constant_time_eq_iff: "constant_time_eq a b \<longleftrightarrow> a = b"
proof (cases "length a = length b")
  case True
  have "(\<forall>(x, y) \<in> set (zip a b). x = y) \<longleftrightarrow> a = b"
    using True by (induction a b rule: list_induct2) auto
  with True show ?thesis by (simp add: constant_time_eq_def fold_or_eq_0)
qed (auto simp: constant_time_eq_def)

lemma as_bytes_inj: "as_bytes s = as_bytes t \<longleftrightarrow> s = t"
proof
  have "unat (of_nat (byte c) :: u8) = byte c" for c
    using nat_of_char_less_256 [of c] by (simp add: unsigned_of_nat take_bit_eq_mod)
  then have "(of_nat (byte c) :: u8) = of_nat (byte d) \<Longrightarrow> c = d" for c d
    by (metis of_char_eq_iff)
  then have "inj (\<lambda>c. of_nat (byte c) :: u8)" by (rule injI)
  then show "as_bytes s = as_bytes t \<Longrightarrow> s = t" by (simp add: as_bytes_def inj_map_eq_map)
qed simp

section \<open>Headers and their signatures\<close>

text \<open>\<open>hex::encode\<close> yields lower-case hexadecimal digits.\<close>

definition hex_digest :: "mac \<Rightarrow> bool" where
  "hex_digest hmac \<longleftrightarrow> (\<forall>k m. list_all is_ascii_hexdigit (hmac k m))"

lemma hexdigit_graphic: "is_ascii_hexdigit c \<Longrightarrow> graphic c \<and> c \<noteq> CHR '',''"
  by (auto simp: is_ascii_hexdigit_def is_ascii_digit_def graphic_def)

lemma parse_parts_v1:
  assumes "\<forall>d \<in> set ds. list_all graphic d"
  shows "parse_parts (map (\<lambda>d. ''v1='' @ d) ds) ts vs = (ts, vs @ ds)"
  using assms
proof (induction ds arbitrary: vs)
  case (Cons d ds)
  have "trim (''v1='' @ d) = ''v1='' @ d"
    using Cons.prems by (intro trim_all_graphic) (simp add: list_all_iff graphic_def)
  moreover have "strip_prefix ''t='' (''v1='' @ d) = None" by simp
  moreover have "strip_prefix ''v1='' (''v1='' @ d) = Some d" by simp
  ultimately show ?case using Cons by (simp del: append.simps add: Let_def)
qed simp

text \<open>The header written for a list of secrets is read back with its timestamp and one value per
  secret.\<close>

lemma parse_built_header:
  assumes "hex_digest hmac" and "ts \<le> u64_max"
  shows "parse_signature_header (build_signature_header_at hmac secrets body ts) =
    Some \<lparr>sig_timestamp = ts, sig_v1_values = map (\<lambda>k. compute_v1 hmac k ts body) secrets\<rparr>"
proof -
  let ?ds = "map (\<lambda>k. compute_v1 hmac k ts body) secrets"
  let ?parts = "(''t='' @ show_nat ts) # map (\<lambda>d. ''v1='' @ d) ?ds"
  have hex: "list_all is_ascii_hexdigit d" if "d \<in> set ?ds" for d
    using that assms(1) by (auto simp: hex_digest_def compute_v1_def)
  have digits: "list_all is_ascii_digit (show_nat ts)"
    using show_nat_digits [of ts] by (simp add: all_digits_def)
  then have "\<forall>c \<in> set (show_nat ts). c \<noteq> CHR '','' \<and> graphic c"
    by (auto simp: list_all_iff digit_not_sign)
  then have nosep: "\<forall>p \<in> set ?parts. CHR '','' \<notin> set p"
    and g0: "list_all graphic (''t='' @ show_nat ts)"
    using hex hexdigit_graphic by (fastforce simp: list_all_iff, simp add: list_all_iff graphic_def)
  have "split_char (CHR '','') (build_signature_header_at hmac secrets body ts) = ?parts"
    unfolding build_signature_header_at_def
    using split_char_join [OF _ nosep] by (simp add: comp_def)
  moreover have "\<forall>d \<in> set ?ds. list_all graphic d"
    using hex hexdigit_graphic by (fastforce simp: list_all_iff)
  then have "parse_parts ?parts None [] = (Some ts, ?ds)"
    using parse_parts_v1 [of ?ds] g0 assms(2)
    by (simp add: trim_all_graphic parse_show_nat)
  ultimately show ?thesis by (simp add: parse_signature_header_def)
qed

text \<open>What the receiver accepts: a header with a timestamp inside the window and, among its values,
  the signature of exactly this body at that timestamp under the secret.\<close>

definition accepts_only_signed :: "mac \<Rightarrow> string \<Rightarrow> string \<Rightarrow> string \<Rightarrow> nat \<Rightarrow> nat \<Rightarrow> bool" where
  "accepts_only_signed hmac header body secret tolerance now \<longleftrightarrow>
     (\<exists>p. parse_signature_header header = Some p
       \<and> \<bar>int now - int (sig_timestamp p)\<bar> \<le> int tolerance
       \<and> compute_v1 hmac secret (sig_timestamp p) body \<in> set (sig_v1_values p))"

lemma verify_signature_iff:
  "verify_signature_at hmac header body secret tolerance now = Ok ()
     \<longleftrightarrow> accepts_only_signed hmac header body secret tolerance now"
proof (cases "parse_signature_header header")
  case None
  then show ?thesis by (simp add: verify_signature_at_def accepts_only_signed_def)
next
  case (Some p)
  have "list_ex (\<lambda>v. constant_time_eq (as_bytes v) (as_bytes e)) vs \<longleftrightarrow> e \<in> set vs" for e vs
    by (auto simp: list_ex_iff constant_time_eq_iff as_bytes_inj)
  with Some show ?thesis
    by (auto simp: verify_signature_at_def accepts_only_signed_def Let_def split: if_splits)
qed

lemma built_header_verifies:
  assumes "hex_digest hmac" and "ts \<le> u64_max" and "secret \<in> set secrets"
    and "\<bar>int now - int ts\<bar> \<le> int tolerance"
  shows "verify_signature_at hmac (build_signature_header_at hmac secrets body ts) body secret
    tolerance now = Ok ()"
  unfolding verify_signature_iff accepts_only_signed_def parse_built_header [OF assms(1,2)]
  using assms(3,4) by simp

text \<open>\<^bold>\<open>C33.\<close> The receiver's verification, with its saturating differences and its constant-time
  comparison over bytes, accepts exactly the headers whose timestamp is at most the tolerance away
  from the clock, on either side, and that carry the signature of this very body and timestamp
  under the secret; in particular a recorded delivery is refused once the window has passed.\<close>

theorem verify_signature_exact:
  "verify_signature_at hmac header body secret tolerance now = Ok ()
     \<longleftrightarrow> accepts_only_signed hmac header body secret tolerance now"
  by (rule verify_signature_iff)

text \<open>A delivery verifies under every secret it was signed with, so a receiver that holds
  the old or the new secret of a rotation accepts it, as long as its clock is within the tolerance
  of the sender's.\<close>

theorem signed_delivery_verifies:
  assumes "hex_digest hmac" and "ts \<le> u64_max" and "secret \<in> set secrets"
    and "\<bar>int now - int ts\<bar> \<le> int tolerance"
  shows "verify_signature_at hmac (build_signature_header_at hmac secrets body ts) body secret
    tolerance now = Ok ()"
  by (rule built_header_verifies [OF assms])

text \<open>A stand-in for the MAC: the length of the message, in digits.\<close>

definition length_mac :: mac where "length_mac k m = show_nat (length m)"

lemma length_mac_hex: "hex_digest length_mac"
proof -
  have "list_all is_ascii_digit (show_nat n)" for n
    using show_nat_digits [of n] by (simp add: all_digits_def)
  then show ?thesis
    by (simp add: hex_digest_def length_mac_def list_all_iff is_ascii_hexdigit_def is_ascii_digit_def)
qed

theorem signed_delivery_verifies_witness:
  "hex_digest length_mac \<and> verify_signature_at length_mac
     (build_signature_header_at length_mac [''old'', ''new''] ''{}'' 1715000000) ''{}'' ''new''
     SIGNATURE_TOLERANCE_SECS 1715000300 = Ok ()"
  using length_mac_hex signed_delivery_verifies [of length_mac 1715000000 "''new''" "[''old'', ''new'']"
      1715000300 SIGNATURE_TOLERANCE_SECS "''{}''"]
  by (simp add: int_ranges SIGNATURE_TOLERANCE_SECS_def)

end
