(* ===== verification/Webhook_Delivery.thy ===== *)
theory Webhook_Delivery
  imports App_Errors Circuit_Breaker Webhook_Signature
begin

text \<open>
  Outbound webhooks (\<open>src/webhooks/mod.rs\<close>, \<open>sender.rs\<close>, \<open>retry.rs\<close>): registration, secret
  rotation, one signed delivery attempt, the retry loop behind a circuit breaker per endpoint, and
  the dead-letter queue. The state holds the four tables, the registry of breakers, the requests
  that left the process with their answers, and the network \<open>net\<close>.

  A record of operations stands for what is outside: the HTTP client (\<open>post\<close>, with building the
  client and its timeout), the clock, JSON rendering, the trace headers, the text of a status, and
  what other delivery tasks do to the endpoint's breaker while this one awaits (\<open>meanwhile\<close>). The
  length of the jittered sleeps is not modelled: any time may pass. \<open>db n\<close> is the error of the
  \<open>n\<close>-th statement of an operation, if it fails. Metrics, log lines, and the ids and times the
  database fills in for the delivery log are left out, as are the delay settings of the retry
  configuration.
\<close>

section \<open>Data\<close>

record webhook =
  wh_id :: string
  wh_url :: string
  wh_secret :: string
  wh_enabled :: bool
  wh_events :: "string list"
  wh_created_at :: int
  wh_updated_at :: int

record webhook_secret =
  sec_id :: string
  sec_webhook :: string
  sec_secret :: string
  sec_is_primary :: bool
  sec_created_at :: int

record webhook_log =
  wl_webhook :: string
  wl_event_type :: string
  wl_payload :: json
  wl_status_code :: "int option"
  wl_response_body :: "string option"
  wl_success :: bool
  wl_attempts :: int

record dead_letter_entry =
  dl_id :: string
  dl_webhook :: string
  dl_delivery :: string
  dl_event_type :: string
  dl_payload :: json
  dl_last_error :: string
  dl_attempts :: int
  dl_created_at :: int
  dl_failed_at :: int

record delivery_context =
  ctx_delivery_id :: string
  ctx_event_type :: string
  ctx_secrets :: "string list"

record delivery_status =
  ds_webhook :: string
  ds_delivery :: string
  ds_event_type :: string
  ds_success :: bool
  ds_attempts :: nat
  ds_last_status_code :: "int option"
  ds_last_error :: "string option"
  ds_delivered_at :: "nat option"

record webhook_retry_config =
  max_attempts :: nat
  circuit_failure_threshold :: u32
  circuit_recovery_secs :: nat

definition webhook_retry_config_default :: webhook_retry_config where
  "webhook_retry_config_default =
     \<lparr>max_attempts = 5, circuit_failure_threshold = 5, circuit_recovery_secs = 300\<rparr>"

text \<open>A request that left the process, with what came of it: the error of the client, or the status
  of the answer.\<close>

record post =
  po_url :: string
  po_headers :: headers
  po_body :: string
  po_result :: "string + nat"

record 'n hook_state =
  hooks :: "webhook list"
  hook_secrets :: "webhook_secret list"
  hook_logs :: "webhook_log list"
  dlq :: "dead_letter_entry list"
  circuits :: "string \<rightharpoonup> circuit_breaker"
  posts :: "post list"
  net :: 'n

record 'n web_ops =
  hmac_hex :: mac
  render :: "json \<Rightarrow> string"
  trace_headers :: headers
  status_text :: "nat \<Rightarrow> string"
  send_post :: "string \<Rightarrow> headers \<Rightarrow> string \<Rightarrow> 'n \<Rightarrow> (string + nat) \<times> 'n"
  unix_now :: "'n \<Rightarrow> nat"
  meanwhile :: "'n \<Rightarrow> (circuit_breaker \<Rightarrow> circuit_breaker) \<times> 'n"

type_synonym stmts = "nat \<Rightarrow> sqlx_error option"

section \<open>Registration\<close>

definition create_webhook ::
  "sqlx_error option \<Rightarrow> string \<Rightarrow> string \<Rightarrow> int \<Rightarrow> string \<Rightarrow> string list \<Rightarrow> 'n hook_state
     \<Rightarrow> (sqlx_error + webhook) \<times> 'n hook_state" where
  "create_webhook fault i secret now url events s =
     (case fault of
        Some e \<Rightarrow> (Err e, s)
      | None \<Rightarrow>
          (let w = \<lparr>wh_id = i, wh_url = url, wh_secret = secret, wh_enabled = True, wh_events = events,
                    wh_created_at = now, wh_updated_at = now\<rparr>
           in (Ok w, s\<lparr>hooks := hooks s @ [w]\<rparr>)))"

definition get_webhook ::
  "sqlx_error option \<Rightarrow> string \<Rightarrow> 'n hook_state \<Rightarrow> sqlx_error + webhook option" where
  "get_webhook fault i s =
     (case fault of Some e \<Rightarrow> Err e | None \<Rightarrow> Ok (List.find (\<lambda>w. wh_id w = i) (hooks s)))"

text \<open>\<open>COALESCE($n, column)\<close> for each of the optional fields.\<close>

definition coalesce :: "'a option \<Rightarrow> 'a \<Rightarrow> 'a" where
  "coalesce v d = (case v of Some x \<Rightarrow> x | None \<Rightarrow> d)"

definition update_webhook ::
  "sqlx_error option \<Rightarrow> int \<Rightarrow> string \<Rightarrow> string option \<Rightarrow> string list option \<Rightarrow> bool option
     \<Rightarrow> 'n hook_state \<Rightarrow> (sqlx_error + webhook option) \<times> 'n hook_state" where
  "update_webhook fault now i url events enabled s =
     (case fault of
        Some e \<Rightarrow> (Err e, s)
      | None \<Rightarrow>
          (let upd = (\<lambda>w. if wh_id w = i
                          then w\<lparr>wh_url := coalesce url (wh_url w), wh_events := coalesce events (wh_events w),
                                 wh_enabled := coalesce enabled (wh_enabled w), wh_updated_at := now\<rparr>
                          else w)
           in (Ok (map_option upd (List.find (\<lambda>w. wh_id w = i) (hooks s))),
               s\<lparr>hooks := map upd (hooks s)\<rparr>)))"

text \<open>Deleting a webhook also deletes its secrets, logs and dead letters (\<open>ON DELETE CASCADE\<close>).\<close>

definition delete_webhook ::
  "sqlx_error option \<Rightarrow> string \<Rightarrow> 'n hook_state \<Rightarrow> (sqlx_error + bool) \<times> 'n hook_state" where
  "delete_webhook fault i s =
     (case fault of
        Some e \<Rightarrow> (Err e, s)
      | None \<Rightarrow>
          (Ok (list_ex (\<lambda>w. wh_id w = i) (hooks s)),
           s\<lparr>hooks := filter (\<lambda>w. wh_id w \<noteq> i) (hooks s),
             hook_secrets := filter (\<lambda>r. sec_webhook r \<noteq> i) (hook_secrets s),
             hook_logs := filter (\<lambda>r. wl_webhook r \<noteq> i) (hook_logs s),
             dlq := filter (\<lambda>r. dl_webhook r \<noteq> i) (dlq s)\<rparr>))"

section \<open>Secret rotation\<close>

text \<open>\<open>ORDER BY created_at DESC\<close>.\<close>

definition newest_first :: "webhook_secret list \<Rightarrow> webhook_secret list" where
  "newest_first rs = sort_key (\<lambda>r. - sec_created_at r) rs"

text \<open>The four statements of a rotation that change tables. Each is committed on its own, so an
  error leaves the effects of those before it.\<close>

definition set_hook_secret :: "string \<Rightarrow> int \<Rightarrow> string \<Rightarrow> 'n hook_state \<Rightarrow> 'n hook_state" where
  "set_hook_secret i now secret s =
     s\<lparr>hooks := map (\<lambda>w. if wh_id w = i then w\<lparr>wh_secret := secret, wh_updated_at := now\<rparr> else w) (hooks s)\<rparr>"

definition insert_secret :: "string \<Rightarrow> string \<Rightarrow> int \<Rightarrow> string \<Rightarrow> 'n hook_state \<Rightarrow> 'n hook_state" where
  "insert_secret sid i now secret s =
     s\<lparr>hook_secrets := hook_secrets s @ [\<lparr>sec_id = sid, sec_webhook = i, sec_secret = secret,
                                          sec_is_primary = True, sec_created_at = now\<rparr>]\<rparr>"

definition demote_others :: "string \<Rightarrow> string \<Rightarrow> 'n hook_state \<Rightarrow> 'n hook_state" where
  "demote_others i secret s =
     s\<lparr>hook_secrets := map (\<lambda>r. if sec_webhook r = i \<and> sec_secret r \<noteq> secret
                                then r\<lparr>sec_is_primary := False\<rparr> else r) (hook_secrets s)\<rparr>"

definition prune_secrets :: "string \<Rightarrow> nat \<Rightarrow> 'n hook_state \<Rightarrow> 'n hook_state" where
  "prune_secrets i retain s =
     (let kept = take retain (newest_first (filter (\<lambda>r. sec_webhook r = i) (hook_secrets s)))
      in s\<lparr>hook_secrets := filter (\<lambda>r. \<not> (sec_webhook r = i \<and> sec_id r \<notin> set (map sec_id kept)))
                                  (hook_secrets s)\<rparr>)"

definition rotate_secret ::
  "stmts \<Rightarrow> string \<Rightarrow> int \<Rightarrow> string \<Rightarrow> string \<Rightarrow> nat \<Rightarrow> 'n hook_state
     \<Rightarrow> (sqlx_error + string \<times> string option) \<times> 'n hook_state" where
  "rotate_secret db sid now new_secret i retain s =
     (case db 0 of
        Some e \<Rightarrow> (Err e, s)
      | None \<Rightarrow>
          (let retiring = map_option wh_secret (List.find (\<lambda>w. wh_id w = i) (hooks s)) in
           case db 1 of
             Some e \<Rightarrow> (Err e, s)
           | None \<Rightarrow>
               (let s1 = set_hook_secret i now new_secret s in
                case (if list_ex (\<lambda>w. wh_id w = i) (hooks s) then db 2
                      else Some (SqlxDatabase (Some ''23503'') (Some ''webhook_secrets_webhook_id_fkey''))) of
                  Some e \<Rightarrow> (Err e, s1)
                | None \<Rightarrow>
                    (let s2 = insert_secret sid i now new_secret s1 in
                     case db 3 of
                       Some e \<Rightarrow> (Err e, s2)
                     | None \<Rightarrow>
                         (let s3 = demote_others i new_secret s2 in
                          case db 4 of
                            Some e \<Rightarrow> (Err e, s3)
                          | None \<Rightarrow> (Ok (new_secret, retiring), prune_secrets i retain s3))))))"

text \<open>\<open>ORDER BY is_primary DESC, created_at DESC LIMIT 2\<close>, with the fallback to the webhook's own
  secret.\<close>

definition active_secrets :: "stmts \<Rightarrow> string \<Rightarrow> 'n hook_state \<Rightarrow> sqlx_error + string list" where
  "active_secrets db i s =
     (case db 0 of
        Some e \<Rightarrow> Err e
      | None \<Rightarrow>
          (let rows = take 2 (sort_key (\<lambda>r. if sec_is_primary r then 0 else 1 :: nat)
                 (newest_first (filter (\<lambda>r. sec_webhook r = i) (hook_secrets s))))
           in if rows = [] then
                (case get_webhook (db 1) i s of
                   Inl e \<Rightarrow> Err e
                 | Inr w \<Rightarrow> Ok (case w of Some w \<Rightarrow> [wh_secret w] | None \<Rightarrow> []))
              else Ok (map sec_secret rows)))"

section \<open>One attempt\<close>

text \<open>\<open>HeaderValue::from_str\<close> accepts visible ASCII and tabs.\<close>

definition header_value :: "string \<Rightarrow> string" where
  "header_value v =
     (if list_all (\<lambda>c. 32 \<le> byte c \<and> byte c < 127 \<or> byte c = 9) v then v else [])"

definition delivery_headers :: "headers \<Rightarrow> string \<Rightarrow> delivery_context \<Rightarrow> headers" where
  "delivery_headers trace sig ctx =
     header_insert ''content-type'' ''application/json''
       (header_insert ''X-TipJar-Event-Type'' (header_value (ctx_event_type ctx))
         (header_insert ''X-TipJar-Delivery-Id'' (header_value (ctx_delivery_id ctx))
           (header_insert ''X-TipJar-Signature'' (header_value sig) trace)))"

definition send_webhook ::
  "'n web_ops \<Rightarrow> string \<Rightarrow> delivery_context \<Rightarrow> json \<Rightarrow> 'n hook_state \<Rightarrow> (string + nat) \<times> 'n hook_state" where
  "send_webhook ops url ctx payload s =
     (let payload_str = render ops payload;
          sig = build_signature_header_at (hmac_hex ops) (ctx_secrets ctx) payload_str (unix_now ops (net s));
          hs = delivery_headers (trace_headers ops) sig ctx;
          (r, n') = send_post ops url hs payload_str (net s);
          s' = s\<lparr>net := n', posts := posts s @ [\<lparr>po_url = url, po_headers = hs, po_body = payload_str,
                                                po_result = r\<rparr>]\<rparr>
      in (case r of
            Inl e \<Rightarrow> Err e
          | Inr st \<Rightarrow> if is_success st then Ok st
                      else Err (''Webhook delivery failed with status: '' @ status_text ops st), s'))"

section \<open>Breakers of the endpoints\<close>

definition get_or_create_circuit :: "string \<Rightarrow> webhook_retry_config \<Rightarrow> 'n hook_state \<Rightarrow> 'n hook_state" where
  "get_or_create_circuit url cfg s =
     (case circuits s url of
        Some cb \<Rightarrow> s
      | None \<Rightarrow> s\<lparr>circuits := (circuits s)(url \<mapsto>
          cb_new (circuit_failure_threshold cfg) (from_secs (circuit_recovery_secs cfg)))\<rparr>)"

definition on_circuit :: "string \<Rightarrow> (circuit_breaker \<Rightarrow> circuit_breaker) \<Rightarrow> 'n hook_state \<Rightarrow> 'n hook_state" where
  "on_circuit url f s = s\<lparr>circuits := (circuits s)(url := map_option f (circuits s url))\<rparr>"

definition circuit_is_open :: "'n web_ops \<Rightarrow> string \<Rightarrow> 'n hook_state \<Rightarrow> bool" where
  "circuit_is_open ops url s =
     (case circuits s url of
        Some cb \<Rightarrow> cb_state cb (of_nat (unix_now ops (net s))) = Open
      | None \<Rightarrow> False)"

text \<open>While the task awaits its sleep or its answer, the other tasks run.\<close>

definition awaits :: "'n web_ops \<Rightarrow> string \<Rightarrow> 'n hook_state \<Rightarrow> 'n hook_state" where
  "awaits ops url s = (let (f, n') = meanwhile ops (net s) in on_circuit url f (s\<lparr>net := n'\<rparr>))"

section \<open>Dead letters and logs\<close>

text \<open>The unique index on \<open>delivery_id\<close> is the arbiter that \<open>ON CONFLICT (delivery_id)\<close> infers. A
  partial index is inferred only from a conflict target that repeats its predicate, so with one the
  statement fails with error 42P10. The migration \<open>0071\<close> creates the partial one.\<close>

datatype dlq_index = TotalIndex | PartialIndex

definition shipped_index :: dlq_index where "shipped_index = PartialIndex"

definition move_to_dlq ::
  "dlq_index \<Rightarrow> sqlx_error option \<Rightarrow> string \<Rightarrow> int \<Rightarrow> string \<Rightarrow> string \<Rightarrow> string \<Rightarrow> json \<Rightarrow> string \<Rightarrow> int
     \<Rightarrow> 'n hook_state \<Rightarrow> (sqlx_error + unit) \<times> 'n hook_state" where
  "move_to_dlq idx fault did now webhook_id delivery_id event_type payload last_error attempts s =
     (case (if idx = PartialIndex then Some (SqlxDatabase (Some ''42P10'') None) else fault) of
        Some e \<Rightarrow> (Err e, s)
      | None \<Rightarrow>
          (Ok (),
           s\<lparr>dlq := (if delivery_id \<in> set (map dl_delivery (dlq s))
                     then map (\<lambda>r. if dl_delivery r = delivery_id
                                   then r\<lparr>dl_last_error := last_error, dl_attempts := attempts,
                                          dl_failed_at := now\<rparr> else r) (dlq s)
                     else dlq s @ [\<lparr>dl_id = did, dl_webhook = webhook_id, dl_delivery = delivery_id,
                                    dl_event_type = event_type, dl_payload = payload,
                                    dl_last_error = last_error, dl_attempts = attempts,
                                    dl_created_at = now, dl_failed_at = now\<rparr>])\<rparr>))"

definition log_delivery ::
  "sqlx_error option \<Rightarrow> string \<Rightarrow> string \<Rightarrow> json \<Rightarrow> int option \<Rightarrow> string option \<Rightarrow> bool \<Rightarrow> int
     \<Rightarrow> 'n hook_state \<Rightarrow> (sqlx_error + unit) \<times> 'n hook_state" where
  "log_delivery fault webhook_id event_type payload code response_body ok attempts s =
     (case fault of
        Some e \<Rightarrow> (Err e, s)
      | None \<Rightarrow>
          (Ok (), s\<lparr>hook_logs := hook_logs s @ [\<lparr>wl_webhook = webhook_id, wl_event_type = event_type,
             wl_payload = payload, wl_status_code = code, wl_response_body = response_body,
             wl_success = ok, wl_attempts = attempts\<rparr>]\<rparr>))"

section \<open>The retry loop\<close>

text \<open>\<open>n as i32\<close>.\<close>

definition as_i32 :: "nat \<Rightarrow> int" where
  "as_i32 n = (int n + 2 ^ 31) mod 2 ^ 32 - 2 ^ 31"

text \<open>The loop \<open>for attempt in 0..max_attempts\<close>, with the number of iterations left as the structural
  argument: the attempt that succeeded with its status, or the last error.\<close>

fun attempt_loop ::
  "'n web_ops \<Rightarrow> webhook \<Rightarrow> delivery_context \<Rightarrow> json \<Rightarrow> nat \<Rightarrow> nat \<Rightarrow> string \<Rightarrow> 'n hook_state
     \<Rightarrow> (string + nat \<times> nat) \<times> 'n hook_state" where
  "attempt_loop ops w ctx payload 0 attempt last_error s = (Err last_error, s)"
| "attempt_loop ops w ctx payload (Suc left) attempt last_error s =
     (let s1 = (if 0 < attempt then awaits ops (wh_url w) s else s) in
      if 0 < attempt \<and> circuit_is_open ops (wh_url w) s1
      then (Err (''circuit breaker OPEN after attempt '' @ show_nat attempt @ ''; aborting retries''), s1)
      else
        (let (r, s2) = send_webhook ops (wh_url w) ctx payload s1;
             s3 = awaits ops (wh_url w) s2
         in case r of
              Inr st \<Rightarrow> (Ok (Suc attempt, st), on_circuit (wh_url w) record_success s3)
            | Inl e \<Rightarrow>
                attempt_loop ops w ctx payload left (Suc attempt) e
                  (on_circuit (wh_url w) (\<lambda>cb. record_failure cb (of_nat (unix_now ops (net s3)))) s3)))"

definition failed_status :: "webhook \<Rightarrow> delivery_context \<Rightarrow> nat \<Rightarrow> string \<Rightarrow> delivery_status" where
  "failed_status w ctx attempts err =
     \<lparr>ds_webhook = wh_id w, ds_delivery = ctx_delivery_id ctx, ds_event_type = ctx_event_type ctx,
      ds_success = False, ds_attempts = attempts, ds_last_status_code = None,
      ds_last_error = Some err, ds_delivered_at = None\<rparr>"

definition deliver_with_context ::
  "dlq_index \<Rightarrow> 'n web_ops \<Rightarrow> stmts \<Rightarrow> string \<Rightarrow> webhook \<Rightarrow> delivery_context \<Rightarrow> json
     \<Rightarrow> webhook_retry_config \<Rightarrow> 'n hook_state \<Rightarrow> delivery_status \<times> 'n hook_state" where
  "deliver_with_context idx ops db did w ctx payload cfg s =
     (let s0 = get_or_create_circuit (wh_url w) cfg s;
          now = (\<lambda>s. unix_now ops (net s))
      in if circuit_is_open ops (wh_url w) s0 then
           (let msg = ''circuit breaker OPEN for endpoint '' @ wh_url w @ ''; skipping delivery'';
                s1 = snd (move_to_dlq idx (db 0) did (int (now s0)) (wh_id w) (ctx_delivery_id ctx)
                            (ctx_event_type ctx) payload msg 0 s0)
            in (failed_status w ctx 0 msg, s1))
         else
           (let (r, s1) = attempt_loop ops w ctx payload (max_attempts cfg) 0 [] s0 in
            case r of
              Inr (n, st) \<Rightarrow>
                (\<lparr>ds_webhook = wh_id w, ds_delivery = ctx_delivery_id ctx,
                  ds_event_type = ctx_event_type ctx, ds_success = True, ds_attempts = n,
                  ds_last_status_code = Some (as_i32 st), ds_last_error = None,
                  ds_delivered_at = Some (now s1)\<rparr>,
                 snd (log_delivery (db 0) (wh_id w) (ctx_event_type ctx) payload (Some (as_i32 st)) None
                        True (as_i32 n) s1))
            | Inl err \<Rightarrow>
                (let s2 = snd (move_to_dlq idx (db 0) did (int (now s1)) (wh_id w) (ctx_delivery_id ctx)
                                 (ctx_event_type ctx) payload err (as_i32 (max_attempts cfg)) s1);
                     s3 = snd (log_delivery (db 1) (wh_id w) (ctx_event_type ctx) payload None (Some err)
                                 False (as_i32 (max_attempts cfg)) s2)
                 in (failed_status w ctx (max_attempts cfg) err, s3))))"

definition new_context :: "string \<Rightarrow> string \<Rightarrow> string \<Rightarrow> delivery_context" where
  "new_context fresh event_type secret =
     \<lparr>ctx_delivery_id = fresh, ctx_event_type = event_type, ctx_secrets = [secret]\<rparr>"

definition replay_dlq_entry ::
  "dlq_index \<Rightarrow> 'n web_ops \<Rightarrow> stmts \<Rightarrow> stmts \<Rightarrow> string \<Rightarrow> string \<Rightarrow> string \<Rightarrow> webhook_retry_config
     \<Rightarrow> 'n hook_state \<Rightarrow> (sqlx_error + delivery_status) \<times> 'n hook_state" where
  "replay_dlq_entry idx ops db ddb did fresh i cfg s =
     (case db 0 of
        Some e \<Rightarrow> (Err e, s)
      | None \<Rightarrow>
          (case List.find (\<lambda>r. dl_id r = i) (dlq s) of
             None \<Rightarrow> (Err SqlxOther, s)
           | Some entry \<Rightarrow>
               (case get_webhook (db 1) (dl_webhook entry) s of
                  Inl e \<Rightarrow> (Err e, s)
                | Inr None \<Rightarrow> (Err SqlxOther, s)
                | Inr (Some w) \<Rightarrow>
                    (let ctx = (new_context fresh (dl_event_type entry) (wh_secret w))
                                 \<lparr>ctx_delivery_id := dl_delivery entry\<rparr>;
                         (st, s1) = deliver_with_context idx ops ddb did w ctx (dl_payload entry) cfg s
                     in if \<not> ds_success st then (Ok st, s1)
                        else
                          (case db 2 of
                             Some e \<Rightarrow> (Err e, s1)
                           | None \<Rightarrow> (Ok st, s1\<lparr>dlq := filter (\<lambda>r. dl_id r \<noteq> i) (dlq s1)\<rparr>))))))"

section \<open>Dispatch\<close>

definition trigger_targets :: "string \<Rightarrow> 'n hook_state \<Rightarrow> webhook list" where
  "trigger_targets event s = filter (\<lambda>w. wh_enabled w \<and> event \<in> set (wh_events w)) (hooks s)"

text \<open>The task spawned for one webhook.\<close>

definition dispatch_one ::
  "dlq_index \<Rightarrow> 'n web_ops \<Rightarrow> stmts \<Rightarrow> stmts \<Rightarrow> string \<Rightarrow> string \<Rightarrow> string \<Rightarrow> webhook \<Rightarrow> json
     \<Rightarrow> 'n hook_state \<Rightarrow> delivery_status \<times> 'n hook_state" where
  "dispatch_one idx ops db ddb did fresh event w payload s =
     (let secrets = (case active_secrets db (wh_id w) s of
                       Inr (x # xs) \<Rightarrow> x # xs
                     | _ \<Rightarrow> [wh_secret w]);
          ctx = new_context fresh event (hd secrets);
          ctx = (if 1 < length secrets then ctx\<lparr>ctx_secrets := secrets\<rparr> else ctx)
      in deliver_with_context idx ops ddb did w ctx payload webhook_retry_config_default s)"

section \<open>What a delivery does\<close>

definition delivered :: "post \<Rightarrow> bool" where
  "delivered p = (case po_result p of Inr st \<Rightarrow> is_success st | Inl e \<Rightarrow> False)"

text \<open>A request of this delivery: to the endpoint, with the payload, the delivery id, and a signature
  that verifies under every secret of the context when it is sent.\<close>

definition attempt_of :: "'n web_ops \<Rightarrow> webhook \<Rightarrow> delivery_context \<Rightarrow> json \<Rightarrow> post \<Rightarrow> bool" where
  "attempt_of ops w ctx payload p \<longleftrightarrow>
     po_url p = wh_url w \<and> po_body p = render ops payload
     \<and> header_get (po_headers p) ''X-TipJar-Delivery-Id'' = Some (header_value (ctx_delivery_id ctx))
     \<and> (\<exists>sig ts. header_get (po_headers p) ''X-TipJar-Signature'' = Some sig
          \<and> (\<forall>secret \<in> set (ctx_secrets ctx).
               verify_signature_at (hmac_hex ops) sig (po_body p) secret SIGNATURE_TOLERANCE_SECS ts = Ok ()))"

definition same_rows :: "'n hook_state \<Rightarrow> 'n hook_state \<Rightarrow> bool" where
  "same_rows s s' \<longleftrightarrow> hooks s' = hooks s \<and> hook_secrets s' = hook_secrets s
     \<and> hook_logs s' = hook_logs s \<and> dlq s' = dlq s"

lemma same_rows_steps [simp]:
  "same_rows s (get_or_create_circuit url cfg s') \<longleftrightarrow> same_rows s s'"
  "same_rows s (on_circuit url f s') \<longleftrightarrow> same_rows s s'"
  "same_rows s (awaits ops url s') \<longleftrightarrow> same_rows s s'"
  "same_rows (get_or_create_circuit url cfg s) s' \<longleftrightarrow> same_rows s s'"
  "same_rows (on_circuit url f s) s' \<longleftrightarrow> same_rows s s'"
  "same_rows (awaits ops url s) s' \<longleftrightarrow> same_rows s s'"
  by (auto simp: same_rows_def get_or_create_circuit_def on_circuit_def awaits_def
      split: option.splits prod.splits)

lemma posts_steps [simp]:
  "posts (get_or_create_circuit url cfg s) = posts s"
  "posts (on_circuit url f s) = posts s"
  "posts (awaits ops url s) = posts s"
  by (auto simp: get_or_create_circuit_def on_circuit_def awaits_def split: option.splits prod.splits)

lemma same_rows_refl [simp]: "same_rows s s"
  by (simp add: same_rows_def)

lemma same_rows_trans: "same_rows s s' \<Longrightarrow> same_rows s' s'' \<Longrightarrow> same_rows s s''"
  by (simp add: same_rows_def)

lemma built_header_visible:
  assumes "hex_digest hmac"
  shows "header_value (build_signature_header_at hmac secrets body ts) =
    build_signature_header_at hmac secrets body ts"
proof -
  let ?vis = "\<lambda>c. 32 \<le> byte c \<and> byte c < 127 \<or> byte c = 9"
  have "list_all ?vis (join '','' ps)" if "\<forall>p \<in> set ps. list_all ?vis p" for ps
    using that by (induction "'',''" ps rule: join.induct) auto
  moreover have "list_all ?vis (show_nat ts)"
    using show_nat_digits [of ts] by (auto simp: all_digits_def list_all_iff is_ascii_digit_def)
  moreover have "list_all ?vis (compute_v1 hmac k ts body)" for k
  proof -
    have "?vis c" if "is_ascii_hexdigit c" for c
      using that by (auto simp: is_ascii_hexdigit_def is_ascii_digit_def)
    then show ?thesis using assms by (auto simp: hex_digest_def compute_v1_def list_all_iff)
  qed
  ultimately show ?thesis
    unfolding header_value_def build_signature_header_at_def by simp
qed

text \<open>One attempt appends one such request, and succeeds exactly when it was answered with 2xx.\<close>

lemma send_webhook_post:
  assumes "hex_digest (hmac_hex ops)" and "\<And>n. unix_now ops n \<le> u64_max"
    and "send_webhook ops (wh_url w) ctx payload s = (r, s')"
  shows "\<exists>p. posts s' = posts s @ [p] \<and> attempt_of ops w ctx payload p \<and> same_rows s s'
    \<and> (is_ok r \<longleftrightarrow> delivered p) \<and> (\<forall>st. r = Ok st \<longrightarrow> po_result p = Ok st)"
proof -
  let ?ts = "unix_now ops (net s)"
  let ?sig = "build_signature_header_at (hmac_hex ops) (ctx_secrets ctx) (render ops payload) ?ts"
  let ?hs = "delivery_headers (trace_headers ops) ?sig ctx"
  obtain a n' where a: "send_post ops (wh_url w) ?hs (render ops payload) (net s) = (a, n')"
    by (metis surj_pair)
  let ?p = "\<lparr>po_url = wh_url w, po_headers = ?hs, po_body = render ops payload, po_result = a\<rparr>"
  have "verify_signature_at (hmac_hex ops) ?sig (render ops payload) secret
      SIGNATURE_TOLERANCE_SECS ?ts = Ok ()" if "secret \<in> set (ctx_secrets ctx)" for secret
    by (rule built_header_verifies [OF assms(1,2) that]) simp
  then have "attempt_of ops w ctx payload ?p"
    by (auto simp: attempt_of_def delivery_headers_def built_header_visible [OF assms(1)]
        intro!: exI [of _ ?ts])
  moreover have "r = (case a of Inl e \<Rightarrow> Err e | Inr st \<Rightarrow> if is_success st then Ok st
        else Err (''Webhook delivery failed with status: '' @ status_text ops st))"
    "s' = s\<lparr>net := n', posts := posts s @ [?p]\<rparr>"
    using assms(3) a by (simp_all add: send_webhook_def Let_def)
  ultimately show ?thesis
    by (auto simp: same_rows_def delivered_def split: sum.splits if_splits intro!: exI [of _ ?p])
qed

text \<open>What a run of the loop sent, by its result: a success is the last of its requests, and the first
  to be answered with 2xx.\<close>

definition loop_result :: "nat \<Rightarrow> string + nat \<times> nat \<Rightarrow> post list \<Rightarrow> bool" where
  "loop_result attempt r sent =
     (case r of
        Inl e \<Rightarrow> list_all (\<lambda>p. \<not> delivered p) sent
      | Inr (n, st) \<Rightarrow> sent \<noteq> [] \<and> n = attempt + length sent \<and> delivered (last sent)
          \<and> po_result (last sent) = Ok st \<and> list_all (\<lambda>p. \<not> delivered p) (butlast sent))"

lemma loop_result_Cons:
  "\<not> delivered p \<Longrightarrow> loop_result (Suc attempt) r sent \<Longrightarrow> loop_result attempt r (p # sent)"
  by (auto simp: loop_result_def split: sum.splits prod.splits)

lemma attempt_loop_sends:
  assumes "hex_digest (hmac_hex ops)" and "\<And>n. unix_now ops n \<le> u64_max"
    and "attempt_loop ops w ctx payload left attempt err s = (r, s')"
  shows "\<exists>sent. posts s' = posts s @ sent \<and> length sent \<le> left \<and> same_rows s s'
    \<and> list_all (attempt_of ops w ctx payload) sent \<and> loop_result attempt r sent"
  using assms(3)
proof (induction left arbitrary: attempt err s)
  case 0
  then show ?case by (auto simp: loop_result_def)
next
  case (Suc left)
  let ?s1 = "if 0 < attempt then awaits ops (wh_url w) s else s"
  have s1: "posts ?s1 = posts s" "same_rows s ?s1" by simp_all
  show ?case
  proof (cases "0 < attempt \<and> circuit_is_open ops (wh_url w) ?s1")
    case True
    then have "\<not> is_ok r" "s' = ?s1" using Suc.prems by (auto simp: Let_def)
    with s1 show ?thesis by (auto simp: loop_result_def not_is_ok_iff)
  next
    case False
    obtain a s2 where a: "send_webhook ops (wh_url w) ctx payload ?s1 = (a, s2)" by (metis surj_pair)
    obtain p where p: "posts s2 = posts s @ [p]" "attempt_of ops w ctx payload p" "same_rows s s2"
      "is_ok a \<longleftrightarrow> delivered p" "\<forall>st. a = Ok st \<longrightarrow> po_result p = Ok st"
      using send_webhook_post [OF assms(1,2) a] s1 same_rows_trans by auto
    let ?s3 = "awaits ops (wh_url w) s2"
    show ?thesis
    proof (cases a)
      case (Inr st)
      then have "r = Ok (Suc attempt, st)" "s' = on_circuit (wh_url w) record_success ?s3"
        using Suc.prems False a by (simp_all add: Let_def)
      moreover have "same_rows s (on_circuit (wh_url w) record_success ?s3)"
        using p(3) by simp
      ultimately show ?thesis using p Inr by (auto simp: loop_result_def intro!: exI [of _ "[p]"])
    next
      case (Inl e)
      let ?s4 = "on_circuit (wh_url w) (\<lambda>cb. record_failure cb (of_nat (unix_now ops (net ?s3)))) ?s3"
      have "attempt_loop ops w ctx payload left (Suc attempt) e ?s4 = (r, s')"
        using Suc.prems False a Inl by (simp add: Let_def)
      from Suc.IH [OF this] obtain sent where sent: "posts s' = posts ?s4 @ sent" "length sent \<le> left"
        "same_rows ?s4 s'" "list_all (attempt_of ops w ctx payload) sent"
        "loop_result (Suc attempt) r sent" by blast
      have "same_rows s s'" using same_rows_trans [OF p(3)] sent(3) by simp
      moreover have "\<not> delivered p" using p(4) Inl by simp
      then have "loop_result attempt r (p # sent)" using sent(5) by (rule loop_result_Cons)
      moreover have "posts s' = posts s @ p # sent" using sent(1) p(1) by simp
      ultimately show ?thesis using sent(2,4) p(2) by (intro exI [of _ "p # sent"]) simp
    qed
  qed
qed

text \<open>The loop itself writes no table.\<close>

lemma attempt_loop_rows:
  "same_rows s (snd (attempt_loop ops w ctx payload left attempt err s))"
proof (induction left arbitrary: attempt err s)
  case (Suc left)
  let ?s1 = "if 0 < attempt then awaits ops (wh_url w) s else s"
  obtain r s2 where s2: "send_webhook ops (wh_url w) ctx payload ?s1 = (r, s2)" by (metis surj_pair)
  then have "same_rows s s2"
    by (auto simp: send_webhook_def same_rows_def Let_def awaits_def on_circuit_def
        split: prod.splits if_splits)
  then have "same_rows s (snd (attempt_loop ops w ctx payload left (Suc attempt) e
      (on_circuit (wh_url w) f (awaits ops (wh_url w) s2))))" for e f
    using Suc.IH [of "on_circuit (wh_url w) f (awaits ops (wh_url w) s2)" "Suc attempt" e]
    by (simp add: same_rows_trans [OF \<open>same_rows s s2\<close>])
  then show ?case using s2 \<open>same_rows s s2\<close> by (auto simp: Let_def split: sum.splits)
qed simp

lemma move_to_dlq_entry:
  assumes "db = None"
  shows "\<exists>r \<in> set (dlq (snd (move_to_dlq TotalIndex db did now i d ev payload err n s))).
    dl_delivery r = d \<and> dl_last_error r = err"
proof (cases "\<exists>r \<in> set (dlq s). dl_delivery r = d")
  case True
  then obtain r where r: "r \<in> set (dlq s)" "dl_delivery r = d" by blast
  then have "d \<in> set (map dl_delivery (dlq s))" by auto
  then have "dlq (snd (move_to_dlq TotalIndex db did now i d ev payload err n s)) =
      map (\<lambda>r. if dl_delivery r = d
        then r\<lparr>dl_last_error := err, dl_attempts := n, dl_failed_at := now\<rparr> else r) (dlq s)"
    using assms by (simp add: move_to_dlq_def)
  then have "r\<lparr>dl_last_error := err, dl_attempts := n, dl_failed_at := now\<rparr>
      \<in> set (dlq (snd (move_to_dlq TotalIndex db did now i d ev payload err n s)))"
    using r by auto
  then show ?thesis by (rule bexI [rotated]) (simp add: r(2))
next
  case False
  then have "d \<notin> set (map dl_delivery (dlq s))" by auto
  then show ?thesis using assms by (simp add: move_to_dlq_def)
qed

lemma write_simps [simp]:
  "posts (snd (move_to_dlq idx f did now i d ev payload err n s)) = posts s"
  "posts (snd (log_delivery f i ev payload code rb ok n s)) = posts s"
  "dlq (snd (log_delivery f i ev payload code rb ok n s)) = dlq s"
  "dlq (snd (move_to_dlq PartialIndex f did now i d ev payload err n s)) = dlq s"
  by (auto simp: move_to_dlq_def log_delivery_def split: option.splits)

lemma open_circuit_kept:
  "circuit_is_open ops url s \<Longrightarrow> circuit_is_open ops url (get_or_create_circuit url cfg s)"
  by (auto simp: circuit_is_open_def get_or_create_circuit_def split: option.splits)

text \<open>\<^bold>\<open>C32.\<close> A delivery sends at most \<open>max_attempts\<close> requests, all of them to the endpoint with the
  payload, the one delivery id, and a signature that verifies under every active secret, and none
  when the endpoint's breaker is open. It reports success exactly when its last request was
  answered with 2xx, and stops there; then nothing goes to the dead-letter queue. Otherwise no
  request was answered with 2xx, and the delivery is in the queue with the reported error (given
  an index that \<open>ON CONFLICT\<close> can use, and the statement not failing). Other tasks may trip or
  reset the breaker at every await.\<close>

theorem delivery_outcome:
  assumes "hex_digest (hmac_hex ops)" and "\<And>n. unix_now ops n \<le> u64_max"
    and "deliver_with_context idx ops db did w ctx payload cfg s = (st, s')"
  shows "\<exists>sent. posts s' = posts s @ sent \<and> length sent \<le> max_attempts cfg
    \<and> list_all (attempt_of ops w ctx payload) sent
    \<and> (circuit_is_open ops (wh_url w) s \<longrightarrow> sent = [])
    \<and> (if ds_success st
       then sent \<noteq> [] \<and> ds_attempts st = length sent \<and> delivered (last sent)
            \<and> list_all (\<lambda>p. \<not> delivered p) (butlast sent) \<and> dlq s' = dlq s
       else list_all (\<lambda>p. \<not> delivered p) sent
            \<and> (idx = TotalIndex \<and> db 0 = None \<longrightarrow> (\<exists>r \<in> set (dlq s').
                 dl_delivery r = ctx_delivery_id ctx \<and> Some (dl_last_error r) = ds_last_error st)))"
proof -
  let ?s0 = "get_or_create_circuit (wh_url w) cfg s"
  show ?thesis
  proof (cases "circuit_is_open ops (wh_url w) ?s0")
    case True
    then show ?thesis
      using assms(3) move_to_dlq_entry [of "db 0"]
      by (auto simp: deliver_with_context_def Let_def failed_status_def)
  next
    case False
    then have closed: "\<not> circuit_is_open ops (wh_url w) s" using open_circuit_kept by blast
    obtain r s1 where loop: "attempt_loop ops w ctx payload (max_attempts cfg) 0 [] ?s0 = (r, s1)"
      by (metis surj_pair)
    obtain sent where sent: "posts s1 = posts s @ sent" "length sent \<le> max_attempts cfg"
      "same_rows s s1" "list_all (attempt_of ops w ctx payload) sent" "loop_result 0 r sent"
      using attempt_loop_sends [OF assms(1,2) loop] by auto
    show ?thesis
    proof (cases r)
      case (Inl e)
      with False closed loop sent assms(3) move_to_dlq_entry [of "db 0"] show ?thesis
        by (intro exI [of _ sent])
          (auto simp: deliver_with_context_def Let_def failed_status_def loop_result_def)
    next
      case (Inr ns)
      with False closed loop sent assms(3) show ?thesis
        by (intro exI [of _ sent])
          (auto simp: deliver_with_context_def Let_def loop_result_def same_rows_def split: prod.splits)
    qed
  qed
qed

text \<open>A network that refuses the first request and accepts the second; a request takes a second.\<close>

definition demo_web :: "nat web_ops" where
  "demo_web = \<lparr>hmac_hex = length_mac, render = (\<lambda>_. ''{}''), trace_headers = Map.empty,
     status_text = show_nat,
     send_post = (\<lambda>url h b n. (if n = 0 then Err ''refused'' else Ok 204, n + 1)),
     unix_now = (\<lambda>n. min n u64_max), meanwhile = (\<lambda>n. (id, n))\<rparr>"

definition demo_hook :: webhook where
  "demo_hook = \<lparr>wh_id = ''h'', wh_url = ''https://a.example'', wh_secret = ''k'', wh_enabled = True,
     wh_events = [''tip.created''], wh_created_at = 0, wh_updated_at = 0\<rparr>"

definition demo_hooks :: "nat hook_state" where
  "demo_hooks = \<lparr>hooks = [demo_hook], hook_secrets = [], hook_logs = [], dlq = [],
     circuits = Map.empty, posts = [], net = 0\<rparr>"

definition demo_hook_config :: webhook_retry_config where
  "demo_hook_config = \<lparr>max_attempts = Suc (Suc 0), circuit_failure_threshold = 5, circuit_recovery_secs = 300\<rparr>"

lemma demo_send:
  "\<exists>ps. send_webhook demo_web url ctx payload s =
     (if net s = 0 then Err ''refused'' else Ok 204, s\<lparr>net := Suc (net s), posts := ps\<rparr>)"
  by (auto simp: send_webhook_def demo_web_def Let_def is_success_def)

lemma demo_awaits: "awaits demo_web url s = s"
  by (simp add: awaits_def demo_web_def on_circuit_def option.map_id0)

lemma demo_loop:
  assumes "net s = 0" "circuits s (wh_url w) = Some (cb_new 5 t)"
  shows "\<exists>s'. attempt_loop demo_web w ctx payload (Suc (Suc 0)) 0 err s = (Ok (2, 204), s')"
proof -
  obtain ps where one: "send_webhook demo_web (wh_url w) ctx payload s
      = (Err ''refused'', s\<lparr>net := 1, posts := ps\<rparr>)" 
    using demo_send [of "wh_url w" ctx payload s] assms(1) by auto
  let ?s1 = "on_circuit (wh_url w) (\<lambda>cb. record_failure cb (of_nat (unix_now demo_web 1)))
      (s\<lparr>net := 1, posts := ps\<rparr>)"
  have "\<not> circuit_is_open demo_web (wh_url w) ?s1"
    using assms(2) by (simp add: circuit_is_open_def on_circuit_def cb_state_def cb_new_def record_failure_def)
  moreover obtain s2 where "send_webhook demo_web (wh_url w) ctx payload ?s1 = (Ok 204, s2)"
    using demo_send [of "wh_url w" ctx payload ?s1] by (auto simp: on_circuit_def)
  ultimately show ?thesis using one by (simp add: demo_awaits Let_def)
qed

theorem delivery_outcome_witness:
  "\<exists>st s' sent. deliver_with_context TotalIndex demo_web (\<lambda>_. None) ''d'' demo_hook
       (new_context ''x'' ''tip.created'' ''k'') JNull demo_hook_config demo_hooks = (st, s')
     \<and> ds_success st \<and> ds_attempts st = length sent \<and> length sent \<le> 2
     \<and> list_all (attempt_of demo_web demo_hook (new_context ''x'' ''tip.created'' ''k'') JNull) sent"
proof -
  let ?ctx = "new_context ''x'' ''tip.created'' ''k''"
  let ?s0 = "get_or_create_circuit (wh_url demo_hook) demo_hook_config demo_hooks"
  obtain st s' where run: "deliver_with_context TotalIndex demo_web (\<lambda>_. None) ''d'' demo_hook
      ?ctx JNull demo_hook_config demo_hooks = (st, s')" by (metis surj_pair)
  have s0: "net ?s0 = 0" "circuits ?s0 (wh_url demo_hook) = Some (cb_new 5 (from_secs 300))"
    by (simp_all add: get_or_create_circuit_def demo_hooks_def demo_hook_config_def)
  have "\<not> circuit_is_open demo_web (wh_url demo_hook) ?s0"
    by (simp add: circuit_is_open_def s0 cb_state_def cb_new_def)
  then have "ds_success st"
    using run demo_loop [OF s0, of ?ctx JNull "[]"]
    by (auto simp: deliver_with_context_def Let_def demo_hook_config_def)
  moreover have "hex_digest (hmac_hex demo_web)" "\<And>n. unix_now demo_web n \<le> u64_max"
    by (simp_all add: demo_web_def length_mac_hex)
  ultimately show ?thesis
    using delivery_outcome [OF _ _ run] run by (auto simp: demo_hook_config_def)
qed

text \<open>With the index of the shipped migration nothing ever reaches the dead-letter queue: every
  upsert fails, the failure is dropped, and a delivery leaves the queue as it was, also one that is
  reported as permanently failed.\<close>

theorem dead_letters_lost:
  "dlq (snd (deliver_with_context shipped_index ops db did w ctx payload cfg s)) = dlq s"
proof -
  have "dlq (get_or_create_circuit (wh_url w) cfg s) = dlq s"
    by (simp add: get_or_create_circuit_def split: option.splits)
  moreover have "dlq s1 = dlq (get_or_create_circuit (wh_url w) cfg s)"
    if "attempt_loop ops w ctx payload (max_attempts cfg) 0 [] (get_or_create_circuit (wh_url w) cfg s) = (r, s1)"
    for r s1 using attempt_loop_rows that by (metis same_rows_def snd_conv)
  ultimately show ?thesis
    by (auto simp: deliver_with_context_def shipped_index_def Let_def split: prod.splits sum.splits)
qed

section \<open>Rotation keeps the previous secret\<close>

lemma newest_first_snoc:
  "\<forall>r \<in> set rs. sec_created_at r < sec_created_at n \<Longrightarrow> newest_first (rs @ [n]) = n # newest_first rs"
  unfolding newest_first_def by (induction rs) auto

lemma newest_first_map:
  assumes "\<And>r. sec_created_at (g r) = sec_created_at r"
  shows "newest_first (map g rs) = map g (newest_first rs)"
proof -
  let ?k = "\<lambda>r. - sec_created_at r"
  have "insort_key ?k (g r) (map g ys) = map g (insort_key ?k r ys)" for r ys
    using assms by (induction ys) auto
  then show ?thesis unfolding newest_first_def by (induction rs) auto
qed

lemma filter_newest_first: "filter P (newest_first rs) = newest_first (filter P rs)"
  unfolding newest_first_def by (rule filter_sort)

lemma set_newest_first [simp]: "set (newest_first rs) = set rs"
  by (simp add: newest_first_def)

lemma distinct_newest_first: "distinct (map f (newest_first rs)) \<longleftrightarrow> distinct (map f rs)"
  by (simp add: newest_first_def distinct_map)

lemma sort_key_sorted: "sorted (map f xs) \<Longrightarrow> sort_key f xs = xs"
  by (induction xs) (auto simp: insort_is_Cons)

lemma filter_taken:
  "distinct (map f xs) \<Longrightarrow> filter (\<lambda>x. f x \<in> set (map f (take n xs))) xs = take n xs"
proof (induction xs arbitrary: n)
  case (Cons x xs)
  show ?case
  proof (cases n)
    case (Suc m)
    have "filter (\<lambda>y. f y = f x \<or> f y \<in> set (map f (take m xs))) xs =
        filter (\<lambda>y. f y \<in> set (map f (take m xs))) xs"
      using Cons.prems by (intro filter_cong) (auto simp: rev_image_eqI)
    with Suc Cons show ?thesis by simp
  qed simp
qed simp

text \<open>After a rotation, deliveries are signed with the new secret first and with the newest
  secret recorded before it second, if one is recorded. So receivers still on the recorded previous
  secret verify; but a webhook whose first secret was only stored in its own row has no recorded
  one, and its first rotation drops the old secret at once.\<close>

theorem rotation_overlap:
  assumes "rotate_secret (\<lambda>_. None) sid now new i retain s = (Ok res, s')" and "2 \<le> retain"
    and "distinct (map sec_id (hook_secrets s))" and "sid \<notin> sec_id ` set (hook_secrets s)"
    and "\<forall>r \<in> set (hook_secrets s). sec_webhook r = i \<longrightarrow> sec_created_at r < now \<and> sec_secret r \<noteq> new"
  shows "active_secrets (\<lambda>_. None) i s' = Ok (new # take 1 (map sec_secret (newest_first
           (filter (\<lambda>r. sec_webhook r = i) (hook_secrets s)))))
    \<and> snd res = map_option wh_secret (List.find (\<lambda>w. wh_id w = i) (hooks s))"
proof -
  define rs where "rs = filter (\<lambda>r. sec_webhook r = i) (hook_secrets s)"
  define n where "n = \<lparr>sec_id = sid, sec_webhook = i, sec_secret = new, sec_is_primary = True,
    sec_created_at = now\<rparr>"
  define dem where "dem = (\<lambda>r :: webhook_secret. if sec_webhook r = i \<and> sec_secret r \<noteq> new
    then r\<lparr>sec_is_primary := False\<rparr> else r)"
  have dem: "sec_webhook (dem r) = sec_webhook r" "sec_id (dem r) = sec_id r"
    "sec_secret (dem r) = sec_secret r" "sec_created_at (dem r) = sec_created_at r" for r
    by (simp_all add: dem_def)
  let ?rows = "map dem rs @ [n]"
  let ?kept = "take retain (newest_first ?rows)"
  have n: "dem n = n" "sec_secret n = new" by (simp_all add: n_def dem_def)
  have mine: "filter (\<lambda>r. sec_webhook r = i) (map dem (hook_secrets s) @ [n]) = ?rows"
    by (simp add: filter_map comp_def dem rs_def n_def)
  have s': "hook_secrets s' = filter (\<lambda>r. \<not> (sec_webhook r = i \<and> sec_id r \<notin> set (map sec_id ?kept)))
      (map dem (hook_secrets s) @ [n])" and res: "snd res = map_option wh_secret (List.find (\<lambda>w. wh_id w = i) (hooks s))"
    using assms(1) n mine unfolding rotate_secret_def
    by (auto simp: Let_def prune_secrets_def demote_others_def insert_secret_def set_hook_secret_def
        dem_def [symmetric] n_def [symmetric] split: if_splits)
  have sorted_rows: "newest_first ?rows = n # map dem (newest_first rs)"
    using assms(5) by (subst newest_first_snoc) (auto simp: newest_first_map dem rs_def n_def)
  have "distinct (map sec_id ?rows)"
    using assms(3,4) by (auto simp: rs_def comp_def dem n_def distinct_map_filter)
  then have ids: "distinct (map sec_id (newest_first ?rows))" by (simp only: distinct_newest_first)
  have "filter (\<lambda>r. sec_webhook r = i) (hook_secrets s')
      = filter (\<lambda>r. sec_id r \<in> set (map sec_id ?kept)) ?rows"
    unfolding s' mine [symmetric] filter_filter by (rule filter_cong) auto
  then have kept: "newest_first (filter (\<lambda>r. sec_webhook r = i) (hook_secrets s')) = ?kept"
    using filter_taken [OF ids] by (simp only: filter_newest_first [symmetric])
  obtain m where m: "retain = Suc (Suc m)" using le_Suc_ex [OF assms(2)] by auto
  have demoted: "\<not> sec_is_primary (dem r)" if "r \<in> set rs" for r
    using that assms(5) by (auto simp: dem_def rs_def)
  have "map (\<lambda>r. if sec_is_primary r then 0 else 1 :: nat) ?kept
      = 0 # replicate (length (take (Suc m) (newest_first rs))) 1"
  proof -
    have "map (\<lambda>r. if sec_is_primary (dem r) then 0 else 1 :: nat) (take (Suc m) (newest_first rs))
        = replicate (length (take (Suc m) (newest_first rs))) 1"
      using demoted by (intro replicate_eqI) (auto dest!: in_set_takeD)
    then show ?thesis unfolding sorted_rows m by (simp add: n_def take_map comp_def)
  qed
  then have "sorted (map (\<lambda>r. if sec_is_primary r then 0 else 1 :: nat) ?kept)" by simp
  then have "sort_key (\<lambda>r. if sec_is_primary r then 0 else 1 :: nat) ?kept = ?kept"
    by (rule sort_key_sorted)
  then have "active_secrets (\<lambda>_. None) i s' = Ok (map sec_secret (take 2 ?kept))"
    by (simp add: active_secrets_def kept sorted_rows m)
  also have "map sec_secret (take 2 ?kept) = new # take 1 (map sec_secret (newest_first rs))"
    by (simp add: sorted_rows m numeral_2_eq_2 take_map comp_def dem n)
  finally show ?thesis using res by (simp add: rs_def)
qed

theorem rotation_overlap_witness:
  "\<exists>s'. rotate_secret (\<lambda>_. None) ''r2'' 9 ''new'' ''h'' 2
      (demo_hooks\<lparr>hook_secrets := [\<lparr>sec_id = ''r1'', sec_webhook = ''h'', sec_secret = ''k'',
         sec_is_primary = True, sec_created_at = 0\<rparr>]\<rparr>) = (Ok (''new'', Some ''k''), s')
    \<and> active_secrets (\<lambda>_. None) ''h'' s' = Ok [''new'', ''k'']"
proof -
  let ?s = "demo_hooks\<lparr>hook_secrets := [\<lparr>sec_id = ''r1'', sec_webhook = ''h'', sec_secret = ''k'',
         sec_is_primary = True, sec_created_at = 0\<rparr>]\<rparr>"
  obtain s' where rot: "rotate_secret (\<lambda>_. None) ''r2'' 9 ''new'' ''h'' 2 ?s = (Ok (''new'', Some ''k''), s')"
    by (simp add: rotate_secret_def demo_hooks_def demo_hook_def Let_def)
  from rotation_overlap [OF rot] rot show ?thesis
    by (auto simp: demo_hooks_def newest_first_def)
qed

end
