(* ===== verification/Saga.thy ===== *)
theory Saga
  imports Tip_Handlers
begin

text \<open>
  Sagas (\<open>src/saga/\<close>): the orchestrator that runs the steps of a saga in order, retries each, and
  compensates the completed ones in reverse when one fails; and the tip-processing saga, whose steps
  are the tip handlers. The world \<open>'w\<close> is what actions and compensations work on. The bookkeeping
  of the orchestrator (the instance row and the step log) is in the database, where the \<open>n\<close>-th
  statement may fail (\<open>db n\<close>). The field \<open>sg_trace\<close> records every call of an action or a
  compensation with its success; it is not part of the program. Delays between retries are not
  modelled, and retry counts are naturals (the source counts in \<open>u32\<close>).
\<close>

section \<open>Steps\<close>

record saga_context =
  ctx_saga_id :: string
  ctx_data :: "string \<rightharpoonup> json"

definition new_saga_context :: "string \<Rightarrow> saga_context" where
  "new_saga_context i = \<lparr>ctx_saga_id = i, ctx_data = Map.empty\<rparr>"

definition ctx_set :: "string \<Rightarrow> json \<Rightarrow> saga_context \<Rightarrow> saga_context" where
  "ctx_set k v c = c\<lparr>ctx_data := (ctx_data c)(k \<mapsto> v)\<rparr>"

datatype step_state = StepPending | StepCompleted | StepCompensated | StepFailed

fun step_state_as_str :: "step_state \<Rightarrow> string" where
  "step_state_as_str StepPending = ''pending''"
| "step_state_as_str StepCompleted = ''completed''"
| "step_state_as_str StepCompensated = ''compensated''"
| "step_state_as_str StepFailed = ''failed''"

record 'w saga_step =
  step_name :: string
  step_action :: "saga_context \<Rightarrow> 'w \<Rightarrow> (app_error + unit) \<times> saga_context \<times> 'w"
  step_compensation :: "saga_context \<Rightarrow> 'w \<Rightarrow> (app_error + unit) \<times> 'w"
  step_max_retries :: nat

datatype saga_event = Ran nat bool | Undid nat bool

record 'w saga_state =
  sg_world :: 'w
  sg_instance :: "string \<rightharpoonup> string \<times> string \<times> nat"
  sg_logs :: "(string \<times> nat \<times> string \<times> string \<times> string option) list"
  sg_stmts :: nat
  sg_trace :: "saga_event list"

section \<open>Statements\<close>

definition saga_stmt ::
  "db \<Rightarrow> ('w saga_state \<Rightarrow> 'w saga_state) \<Rightarrow> 'w saga_state \<Rightarrow> (app_error + unit) \<times> 'w saga_state" where
  "saga_stmt db f s =
     (let s' = s\<lparr>sg_stmts := Suc (sg_stmts s)\<rparr> in
      case db (sg_stmts s) of
        Some e \<Rightarrow> (Err (app_error_from_sqlx e), s')
      | None \<Rightarrow> (Ok (), f s'))"

definition persist_saga :: "db \<Rightarrow> string \<Rightarrow> string \<Rightarrow> 'w saga_state \<Rightarrow> (app_error + unit) \<times> 'w saga_state" where
  "persist_saga db i typ = saga_stmt db (\<lambda>s. s\<lparr>sg_instance :=
     (if sg_instance s i = None then (sg_instance s)(i \<mapsto> (typ, ''pending'', 0)) else sg_instance s)\<rparr>)"

definition update_saga_step :: "db \<Rightarrow> string \<Rightarrow> nat \<Rightarrow> 'w saga_state \<Rightarrow> (app_error + unit) \<times> 'w saga_state" where
  "update_saga_step db i n = saga_stmt db (\<lambda>s. s\<lparr>sg_instance := (sg_instance s)(i :=
     map_option (\<lambda>(typ, st, _). (typ, st, Suc n)) (sg_instance s i))\<rparr>)"

definition update_saga_state :: "db \<Rightarrow> string \<Rightarrow> string \<Rightarrow> 'w saga_state \<Rightarrow> (app_error + unit) \<times> 'w saga_state" where
  "update_saga_state db i st = saga_stmt db (\<lambda>s. s\<lparr>sg_instance := (sg_instance s)(i :=
     map_option (\<lambda>(typ, _, n). (typ, st, n)) (sg_instance s i))\<rparr>)"

definition log_step ::
  "db \<Rightarrow> string \<Rightarrow> nat \<Rightarrow> string \<Rightarrow> step_state \<Rightarrow> string option \<Rightarrow> 'w saga_state
     \<Rightarrow> (app_error + unit) \<times> 'w saga_state" where
  "log_step db i n name st err = saga_stmt db (\<lambda>s. s\<lparr>sg_logs :=
     sg_logs s @ [(i, n, name, step_state_as_str st, err)]\<rparr>)"

section \<open>The orchestrator\<close>

definition run_action ::
  "nat \<Rightarrow> 'w saga_step \<Rightarrow> saga_context \<times> 'w saga_state
     \<Rightarrow> (app_error + unit) \<times> saga_context \<times> 'w saga_state" where
  "run_action n step cs =
     (let (c, s) = cs; (r, c', w') = step_action step c (sg_world s)
      in (r, c', s\<lparr>sg_world := w', sg_trace := sg_trace s @ [Ran n (is_ok r)]\<rparr>))"

text \<open>The loop \<open>while attempts <= step.max_retries\<close>, with the retries left as the structural argument:
  the last error, or success.\<close>

fun try_step ::
  "nat \<Rightarrow> 'w saga_step \<Rightarrow> nat \<Rightarrow> saga_context \<times> 'w saga_state
     \<Rightarrow> (app_error + unit) \<times> saga_context \<times> 'w saga_state" where
  "try_step n step 0 cs = run_action n step cs"
| "try_step n step (Suc left) cs =
     (let (r, cs') = run_action n step cs
      in if is_ok r then (r, cs') else try_step n step left cs')"

text \<open>The compensations of the completed steps, last first; a failure is logged and skipped. The
  argument is the number of completed steps left.\<close>

fun compensate ::
  "db \<Rightarrow> string \<Rightarrow> 'w saga_step list \<Rightarrow> saga_context \<Rightarrow> nat \<Rightarrow> 'w saga_state \<Rightarrow> 'w saga_state" where
  "compensate db i steps c 0 s = s"
| "compensate db i steps c (Suc n) s =
     (let step = steps ! n;
          (r, w') = step_compensation step c (sg_world s);
          s1 = s\<lparr>sg_world := w', sg_trace := sg_trace s @ [Undid n (is_ok r)]\<rparr>;
          s2 = (if is_ok r then snd (log_step db i n (step_name step) StepCompensated None s1) else s1)
      in compensate db i steps c n s2)"

definition fail_saga ::
  "db \<Rightarrow> (app_error \<Rightarrow> string) \<Rightarrow> string \<Rightarrow> 'w saga_step list \<Rightarrow> nat \<Rightarrow> app_error \<Rightarrow> saga_context
     \<Rightarrow> 'w saga_state \<Rightarrow> (app_error + saga_context) \<times> 'w saga_state" where
  "fail_saga db show_err i steps n e c s =
     (let (r1, s1) = log_step db i n (step_name (steps ! n)) StepFailed (Some (show_err e)) s in
      case r1 of
        Inl e1 \<Rightarrow> (Err e1, s1)
      | Inr _ \<Rightarrow>
          (let (r2, s2) = update_saga_state db i ''failed'' s1 in
           case r2 of
             Inl e2 \<Rightarrow> (Err e2, s2)
           | Inr _ \<Rightarrow>
               (let (r3, s3) = update_saga_state db i ''compensated'' (compensate db i steps c n s2) in
                case r3 of
                  Inl e3 \<Rightarrow> (Err e3, s3)
                | Inr _ \<Rightarrow> (Err Internal, s3))))"

text \<open>The loop over the steps, from step \<open>n\<close> on; the remaining steps are the structural argument.\<close>

fun saga_loop ::
  "db \<Rightarrow> (app_error \<Rightarrow> string) \<Rightarrow> string \<Rightarrow> 'w saga_step list \<Rightarrow> nat \<Rightarrow> 'w saga_step list
     \<Rightarrow> saga_context \<times> 'w saga_state \<Rightarrow> (app_error + saga_context) \<times> 'w saga_state" where
  "saga_loop db show_err i steps n [] (c, s) =
     (let (r, s') = update_saga_state db i ''completed'' s in
      (case r of Inl e \<Rightarrow> Err e | Inr _ \<Rightarrow> Ok c, s'))"
| "saga_loop db show_err i steps n (step # rest) (c, s) =
     (let (r, c', s') = try_step n step (step_max_retries step) (c, s) in
      case r of
        Inl e \<Rightarrow> fail_saga db show_err i steps n e c' s'
      | Inr _ \<Rightarrow>
          (let (r1, s1) = log_step db i n (step_name step) StepCompleted None s' in
           case r1 of
             Inl e1 \<Rightarrow> (Err e1, s1)
           | Inr _ \<Rightarrow>
               (let (r2, s2) = update_saga_step db i n s1 in
                case r2 of
                  Inl e2 \<Rightarrow> (Err e2, s2)
                | Inr _ \<Rightarrow> saga_loop db show_err i steps (Suc n) rest (c', s2))))"

definition execute_saga ::
  "db \<Rightarrow> (app_error \<Rightarrow> string) \<Rightarrow> string \<Rightarrow> string \<Rightarrow> 'w saga_step list \<Rightarrow> 'w saga_state
     \<Rightarrow> (app_error + saga_context) \<times> 'w saga_state" where
  "execute_saga db show_err i typ steps s =
     (let (r, s0) = persist_saga db i typ s in
      case r of
        Inl e \<Rightarrow> (Err e, s0)
      | Inr _ \<Rightarrow> saga_loop db show_err i steps 0 steps (new_saga_context i, s0))"

section \<open>The tip saga\<close>

text \<open>A tip id travels through the context as a JSON string; \<open>parse_uuid\<close> reads it back.\<close>

definition record_tip_step ::
  "row_decoder \<Rightarrow> (string \<Rightarrow> bool) \<Rightarrow> db \<Rightarrow> (uuid \<Rightarrow> json) \<Rightarrow> (app_state \<Rightarrow> uuid) \<Rightarrow> (app_state \<Rightarrow> int)
     \<Rightarrow> record_tip_request \<Rightarrow> saga_context \<Rightarrow> app_state \<Rightarrow> (app_error + unit) \<times> saga_context \<times> app_state" where
  "record_tip_step from_row violates db json_of fresh now req c s =
     (let (r, s') = record_tip from_row violates db (fresh s) (now s) req s in
      case r of
        Inl e \<Rightarrow> (Err e, c, s')
      | Inr t \<Rightarrow> (Ok (), ctx_set ''tip_id'' (json_of (tip_id t)) c, s'))"

definition delete_tip_compensation ::
  "sqlx_error option \<Rightarrow> (json \<Rightarrow> uuid option) \<Rightarrow> saga_context \<Rightarrow> app_state \<Rightarrow> (app_error + unit) \<times> app_state" where
  "delete_tip_compensation fault parse_uuid c s =
     (case Option.bind (ctx_data c ''tip_id'') parse_uuid of
        None \<Rightarrow> (Ok (), s)
      | Some i \<Rightarrow>
          (case fault of
             Some e \<Rightarrow> (Err (app_error_from_sqlx e), s)
           | None \<Rightarrow> (Ok (), s\<lparr>tips := filter (\<lambda>r. row_id r \<noteq> i) (tips s)\<rparr>)))"

text \<open>The notification is handed to the webhook dispatcher, here the list of triggered events beside
  the application state.\<close>

type_synonym tip_world = "app_state \<times> (string \<times> json) list"

definition notify_step ::
  "string \<Rightarrow> string \<Rightarrow> saga_context \<Rightarrow> tip_world \<Rightarrow> (app_error + unit) \<times> saga_context \<times> tip_world" where
  "notify_step username amount c w =
     (let payload = JObj [(''tip_id'', case ctx_data c ''tip_id'' of Some j \<Rightarrow> j | None \<Rightarrow> JNull),
                          (''creator_username'', JStr username), (''amount'', JStr amount),
                          (''status'', JStr ''pending_verification'')]
      in (Ok (), c, fst w, snd w @ [(''tip.submitted'', payload)]))"

definition tip_saga_steps ::
  "row_decoder \<Rightarrow> (string \<Rightarrow> bool) \<Rightarrow> db \<Rightarrow> sqlx_error option \<Rightarrow> (uuid \<Rightarrow> json) \<Rightarrow> (json \<Rightarrow> uuid option)
     \<Rightarrow> (app_state \<Rightarrow> uuid) \<Rightarrow> (app_state \<Rightarrow> int) \<Rightarrow> record_tip_request \<Rightarrow> tip_world saga_step list" where
  "tip_saga_steps from_row violates db fault json_of parse_uuid fresh now req =
     [\<lparr>step_name = ''record_tip'',
       step_action = (\<lambda>c w. let (r, c', s') =
           record_tip_step from_row violates db json_of fresh now req c (fst w) in (r, c', s', snd w)),
       step_compensation = (\<lambda>c w. let (r, s') = delete_tip_compensation fault parse_uuid c (fst w)
                                  in (r, s', snd w)),
       step_max_retries = 1\<rparr>,
      \<lparr>step_name = ''notify'', step_action = notify_step (rq_username req) (rq_amount req),
       step_compensation = (\<lambda>c w. (Ok (), w)), step_max_retries = 0\<rparr>]"

definition run_tip_saga ::
  "db \<Rightarrow> (app_error \<Rightarrow> string) \<Rightarrow> string \<Rightarrow> tip_world saga_step list \<Rightarrow> tip_world saga_state
     \<Rightarrow> (app_error + saga_context) \<times> tip_world saga_state" where
  "run_tip_saga sdb show_err i steps s = execute_saga sdb show_err i ''tip_processing'' steps s"

section \<open>All or nothing\<close>

text \<open>What a trace says: the steps that completed, in order, the steps undone, in order, and how
  often a step was tried in vain.\<close>

fun completed :: "saga_event list \<Rightarrow> nat list" where
  "completed [] = []"
| "completed (Ran n True # es) = n # completed es"
| "completed (_ # es) = completed es"

fun undone :: "saga_event list \<Rightarrow> nat list" where
  "undone [] = []"
| "undone (Undid n ok # es) = n # undone es"
| "undone (_ # es) = undone es"

fun tried_in_vain :: "nat \<Rightarrow> saga_event list \<Rightarrow> nat" where
  "tried_in_vain k [] = 0"
| "tried_in_vain k (Ran n False # es) = (if n = k then Suc (tried_in_vain k es) else tried_in_vain k es)"
| "tried_in_vain k (_ # es) = tried_in_vain k es"

lemma trace_append [simp]:
  "completed (xs @ ys) = completed xs @ completed ys"
  "undone (xs @ ys) = undone xs @ undone ys"
  "tried_in_vain k (xs @ ys) = tried_in_vain k xs + tried_in_vain k ys"
    apply (induction xs rule: completed.induct; simp)
   apply (induction xs rule: undone.induct; simp)
  apply (induction k xs rule: tried_in_vain.induct; simp)
  done

lemma trace_replicate [simp]:
  "completed (replicate f (Ran n False)) = []"
  "undone (replicate f (Ran n False)) = []"
  "tried_in_vain k (replicate f (Ran n False)) = (if n = k then f else 0)"
  by (induction f) auto

definition same_books :: "'w saga_state \<Rightarrow> 'w saga_state \<Rightarrow> bool" where
  "same_books s s' \<longleftrightarrow> sg_instance s' = sg_instance s \<and> sg_logs s' = sg_logs s \<and> sg_stmts s' = sg_stmts s"

lemma run_action_trace:
  assumes "run_action n step (c, s) = (r, c', s')"
  shows "sg_trace s' = sg_trace s @ [Ran n (is_ok r)] \<and> same_books s s'"
  using assms by (auto simp: run_action_def same_books_def Let_def split: prod.splits)

lemma try_step_trace:
  assumes "try_step n step left (c, s) = (r, c', s')"
  shows "\<exists>f \<le> left. sg_trace s' = sg_trace s @ replicate f (Ran n False) @ [Ran n (is_ok r)]
    \<and> (is_ok r \<or> f = left) \<and> same_books s s'"
  using assms
proof (induction left arbitrary: c s)
  case 0
  then show ?case using run_action_trace [of n step c s] by auto
next
  case (Suc left)
  obtain r1 c1 s1 where one: "run_action n step (c, s) = (r1, c1, s1)" by (metis surj_pair)
  note tr = run_action_trace [OF one]
  show ?case
  proof (cases "is_ok r1")
    case True
    then have "r = r1" "s' = s1" using Suc.prems one by auto
    with tr True show ?thesis by (intro exI [of _ 0]) simp
  next
    case False
    then have "try_step n step left (c1, s1) = (r, c', s')" using Suc.prems one by simp
    from Suc.IH [OF this] obtain f where "f \<le> left"
      "sg_trace s' = sg_trace s1 @ replicate f (Ran n False) @ [Ran n (is_ok r)]"
      "is_ok r \<or> f = left" "same_books s1 s'" by blast
    with tr False show ?thesis by (intro exI [of _ "Suc f"]) (auto simp: same_books_def)
  qed
qed

text \<open>With the bookkeeping working, every statement succeeds and changes only its table.\<close>

abbreviation no_fault :: db where "no_fault \<equiv> (\<lambda>_. None)"

lemma books_simps [simp]:
  "fst (log_step no_fault i n name st err s) = Ok ()"
  "sg_trace (snd (log_step db i n name st err s)) = sg_trace s"
  "sg_instance (snd (log_step db i n name st err s)) = sg_instance s"
  "fst (update_saga_step no_fault i n s) = Ok ()"
  "sg_trace (snd (update_saga_step db i n s)) = sg_trace s"
  "sg_instance (snd (update_saga_step no_fault i n s)) =
     (sg_instance s)(i := map_option (\<lambda>(typ, st, _). (typ, st, Suc n)) (sg_instance s i))"
  "fst (update_saga_state no_fault i state s) = Ok ()"
  "sg_trace (snd (update_saga_state db i state s)) = sg_trace s"
  "sg_instance (snd (update_saga_state no_fault i state s)) =
     (sg_instance s)(i := map_option (\<lambda>(typ, _, n). (typ, state, n)) (sg_instance s i))"
  by (simp_all add: log_step_def update_saga_step_def update_saga_state_def saga_stmt_def Let_def
      split: option.splits)

lemma compensate_trace:
  "\<exists>es. sg_trace (compensate db i steps c n s) = sg_trace s @ es \<and> completed es = []
     \<and> undone es = rev [0..<n] \<and> tried_in_vain k es = 0
     \<and> sg_instance (compensate db i steps c n s) = sg_instance s"
proof (induction n arbitrary: s)
  case (Suc n)
  obtain r w' where c: "step_compensation (steps ! n) c (sg_world s) = (r, w')" by (metis surj_pair)
  let ?s1 = "s\<lparr>sg_world := w', sg_trace := sg_trace s @ [Undid n (is_ok r)]\<rparr>"
  let ?s2 = "if is_ok r then snd (log_step db i n (step_name (steps ! n)) StepCompensated None ?s1) else ?s1"
  have "compensate db i steps c (Suc n) s = compensate db i steps c n ?s2" using c by (simp add: Let_def)
  moreover have "sg_trace ?s2 = sg_trace s @ [Undid n (is_ok r)]" "sg_instance ?s2 = sg_instance s"
    by simp_all
  moreover obtain es where "sg_trace (compensate db i steps c n ?s2) = sg_trace ?s2 @ es" "completed es = []"
    "undone es = rev [0..<n]" "tried_in_vain k es = 0"
    "sg_instance (compensate db i steps c n ?s2) = sg_instance ?s2" using Suc.IH by blast
  ultimately show ?case by (intro exI [of _ "Undid n (is_ok r) # es"]) simp
qed simp

text \<open>The state of a run before step \<open>n\<close>.\<close>

definition upto :: "string \<Rightarrow> string \<Rightarrow> nat \<Rightarrow> 'w saga_state \<Rightarrow> bool" where
  "upto i typ n s \<longleftrightarrow> completed (sg_trace s) = [0..<n] \<and> undone (sg_trace s) = []
     \<and> sg_instance s i = Some (typ, ''pending'', n) \<and> (\<forall>k \<ge> n. tried_in_vain k (sg_trace s) = 0)"

text \<open>How a run ends: with every step completed and none undone, or with step \<open>k\<close> tried as often as
  allowed and the completed ones undone in reverse.\<close>

definition saga_outcome ::
  "string \<Rightarrow> string \<Rightarrow> 'w saga_step list \<Rightarrow> app_error + saga_context \<Rightarrow> 'w saga_state \<Rightarrow> bool" where
  "saga_outcome i typ steps r s \<longleftrightarrow>
     (if is_ok r
      then completed (sg_trace s) = [0..<length steps] \<and> undone (sg_trace s) = []
           \<and> sg_instance s i = Some (typ, ''completed'', length steps)
      else (\<exists>k < length steps. completed (sg_trace s) = [0..<k] \<and> undone (sg_trace s) = rev [0..<k]
              \<and> tried_in_vain k (sg_trace s) = Suc (step_max_retries (steps ! k))
              \<and> sg_instance s i = Some (typ, ''compensated'', k)))"

lemma saga_step_ok:
  assumes "upto i typ n s" and "try_step n step left (c, s) = (Ok (), c', s')"
  shows "upto i typ (Suc n) (snd (update_saga_step no_fault i n (snd (log_step no_fault i n name st err s'))))"
proof -
  obtain f where "sg_trace s' = sg_trace s @ replicate f (Ran n False) @ [Ran n True]" "same_books s s'"
    using try_step_trace [OF assms(2)] by auto
  then show ?thesis using assms(1) by (auto simp: upto_def same_books_def)
qed

lemma saga_step_fails:
  assumes "upto i typ n s" and "n < length steps"
    and "try_step n (steps ! n) (step_max_retries (steps ! n)) (c, s) = (Err e, c', s')"
    and "fail_saga no_fault show_err i steps n e c' s' = (r, s'')"
  shows "saga_outcome i typ steps r s''"
proof -
  have tr: "sg_trace s' = sg_trace s @ replicate (Suc (step_max_retries (steps ! n))) (Ran n False)"
    "sg_instance s' = sg_instance s"
    using try_step_trace [OF assms(3)] by (auto simp: same_books_def replicate_append_same)
  let ?s1 = "snd (update_saga_state no_fault i ''failed''
      (snd (log_step no_fault i n (step_name (steps ! n)) StepFailed (Some (show_err e)) s')))"
  have r: "r = Err Internal" "s'' = snd (update_saga_state no_fault i ''compensated''
      (compensate no_fault i steps c' n ?s1))"
    using assms(4) by (auto simp: fail_saga_def Let_def case_prod_unfold)
  obtain es where "sg_trace (compensate no_fault i steps c' n ?s1) = sg_trace ?s1 @ es" "completed es = []"
    "undone es = rev [0..<n]" "tried_in_vain n es = 0"
    "sg_instance (compensate no_fault i steps c' n ?s1) = sg_instance ?s1"
    using compensate_trace [of no_fault i steps c' n ?s1 n] by blast
  then show ?thesis
    using assms(1,2) tr r by (auto simp: saga_outcome_def upto_def simp del: replicate_Suc intro!: exI [of _ n])
qed

lemma saga_loop_outcome:
  assumes "upto i typ n s" and "n \<le> length steps"
    and "saga_loop no_fault show_err i steps n (drop n steps) (c, s) = (r, s')"
  shows "saga_outcome i typ steps r s'"
  using assms
proof (induction "length steps - n" arbitrary: n c s)
  case 0
  then have "drop n steps = []" "n = length steps" by simp_all
  with 0 show ?case by (auto simp: saga_outcome_def upto_def case_prod_unfold Let_def)
next
  case (Suc m)
  then have n: "n < length steps" by simp
  then have rest: "drop n steps = steps ! n # drop (Suc n) steps" by (rule Cons_nth_drop_Suc [symmetric])
  obtain r1 c1 s1 where step: "try_step n (steps ! n) (step_max_retries (steps ! n)) (c, s) = (r1, c1, s1)"
    by (metis surj_pair)
  show ?case
  proof (cases r1)
    case (Inl e)
    then have "fail_saga no_fault show_err i steps n e c1 s1 = (r, s')"
      using Suc.prems(3) step rest by simp
    then show ?thesis using saga_step_fails [OF Suc.prems(1) n] step Inl by blast
  next
    case (Inr u)
    let ?s2 = "snd (update_saga_step no_fault i n
        (snd (log_step no_fault i n (step_name (steps ! n)) StepCompleted None s1)))"
    have "saga_loop no_fault show_err i steps (Suc n) (drop (Suc n) steps) (c1, ?s2) = (r, s')"
      using Suc.prems(3) step Inr rest by (simp add: case_prod_unfold Let_def)
    moreover have "upto i typ (Suc n) ?s2" using saga_step_ok [OF Suc.prems(1)] step Inr by simp
    ultimately show ?thesis using Suc.hyps n by (intro Suc.hyps(1)) auto
  qed
qed

text \<open>\<^bold>\<open>C34.\<close> A saga is all or nothing, as long as its bookkeeping can be written: a run that succeeds
  completed every step, in order, and undid none; a run that fails tried one step as often as its
  retries allow, and called the compensations of exactly the steps completed before it, each once,
  in reverse order. The instance row says which.\<close>

theorem saga_all_or_nothing:
  assumes "sg_trace s = []" and "sg_instance s i = None"
    and "execute_saga no_fault show_err i typ steps s = (r, s')"
  shows "saga_outcome i typ steps r s'"
proof -
  let ?s0 = "snd (persist_saga no_fault i typ s)"
  have "upto i typ 0 ?s0"
    using assms(1,2) by (simp add: upto_def persist_saga_def saga_stmt_def Let_def)
  moreover have "saga_loop no_fault show_err i steps 0 (drop 0 steps) (new_saga_context i, ?s0) = (r, s')"
    using assms(3) by (simp add: execute_saga_def persist_saga_def saga_stmt_def Let_def)
  ultimately show ?thesis using saga_loop_outcome by blast
qed

text \<open>The bookkeeping is part of the critical path: when the log entry of the first step cannot
  be written, the saga returns an error although the step completed, and its compensation is never
  called.\<close>

theorem unlogged_step_is_not_compensated:
  assumes "sg_trace s = []" and "sg_stmts s = 0" and "db 0 = None" and "db 1 = Some e"
    and "step_action step (new_saga_context i) (sg_world s) = (Ok (), c', w')"
    and "execute_saga db show_err i typ (step # rest) s = (r, s')"
  shows "r = Err (app_error_from_sqlx e) \<and> sg_trace s' = [Ran 0 True] \<and> sg_world s' = w'"
proof -
  have "try_step 0 step (step_max_retries step) (new_saga_context i, s0)
      = (Ok (), c', s0\<lparr>sg_world := w', sg_trace := sg_trace s0 @ [Ran 0 True]\<rparr>)"
    if "sg_world s0 = sg_world s" for s0
    using assms(5) that by (cases "step_max_retries step") (simp_all add: run_action_def)
  then show ?thesis
    using assms by (auto simp: execute_saga_def persist_saga_def log_step_def saga_stmt_def Let_def)
qed

text \<open>A saga of two steps over a number, whose second step fails.\<close>

definition demo_saga :: "nat saga_step list" where
  "demo_saga = [\<lparr>step_name = ''a'', step_action = (\<lambda>c w. (Ok (), c, Suc w)),
                 step_compensation = (\<lambda>c w. (Ok (), w - 1)), step_max_retries = 0\<rparr>,
                \<lparr>step_name = ''b'', step_action = (\<lambda>c w. (Err Internal, c, w)),
                 step_compensation = (\<lambda>c w. (Ok (), w)), step_max_retries = 1\<rparr>]"

definition demo_saga_state :: "nat saga_state" where
  "demo_saga_state = \<lparr>sg_world = 0, sg_instance = Map.empty, sg_logs = [], sg_stmts = 0, sg_trace = []\<rparr>"

theorem saga_all_or_nothing_witness:
  "\<exists>s'. execute_saga no_fault (\<lambda>_. ''x'') ''i'' ''t'' demo_saga demo_saga_state = (Err Internal, s')
     \<and> sg_world s' = 0 \<and> saga_outcome ''i'' ''t'' demo_saga (Err Internal) s'"
proof -
  obtain s' where run: "execute_saga no_fault (\<lambda>_. ''x'') ''i'' ''t'' demo_saga demo_saga_state
      = (Err Internal, s')" "sg_world s' = 0"
    by (simp add: execute_saga_def persist_saga_def saga_stmt_def demo_saga_def demo_saga_state_def
        run_action_def log_step_def update_saga_step_def update_saga_state_def fail_saga_def
        numeral_eq_Suc Let_def)
  then show ?thesis
    using saga_all_or_nothing [OF _ _ run(1)] by (simp add: demo_saga_state_def)
qed

theorem unlogged_step_is_not_compensated_witness:
  "\<exists>s'. execute_saga (\<lambda>n. if n = 1 then Some SqlxOther else None) (\<lambda>_. ''x'') ''i'' ''t'' demo_saga
      demo_saga_state = (Err (Database QueryFailed), s') \<and> sg_world s' = 1 \<and> undone (sg_trace s') = []"
proof -
  let ?db = "\<lambda>n :: nat. if n = 1 then Some SqlxOther else None"
  obtain r s' where run: "execute_saga ?db (\<lambda>_. ''x'') ''i'' ''t'' demo_saga demo_saga_state = (r, s')"
    by (metis surj_pair)
  show ?thesis
    using unlogged_step_is_not_compensated [of demo_saga_state ?db SqlxOther "hd demo_saga" "''i''"
        "new_saga_context ''i''" 1 "\<lambda>_. ''x''" "''t''" "tl demo_saga" r s'] run
    by (simp add: demo_saga_state_def demo_saga_def app_error_from_sqlx_def)
qed

end
