(* ===== verification/Distributed_Lock.thy ===== *)
theory Distributed_Lock
  imports Redis
begin

text \<open>
  The distributed lock service (\<open>src/services/distributed_lock.rs\<close>): acquire, release and renew
  over Redis, with the in-process registry that the monitor scans. \<open>up\<close> says whether the command
  of the operation reaches Redis; a fresh token is an argument. The two Lua scripts are atomic.
  The locale \<open>redis_store\<close> is all that is used of the server.
\<close>

section \<open>The service\<close>

datatype lock_error = AlreadyHeld | Unavailable | NotOwner

record lock_guard =
  lg_resource :: string
  lg_token :: string
  lg_ttl_ms :: nat

record lock_info =
  li_token :: string
  li_acquired_at :: int
  li_ttl_ms :: nat

record 's lock_service =
  lk_redis :: 's
  lk_registry :: "string \<rightharpoonup> lock_info"
  lk_acquired :: nat
  lk_released :: nat
  lk_expired :: nat

definition KEY_PREFIX :: string where "KEY_PREFIX = ''lock:''"

definition lock_redis_key :: "string \<Rightarrow> string" where
  "lock_redis_key resource = KEY_PREFIX @ resource"

text \<open>An expiry Redis accepts: positive, and the resulting time in range.\<close>

definition valid_ttl :: "int \<Rightarrow> nat \<Rightarrow> bool" where
  "valid_ttl t ttl \<longleftrightarrow> 0 < ttl \<and> t + int ttl \<le> i64_max"

definition acquire ::
  "(string, 's) redis_ops \<Rightarrow> bool \<Rightarrow> int \<Rightarrow> string \<Rightarrow> string \<Rightarrow> nat \<Rightarrow> 's lock_service
     \<Rightarrow> (lock_error + lock_guard) \<times> 's lock_service" where
  "acquire R up t token resource ttl_ms L =
     (if \<not> up \<or> \<not> valid_ttl t ttl_ms then (Err Unavailable, L)
      else
        (let (ok, s') = r_set_nx_px R t (lock_redis_key resource) token (int ttl_ms) (lk_redis L)
         in if \<not> ok then (Err AlreadyHeld, L)
            else
              (Ok \<lparr>lg_resource = resource, lg_token = token, lg_ttl_ms = ttl_ms\<rparr>,
               L\<lparr>lk_redis := s',
                 lk_registry := (lk_registry L)(resource \<mapsto>
                   \<lparr>li_token = token, li_acquired_at = t, li_ttl_ms = ttl_ms\<rparr>),
                 lk_acquired := Suc (lk_acquired L)\<rparr>)))"

definition release ::
  "(string, 's) redis_ops \<Rightarrow> bool \<Rightarrow> int \<Rightarrow> lock_guard \<Rightarrow> 's lock_service
     \<Rightarrow> (lock_error + unit) \<times> 's lock_service" where
  "release R up t guard L =
     (let key = lock_redis_key (lg_resource guard) in
      if \<not> up then (Err Unavailable, L)
      else if r_get R t key (lk_redis L) \<noteq> Some (lg_token guard) then (Err NotOwner, L)
      else
        (Ok (), L\<lparr>lk_redis := r_del R t key (lk_redis L),
                  lk_registry := (lk_registry L)(lg_resource guard := None),
                  lk_released := Suc (lk_released L)\<rparr>))"

text \<open>\<open>PEXPIRE\<close> sets the expiry of the value; zero deletes the key and still returns 1.\<close>

definition renew ::
  "(string, 's) redis_ops \<Rightarrow> bool \<Rightarrow> int \<Rightarrow> lock_guard \<Rightarrow> nat \<Rightarrow> 's lock_service
     \<Rightarrow> (lock_error + unit) \<times> 's lock_service" where
  "renew R up t guard new_ttl_ms L =
     (let key = lock_redis_key (lg_resource guard) in
      if \<not> up then (Err Unavailable, L)
      else if r_get R t key (lk_redis L) \<noteq> Some (lg_token guard) then (Err NotOwner, L)
      else if t + int new_ttl_ms > i64_max then (Err Unavailable, L)
      else
        (Ok (), L\<lparr>lk_redis := (if new_ttl_ms = 0 then r_del R t key (lk_redis L)
                               else r_set_px R t key (lg_token guard) (int new_ttl_ms) (lk_redis L)),
                  lk_registry := (lk_registry L)(lg_resource guard :=
                    map_option (\<lambda>i. i\<lparr>li_ttl_ms := new_ttl_ms\<rparr>) (lk_registry L (lg_resource guard)))\<rparr>))"

text \<open>\<open>unwrap_or(None)\<close>: when Redis does not answer, the resource counts as not locked.\<close>

definition is_locked :: "(string, 's) redis_ops \<Rightarrow> bool \<Rightarrow> int \<Rightarrow> string \<Rightarrow> 's lock_service \<Rightarrow> bool" where
  "is_locked R up t resource L \<longleftrightarrow> up \<and> r_get R t (lock_redis_key resource) (lk_redis L) \<noteq> None"

text \<open>The scan of the monitor over the registered resources, in the order of the hash map.\<close>

fun detect_expired ::
  "(string, 's) redis_ops \<Rightarrow> bool \<Rightarrow> int \<Rightarrow> string list \<Rightarrow> 's lock_service \<Rightarrow> 's lock_service" where
  "detect_expired R up t [] L = L"
| "detect_expired R up t (resource # rs) L =
     (if \<not> is_locked R up t resource L \<and> lk_registry L resource \<noteq> None
      then detect_expired R up t rs (L\<lparr>lk_registry := (lk_registry L)(resource := None),
                                      lk_expired := Suc (lk_expired L)\<rparr>)
      else detect_expired R up t rs L)"

section \<open>Runs of many clients\<close>

text \<open>Operations of any clients, each with the time it runs at, whether it reaches Redis, and the
  guard or token it uses.\<close>

datatype lock_op =
    Acquire bool string string nat
  | Release bool lock_guard
  | Renew bool lock_guard nat

text \<open>What is known outside the server: for a resource and token, the time until which that client may
  take the lock to be its own (counted from the time the server ran the command), and for a
  resource the end of the newest lease granted on it.\<close>

record lock_view =
  leases :: "string \<times> string \<rightharpoonup> int"
  granted :: "string \<rightharpoonup> int"

definition grant :: "string \<Rightarrow> string \<Rightarrow> int \<Rightarrow> lock_view \<Rightarrow> lock_view" where
  "grant resource token e b =
     b\<lparr>leases := (leases b)((resource, token) \<mapsto> e), granted := (granted b)(resource \<mapsto> e)\<rparr>"

fun lock_step ::
  "(string, 's) redis_ops \<Rightarrow> int \<Rightarrow> lock_op \<Rightarrow> 's lock_service \<times> lock_view \<Rightarrow> 's lock_service \<times> lock_view" where
  "lock_step R t (Acquire up resource token ttl) (L, b) =
     (let (r, L') = acquire R up t token resource ttl L
      in (L', if is_ok r then grant resource token (t + int ttl) b else b))"
| "lock_step R t (Release up g) (L, b) =
     (let (r, L') = release R up t g L
      in (L', b\<lparr>leases := (leases b)((lg_resource g, lg_token g) := None)\<rparr>))"
| "lock_step R t (Renew up g ttl) (L, b) =
     (let (r, L') = renew R up t g ttl L
      in (L', if is_ok r then grant (lg_resource g) (lg_token g) (t + int ttl) b else b))"

fun lock_run ::
  "(string, 's) redis_ops \<Rightarrow> (int \<times> lock_op) list \<Rightarrow> 's lock_service \<times> lock_view
     \<Rightarrow> 's lock_service \<times> lock_view" where
  "lock_run R [] lb = lb"
| "lock_run R ((t, x) # xs) lb = lock_run R xs (lock_step R t x lb)"

text \<open>A client holds a resource while its lease lasts.\<close>

definition holds :: "lock_view \<Rightarrow> string \<Rightarrow> string \<Rightarrow> int \<Rightarrow> bool" where
  "holds b resource token t \<longleftrightarrow> (\<exists>e. leases b (resource, token) = Some e \<and> t < e)"

definition unleased :: "lock_view \<Rightarrow> string \<Rightarrow> int \<Rightarrow> bool" where
  "unleased b resource t \<longleftrightarrow> (\<forall>e. granted b resource = Some e \<longrightarrow> e \<le> t)"

lemma lock_redis_key_inject [simp]: "lock_redis_key r = lock_redis_key r' \<longleftrightarrow> r = r'"
  by (simp add: lock_redis_key_def)

definition no_leases :: lock_view where "no_leases = \<lparr>leases = Map.empty, granted = Map.empty\<rparr>"

text \<open>The store of the lock service: its values are tokens.\<close>

locale lock_store = redis_store R for R :: "(string, 's) redis_ops"
begin

text \<open>From time \<open>t\<close> on, the server has the token of every lease that lasts, and nothing for a resource
  whose leases have all ended.\<close>

definition leases_kept :: "int \<Rightarrow> 's lock_service \<times> lock_view \<Rightarrow> bool" where
  "leases_kept t lb \<longleftrightarrow> (\<forall>r u. t \<le> u \<longrightarrow>
     (\<forall>tok. holds (snd lb) r tok u \<longrightarrow> r_get R u (lock_redis_key r) (lk_redis (fst lb)) = Some tok)
     \<and> (unleased (snd lb) r u \<longrightarrow> r_get R u (lock_redis_key r) (lk_redis (fst lb)) = None))"

lemma leases_kept_later: "leases_kept t lb \<Longrightarrow> t \<le> t' \<Longrightarrow> leases_kept t' lb"
  by (auto simp: leases_kept_def)

text \<open>Storing a token for a free resource, or for one whose token it is, keeps the leases.\<close>

lemma leases_kept_grant:
  assumes "leases_kept t (L, b)" and "0 < ttl"
    and "r_get R t (lock_redis_key r) (lk_redis L) \<in> {None, Some tok}"
    and "lk_redis L' = r_set_px R t (lock_redis_key r) tok ttl (lk_redis L)"
  shows "leases_kept t (L', grant r tok (t + ttl) b)"
  unfolding leases_kept_def
proof (intro allI impI conjI)
  fix r' u tok'
  assume u: "t \<le> u" and h: "holds (snd (L', grant r tok (t + ttl) b)) r' tok' u"
  note get = get_set_px [OF assms(2) u, of "lock_redis_key r'" "lock_redis_key r" tok "lk_redis L"]
  have "tok' = tok" if "r' = r" "leases b (r, tok') = Some e" "u < e" for e
  proof -
    have "holds b r tok' u" using that by (auto simp: holds_def)
    then have "r_get R u (lock_redis_key r) (lk_redis L) = Some tok'"
      using assms(1) u by (auto simp: leases_kept_def)
    then have "r_get R t (lock_redis_key r) (lk_redis L) = Some tok'" using get_earlier u by blast
    then show ?thesis using assms(3) by auto
  qed
  then show "r_get R u (lock_redis_key r') (lk_redis (fst (L', grant r tok (t + ttl) b))) = Some tok'"
    using h assms(1,4) u get
    by (auto simp: holds_def grant_def leases_kept_def split: if_splits)
next
  fix r' u
  assume "t \<le> u" "unleased (snd (L', grant r tok (t + ttl) b)) r' u"
  then show "r_get R u (lock_redis_key r') (lk_redis (fst (L', grant r tok (t + ttl) b))) = None"
    using assms get_set_px [of ttl t u "lock_redis_key r'" "lock_redis_key r" tok "lk_redis L"]
    by (auto simp: unleased_def grant_def leases_kept_def split: if_splits)
qed

text \<open>Deleting a token keeps the leases of the others: there are none on its resource.\<close>

lemma leases_kept_delete:
  assumes "leases_kept t (L, b)"
    and "r_get R t (lock_redis_key r) (lk_redis L) = Some tok"
    and "lk_redis L' = r_del R t (lock_redis_key r) (lk_redis L)"
    and "\<And>u. t \<le> u \<Longrightarrow> \<not> holds b' r tok u"
    and "\<And>r' tok' u. t \<le> u \<Longrightarrow> (r', tok') \<noteq> (r, tok) \<Longrightarrow> holds b' r' tok' u = holds b r' tok' u"
    and "\<And>r' u. t \<le> u \<Longrightarrow> r' \<noteq> r \<Longrightarrow> unleased b' r' u = unleased b r' u"
  shows "leases_kept t (L', b')"
  unfolding leases_kept_def
proof (intro allI impI conjI)
  fix r' u tok'
  assume u: "t \<le> u" and h: "holds (snd (L', b')) r' tok' u"
  then have "(r', tok') \<noteq> (r, tok)" using assms(4) by auto
  with h have other: "(r', tok') \<noteq> (r, tok)" "holds b r' tok' u" using assms(5) [OF u] by auto
  then have get: "r_get R u (lock_redis_key r') (lk_redis L) = Some tok'"
    using assms(1) u by (auto simp: leases_kept_def)
  moreover have "r' \<noteq> r" using get_earlier [OF u get] assms(2) other(1) by auto
  ultimately show "r_get R u (lock_redis_key r') (lk_redis (fst (L', b'))) = Some tok'"
    using assms(3) get_del [OF u] by simp
next
  fix r' u
  assume "t \<le> u" "unleased (snd (L', b')) r' u"
  then show "r_get R u (lock_redis_key r') (lk_redis (fst (L', b'))) = None"
    using assms(1,3,6) get_del [of t u] by (auto simp: leases_kept_def)
qed

lemma lock_step_kept:
  assumes "leases_kept t lb"
  shows "leases_kept t (lock_step R t x lb)"
proof -
  obtain L b where lb: "lb = (L, b)" by (cases lb)
  show ?thesis
  proof (cases x)
    case (Acquire up r tok ttl)
    then show ?thesis
      using assms leases_kept_grant [of t L b "int ttl" r tok]
      by (auto simp: lb acquire_def r_set_nx_px_def valid_ttl_def Let_def)
  next
    case (Release up g)
    let ?b = "b\<lparr>leases := (leases b)((lg_resource g, lg_token g) := None)\<rparr>"
    have drop: "leases_kept t (L, ?b)"
      using assms by (fastforce simp: lb leases_kept_def holds_def unleased_def)
    show ?thesis
    proof (cases "is_ok (fst (release R up t g L))")
      case True
      then have "r_get R t (lock_redis_key (lg_resource g)) (lk_redis L) = Some (lg_token g)"
        "lk_redis (snd (release R up t g L)) = r_del R t (lock_redis_key (lg_resource g)) (lk_redis L)"
        by (auto simp: release_def Let_def split: if_splits)
      then have "leases_kept t (snd (release R up t g L), ?b)"
        by (rule leases_kept_delete [OF drop]) (auto simp: holds_def)
      then show ?thesis by (simp add: Release lb case_prod_unfold Let_def)
    next
      case False
      then have "snd (release R up t g L) = L" by (auto simp: release_def Let_def)
      with drop show ?thesis by (simp add: Release lb case_prod_unfold Let_def)
    qed
  next
    case (Renew up g ttl)
    show ?thesis
    proof (cases "is_ok (fst (renew R up t g ttl L))")
      case True
      then have own: "r_get R t (lock_redis_key (lg_resource g)) (lk_redis L) = Some (lg_token g)"
        by (auto simp: renew_def Let_def split: if_splits)
      have "leases_kept t (snd (renew R up t g ttl L), grant (lg_resource g) (lg_token g) (t + int ttl) b)"
      proof (cases "ttl = 0")
        case False
        then show ?thesis
          using assms own True leases_kept_grant [of t L b "int ttl" "lg_resource g" "lg_token g"]
          by (auto simp: lb renew_def Let_def split: if_splits)
      next
        case True
        with \<open>is_ok (fst (renew R up t g ttl L))\<close>
        have "lk_redis (snd (renew R up t g ttl L)) = r_del R t (lock_redis_key (lg_resource g)) (lk_redis L)"
          by (auto simp: renew_def Let_def split: if_splits)
        then show ?thesis
          by (rule leases_kept_delete [OF assms [unfolded lb] own])
            (auto simp: holds_def grant_def unleased_def True)
      qed
      with True show ?thesis by (simp add: Renew lb case_prod_unfold Let_def)
    next
      case False
      then have "snd (renew R up t g ttl L) = L" by (auto simp: renew_def Let_def)
      with assms False show ?thesis by (simp add: Renew lb case_prod_unfold Let_def)
    qed
  qed
qed

lemma lock_run_kept:
  assumes "leases_kept t0 lb" "sorted (t0 # map fst xs)" "\<forall>t \<in> set (t0 # map fst xs). t \<le> t'"
  shows "leases_kept t' (lock_run R xs lb)"
  using assms
proof (induction xs arbitrary: t0 lb)
  case Nil
  then show ?case by (auto intro: leases_kept_later)
next
  case (Cons tx xs)
  obtain t x where tx: "tx = (t, x)" by (cases tx)
  have "leases_kept t lb" using Cons.prems tx by (auto intro: leases_kept_later)
  then have "leases_kept t (lock_step R t x lb)" by (rule lock_step_kept)
  moreover have "sorted (t # map fst xs)" "\<forall>u \<in> set (t # map fst xs). u \<le> t'"
    using Cons.prems(2,3) tx by simp_all
  ultimately show ?case using Cons.IH tx by simp
qed

text \<open>From an empty store, whatever the clients do in the order of the server's clock.\<close>

lemma fresh_run_kept:
  assumes "\<And>r u. r_get R u (lock_redis_key r) (lk_redis L0) = None"
    and "sorted (map fst xs)" and "\<forall>u \<in> set (map fst xs). u \<le> t"
  shows "leases_kept t (lock_run R xs (L0, no_leases))"
proof (cases xs)
  case Nil
  then show ?thesis using assms(1) by (simp add: leases_kept_def holds_def no_leases_def)
next
  case (Cons tx ys)
  have "leases_kept (fst tx) (L0, no_leases)"
    using assms(1) by (simp add: leases_kept_def holds_def no_leases_def)
  moreover have "sorted (fst tx # map fst xs)" "\<forall>u \<in> set (fst tx # map fst xs). u \<le> t"
    using assms(2,3) Cons by simp_all
  ultimately show ?thesis by (rule lock_run_kept)
qed

lemma one_holder:
  assumes "leases_kept t (L, b)" "holds b r tok t" "holds b r tok' t"
  shows "tok = tok'"
proof -
  have "r_get R t (lock_redis_key r) (lk_redis L) = Some tok"
    "r_get R t (lock_redis_key r) (lk_redis L) = Some tok'"
    using assms unfolding leases_kept_def by (metis fst_conv order_refl snd_conv)+
  then show ?thesis by simp
qed

lemma unleased_acquired:
  assumes "leases_kept t (L, b)" "unleased b r t" "valid_ttl t ttl"
  shows "is_ok (fst (acquire R True t tok r ttl L))"
proof -
  have "r_get R t (lock_redis_key r) (lk_redis L) = None" using assms by (simp add: leases_kept_def)
  then show ?thesis using assms(3) by (simp add: acquire_def r_set_nx_px_def Let_def)
qed

end

interpretation lks: lock_store keyspace_ops ..

section \<open>Mutual exclusion and recovery\<close>

text \<open>\<^bold>\<open>C35.\<close> The lock is exclusive: whatever clients do, in any interleaving and with commands lost, and
  for every server that keeps the laws of the commands, at no time do two clients hold an unexpired
  lease on one resource.\<close>

theorem lock_mutual_exclusion:
  assumes "lock_store R" and "\<And>r u. r_get R u (lock_redis_key r) (lk_redis L0) = None"
    and "sorted (map fst xs)" and "\<forall>u \<in> set (map fst xs). u \<le> t"
    and "lock_run R xs (L0, no_leases) = (L, b)" and "holds b r tok t" and "holds b r tok' t"
  shows "tok = tok'"
  using lock_store.one_holder [OF assms(1)] lock_store.fresh_run_kept [OF assms(1-4)] assms(5-7)
  by metis

text \<open>The lock recovers: after any such run, once the newest lease granted on a resource has ended,
  released or not, an acquisition that reaches Redis succeeds. No crashed holder blocks it.\<close>

theorem abandoned_lock_recovers:
  assumes "lock_store R" and "\<And>r u. r_get R u (lock_redis_key r) (lk_redis L0) = None"
    and "sorted (map fst xs)" and "\<forall>u \<in> set (map fst xs). u \<le> t"
    and "lock_run R xs (L0, no_leases) = (L, b)" and "unleased b r t" and "valid_ttl t ttl"
  shows "is_ok (fst (acquire R True t tok r ttl L))"
  using lock_store.unleased_acquired [OF assms(1)] lock_store.fresh_run_kept [OF assms(1-4)] assms(5-7)
  by metis

definition demo_locks :: "string keyspace lock_service" where
  "demo_locks = \<lparr>lk_redis = Map.empty, lk_registry = Map.empty, lk_acquired = 0, lk_released = 0,
     lk_expired = 0\<rparr>"

lemma demo_locks_empty: "r_get keyspace_ops u k (lk_redis demo_locks) = None"
  by (simp add: keyspace_ops_def ks_get_def demo_locks_def)

text \<open>A client takes a lease of ten seconds, another fails to take it and a third takes it after the
  end.\<close>

definition demo_lock_ops :: "(int \<times> lock_op) list" where
  "demo_lock_ops = [(0, Acquire True ''r'' ''a'' 10000), (5000, Acquire True ''r'' ''b'' 10000),
     (12000, Acquire True ''r'' ''c'' 10000)]"

lemma demo_lock_run:
  "\<exists>L b. lock_run keyspace_ops demo_lock_ops (demo_locks, no_leases) = (L, b) \<and> holds b ''r'' ''c'' 13000
     \<and> unleased b ''r'' 30000"
  by (simp add: demo_lock_ops_def demo_locks_def no_leases_def acquire_def r_set_nx_px_def keyspace_ops_def
      ks_get_def ks_set_px_def valid_ttl_def int_ranges grant_def holds_def unleased_def Let_def)

theorem lock_mutual_exclusion_witness:
  "\<exists>L b. lock_run keyspace_ops demo_lock_ops (demo_locks, no_leases) = (L, b) \<and> holds b ''r'' ''c'' 13000
     \<and> \<not> holds b ''r'' ''a'' 13000"
proof -
  obtain L b where run: "lock_run keyspace_ops demo_lock_ops (demo_locks, no_leases) = (L, b)"
    "holds b ''r'' ''c'' 13000" using demo_lock_run by blast
  have "\<not> holds b ''r'' ''a'' 13000"
    using lock_mutual_exclusion [OF lks.lock_store_axioms demo_locks_empty _ _ run(1) run(2), of "''a''"]
    by (auto simp: demo_lock_ops_def)
  with run show ?thesis by blast
qed

theorem abandoned_lock_recovers_witness:
  "\<exists>L b. lock_run keyspace_ops demo_lock_ops (demo_locks, no_leases) = (L, b)
     \<and> is_ok (fst (acquire keyspace_ops True 30000 ''d'' ''r'' 1000 L))"
proof -
  obtain L b where run: "lock_run keyspace_ops demo_lock_ops (demo_locks, no_leases) = (L, b)"
    "unleased b ''r'' 30000" using demo_lock_run by blast
  from abandoned_lock_recovers [OF lks.lock_store_axioms demo_locks_empty _ _ run(1) run(2), of 1000 "''d''"] run
  show ?thesis by (auto simp: demo_lock_ops_def valid_ttl_def int_ranges)
qed

end
