(* ===== verification/Replay_Protection.thy ===== *)
theory Replay_Protection
  imports Redis Http
begin

text \<open>
  Replay protection (\<open>src/security/replay_protection.rs\<close>, \<open>src/middleware/replay_protection.rs\<close>):
  nonces with a time to live in Redis, the freshness window of timestamps, and the middleware around
  a handler. Times are milliseconds; \<open>now\<close> is the server's clock and \<open>rt\<close> the clock of Redis. Of
  \<open>chrono\<close> three functions are parameters: whether a number of seconds is a valid time
  (\<open>timestamp_opt\<close>), the parser of ISO 8601, and the rendering of a time. A Redis command may fail
  (\<open>flt n\<close> is the error of the \<open>n\<close>-th command of the request).
\<close>

section \<open>The service\<close>

datatype replay_error =
    NonceAlreadyUsed string
  | TimestampTooOld int
  | TimestampTooFuture int
  | InvalidNonceFormat string
  | MissingNonceOrTimestamp
  | RedisError string

record replay_config =
  nonce_ttl_seconds :: nat
  max_timestamp_drift_seconds :: int
  enabled_endpoints :: "string list"

definition replay_config_default :: replay_config where
  "replay_config_default =
     \<lparr>nonce_ttl_seconds = 300, max_timestamp_drift_seconds = 60,
      enabled_endpoints = [''/api/v1/tips'', ''/api/v1/creators'', ''/api/v1/withdrawals'']\<rparr>"

record nonce_info =
  ni_nonce :: string
  ni_used_at :: int
  ni_client_id :: "string option"
  ni_endpoint :: string

definition nonce_key :: "string \<Rightarrow> string" where "nonce_key nonce = ''nonce:'' @ nonce"

text \<open>\<open>check_nonce_redis\<close> in its two commands: \<open>EXISTS\<close>, then \<open>SETEX\<close>.\<close>

definition nonce_unused ::
  "(nonce_info, 's) redis_ops \<Rightarrow> string option \<Rightarrow> int \<Rightarrow> string \<Rightarrow> 's \<Rightarrow> replay_error + unit" where
  "nonce_unused R fault rt nonce s =
     (case fault of
        Some e \<Rightarrow> Err (RedisError e)
      | None \<Rightarrow> if r_get R rt (nonce_key nonce) s \<noteq> None then Err (NonceAlreadyUsed nonce) else Ok ())"

definition mark_nonce ::
  "(nonce_info, 's) redis_ops \<Rightarrow> replay_config \<Rightarrow> string option \<Rightarrow> int \<Rightarrow> int \<Rightarrow> string \<Rightarrow> string option
     \<Rightarrow> string \<Rightarrow> 's \<Rightarrow> (replay_error + unit) \<times> 's" where
  "mark_nonce R cfg fault now rt nonce client endpoint s =
     (case (if nonce_ttl_seconds cfg = 0 then Some ''ERR invalid expire time in 'setex' command'' else fault) of
        Some e \<Rightarrow> (Err (RedisError e), s)
      | None \<Rightarrow>
          (Ok (), r_set_px R rt (nonce_key nonce)
                    \<lparr>ni_nonce = nonce, ni_used_at = now, ni_client_id = client, ni_endpoint = endpoint\<rparr>
                    (int (nonce_ttl_seconds cfg) * 1000) s))"

definition check_nonce_redis ::
  "(nonce_info, 's) redis_ops \<Rightarrow> replay_config \<Rightarrow> (nat \<Rightarrow> string option) \<Rightarrow> int \<Rightarrow> int \<Rightarrow> string
     \<Rightarrow> string option \<Rightarrow> string \<Rightarrow> 's \<Rightarrow> (replay_error + unit) \<times> 's" where
  "check_nonce_redis R cfg flt now rt nonce client endpoint s =
     (case nonce_unused R (flt 0) rt nonce s of
        Inl e \<Rightarrow> (Err e, s)
      | Inr _ \<Rightarrow> mark_nonce R cfg (flt 1) now rt nonce client endpoint s)"

text \<open>\<open>None\<close> for \<open>R\<close> is a service without Redis, which checks no nonce.\<close>

definition validate_request ::
  "(nonce_info, 's) redis_ops option \<Rightarrow> replay_config \<Rightarrow> (nat \<Rightarrow> string option) \<Rightarrow> int \<Rightarrow> int \<Rightarrow> string
     \<Rightarrow> int \<Rightarrow> string option \<Rightarrow> string \<Rightarrow> 's \<Rightarrow> (replay_error + unit) \<times> 's" where
  "validate_request Ropt cfg flt now rt nonce ts client endpoint s =
     (let drift = max_timestamp_drift_seconds cfg * 1000 in
      if endpoint \<notin> set (enabled_endpoints cfg) then (Ok (), s)
      else if length nonce \<noteq> 64 \<or> \<not> list_all is_ascii_hexdigit nonce
      then (Err (InvalidNonceFormat nonce), s)
      else if ts < now - drift then (Err (TimestampTooOld ts), s)
      else if ts > now + drift then (Err (TimestampTooFuture ts), s)
      else case Ropt of
             Some R \<Rightarrow> check_nonce_redis R cfg flt now rt nonce client endpoint s
           | None \<Rightarrow> (Ok (), s))"

definition is_nonce_used ::
  "(nonce_info, 's) redis_ops option \<Rightarrow> string option \<Rightarrow> int \<Rightarrow> string \<Rightarrow> 's \<Rightarrow> replay_error + bool" where
  "is_nonce_used Ropt fault rt nonce s =
     (case Ropt of
        None \<Rightarrow> Ok False
      | Some R \<Rightarrow> (case fault of Some e \<Rightarrow> Err (RedisError e)
                            | None \<Rightarrow> Ok (r_get R rt (nonce_key nonce) s \<noteq> None)))"

section \<open>The middleware\<close>

record replay_headers =
  x_nonce :: "string option"
  x_timestamp :: "string option"
  x_client_id :: "string option"

record replay_request =
  rp_path :: string
  rp_headers :: replay_headers

definition validate_format :: "replay_headers \<Rightarrow> replay_error + unit" where
  "validate_format h =
     (if x_nonce h = None \<or> x_timestamp h = None then Err MissingNonceOrTimestamp else Ok ())"

record time_ops =
  valid_secs :: "int \<Rightarrow> bool"
  parse_iso :: "string \<Rightarrow> int option"
  show_time :: "int \<Rightarrow> string"

text \<open>A number is read as seconds, and one that is not a valid time becomes the current time; the
  milliseconds branch of the source parses the same text again and is never reached.\<close>

definition parse_timestamp :: "time_ops \<Rightarrow> int \<Rightarrow> replay_headers \<Rightarrow> replay_error + int" where
  "parse_timestamp T now h =
     (case x_timestamp h of
        None \<Rightarrow> Err MissingNonceOrTimestamp
      | Some text \<Rightarrow>
          (case parse_i64 text of
             Some seconds \<Rightarrow> Ok (if valid_secs T seconds then seconds * 1000 else now)
           | None \<Rightarrow>
               (case parse_iso T text of
                  Some ts \<Rightarrow> Ok ts
                | None \<Rightarrow> Err (InvalidNonceFormat (''Invalid timestamp format: '' @ text)))))"

fun error_status_message :: "time_ops \<Rightarrow> replay_error \<Rightarrow> nat \<times> string" where
  "error_status_message T (NonceAlreadyUsed nonce) =
     (409, ''Nonce '' @ nonce @ '' has already been used'')"
| "error_status_message T (TimestampTooOld ts) =
     (400, ''Request timestamp '' @ show_time T ts @ '' is too old'')"
| "error_status_message T (TimestampTooFuture ts) =
     (400, ''Request timestamp '' @ show_time T ts @ '' is too far in the future'')"
| "error_status_message T (InvalidNonceFormat nonce) = (400, ''Invalid nonce format: '' @ nonce)"
| "error_status_message T MissingNonceOrTimestamp =
     (400, ''Missing required headers: x-nonce and x-timestamp'')"
| "error_status_message T (RedisError msg) = (500, ''Internal server error'')"

definition replay_error_response :: "time_ops \<Rightarrow> int \<Rightarrow> replay_error \<Rightarrow> response" where
  "replay_error_response T now e =
     (let (st, message) = error_status_message T e
      in json_response st (JObj [(''error'', JStr ''replay_protection_failed''), (''message'', JStr message),
                                 (''timestamp'', JStr (show_time T now))]))"

definition replay_middleware ::
  "(nonce_info, 's) redis_ops option \<Rightarrow> replay_config \<Rightarrow> time_ops \<Rightarrow> (nat \<Rightarrow> string option) \<Rightarrow> int \<Rightarrow> int
     \<Rightarrow> (replay_request \<Rightarrow> 'w \<Rightarrow> response \<times> 'w) \<Rightarrow> replay_request \<Rightarrow> 's \<times> 'w \<Rightarrow> response \<times> 's \<times> 'w" where
  "replay_middleware Ropt cfg T flt now rt handler q sw =
     (let (s, w) = sw; h = rp_headers q; run = (\<lambda>s. let (resp, w') = handler q w in (resp, s, w'))
      in if rp_path q \<notin> set (enabled_endpoints cfg) then run s
         else
           (case validate_format h of
              Inl e \<Rightarrow> (replay_error_response T now e, s, w)
            | Inr _ \<Rightarrow>
                (case parse_timestamp T now h of
                   Inl e \<Rightarrow> (replay_error_response T now e, s, w)
                 | Inr ts \<Rightarrow>
                     (let (r, s') = validate_request Ropt cfg flt now rt (the (x_nonce h)) ts
                                      (x_client_id h) (rp_path q) s
                      in case r of
                           Inl e \<Rightarrow> (replay_error_response T now e, s', w)
                         | Inr _ \<Rightarrow> run s'))))"

section \<open>Requests run once\<close>

text \<open>The requests the handler ran, for a sequence of requests in the order of the clock; each has its
  time and its Redis faults. The clocks agree.\<close>

definition keeping :: "(replay_request \<Rightarrow> response) \<Rightarrow> replay_request \<Rightarrow> replay_request list \<Rightarrow> response \<times> replay_request list" where
  "keeping resp q w = (resp q, w @ [q])"

fun replay_run ::
  "(nonce_info, 's) redis_ops \<Rightarrow> replay_config \<Rightarrow> time_ops \<Rightarrow> (replay_request \<Rightarrow> response)
     \<Rightarrow> (int \<times> (nat \<Rightarrow> string option) \<times> replay_request) list \<Rightarrow> 's \<times> replay_request list
     \<Rightarrow> 's \<times> replay_request list" where
  "replay_run R cfg T resp [] sw = sw"
| "replay_run R cfg T resp ((t, flt, q) # xs) sw =
     replay_run R cfg T resp xs (snd (replay_middleware (Some R) cfg T flt t t (keeping resp) q sw))"

text \<open>The identity of a protected request: its nonce and the fixed time its timestamp denotes.\<close>

definition fixed_time :: "time_ops \<Rightarrow> replay_headers \<Rightarrow> int option" where
  "fixed_time T h =
     Option.bind (x_timestamp h) (\<lambda>text. case parse_i64 text of
        Some n \<Rightarrow> if valid_secs T n then Some (n * 1000) else None
      | None \<Rightarrow> parse_iso T text)"

definition nonce_and_time :: "time_ops \<Rightarrow> replay_request \<Rightarrow> string option \<times> int option" where
  "nonce_and_time T q = (x_nonce (rp_headers q), fixed_time T (rp_headers q))"

definition protected :: "replay_config \<Rightarrow> time_ops \<Rightarrow> replay_request \<Rightarrow> bool" where
  "protected cfg T q \<longleftrightarrow> rp_path q \<in> set (enabled_endpoints cfg) \<and> fixed_time T (rp_headers q) \<noteq> None"

definition drift_ms :: "replay_config \<Rightarrow> int" where
  "drift_ms cfg = max_timestamp_drift_seconds cfg * 1000"

definition ttl_ms :: "replay_config \<Rightarrow> int" where
  "ttl_ms cfg = int (nonce_ttl_seconds cfg) * 1000"

lemma parse_fixed_time:
  "fixed_time T h = Some u \<Longrightarrow> parse_timestamp T now h = Ok ts \<Longrightarrow> u = ts"
  by (auto simp: fixed_time_def parse_timestamp_def split: option.splits if_splits Option.bind_splits)

lemma middleware_step:
  assumes "replay_middleware (Some R) cfg T flt t t (keeping resp) q (s, w) = (r, s', w')"
  obtains (unguarded) "s' = s" "w' = w @ [q]" "rp_path q \<notin> set (enabled_endpoints cfg)"
    | (refused) "s' = s" "w' = w"
    | (accepted) n ts info where "x_nonce (rp_headers q) = Some n" "parse_timestamp T t (rp_headers q) = Ok ts"
        "ts - drift_ms cfg \<le> t" "t \<le> ts + drift_ms cfg" "r_get R t (nonce_key n) s = None" "0 < ttl_ms cfg"
        "s' = r_set_px R t (nonce_key n) info (ttl_ms cfg) s" "w' = w @ [q]"
proof (cases "rp_path q \<in> set (enabled_endpoints cfg)")
  case False
  with assms that(1) show ?thesis by (simp add: replay_middleware_def keeping_def)
next
  case True
  show ?thesis
  proof (cases "s' = s \<and> w' = w")
    case False
    with True assms show ?thesis
      by (auto simp: replay_middleware_def keeping_def validate_format_def validate_request_def
          check_nonce_redis_def nonce_unused_def mark_nonce_def Let_def drift_ms_def ttl_ms_def
          split: sum.splits if_splits option.splits prod.splits intro!: that(3))
  qed (use that(2) in blast)
qed

definition once :: "replay_config \<Rightarrow> time_ops \<Rightarrow> replay_request list \<Rightarrow> bool" where
  "once cfg T w \<longleftrightarrow> distinct (map (nonce_and_time T) (filter (protected cfg T) w))"

locale nonce_store = redis_store R for R :: "(nonce_info, 's) redis_ops"
begin

text \<open>Up to the end of its window, the nonce of every protected request that ran is in the store.\<close>

definition remembered :: "replay_config \<Rightarrow> time_ops \<Rightarrow> int \<Rightarrow> 's \<Rightarrow> replay_request list \<Rightarrow> bool" where
  "remembered cfg T t s w \<longleftrightarrow> (\<forall>q \<in> set w. protected cfg T q \<longrightarrow>
     (\<exists>n ts. x_nonce (rp_headers q) = Some n \<and> fixed_time T (rp_headers q) = Some ts \<and> ts - drift_ms cfg \<le> t
       \<and> (\<forall>u. t \<le> u \<and> u \<le> ts + drift_ms cfg \<longrightarrow> r_get R u (nonce_key n) s \<noteq> None)))"

lemma remembered_later: "remembered cfg T t s w \<Longrightarrow> t \<le> t' \<Longrightarrow> remembered cfg T t' s w"
  unfolding remembered_def by (meson order.trans)

lemma remembered_set:
  assumes "remembered cfg T t s w" "2 * drift_ms cfg < ttl_ms cfg" "0 < ttl_ms cfg"
  shows "remembered cfg T t (r_set_px R t (nonce_key n) info (ttl_ms cfg) s) w"
  unfolding remembered_def
proof (intro ballI impI)
  fix q assume "q \<in> set w" "protected cfg T q"
  then obtain m ts where m: "x_nonce (rp_headers q) = Some m" "fixed_time T (rp_headers q) = Some ts"
    "ts - drift_ms cfg \<le> t" "\<forall>u. t \<le> u \<and> u \<le> ts + drift_ms cfg \<longrightarrow> r_get R u (nonce_key m) s \<noteq> None"
    using assms(1) unfolding remembered_def by blast
  have "r_get R u (nonce_key m) (r_set_px R t (nonce_key n) info (ttl_ms cfg) s) \<noteq> None"
    if "t \<le> u" "u \<le> ts + drift_ms cfg" for u
    using get_set_px [OF assms(3) that(1), of "nonce_key m" "nonce_key n" info s] m(3,4) assms(2) that by auto
  with m show "\<exists>n' ts. x_nonce (rp_headers q) = Some n' \<and> fixed_time T (rp_headers q) = Some ts
      \<and> ts - drift_ms cfg \<le> t \<and> (\<forall>u. t \<le> u \<and> u \<le> ts + drift_ms cfg \<longrightarrow>
        r_get R u (nonce_key n') (r_set_px R t (nonce_key n) info (ttl_ms cfg) s) \<noteq> None)" by blast
qed

lemma accepted_is_new:
  assumes "remembered cfg T t s w" "x_nonce (rp_headers q) = Some n" "parse_timestamp T t (rp_headers q) = Ok ts"
    "t \<le> ts + drift_ms cfg" "r_get R t (nonce_key n) s = None" "q' \<in> set w" "protected cfg T q'" "protected cfg T q"
  shows "nonce_and_time T q' \<noteq> nonce_and_time T q"
proof
  assume same: "nonce_and_time T q' = nonce_and_time T q"
  obtain m ts' where "x_nonce (rp_headers q') = Some m" "fixed_time T (rp_headers q') = Some ts'"
    "\<forall>u. t \<le> u \<and> u \<le> ts' + drift_ms cfg \<longrightarrow> r_get R u (nonce_key m) s \<noteq> None"
    using assms(1,6,7) unfolding remembered_def by blast
  moreover have "m = n" "ts' = ts"
    using calculation(1,2) same assms(2) parse_fixed_time [OF _ assms(3)] by (auto simp: nonce_and_time_def)
  ultimately show False using assms(4,5) by auto
qed

lemma middleware_once:
  assumes "remembered cfg T t s w" "once cfg T w" "2 * drift_ms cfg < ttl_ms cfg"
    and "replay_middleware (Some R) cfg T flt t t (keeping resp) q (s, w) = (r, s', w')"
  shows "remembered cfg T t s' w' \<and> once cfg T w'"
  using assms(4)
proof (cases rule: middleware_step)
  case unguarded
  with assms(1,2) show ?thesis by (auto simp: remembered_def once_def protected_def)
next
  case refused
  with assms(1,2) show ?thesis by simp
next
  case (accepted n ts info)
  have old: "remembered cfg T t s' w"
    using remembered_set [OF assms(1,3) accepted(6)] accepted(7) by simp
  have "\<exists>n ts. x_nonce (rp_headers q) = Some n \<and> fixed_time T (rp_headers q) = Some ts \<and> ts - drift_ms cfg \<le> t
      \<and> (\<forall>u. t \<le> u \<and> u \<le> ts + drift_ms cfg \<longrightarrow> r_get R u (nonce_key n) s' \<noteq> None)" if "protected cfg T q"
  proof -
    have "r_get R u (nonce_key n) s' \<noteq> None" if "t \<le> u" "u \<le> ts + drift_ms cfg" for u
      using get_set_px [OF accepted(6) that(1), of "nonce_key n" "nonce_key n"] accepted(3,7) assms(3) that by auto
    with that accepted(1-3) parse_fixed_time [OF _ accepted(2)] show ?thesis
      by (fastforce simp: protected_def)
  qed
  with old accepted(8) have "remembered cfg T t s' w'" unfolding remembered_def by auto
  moreover have "once cfg T w'"
  proof -
    have "nonce_and_time T q' \<noteq> nonce_and_time T q"
      if "q' \<in> set w" "protected cfg T q'" "protected cfg T q" for q'
      using accepted_is_new [OF assms(1) accepted(1,2,4,5) that] .
    then show ?thesis using assms(2) accepted(8) by (fastforce simp: once_def)
  qed
  ultimately show ?thesis ..
qed

lemma replay_run_once:
  assumes "remembered cfg T t0 s w" "once cfg T w" "2 * drift_ms cfg < ttl_ms cfg" "sorted (t0 # map fst xs)"
    and "replay_run R cfg T resp xs (s, w) = (s', w')"
  shows "once cfg T w'"
  using assms
proof (induction xs arbitrary: t0 s w)
  case (Cons x xs)
  obtain t flt q where x: "x = (t, flt, q)" by (cases x)
  obtain r s1 w1 where mw: "replay_middleware (Some R) cfg T flt t t (keeping resp) q (s, w) = (r, s1, w1)"
    by (metis surj_pair)
  have "remembered cfg T t s w" using Cons.prems(1,4) x by (auto intro: remembered_later)
  from middleware_once [OF this Cons.prems(2,3) mw] Cons.IH [of t s1 w1] Cons.prems(3-5) x mw
  show ?case by auto
qed simp

end

interpretation nks: nonce_store keyspace_ops ..


text \<open>A clock that knows the seconds up to the year 9999 and no other format.\<close>

definition demo_time :: time_ops where
  "demo_time = \<lparr>valid_secs = (\<lambda>n. \<bar>n\<bar> < 253402300800), parse_iso = (\<lambda>_. None), show_time = (\<lambda>_. [])\<rparr>"

definition demo_replay :: "string \<Rightarrow> replay_request" where
  "demo_replay ts = \<lparr>rp_path = ''/api/v1/tips'',
     rp_headers = \<lparr>x_nonce = Some (replicate 64 (CHR ''a'')), x_timestamp = Some ts, x_client_id = None\<rparr>\<rparr>"

definition demo_reply :: "replay_request \<Rightarrow> response" where
  "demo_reply q = json_response 201 JNull"

lemma demo_texts [simp]:
  "parse_i64 ''1700'' = Some 1700" "parse_i64 ''999999999999999'' = Some 999999999999999"
  by (simp_all add: parse_i64_def all_digits_def is_ascii_digit_def dec_val_def digit_val_def in_i64_def
      int_ranges)

lemma demo_nonce [simp]: "list_all is_ascii_hexdigit (replicate 64 (CHR ''a''))"
  by (simp add: list_all_iff is_ascii_hexdigit_def)

lemmas replay_eval = replay_middleware_def validate_format_def parse_timestamp_def validate_request_def
  check_nonce_redis_def nonce_unused_def mark_nonce_def keeping_def replay_config_default_def
  demo_time_def demo_replay_def keyspace_ops_def ks_get_def ks_set_px_def Let_def


text \<open>A timestamp that is no valid time switches the freshness check off: it is replaced by the
  current time, so the same request is accepted again every time its nonce has expired.\<close>

theorem invalid_timestamp_replays:
  "\<exists>s'. replay_run keyspace_ops replay_config_default demo_time demo_reply
       [(0, \<lambda>_. None, demo_replay ''999999999999999''), (300000, \<lambda>_. None, demo_replay ''999999999999999'')]
       (Map.empty, [])
     = (s', [demo_replay ''999999999999999'', demo_replay ''999999999999999''])"
  by (simp add: replay_eval)

text \<open>The check of a nonce is not atomic: when a second request looks for the nonce between the
  look and the write of the first, both find it unused and both are accepted.\<close>

theorem nonce_check_races:
  "let look = (\<lambda>rt s. nonce_unused keyspace_ops None rt ''n'' s);
       mark = (\<lambda>rt s. mark_nonce keyspace_ops replay_config_default None rt rt ''n'' None ''/api/v1/tips'' s);
       s0 = Map.empty; (r1, s1) = mark 2 s0; (r2, s2) = mark 3 s1
   in look 0 s0 = Ok () \<and> look 1 s0 = Ok () \<and> r1 = Ok () \<and> r2 = Ok ()
      \<and> look 2 s1 = Err (NonceAlreadyUsed ''n'')"
  by (simp add: replay_eval)

end
