(* ===== verification/Sharding.thy ===== *)
theory Sharding
  imports Tip_Store
begin

unbundle bit_operations_syntax

text \<open>
  Sharding (\<open>src/sharding/\<close>): the FNV-1a hash and the three strategies, the router from keys to
  pools, the imbalance report and the migration of tips between two shards. A shard's database is
  its tips and the usernames of its creators. \<open>None\<close> is a panic (a remainder by zero, a failed
  assertion). The migration loop may not end, so it takes fuel: the number of batches it may start.
  The destination fills the columns that the migration does not copy with the defaults of the
  schema (\<open>migrations/0072\<close>: \<open>status\<close> is \<open>confirmed\<close>, the source account is null). The \<open>SELECT\<close> of a
  batch has no \<open>ORDER BY\<close>; the model reads the rows in the order of the table. Row counts are
  unbounded integers, and never negative.
\<close>

section \<open>Strategies\<close>

definition FNV_OFFSET :: u64 where "FNV_OFFSET = 14695981039346656037"
definition FNV_PRIME :: u64 where "FNV_PRIME = 1099511628211"

definition fnv1a :: "string \<Rightarrow> u64" where
  "fnv1a key = fold (\<lambda>c hash. (hash XOR of_nat (byte c)) * FNV_PRIME) key FNV_OFFSET"

definition fnv1a_shard :: "string \<Rightarrow> nat \<Rightarrow> nat option" where
  "fnv1a_shard key num_shards =
     (if num_shards = 0 then None else Some (unat (fnv1a key) mod num_shards))"

record shard_key =
  sk_raw :: string
  sk_shard_id :: nat

definition shard_key_from_str :: "string \<Rightarrow> nat \<Rightarrow> shard_key option" where
  "shard_key_from_str key n = map_option (\<lambda>i. \<lparr>sk_raw = key, sk_shard_id = i\<rparr>) (fnv1a_shard key n)"

text \<open>The lower half of a UUID, as a little-endian number.\<close>

definition shard_of_uuid :: "u8 list \<Rightarrow> nat \<Rightarrow> nat option" where
  "shard_of_uuid bytes n =
     (let low = foldr (\<lambda>b acc. unat b + 256 * acc) (take 8 (drop 8 bytes)) 0
      in if n = 0 then None else Some (low mod n))"

datatype sharding_strategy = Hash | Range | Directory

definition range_bounds :: "nat \<Rightarrow> nat \<Rightarrow> nat \<times> nat" where
  "range_bounds n i =
     (let range_size = u64_max div n
      in (i * range_size, if i = n - 1 then u64_max else (i + 1) * range_size - 1))"

definition range_new :: "nat \<Rightarrow> (nat \<times> nat) list option" where
  "range_new n = (if n = 0 then None else Some (map (range_bounds n) [0..<n]))"

fun position :: "('a \<Rightarrow> bool) \<Rightarrow> 'a list \<Rightarrow> nat option" where
  "position P [] = None"
| "position P (x # xs) = (if P x then Some 0 else map_option Suc (position P xs))"

definition range_shard_for :: "(nat \<times> nat) list \<Rightarrow> nat \<Rightarrow> nat" where
  "range_shard_for ranges v =
     (case position (\<lambda>(start, stop). start \<le> v \<and> v \<le> stop) ranges of Some i \<Rightarrow> i | None \<Rightarrow> 0)"

definition range_shard_for_str :: "(nat \<times> nat) list \<Rightarrow> string \<Rightarrow> nat" where
  "range_shard_for_str ranges key = range_shard_for ranges (unat (fnv1a key))"

definition directory_shard_for :: "(string \<rightharpoonup> nat) \<Rightarrow> nat \<Rightarrow> string \<Rightarrow> nat option" where
  "directory_shard_for dir n key =
     (case dir key of Some i \<Rightarrow> Some i | None \<Rightarrow> fnv1a_shard key n)"

section \<open>The router\<close>

datatype shard_status = ShardActive | ShardReadOnly | ShardDraining | ShardOffline

record shard_descriptor =
  sd_shard_id :: nat
  sd_name :: string
  sd_dsn :: string
  sd_status :: shard_status

record 'p shard_router =
  sr_descriptors :: "shard_descriptor list"
  sr_pools :: "nat \<rightharpoonup> 'p"
  sr_num_shards :: nat
  sr_strategy :: sharding_strategy

definition router_new ::
  "shard_descriptor list \<Rightarrow> (nat \<rightharpoonup> 'p) \<Rightarrow> sharding_strategy \<Rightarrow> 'p shard_router" where
  "router_new ds pools strategy =
     \<lparr>sr_descriptors = ds, sr_pools = pools, sr_num_shards = length ds, sr_strategy = strategy\<rparr>"

text \<open>The builder: shards added one by one, then sorted by id.\<close>

definition build_router :: "(shard_descriptor \<times> 'p) list \<Rightarrow> sharding_strategy \<Rightarrow> 'p shard_router" where
  "build_router shards strategy =
     router_new (sort_key sd_shard_id (map fst shards))
       (fold (\<lambda>(d, p) m. m(sd_shard_id d \<mapsto> p)) shards Map.empty) strategy"

definition shard_for_username :: "'p shard_router \<Rightarrow> string \<Rightarrow> nat option" where
  "shard_for_username r username = fnv1a_shard username (sr_num_shards r)"

definition router_pool :: "'p shard_router \<Rightarrow> nat \<Rightarrow> app_error + 'p" where
  "router_pool r i =
     (case sr_pools r i of
        Some p \<Rightarrow> Ok p
      | None \<Rightarrow> Err (ServiceUnavailable (''Shard '' @ show_nat i @ '' pool not found'')))"

definition pool_for_username :: "'p shard_router \<Rightarrow> string \<Rightarrow> (app_error + 'p) option" where
  "pool_for_username r username = map_option (router_pool r) (shard_for_username r username)"

section \<open>The report\<close>

record shard_stats =
  st_shard_id :: nat
  st_tip_count :: int
  st_creator_count :: int

record shard_move =
  mv_from :: nat
  mv_to :: nat
  mv_rows :: int

record rebalance_report =
  rb_total_tips :: int
  rb_total_creators :: int
  rb_avg_tips :: int
  rb_avg_creators :: int
  rb_overloaded :: "nat list"
  rb_underloaded :: "nat list"
  rb_needed :: bool
  rb_moves :: "shard_move list"

definition deviates :: "int \<Rightarrow> int \<Rightarrow> int \<Rightarrow> bool" where
  "deviates threshold avg count \<longleftrightarrow> avg \<noteq> 0 \<and> \<bar>count - avg\<bar> * 100 div avg > threshold"

definition build_report :: "int \<Rightarrow> shard_stats list \<Rightarrow> rebalance_report" where
  "build_report threshold stats =
     (let total = sum_list (map st_tip_count stats);
          creators = sum_list (map st_creator_count stats);
          n = int (max (length stats) 1);
          avg = total div n;
          over = map st_shard_id (filter (\<lambda>s. deviates threshold avg (st_tip_count s) \<and> st_tip_count s > avg) stats);
          under = map st_shard_id (filter (\<lambda>s. deviates threshold avg (st_tip_count s) \<and> \<not> st_tip_count s > avg) stats);
          moves = map (\<lambda>(f, t). \<lparr>mv_from = f, mv_to = t,
                    mv_rows = (case List.find (\<lambda>s. st_shard_id s = f) stats of
                                 Some s \<Rightarrow> (st_tip_count s - avg) div 2 | None \<Rightarrow> 0)\<rparr>) (zip over under)
      in \<lparr>rb_total_tips = total, rb_total_creators = creators, rb_avg_tips = avg,
          rb_avg_creators = creators div n, rb_overloaded = over, rb_underloaded = under,
          rb_needed = (over \<noteq> [] \<or> under \<noteq> []), rb_moves = moves\<rparr>)"

section \<open>Migration\<close>

record shard_db =
  sh_tips :: "tip_row list"
  sh_creators :: "string set"

text \<open>What may fail: the \<open>SELECT\<close> of a batch, and the \<open>INSERT\<close> and \<open>DELETE\<close> of a row, by the number of the
  batch and the row's id.\<close>

record migration_faults =
  f_select :: "nat \<Rightarrow> sqlx_error option"
  f_insert :: "nat \<Rightarrow> uuid \<Rightarrow> bool"
  f_delete :: "nat \<Rightarrow> uuid \<Rightarrow> bool"

record migration_stats =
  ms_migrated :: nat
  ms_failed :: nat

text \<open>The row that \<open>INSERT INTO tips (id, creator_username, amount, transaction_hash, message,
  created_at)\<close> makes.\<close>

definition copied_row :: "tip_row \<Rightarrow> tip_row" where
  "copied_row r = r\<lparr>row_status := TipConfirmed, row_source := None, row_visibility := ''public''\<rparr>"

text \<open>\<open>ON CONFLICT (id) DO NOTHING\<close>; a taken hash or an unknown creator is an error.\<close>

definition insert_copy :: "bool \<Rightarrow> tip_row \<Rightarrow> shard_db \<Rightarrow> bool \<times> shard_db" where
  "insert_copy fault r dst =
     (if fault then (False, dst)
      else if row_id r \<in> row_id ` set (sh_tips dst) then (True, dst)
      else if row_hash r \<in> row_hash ` set (sh_tips dst) \<or> row_creator r \<notin> sh_creators dst then (False, dst)
      else (True, dst\<lparr>sh_tips := sh_tips dst @ [copied_row r]\<rparr>))"

definition delete_tip :: "bool \<Rightarrow> uuid \<Rightarrow> shard_db \<Rightarrow> shard_db" where
  "delete_tip fault i src =
     (if fault then src else src\<lparr>sh_tips := filter (\<lambda>r. row_id r \<noteq> i) (sh_tips src)\<rparr>)"

fun migrate_rows ::
  "migration_faults \<Rightarrow> nat \<Rightarrow> tip_row list \<Rightarrow> shard_db \<times> shard_db \<times> migration_stats
     \<Rightarrow> shard_db \<times> shard_db \<times> migration_stats" where
  "migrate_rows F b [] x = x"
| "migrate_rows F b (r # rs) (src, dst, st) =
     (let (ok, dst') = insert_copy (f_insert F b (row_id r)) r dst
      in if ok then migrate_rows F b rs (delete_tip (f_delete F b (row_id r)) (row_id r) src, dst',
                                         st\<lparr>ms_migrated := Suc (ms_migrated st)\<rparr>)
         else migrate_rows F b rs (src, dst', st\<lparr>ms_failed := Suc (ms_failed st)\<rparr>))"

definition belongs :: "nat \<Rightarrow> nat \<Rightarrow> tip_row \<Rightarrow> bool" where
  "belongs n to r \<longleftrightarrow> fnv1a_shard (row_creator r) n = Some to"

text \<open>The loop: \<open>Some\<close> is a return, with the error of a \<open>SELECT\<close> or the statistics; \<open>None\<close> says that the
  fuel did not suffice. \<open>b\<close> is the number of the batch.\<close>

fun migrate_loop ::
  "migration_faults \<Rightarrow> nat \<Rightarrow> nat \<Rightarrow> nat \<Rightarrow> nat \<Rightarrow> nat \<Rightarrow> shard_db \<times> shard_db \<times> migration_stats
     \<Rightarrow> ((app_error + migration_stats) \<times> shard_db \<times> shard_db) option" where
  "migrate_loop F n to batch 0 b x = None"
| "migrate_loop F n to batch (Suc fuel) b (src, dst, st) =
     (case f_select F b of
        Some e \<Rightarrow> Some (Err (app_error_from_sqlx e), src, dst)
      | None \<Rightarrow>
          (let rows = take batch (sh_tips src); to_migrate = filter (belongs n to) rows in
           if to_migrate = [] then Some (Ok st, src, dst)
           else migrate_loop F n to batch fuel (Suc b) (migrate_rows F b to_migrate (src, dst, st))))"

definition migrate_tips ::
  "migration_faults \<Rightarrow> nat \<Rightarrow> nat \<Rightarrow> nat \<Rightarrow> nat \<Rightarrow> shard_db \<times> shard_db
     \<Rightarrow> ((app_error + migration_stats) \<times> shard_db \<times> shard_db) option" where
  "migrate_tips F n to batch fuel sd =
     migrate_loop F n to batch fuel 0 (fst sd, snd sd, \<lparr>ms_migrated = 0, ms_failed = 0\<rparr>)"

section \<open>Ranges partition the key space\<close>

lemma position_eq:
  assumes "i < length xs" "P (xs ! i)" "\<And>j. j < i \<Longrightarrow> \<not> P (xs ! j)"
  shows "position P xs = Some i"
  using assms
proof (induction xs arbitrary: i)
  case (Cons x xs)
  show ?case
  proof (cases i)
    case (Suc k)
    then have "position P xs = Some k" using Cons by (intro Cons.IH) force+
    then show ?thesis using Suc Cons.prems(3) [of 0] by simp
  qed (use Cons in auto)
qed simp

text \<open>The range strategy is a total partition: for every number of shards up to \<open>2^32 - 1\<close> and
  every \<open>u64\<close> key, the shard found by scanning the ranges is the key divided by the width of a
  range, with the remainder of the key space given to the last shard.\<close>

theorem range_shard_exact:
  assumes "0 < n" and "n \<le> u32_max" and "v \<le> u64_max" and "range_new n = Some ranges"
  shows "range_shard_for ranges v = min (v div (u64_max div n)) (n - 1)"
proof -
  let ?w = "u64_max div n"
  define i where "i = min (v div ?w) (n - 1)"
  have w: "0 < ?w" using assms(1,2) by (simp add: int_ranges div_greater_zero_iff)
  have r: "ranges = map (range_bounds n) [0..<n]" using assms(1,4) by (simp add: range_new_def)
  have hit: "i * ?w \<le> v \<and> (i = n - 1 \<or> v \<le> (i + 1) * ?w - 1)"
  proof (cases "v div ?w \<le> n - 1")
    case True
    then have "i = v div ?w" by (simp add: i_def)
    moreover have "v < (v div ?w + 1) * ?w" using w by (metis Suc_eq_plus1 dividend_less_div_times mult_Suc add.commute)
    then have "v \<le> (v div ?w + 1) * ?w - 1" by linarith
    ultimately show ?thesis by (simp add: div_times_less_eq_dividend)
  next
    case False
    then have "(n - 1) * ?w \<le> v div ?w * ?w" by (intro mult_right_mono) auto
    also have "\<dots> \<le> v" by (rule div_times_less_eq_dividend)
    finally show ?thesis using False by (simp add: i_def)
  qed
  have miss: "\<not> v \<le> (j + 1) * ?w - 1" if "j < i" for j
  proof -
    have "(j + 1) * ?w \<le> i * ?w" using that by (intro mult_right_mono) auto
    then have "(j + 1) * ?w \<le> v" using hit by simp
    then show ?thesis using w by (simp add: not_le)
  qed
  have "position (\<lambda>(start, stop). start \<le> v \<and> v \<le> stop) ranges = Some i"
  proof (rule position_eq)
    show i: "i < length ranges" using assms(1) by (simp add: r i_def)
    show "case ranges ! i of (start, stop) \<Rightarrow> start \<le> v \<and> v \<le> stop"
      using i hit assms(3) by (auto simp: r range_bounds_def Let_def)
    fix j assume "j < i"
    then show "\<not> (case ranges ! j of (start, stop) \<Rightarrow> start \<le> v \<and> v \<le> stop)"
      using miss i by (auto simp: r range_bounds_def Let_def)
  qed
  then show ?thesis by (simp add: range_shard_for_def i_def)
qed

theorem range_shard_exact_witness:
  "range_shard_for (map (range_bounds 4) [0..<4]) 13835058055282163712 = 3"
proof -
  have "range_new 4 = Some (map (range_bounds 4) [0..<4])" by (simp add: range_new_def)
  from range_shard_exact [OF _ _ _ this, of 13835058055282163712] show ?thesis by (simp add: int_ranges)
qed

section \<open>What a migration keeps\<close>

definition ids :: "shard_db \<Rightarrow> uuid set" where "ids d = row_id ` set (sh_tips d)"

lemma insert_copy_cases:
  assumes "insert_copy fault r dst = (ok, dst')"
  shows "ids dst' = (if ok then insert (row_id r) (ids dst) else ids dst)
    \<and> (\<forall>x \<in> set (sh_tips dst'). x \<in> set (sh_tips dst) \<or> x = copied_row r)
    \<and> set (sh_tips dst) \<subseteq> set (sh_tips dst') \<and> sh_creators dst' = sh_creators dst"
  using assms by (auto simp: insert_copy_def ids_def copied_row_def split: if_splits)

lemma migrate_rows_keeps:
  assumes "migrate_rows F b rs (src, dst, st) = (src', dst', st')"
  shows "ids src \<subseteq> ids src' \<union> ids dst' \<and> set (sh_tips src') \<subseteq> set (sh_tips src)
    \<and> set (sh_tips dst) \<subseteq> set (sh_tips dst')
    \<and> (\<forall>x \<in> set (sh_tips dst'). x \<in> set (sh_tips dst) \<or> x \<in> copied_row ` set rs)"
  using assms
proof (induction rs arbitrary: src dst st)
  case (Cons r rs)
  obtain ok dst1 where ins: "insert_copy (f_insert F b (row_id r)) r dst = (ok, dst1)" by (metis surj_pair)
  note c = insert_copy_cases [OF ins]
  let ?src1 = "if ok then delete_tip (f_delete F b (row_id r)) (row_id r) src else src"
  obtain st1 where "migrate_rows F b rs (?src1, dst1, st1) = (src', dst', st')"
    using Cons.prems ins by (auto split: if_splits)
  note IH = Cons.IH [OF this]
  have "ids src \<subseteq> ids ?src1 \<union> ids dst1" "set (sh_tips ?src1) \<subseteq> set (sh_tips src)"
    using c by (auto simp: ids_def delete_tip_def)
  moreover have "ids dst1 \<subseteq> ids dst'" using IH by (auto simp: ids_def)
  ultimately show ?case using IH c by (auto simp: subset_iff)
qed auto

lemma migrate_loop_keeps:
  assumes "migrate_loop F n to batch fuel b (src, dst, st) = Some (r, src', dst')"
  shows "ids src \<subseteq> ids src' \<union> ids dst' \<and> set (sh_tips src') \<subseteq> set (sh_tips src)
    \<and> set (sh_tips dst) \<subseteq> set (sh_tips dst')
    \<and> (\<forall>x \<in> set (sh_tips dst'). x \<in> set (sh_tips dst)
         \<or> x \<in> copied_row ` {r \<in> set (sh_tips src). belongs n to r})"
  using assms
proof (induction fuel arbitrary: b src dst st)
  case (Suc fuel)
  let ?rows = "filter (belongs n to) (take batch (sh_tips src))"
  show ?case
  proof (cases "f_select F b = None \<and> ?rows \<noteq> []")
    case True
    obtain src1 dst1 st1 where rows: "migrate_rows F b ?rows (src, dst, st) = (src1, dst1, st1)"
      by (metis surj_pair)
    then have "migrate_loop F n to batch fuel (Suc b) (src1, dst1, st1) = Some (r, src', dst')"
      using Suc.prems True by (auto simp: Let_def)
    note IH = Suc.IH [OF this] and R = migrate_rows_keeps [OF rows]
    have "ids dst1 \<subseteq> ids dst'" using IH by (auto simp: ids_def)
    then have "ids src \<subseteq> ids src' \<union> ids dst'" using IH R by blast
    moreover have "copied_row ` set ?rows \<subseteq> copied_row ` {r \<in> set (sh_tips src). belongs n to r}"
      by (auto dest: in_set_takeD)
    moreover have "copied_row ` {r \<in> set (sh_tips src1). belongs n to r}
        \<subseteq> copied_row ` {r \<in> set (sh_tips src). belongs n to r}" using R by auto
    moreover have "set (sh_tips src') \<subseteq> set (sh_tips src)" "set (sh_tips dst) \<subseteq> set (sh_tips dst')"
      using IH R by auto
    ultimately show ?thesis using IH R by (meson subsetD)
  next
    case False
    then have "src' = src" "dst' = dst" using Suc.prems by (auto simp: Let_def split: option.splits if_splits)
    then show ?thesis by auto
  qed
qed simp

text \<open>Two shards for the witnesses: one pending, private tip to \<open>a\<close>.\<close>

definition ex_row :: tip_row where
  "ex_row = \<lparr>row_id = ''u1'', row_creator = ''a'', row_amount = ''1'', row_hash = ''h'', row_created_at = 0,
     row_status = PendingVerification, row_source = Some ''G'', row_message = None, row_visibility = ''private''\<rparr>"

definition ex_faults :: migration_faults where
  "ex_faults = \<lparr>f_select = \<lambda>_. None, f_insert = \<lambda>_ _. False, f_delete = \<lambda>_ _. False\<rparr>"

lemma ex_row_belongs: "belongs 1 0 ex_row"
  by (simp add: belongs_def fnv1a_shard_def)

text \<open>A migration, whatever statements fail, loses no tip: every tip of the source is afterwards in
  the source or in the destination, and only tips whose creator hashes to the destination are
  copied.  But every tip it adds to the destination is there as confirmed, public and without its
  source account, whatever it was: a pending or rejected tip becomes confirmed with no payment.\<close>

theorem migration_keeps_ids_and_confirms:
  assumes "migrate_tips F n to batch fuel (src, dst) = Some (r, src', dst')"
  shows "ids src \<subseteq> ids src' \<union> ids dst' \<and> set (sh_tips src') \<subseteq> set (sh_tips src)
    \<and> (\<forall>x \<in> set (sh_tips dst'). x \<in> set (sh_tips dst)
         \<or> (\<exists>y \<in> set (sh_tips src). belongs n to y \<and> row_id x = row_id y
              \<and> row_status x = TipConfirmed \<and> row_source x = None \<and> row_visibility x = ''public''))"
proof -
  note keeps = migrate_loop_keeps [OF assms [unfolded migrate_tips_def fst_conv snd_conv]]
  have "\<exists>y \<in> set (sh_tips src). belongs n to y \<and> row_id x = row_id y
      \<and> row_status x = TipConfirmed \<and> row_source x = None \<and> row_visibility x = ''public''"
    if "x \<in> copied_row ` {r \<in> set (sh_tips src). belongs n to r}" for x
    using that by (auto simp: copied_row_def)
  with keeps show ?thesis by blast
qed

theorem migration_keeps_ids_and_confirms_witness:
  "\<exists>r. migrate_tips ex_faults 1 0 10 2 (\<lparr>sh_tips = [ex_row], sh_creators = {''a''}\<rparr>, \<lparr>sh_tips = [], sh_creators = {''a''}\<rparr>)
     = Some (r, \<lparr>sh_tips = [], sh_creators = {''a''}\<rparr>, \<lparr>sh_tips = [copied_row ex_row], sh_creators = {''a''}\<rparr>)
   \<and> row_status ex_row = PendingVerification \<and> row_status (copied_row ex_row) = TipConfirmed"
proof -
  have run: "migrate_tips ex_faults 1 0 10 2 (\<lparr>sh_tips = [ex_row], sh_creators = {''a''}\<rparr>, \<lparr>sh_tips = [], sh_creators = {''a''}\<rparr>)
     = Some (Ok \<lparr>ms_migrated = 1, ms_failed = 0\<rparr>, \<lparr>sh_tips = [], sh_creators = {''a''}\<rparr>,
         \<lparr>sh_tips = [copied_row ex_row], sh_creators = {''a''}\<rparr>)"
    using ex_row_belongs
    by (simp add: migrate_tips_def numeral_2_eq_2 ex_faults_def insert_copy_def delete_tip_def)
      (simp add: ex_row_def)
  from migration_keeps_ids_and_confirms [OF run] have "row_status (copied_row ex_row) = TipConfirmed" by auto
  with run show ?thesis by (auto simp: ex_row_def)
qed

section \<open>When a migration ends\<close>

definition healthy :: "migration_faults \<Rightarrow> bool" where
  "healthy F \<longleftrightarrow> (\<forall>b. f_select F b = None) \<and> (\<forall>b i. \<not> f_insert F b i) \<and> (\<forall>b i. \<not> f_delete F b i)"

text \<open>Every tip that belongs to the destination can be stored there: its creator is known, and its hash
  is not taken.\<close>

definition movable :: "nat \<Rightarrow> nat \<Rightarrow> shard_db \<Rightarrow> shard_db \<Rightarrow> bool" where
  "movable n to src dst \<longleftrightarrow> distinct (map row_id (sh_tips src)) \<and> distinct (map row_hash (sh_tips src))
     \<and> (\<forall>r \<in> set (sh_tips src). belongs n to r \<longrightarrow> row_creator r \<in> sh_creators dst
          \<and> row_hash r \<notin> row_hash ` set (sh_tips dst))"

lemma migrate_rows_healthy:
  assumes "healthy F" and "distinct (map row_hash rs)"
    and "\<forall>r \<in> set rs. row_creator r \<in> sh_creators dst \<and> row_hash r \<notin> row_hash ` set (sh_tips dst)"
    and "migrate_rows F b rs (src, dst, st) = (src', dst', st')"
  shows "sh_tips src' = filter (\<lambda>r. row_id r \<notin> row_id ` set rs) (sh_tips src)
    \<and> sh_creators dst' = sh_creators dst
    \<and> row_hash ` set (sh_tips dst') \<subseteq> row_hash ` set (sh_tips dst) \<union> row_hash ` set rs"
  using assms(2-4)
proof (induction rs arbitrary: src dst st)
  case (Cons r rs)
  obtain dst1 where ins: "insert_copy False r dst = (True, dst1)" "sh_creators dst1 = sh_creators dst"
    "row_hash ` set (sh_tips dst1) \<subseteq> insert (row_hash r) (row_hash ` set (sh_tips dst))"
  proof (cases "row_id r \<in> row_id ` set (sh_tips dst)")
    case True
    then show ?thesis by (intro that [of dst]) (auto simp: insert_copy_def)
  next
    case False
    then show ?thesis using Cons.prems(2)
      by (intro that [of "dst\<lparr>sh_tips := sh_tips dst @ [copied_row r]\<rparr>"]) (auto simp: insert_copy_def copied_row_def)
  qed
  have "migrate_rows F b rs (delete_tip False (row_id r) src, dst1, st\<lparr>ms_migrated := Suc (ms_migrated st)\<rparr>)
      = (src', dst', st')"
    using Cons.prems(3) ins(1) assms(1) by (simp add: healthy_def)
  moreover have "\<forall>x \<in> set rs. row_creator x \<in> sh_creators dst1 \<and> row_hash x \<notin> row_hash ` set (sh_tips dst1)"
    using Cons.prems(1,2) ins(2,3) by (fastforce simp: image_iff)
  ultimately have IH: "sh_tips src' = filter (\<lambda>r. row_id r \<notin> row_id ` set rs) (sh_tips (delete_tip False (row_id r) src))"
    "sh_creators dst' = sh_creators dst1"
    "row_hash ` set (sh_tips dst') \<subseteq> row_hash ` set (sh_tips dst1) \<union> row_hash ` set rs"
    using Cons.IH [of dst1 "delete_tip False (row_id r) src"] Cons.prems(1) by auto
  moreover have "row_hash ` set (sh_tips dst') \<subseteq> row_hash ` set (sh_tips dst) \<union> row_hash ` set (r # rs)"
    using IH(3) ins(3) by (simp add: subset_iff) blast
  ultimately show ?case using ins(2) by (auto simp: delete_tip_def intro: filter_cong)
qed auto

lemma migrate_rows_progress:
  assumes "healthy F" and "movable n to src dst"
    and "migrate_rows F b (filter (belongs n to) (take batch (sh_tips src))) (src, dst, st) = (src', dst', st')"
    and "filter (belongs n to) (take batch (sh_tips src)) \<noteq> []"
  shows "movable n to src' dst' \<and> length (sh_tips src') < length (sh_tips src)"
proof -
  let ?rs = "filter (belongs n to) (take batch (sh_tips src))"
  have sub: "set ?rs \<subseteq> set (sh_tips src)" by (auto dest: in_set_takeD)
  have "distinct (map row_hash ?rs)"
    using assms(2) sub by (auto simp: movable_def distinct_map intro: inj_on_subset)
  moreover have "\<forall>r \<in> set ?rs. row_creator r \<in> sh_creators dst \<and> row_hash r \<notin> row_hash ` set (sh_tips dst)"
    using assms(2) sub by (auto simp: movable_def)
  ultimately have res: "sh_tips src' = filter (\<lambda>r. row_id r \<notin> row_id ` set ?rs) (sh_tips src)"
    "sh_creators dst' = sh_creators dst"
    "row_hash ` set (sh_tips dst') \<subseteq> row_hash ` set (sh_tips dst) \<union> row_hash ` set ?rs"
    using migrate_rows_healthy [OF assms(1) _ _ assms(3)] by auto
  obtain x where x: "x \<in> set ?rs" using assms(4) by (meson last_in_set)
  then have "length (sh_tips src') < length (sh_tips src)"
    unfolding res(1) using sub by (intro length_filter_less [of x]) auto
  moreover have fresh: "row_hash r \<notin> row_hash ` set ?rs" if "r \<in> set (sh_tips src')" for r
  proof
    assume "row_hash r \<in> row_hash ` set ?rs"
    then obtain y where y: "y \<in> set ?rs" "row_hash y = row_hash r" by force
    moreover have "r \<in> set (sh_tips src)" "row_id r \<notin> row_id ` set ?rs" using that res(1) by auto
    ultimately show False
      using assms(2) sub by (auto simp: movable_def distinct_map dest: inj_onD)
  qed
  moreover have "row_hash r \<notin> row_hash ` set (sh_tips dst')" if "r \<in> set (sh_tips src')" "belongs n to r" for r
  proof -
    have "r \<in> set (sh_tips src)" using that(1) res(1) by simp
    then have "row_hash r \<notin> row_hash ` set (sh_tips dst)" using that(2) assms(2) unfolding movable_def by blast
    then show ?thesis using fresh [OF that(1)] res(3) by blast
  qed
  ultimately show ?thesis
    using assms(2) res(1,2) by (simp add: movable_def distinct_map_filter)
qed

text \<open>\<^bold>\<open>C37.\<close> A migration ends: when the statements succeed and the tips can be stored at the destination,
  a batch for each tip of the source, and one more, is always enough for the loop to return.\<close>

theorem migration_terminates:
  assumes "healthy F" and "movable n to src dst"
  shows "\<exists>res. migrate_tips F n to batch (Suc (length (sh_tips src))) (src, dst) = Some res"
proof -
  have "\<exists>res. migrate_loop F n to batch (Suc fuel) b (src, dst, st) = Some res"
    if "movable n to src dst" "length (sh_tips src) \<le> fuel" for fuel b src dst st
    using that
  proof (induction fuel arbitrary: b src dst st)
    case 0
    then show ?case using assms(1) by (simp add: healthy_def)
  next
    case (Suc fuel)
    let ?rs = "filter (belongs n to) (take batch (sh_tips src))"
    obtain src1 dst1 st1 where rows: "migrate_rows F b ?rs (src, dst, st) = (src1, dst1, st1)"
      by (metis surj_pair)
    have "\<exists>res. migrate_loop F n to batch (Suc fuel) (Suc b) (src1, dst1, st1) = Some res" if "?rs \<noteq> []"
      using migrate_rows_progress [OF assms(1) Suc.prems(1) rows that] Suc.prems(2) by (intro Suc.IH) auto
    then show ?case
      using assms(1) rows by (subst migrate_loop.simps) (auto simp: healthy_def Let_def)
  qed
  then show ?thesis using assms(2) by (simp add: migrate_tips_def)
qed

theorem migration_terminates_witness:
  "\<exists>res. migrate_tips ex_faults 1 0 10 2 (\<lparr>sh_tips = [ex_row], sh_creators = {''a''}\<rparr>, \<lparr>sh_tips = [], sh_creators = {''a''}\<rparr>)
     = Some res"
proof -
  have "healthy ex_faults" by (simp add: healthy_def ex_faults_def)
  moreover have "movable 1 0 \<lparr>sh_tips = [ex_row], sh_creators = {''a''}\<rparr> \<lparr>sh_tips = [], sh_creators = {''a''}\<rparr>"
    by (simp add: movable_def ex_row_def)
  ultimately show ?thesis using migration_terminates [of ex_faults 1 0 "\<lparr>sh_tips = [ex_row], sh_creators = {''a''}\<rparr>"
      "\<lparr>sh_tips = [], sh_creators = {''a''}\<rparr>" 10] by (simp add: numeral_2_eq_2)
qed

text \<open>A migration to a shard that does not have the creators never ends: when the first batch has
  tips for the destination whose creators are unknown there, every batch fails on the same tips and
  the loop starts again, for ever.\<close>

theorem migration_without_creators_diverges:
  assumes "\<forall>b. f_select F b = None" and "filter (belongs n to) (take batch (sh_tips src)) \<noteq> []"
    and "\<forall>r \<in> set (take batch (sh_tips src)). belongs n to r \<longrightarrow>
           row_creator r \<notin> sh_creators dst \<and> row_id r \<notin> ids dst"
  shows "migrate_tips F n to batch fuel (src, dst) = None"
proof -
  have rows: "\<exists>st'. migrate_rows F b rs (src, dst, st) = (src, dst, st')"
    if "\<forall>r \<in> set rs. row_creator r \<notin> sh_creators dst \<and> row_id r \<notin> ids dst" for rs b st
    using that by (induction rs arbitrary: st) (auto simp: insert_copy_def ids_def)
  have "migrate_loop F n to batch fuel b (src, dst, st) = None" for b st
  proof (induction fuel arbitrary: b st)
    case (Suc fuel)
    have "\<forall>r \<in> set (filter (belongs n to) (take batch (sh_tips src))).
        row_creator r \<notin> sh_creators dst \<and> row_id r \<notin> ids dst" using assms(3) by simp
    from rows [OF this] obtain st' where
      "migrate_rows F b (filter (belongs n to) (take batch (sh_tips src))) (src, dst, st) = (src, dst, st')"
      by blast
    with Suc.IH assms(1,2) show ?case by (auto simp: Let_def)
  qed simp
  then show ?thesis by (simp add: migrate_tips_def)
qed

theorem migration_without_creators_diverges_witness:
  "\<forall>fuel. migrate_tips ex_faults 1 0 10 fuel (\<lparr>sh_tips = [ex_row], sh_creators = {''a''}\<rparr>, \<lparr>sh_tips = [], sh_creators = {}\<rparr>)
     = None"
proof -
  have "filter (belongs 1 0) (take 10 (sh_tips \<lparr>sh_tips = [ex_row], sh_creators = {''a''}\<rparr>)) \<noteq> []"
    using ex_row_belongs by simp
  then show ?thesis
    using migration_without_creators_diverges [of ex_faults 1 0 10
        "\<lparr>sh_tips = [ex_row], sh_creators = {''a''}\<rparr>" "\<lparr>sh_tips = [], sh_creators = {}\<rparr>"]
    by (simp add: ex_faults_def ids_def)
qed

end
