(* ===== verification/Encryption.thy ===== *)
theory Encryption
  imports App_Errors
begin

text \<open>
  Encrypted columns (\<open>src/crypto/encryption.rs\<close>): the key manager, its loading from Vault and the
  environment, the format \<open>enc:v1:<key id>:<nonce>:<ciphertext>\<close>, and the rotation of keys that the scheduler
  runs once a week (\<open>src/scheduler/manager.rs\<close>). AES-256-GCM, base64, hexadecimal decoding and the UTF-8 check
  are parameters; the locale \<open>aead_library\<close> states what is relied on. Bytes are strings; the answer of Vault for a
  key name and the nonce drawn are arguments.
\<close>

section \<open>The manager\<close>

definition FORMAT_PREFIX :: string where "FORMAT_PREFIX = ''enc:v1''"
definition NONCE_LEN :: nat where "NONCE_LEN = 12"

record enc_ops =
  aes_encrypt :: "string \<Rightarrow> string \<Rightarrow> string \<Rightarrow> string option"
  aes_decrypt :: "string \<Rightarrow> string \<Rightarrow> string \<Rightarrow> string option"
  b64_url_encode :: "string \<Rightarrow> string"
  b64_url_decode :: "string \<Rightarrow> string option"
  b64_std_decode :: "string \<Rightarrow> string option"
  hex_decode :: "string \<Rightarrow> string option"
  enc_utf8 :: "string \<Rightarrow> bool"

record enc_manager =
  em_current_key_id :: string
  em_keys :: "string \<rightharpoonup> string"

datatype enc_error =
    InvalidPayload
  | NonceDecode
  | CiphertextDecode
  | KeyUnavailable string
  | ActiveKeyUnavailable
  | EncryptionFailed
  | DecryptionFailed
  | InvalidUtf8
  | KeyDecode
  | KeyLength nat
  | NoKeys

definition parse_key :: "enc_ops \<Rightarrow> string \<Rightarrow> enc_error + string" where
  "parse_key E raw =
     (case (if length raw = 64 \<and> list_all is_ascii_hexdigit raw then hex_decode E raw else b64_std_decode E raw) of
        None \<Rightarrow> Err KeyDecode
      | Some decoded \<Rightarrow> if length decoded \<noteq> 32 then Err (KeyLength (length decoded)) else Ok decoded)"

definition resolve_key :: "(string \<Rightarrow> string option) \<Rightarrow> env \<Rightarrow> string \<Rightarrow> string option" where
  "resolve_key vault_get env key_name =
     (case vault_get key_name of Some secret \<Rightarrow> Some secret | None \<Rightarrow> env key_name)"

definition configured_key_ids :: "env \<Rightarrow> string list" where
  "configured_key_ids env =
     (case env ''ENCRYPTION_KEY_IDS'' of
        Some ids \<Rightarrow> filter (\<lambda>i. i \<noteq> []) (map trim (split_char (CHR '','') ids))
      | None \<Rightarrow> [''current'', ''old_1'', ''old_2''])"

text \<open>A key that is not found is skipped, one that does not parse ends the loading.\<close>

fun load_keys ::
  "enc_ops \<Rightarrow> (string \<Rightarrow> string option) \<Rightarrow> env \<Rightarrow> string list \<Rightarrow> (string \<rightharpoonup> string) \<Rightarrow> enc_error + (string \<rightharpoonup> string)" where
  "load_keys E vault_get env [] keys = Ok keys"
| "load_keys E vault_get env (i # is) keys =
     (case resolve_key vault_get env (''ENCRYPTION_KEY_'' @ to_uppercase i) of
        None \<Rightarrow> load_keys E vault_get env is keys
      | Some raw \<Rightarrow>
          (case parse_key E raw of
             Inl e \<Rightarrow> Err e
           | Inr key \<Rightarrow> load_keys E vault_get env is (keys(i \<mapsto> key))))"

text \<open>\<open>first\<close> is the first key of the hash map in its iteration order.\<close>

definition load_manager ::
  "enc_ops \<Rightarrow> (string \<Rightarrow> string option) \<Rightarrow> env \<Rightarrow> ((string \<rightharpoonup> string) \<Rightarrow> string) \<Rightarrow> enc_error + enc_manager" where
  "load_manager E vault_get env first =
     (case load_keys E vault_get env (configured_key_ids env) Map.empty of
        Inl e \<Rightarrow> Err e
      | Inr keys \<Rightarrow>
          if list_all (\<lambda>i. keys i = None) (configured_key_ids env) then Err NoKeys
          else Ok \<lparr>em_current_key_id = (if keys ''current'' \<noteq> None then ''current'' else first keys), em_keys = keys\<rparr>)"

definition enc_payload :: "enc_ops \<Rightarrow> string \<Rightarrow> string \<Rightarrow> string \<Rightarrow> string" where
  "enc_payload E key_id nonce ciphertext =
     FORMAT_PREFIX @ '':'' @ key_id @ '':'' @ b64_url_encode E nonce @ '':'' @ b64_url_encode E ciphertext"

definition encrypt_to_string :: "enc_ops \<Rightarrow> enc_manager \<Rightarrow> string \<Rightarrow> string \<Rightarrow> enc_error + string" where
  "encrypt_to_string E M nonce plaintext =
     (case em_keys M (em_current_key_id M) of
        None \<Rightarrow> Err ActiveKeyUnavailable
      | Some key \<Rightarrow>
          (case aes_encrypt E key nonce plaintext of
             None \<Rightarrow> Err EncryptionFailed
           | Some ciphertext \<Rightarrow> Ok (enc_payload E (em_current_key_id M) nonce ciphertext)))"

text \<open>\<open>splitn(3, ':')\<close> of the part behind the prefix.\<close>

definition split_payload :: "string \<Rightarrow> (string \<times> string \<times> string) option" where
  "split_payload v =
     Option.bind (strip_prefix FORMAT_PREFIX v) (\<lambda>s.
     Option.bind (strip_prefix '':'' s) (\<lambda>rest.
     Option.bind (split_once (CHR '':'') rest) (\<lambda>(key_id, r).
     map_option (\<lambda>(nonce, ct). (key_id, nonce, ct)) (split_once (CHR '':'') r))))"

text \<open>\<open>Nonce::from_slice\<close> panics on a nonce of another length: the outer \<open>None\<close>.\<close>

definition decrypt_to_string :: "enc_ops \<Rightarrow> enc_manager \<Rightarrow> string \<Rightarrow> (enc_error + string) option" where
  "decrypt_to_string E M v =
     (case split_payload v of
        None \<Rightarrow> Some (Err InvalidPayload)
      | Some (key_id, n, c) \<Rightarrow>
          (case b64_url_decode E n of
             None \<Rightarrow> Some (Err NonceDecode)
           | Some nonce \<Rightarrow>
               (case b64_url_decode E c of
                  None \<Rightarrow> Some (Err CiphertextDecode)
                | Some ciphertext \<Rightarrow>
                    (case em_keys M key_id of
                       None \<Rightarrow> Some (Err (KeyUnavailable key_id))
                     | Some key \<Rightarrow>
                         if length nonce \<noteq> NONCE_LEN then None
                         else Some (case aes_decrypt E key nonce ciphertext of
                                      None \<Rightarrow> Err DecryptionFailed
                                    | Some plaintext \<Rightarrow> if enc_utf8 E plaintext then Ok plaintext else Err InvalidUtf8)))))"

definition rotate_keys :: "string \<Rightarrow> enc_manager \<Rightarrow> enc_manager" where
  "rotate_keys new_key M =
     (let keys = [''current'' \<mapsto> new_key];
          keys = (case em_keys M ''current'' of Some k \<Rightarrow> keys(''old_1'' \<mapsto> k) | None \<Rightarrow> keys);
          keys = (case em_keys M ''old_1'' of Some k \<Rightarrow> keys(''old_2'' \<mapsto> k) | None \<Rightarrow> keys)
      in \<lparr>em_current_key_id = ''current'', em_keys = keys\<rparr>)"

text \<open>Reading a column of type \<open>EncryptedString\<close>: every error is a decoding error of the row.\<close>

definition decode_column :: "enc_ops \<Rightarrow> enc_manager \<Rightarrow> string \<Rightarrow> (sqlx_error + string) option" where
  "decode_column E M raw = map_option (map_sum (\<lambda>_. SqlxOther) id) (decrypt_to_string E M raw)"

section \<open>What the libraries promise\<close>

text \<open>A ciphertext opens under its key and its nonce, and under no other key; base64 texts have no colon and
  decode to what was encoded.\<close>

locale aead_library =
  fixes E :: enc_ops
  assumes seal: "length key = 32 \<Longrightarrow> length nonce = NONCE_LEN \<Longrightarrow> \<exists>c. aes_encrypt E key nonce p = Some c"
    and unseal: "length key = 32 \<Longrightarrow> length key' = 32 \<Longrightarrow> length nonce = NONCE_LEN \<Longrightarrow> aes_encrypt E key nonce p = Some c \<Longrightarrow>
      aes_decrypt E key' nonce c = (if key' = key then Some p else None)"
    and b64: "b64_url_decode E (b64_url_encode E x) = Some x" "CHR '':'' \<notin> set (b64_url_encode E x)"

definition keys_ok :: "enc_manager \<Rightarrow> bool" where
  "keys_ok M \<longleftrightarrow> (\<forall>i k. em_keys M i = Some k \<longrightarrow> length k = 32)"

lemma load_keys_ok:
  "load_keys E vault_get env is keys = Ok keys' \<Longrightarrow> (\<forall>i k. keys i = Some k \<longrightarrow> length k = 32) \<Longrightarrow>
     \<forall>i k. keys' i = Some k \<longrightarrow> length k = 32"
proof (induction E vault_get env "is" keys rule: load_keys.induct)
  case (2 E vault_get env i "is" keys)
  have len: "length k = 32" if "parse_key E raw = Ok k" for raw k
    using that by (auto simp: parse_key_def split: option.splits if_splits)
  show ?case
  proof (cases "resolve_key vault_get env (''ENCRYPTION_KEY_'' @ to_uppercase i)")
    case None
    then show ?thesis using "2.IH"(1) "2.prems" by simp
  next
    case (Some raw)
    then obtain k where k: "parse_key E raw = Ok k" "load_keys E vault_get env is (keys(i \<mapsto> k)) = Ok keys'"
      using "2.prems"(1) by (auto split: sum.splits)
    show ?thesis
      using "2.prems"(2) len [OF k(1)] by (intro "2.IH"(2) [OF Some k]) simp
  qed
qed simp

lemma load_manager_ok: "load_manager E vault_get env first = Ok M \<Longrightarrow> keys_ok M"
  using load_keys_ok [of E vault_get env "configured_key_ids env" Map.empty]
  by (auto simp: load_manager_def keys_ok_def split: sum.splits if_splits)

lemma split_payload_made:
  assumes "CHR '':'' \<notin> set i" "CHR '':'' \<notin> set n"
  shows "split_payload (FORMAT_PREFIX @ '':'' @ i @ '':'' @ n @ '':'' @ c) = Some (i, n, c)"
  using assms by (simp add: split_payload_def FORMAT_PREFIX_def split_once_append)

context aead_library
begin

text \<open>A payload made under some key, opened by a manager whose key of that id is \<open>key'\<close>.\<close>

lemma decrypt_payload:
  assumes "length key = 32" "length nonce = NONCE_LEN" "aes_encrypt E key nonce p = Some c" "CHR '':'' \<notin> set i"
    and "em_keys M i = Some key'" "length key' = 32"
  shows "decrypt_to_string E M (enc_payload E i nonce c) =
    Some (if key' \<noteq> key then Err DecryptionFailed else if enc_utf8 E p then Ok p else Err InvalidUtf8)"
proof -
  have "split_payload (enc_payload E i nonce c) = Some (i, b64_url_encode E nonce, b64_url_encode E c)"
    unfolding enc_payload_def using assms(4) b64(2) by (rule split_payload_made)
  then show ?thesis
    using assms unseal [OF assms(1,6,2,3)] b64(1) by (simp add: decrypt_to_string_def)
qed

lemma roundtrip:
  assumes "keys_ok M" "length nonce = NONCE_LEN" "CHR '':'' \<notin> set (em_current_key_id M)" "enc_utf8 E p"
    and "em_keys M (em_current_key_id M) \<noteq> None"
  shows "\<exists>v. encrypt_to_string E M nonce p = Ok v \<and> decrypt_to_string E M v = Some (Ok p)"
proof -
  obtain key where k: "em_keys M (em_current_key_id M) = Some key" "length key = 32"
    using assms(1,5) by (auto simp: keys_ok_def)
  obtain c where "aes_encrypt E key nonce p = Some c" using seal [OF k(2) assms(2)] by blast
  then show ?thesis
    using decrypt_payload [OF k(2) assms(2) _ assms(3) k] assms(4) k by (simp add: encrypt_to_string_def)
qed

end

section \<open>A library that keeps its promises\<close>

text \<open>Sealing puts the key and the nonce in front, and bytes are written as two letters each.\<close>

definition letters :: "string \<Rightarrow> string" where
  "letters s = concat (map (\<lambda>c. [char_of (97 + byte c div 16), char_of (97 + byte c mod 16)]) s)"

fun unletters :: "string \<Rightarrow> string option" where
  "unletters [] = Some []"
| "unletters [c] = None"
| "unletters (a # b # s) = map_option (\<lambda>r. char_of (16 * (byte a - 97) + (byte b - 97)) # r) (unletters s)"

definition open_box :: enc_ops where
  "open_box = \<lparr>aes_encrypt = (\<lambda>key nonce p. Some (key @ nonce @ p)), aes_decrypt = (\<lambda>key nonce c. strip_prefix (key @ nonce) c),
     b64_url_encode = letters, b64_url_decode = unletters, b64_std_decode = Some, hex_decode = unletters,
     enc_utf8 = list_all (\<lambda>c. byte c < 128)\<rparr>"

lemma letter_byte: "n < 16 \<Longrightarrow> byte (char_of (97 + n)) = 97 + n"
  by simp

lemma unletters_letters: "unletters (letters s) = Some s"
proof (induction s)
  case (Cons c s)
  have "byte c div 16 < 16" "byte c mod 16 < 16" using nat_of_char_less_256 [of c] by (simp_all add: less_mult_imp_div_less)
  with Cons show ?case by (simp add: letters_def letter_byte)
qed (simp add: letters_def)

lemma letters_no_colon: "CHR '':'' \<notin> set (letters s)"
proof -
  have "char_of (97 + n) \<noteq> CHR '':''" if "n < 16" for n :: nat
  proof
    assume "char_of (97 + n) = CHR '':''"
    then have "byte (char_of (97 + n)) = 58" by simp
    then show False using letter_byte [OF that] by simp
  qed
  moreover have "byte c div 16 < 16" "byte c mod 16 < 16" for c using nat_of_char_less_256 [of c] by (simp_all add: less_mult_imp_div_less)
  ultimately have "\<forall>c. CHR '':'' \<noteq> char_of (97 + byte c div 16) \<and> CHR '':'' \<noteq> char_of (97 + byte c mod 16)"
    by metis
  then show ?thesis by (auto simp: letters_def)
qed

lemma strip_prefix_append_iff: "strip_prefix p (p @ r) = Some r"
  by (induction p) auto

lemma strip_prefix_same_length:
  "length p = length p' \<Longrightarrow> strip_prefix p' (p @ r) = (if p' = p then Some r else None)"
proof (induction p' arbitrary: p)
  case (Cons a p')
  then obtain b q where "p = b # q" "length q = length p'" by (cases p) auto
  with Cons.IH [of q] show ?case by simp
qed simp

interpretation box: aead_library open_box
proof unfold_locales
  fix key key' nonce p c :: string
  assume "length key = 32" "length key' = 32" "length nonce = NONCE_LEN" "aes_encrypt open_box key nonce p = Some c"
  then show "aes_decrypt open_box key' nonce c = (if key' = key then Some p else None)"
    using strip_prefix_same_length [of "key @ nonce" "key' @ nonce" p] by (auto simp: open_box_def)
qed (simp_all add: open_box_def unletters_letters letters_no_colon)

section \<open>Round trip and rotation\<close>


definition blank_key :: string where "blank_key = replicate 32 (CHR ''0'')"
definition one_key :: string where "one_key = replicate 32 (CHR ''1'')"
definition zero_nonce :: string where "zero_nonce = replicate 12 (CHR ''n'')"

definition demo_manager :: enc_manager where
  "demo_manager = \<lparr>em_current_key_id = ''current'', em_keys = [''current'' \<mapsto> blank_key]\<rparr>"

lemma demo_load:
  "load_manager open_box (\<lambda>_. None) [''ENCRYPTION_KEY_CURRENT'' \<mapsto> blank_key] (\<lambda>_. []) = Ok demo_manager"
proof -
  have "to_uppercase ''current'' = ''CURRENT''" "to_uppercase ''old_1'' = ''OLD_1''" "to_uppercase ''old_2'' = ''OLD_2''"
    by code_simp+
  then show ?thesis
    by (simp add: load_manager_def configured_key_ids_def resolve_key_def parse_key_def open_box_def blank_key_def demo_manager_def)
qed

lemma demo_lengths: "length zero_nonce = NONCE_LEN" "length blank_key = 32" "length one_key = 32" "one_key \<noteq> blank_key"
  by (simp_all add: zero_nonce_def NONCE_LEN_def blank_key_def one_key_def)


text \<open>\<^bold>\<open>C40.\<close> Rotation makes every stored value unreadable: the rotated manager keeps the former key under another
  id, while the stored payloads name the id the key had, so a value encrypted before a rotation to a new key fails to
  decrypt after it, and after any further rotations to keys that differ from the first.\<close>

theorem rotation_loses_data:
  assumes "aead_library E" and "keys_ok M" and "em_current_key_id M = ''current''"
    and "length nonce = NONCE_LEN" and "encrypt_to_string E M nonce p = Ok v"
    and "new_keys \<noteq> []" and "\<forall>k \<in> set new_keys. length k = 32 \<and> em_keys M ''current'' \<noteq> Some k"
  shows "decrypt_to_string E (fold rotate_keys new_keys M) v = Some (Err DecryptionFailed)"
proof -
  obtain key c where key: "em_keys M ''current'' = Some key" "aes_encrypt E key nonce p = Some c"
    and v: "v = enc_payload E ''current'' nonce c"
    using assms(3,5) by (auto simp: encrypt_to_string_def split: option.splits)
  have len: "length key = 32" using assms(2) key(1) by (auto simp: keys_ok_def)
  have last: "em_keys (fold rotate_keys ks M) ''current'' = Some (last ks)" if "ks \<noteq> []" for ks
    using that by (cases ks rule: rev_cases) (simp_all add: rotate_keys_def Let_def split: option.split)
  have "length (last new_keys) = 32" "last new_keys \<noteq> key"
    using assms(6,7) key(1) last_in_set by fastforce+
  then show ?thesis
    using aead_library.decrypt_payload [OF assms(1) len assms(4) key(2) _ last [OF assms(6)]] v by simp
qed

theorem rotation_loses_data_witness:
  "\<exists>v. encrypt_to_string open_box demo_manager zero_nonce ''s3cret'' = Ok v
     \<and> decrypt_to_string open_box (fold rotate_keys [one_key] demo_manager) v = Some (Err DecryptionFailed)"
proof -
  have ok: "keys_ok demo_manager" "em_current_key_id demo_manager = ''current''"
    by (simp_all add: keys_ok_def demo_manager_def demo_lengths)
  have "\<exists>v. encrypt_to_string open_box demo_manager zero_nonce ''s3cret'' = Ok v"
    by (simp add: encrypt_to_string_def demo_manager_def open_box_def)
  then obtain v where v: "encrypt_to_string open_box demo_manager zero_nonce ''s3cret'' = Ok v" by blast
  have "decrypt_to_string open_box (fold rotate_keys [one_key] demo_manager) v = Some (Err DecryptionFailed)"
    using demo_lengths(2-4) by (intro rotation_loses_data [OF box.aead_library_axioms ok demo_lengths(1) v])
      (auto simp: demo_manager_def)
  with v show ?thesis by blast
qed

end
