(* ===== verification/Auth_Routes.thy ===== *)
theory Auth_Routes
  imports Auth_Tokens Token_Family Encryption
begin

text \<open>
  The authentication routes (\<open>src/routes/auth.rs\<close>) over the tokens, the refresh-token families and
  the accounts. A handler is a function on the state of the service with three outcomes: a panic
  (\<open>None\<close>), an error, or a response. Its SQL statements and Redis commands may fail: \<open>re_stmt\<close> and
  \<open>re_cmd\<close> say which, by their number in the handler. The UUIDs, salts and codes a request draws are
  part of its environment. The body has passed \<open>ValidatedJson\<close>, and the protected handlers get the
  claims from the middleware. The columns of an account that these routes do not use are left out,
  and so is the read-only list of sessions.

  Three columns are read as \<open>EncryptedString\<close>. The one-time secret and the backup codes are also written as such
  and are their plain text here (\<open>encryption_roundtrip\<close>). The password hash is written as it is, so reading
  it goes through \<open>ao_column\<close>, which is \<open>decode_column\<close> of the manager.
\<close>

section \<open>State and handlers\<close>

record creator =
  cr_id :: string
  cr_username :: string
  cr_wallet_address :: string
  cr_password_hash :: string
  cr_totp_secret :: "string option"
  cr_totp_enabled :: bool
  cr_backup_code_hashes :: "string list"

record ('r, 'c) auth_state =
  au_creators :: "string \<rightharpoonup> creator"
  au_families :: families
  au_revoked :: "('r, 'c) revocations"

record ('r, 'c) auth_ops =
  ao_jwt :: jwt_ops
  ao_redis :: "(string, 'r) redis_ops"
  ao_epochs :: "'c counter_ops"
  ao_crypto :: crypto_ops
  ao_parse_uuid :: "string \<Rightarrow> string option"
  ao_column :: "string \<Rightarrow> (sqlx_error + string) option"

record request_env =
  re_vars :: env
  re_now_ms :: int
  re_has_redis :: bool
  re_stmt :: "nat \<Rightarrow> sqlx_error option"
  re_cmd :: "nat \<Rightarrow> bool"
  re_uuid :: "nat \<Rightarrow> string"
  re_salt :: "nat \<Rightarrow> string"
  re_totp_secret :: string
  re_backup_codes :: "string list"

definition re_now :: "request_env \<Rightarrow> nat" where "re_now q = nat (re_now_ms q div 1000)"

type_synonym ('s, 'a) handler = "'s \<Rightarrow> (app_error + 'a) option \<times> 's"

definition hbind :: "('s, 'a) handler \<Rightarrow> ('a \<Rightarrow> ('s, 'b) handler) \<Rightarrow> ('s, 'b) handler" where
  "hbind m f s =
     (case m s of
        (None, s') \<Rightarrow> (None, s')
      | (Some (Inl e), s') \<Rightarrow> (Some (Err e), s')
      | (Some (Inr x), s') \<Rightarrow> f x s')"

definition hresult :: "app_error + 'a \<Rightarrow> ('s, 'a) handler" where "hresult r s = (Some r, s)"
definition hpanic :: "(app_error + 'a) option \<Rightarrow> ('s, 'a) handler" where "hpanic r s = (r, s)"
definition hget :: "('s \<Rightarrow> 'a) \<Rightarrow> ('s, 'a) handler" where "hget f s = (Some (Ok (f s)), s)"
definition hput :: "('s \<Rightarrow> 's) \<Rightarrow> ('s, unit) handler" where "hput f s = (Some (Ok ()), f s)"

definition hstmt :: "sqlx_error option \<Rightarrow> ('s, unit) handler" where
  "hstmt fault = hresult (case fault of Some e \<Rightarrow> Err (app_error_from_sqlx e) | None \<Rightarrow> Ok ())"

lemmas handler_defs = hbind_def hresult_def hpanic_def hget_def hput_def hstmt_def

text \<open>An operation on the families, and one on the revocations, run in the state of the service.\<close>

definition on_families :: "(families \<Rightarrow> (app_error + 'a) \<times> families) \<Rightarrow> (('r, 'c) auth_state, 'a) handler" where
  "on_families f s = (let (r, m) = f (au_families s) in (Some r, s\<lparr>au_families := m\<rparr>))"

definition on_revoked :: "(('r, 'c) revocations \<Rightarrow> ('r, 'c) revocations) \<Rightarrow> (('r, 'c) auth_state, unit) handler" where
  "on_revoked f = hput (\<lambda>s. s\<lparr>au_revoked := f (au_revoked s)\<rparr>)"

definition on_creator :: "string \<Rightarrow> (creator \<Rightarrow> creator) \<Rightarrow> (('r, 'c) auth_state, unit) handler" where
  "on_creator u f = hput (\<lambda>s. s\<lparr>au_creators := (au_creators s)(u := map_option f (au_creators s u))\<rparr>)"

definition status_only :: "nat \<Rightarrow> response" where
  "status_only st = \<lparr>status = st, rheaders = Map.empty, rbody = Bytes []\<rparr>"

definition auth_response :: "nat \<Rightarrow> string \<Rightarrow> string \<Rightarrow> response" where
  "auth_response st access refresh =
     json_response st (JObj [(''access_token'', JStr access), (''refresh_token'', JStr refresh), (''token_type'', JStr ''Bearer'')])"

section \<open>Sessions\<close>

definition client_ip :: "headers \<Rightarrow> string option" where
  "client_ip hs = map_option (\<lambda>v. trim (hd (split_char (CHR '','') v))) (header_get hs ''x-forwarded-for'')"

definition user_agent :: "headers \<Rightarrow> string option" where
  "user_agent hs = header_get hs ''user-agent''"

definition token_version :: "('r, 'c) auth_ops \<Rightarrow> request_env \<Rightarrow> string \<Rightarrow> ('r, 'c) auth_state \<Rightarrow> int" where
  "token_version ops q u s =
     (if re_has_redis q then current_epoch (ao_epochs ops) (re_cmd q 0) u (au_revoked s) else 0)"

text \<open>UUID 0 is the family in the token, 1 and 2 the ids of the tokens; \<open>create_family\<close> draws UUID 3
  for the row it inserts.\<close>

definition issue_new_session ::
  "('r, 'c) auth_ops \<Rightarrow> request_env \<Rightarrow> headers \<Rightarrow> nat \<Rightarrow> string \<Rightarrow> string \<Rightarrow> (('r, 'c) auth_state, response) handler" where
  "issue_new_session ops q hs st username role =
     hbind (hget (token_version ops q username)) (\<lambda>tv.
     hbind (hpanic (issue_tokens (ao_jwt ops) (re_vars q) (re_now q) (re_uuid q 1) (re_uuid q 2) username role
                      (re_uuid q 0) tv)) (\<lambda>issued.
     hbind (on_families (create_family (re_stmt q 9) (re_uuid q 3) (int (re_now q)) username (it_refresh_jti issued)
                           (user_agent hs) (client_ip hs))) (\<lambda>_.
     hresult (Ok (auth_response st (it_access_token issued) (it_refresh_token issued))))))"

text \<open>A row that was fetched, or none; decoding it decodes the password column.\<close>

definition decode_row :: "('r, 'c) auth_ops \<Rightarrow> app_error \<Rightarrow> creator option \<Rightarrow> (('r, 'c) auth_state, creator) handler" where
  "decode_row ops missing row =
     (case row of
        None \<Rightarrow> hresult (Err missing)
      | Some c \<Rightarrow> hpanic (map_option (map_sum app_error_from_sqlx (\<lambda>h. c\<lparr>cr_password_hash := h\<rparr>))
                    (ao_column ops (cr_password_hash c))))"

definition register ::
  "('r, 'c) auth_ops \<Rightarrow> request_env \<Rightarrow> headers \<Rightarrow> string \<Rightarrow> string \<Rightarrow> string \<Rightarrow> (('r, 'c) auth_state, response) handler" where
  "register ops q hs username wallet password =
     hbind (hresult (hash_password (ao_crypto ops) (re_salt q 0) password)) (\<lambda>h.
     hbind (hget (\<lambda>s. if au_creators s username \<noteq> None
                      then Some (SqlxDatabase (Some ''23505'') (Some ''creators_username_key'')) else re_stmt q 0)) (\<lambda>fault.
     hbind (hresult (case fault of
              None \<Rightarrow> Ok ()
            | Some (SqlxDatabase (Some code) c) \<Rightarrow>
                if code = ''23505'' then Err (Conflict ''USERNAME_TAKEN'' ''Username already taken'')
                else Err (app_error_from_sqlx (SqlxDatabase (Some code) c))
            | Some e \<Rightarrow> Err (app_error_from_sqlx e))) (\<lambda>_.
     hbind (hput (\<lambda>s. s\<lparr>au_creators := (au_creators s)(username \<mapsto>
              \<lparr>cr_id = re_uuid q 4, cr_username = username, cr_wallet_address = wallet, cr_password_hash = h,
               cr_totp_secret = None, cr_totp_enabled = False, cr_backup_code_hashes = []\<rparr>)\<rparr>)) (\<lambda>_.
     hbind (hget (\<lambda>s. au_creators s username)) (\<lambda>row.
     hbind (decode_row ops (app_error_from_sqlx SqlxOther) row) (\<lambda>c.
     issue_new_session ops q hs 201 (cr_username c) ''creator''))))))"

text \<open>\<open>fetch_optional\<close> of an account; without one the credentials are invalid.\<close>

definition find_creator :: "('r, 'c) auth_ops \<Rightarrow> request_env \<Rightarrow> string \<Rightarrow> (('r, 'c) auth_state, creator) handler" where
  "find_creator ops q username =
     hbind (hstmt (re_stmt q 0)) (\<lambda>_.
     hbind (hget (\<lambda>s. au_creators s username)) (decode_row ops (Unauthorized ''Invalid credentials'')))"

text \<open>\<open>fetch_one\<close> of an account, for the routes behind the middleware.\<close>

definition fetch_creator :: "('r, 'c) auth_ops \<Rightarrow> request_env \<Rightarrow> string \<Rightarrow> (('r, 'c) auth_state, creator) handler" where
  "fetch_creator ops q username =
     hbind (hstmt (re_stmt q 0)) (\<lambda>_.
     hbind (hget (\<lambda>s. au_creators s username)) (decode_row ops (app_error_from_sqlx SqlxOther)))"

definition check_password :: "('r, 'c) auth_ops \<Rightarrow> string \<Rightarrow> string \<Rightarrow> creator \<Rightarrow> (('r, 'c) auth_state, unit) handler" where
  "check_password ops message password c =
     hbind (hresult (verify_password (ao_crypto ops) password (cr_password_hash c))) (\<lambda>valid.
     hresult (if valid then Ok () else Err (Unauthorized message)))"

definition remove_nth :: "nat \<Rightarrow> 'a list \<Rightarrow> 'a list" where
  "remove_nth i xs = take i xs @ drop (Suc i) xs"

definition consume_backup_code :: "request_env \<Rightarrow> creator \<Rightarrow> nat \<Rightarrow> (('r, 'c) auth_state, unit) handler" where
  "consume_backup_code q c idx =
     hbind (hstmt (re_stmt q 1)) (\<lambda>_.
     on_creator (cr_username c) (\<lambda>row. row\<lparr>cr_backup_code_hashes := remove_nth idx (cr_backup_code_hashes c)\<rparr>))"

definition second_factor ::
  "('r, 'c) auth_ops \<Rightarrow> request_env \<Rightarrow> string option \<Rightarrow> string option \<Rightarrow> creator \<Rightarrow> (('r, 'c) auth_state, unit) handler" where
  "second_factor ops q totp_code backup_code c =
     hbind (hresult (case (totp_code, cr_totp_secret c) of
              (Some code, Some secret) \<Rightarrow> validate_totp_code (ao_crypto ops) (int (re_now q)) secret code
            | _ \<Rightarrow> Ok False)) (\<lambda>valid.
     if valid then hresult (Ok ())
     else hbind (hresult (case backup_code of
              Some code \<Rightarrow> verify_backup_code (ao_crypto ops) code (cr_backup_code_hashes c)
            | None \<Rightarrow> Ok None)) (\<lambda>found.
     case found of
       Some idx \<Rightarrow> consume_backup_code q c idx
     | None \<Rightarrow> hresult (Err (Unauthorized ''Two-factor code or backup code is required''))))"

definition login ::
  "('r, 'c) auth_ops \<Rightarrow> request_env \<Rightarrow> headers \<Rightarrow> string \<Rightarrow> string \<Rightarrow> string option \<Rightarrow> string option
     \<Rightarrow> (('r, 'c) auth_state, response) handler" where
  "login ops q hs username password totp_code backup_code =
     hbind (find_creator ops q username) (\<lambda>c.
     hbind (check_password ops ''Invalid credentials'' password c) (\<lambda>_.
     hbind (if cr_totp_enabled c then second_factor ops q totp_code backup_code c else hresult (Ok ())) (\<lambda>_.
     issue_new_session ops q hs 200 (cr_username c) ''creator'')))"

definition recover ::
  "('r, 'c) auth_ops \<Rightarrow> request_env \<Rightarrow> headers \<Rightarrow> string \<Rightarrow> string \<Rightarrow> string \<Rightarrow> (('r, 'c) auth_state, response) handler" where
  "recover ops q hs username password backup_code =
     hbind (find_creator ops q username) (\<lambda>c.
     hbind (check_password ops ''Invalid credentials'' password c) (\<lambda>_.
     hbind (hresult (if cr_totp_enabled c then verify_backup_code (ao_crypto ops) backup_code (cr_backup_code_hashes c)
                     else Err (Unauthorized ''Two-factor authentication is not enabled for this account''))) (\<lambda>found.
     hbind (case found of
              Some idx \<Rightarrow> consume_backup_code q c idx
            | None \<Rightarrow> hresult (Err (Unauthorized ''Invalid backup code''))) (\<lambda>_.
     issue_new_session ops q hs 200 (cr_username c) ''creator''))))"

definition invalid_refresh :: app_error where
  "invalid_refresh = Unauthorized ''Invalid or expired refresh token''"

definition family_of :: "('r, 'c) auth_ops \<Rightarrow> claims \<Rightarrow> string option" where
  "family_of ops c = Option.bind (cl_family c) (ao_parse_uuid ops)"

definition refresh :: "('r, 'c) auth_ops \<Rightarrow> request_env \<Rightarrow> string \<Rightarrow> (('r, 'c) auth_state, response) handler" where
  "refresh ops q token =
     hbind (hpanic (map_option (map_sum (\<lambda>_. invalid_refresh) id)
              (validate_token (ao_jwt ops) (re_vars q) (re_now q) token ''refresh''))) (\<lambda>c.
     hbind (hresult (case family_of ops c of Some f \<Rightarrow> Ok f | None \<Rightarrow> Err invalid_refresh)) (\<lambda>fam.
     hbind (hresult (case ao_parse_uuid ops (cl_jti c) of Some j \<Rightarrow> Ok j | None \<Rightarrow> Err invalid_refresh)) (\<lambda>jti.
     hbind (hget (token_version ops q (cl_sub c))) (\<lambda>tv.
     hbind (hpanic (issue_tokens (ao_jwt ops) (re_vars q) (re_now q) (re_uuid q 1) (re_uuid q 2) (cl_sub c) (cl_role c) fam tv)) (\<lambda>issued.
     hbind (on_families (rotate_or_detect_reuse (re_stmt q 0) (int (re_now q)) fam jti (it_refresh_jti issued))) (\<lambda>outcome.
     hresult (case outcome of
         Rotated \<Rightarrow> Ok (auth_response 200 (it_access_token issued) (it_refresh_token issued))
       | ReuseDetected \<Rightarrow> Err (Unauthorized ''Refresh token reuse detected; this session family has been revoked'')
       | _ \<Rightarrow> Err invalid_refresh)))))))"

text \<open>The family is revoked only when the refresh token is valid and the caller's; what the revocation
  returns is ignored.\<close>

definition logout :: "('r, 'c) auth_ops \<Rightarrow> request_env \<Rightarrow> claims \<Rightarrow> string option \<Rightarrow> (('r, 'c) auth_state, response) handler" where
  "logout ops q c refresh_token =
     hbind (on_revoked (\<lambda>rv. if re_has_redis q
              then revoke_jti (ao_redis ops) (re_cmd q 0) (re_now_ms q) (cl_jti c) (int (cl_exp c) - re_now_ms q div 1000) rv
              else rv)) (\<lambda>_.
     hbind (case refresh_token of
              None \<Rightarrow> hresult (Ok None)
            | Some t \<Rightarrow> hpanic (map_option (\<lambda>r. Ok (case r of Inr rc \<Rightarrow> Some rc | Inl _ \<Rightarrow> None))
                (validate_token (ao_jwt ops) (re_vars q) (re_now q) t ''refresh''))) (\<lambda>valid.
     hbind (hput (\<lambda>s. case valid of
              None \<Rightarrow> s
            | Some rc \<Rightarrow>
                if cl_sub rc = cl_sub c
                then (case family_of ops rc of
                        Some f \<Rightarrow> s\<lparr>au_families := snd (revoke_family (re_stmt q 0) f ''logout'' (au_families s))\<rparr>
                      | None \<Rightarrow> s)
                else s)) (\<lambda>_.
     hresult (Ok (status_only 204)))))"

definition change_password ::
  "('r, 'c) auth_ops \<Rightarrow> request_env \<Rightarrow> claims \<Rightarrow> string \<Rightarrow> string \<Rightarrow> (('r, 'c) auth_state, response) handler" where
  "change_password ops q c old_password new_password =
     hbind (fetch_creator ops q (cl_sub c)) (\<lambda>row.
     hbind (check_password ops ''Invalid current password'' old_password row) (\<lambda>_.
     hbind (hresult (hash_password (ao_crypto ops) (re_salt q 0) new_password)) (\<lambda>h.
     hbind (hstmt (re_stmt q 1)) (\<lambda>_.
     hbind (on_creator (cl_sub c) (\<lambda>x. x\<lparr>cr_password_hash := h\<rparr>)) (\<lambda>_.
     hbind (on_revoked (\<lambda>rv. if re_has_redis q then bump_epoch (ao_epochs ops) (re_cmd q 0) (cl_sub c) rv else rv)) (\<lambda>_.
     hbind (on_families (revoke_all_for_user (re_stmt q 2) (cl_sub c) ''password_change'')) (\<lambda>_.
     hresult (Ok (status_only 204)))))))))"

definition revoke_session :: "request_env \<Rightarrow> claims \<Rightarrow> string \<Rightarrow> (('r, 'c) auth_state, response) handler" where
  "revoke_session q c fam =
     hbind (hstmt (re_stmt q 0)) (\<lambda>_.
     hbind (hget (\<lambda>s. au_families s fam)) (\<lambda>row.
     hbind (hresult (case row of
              None \<Rightarrow> Err (not_found ''Session not found'')
            | Some f \<Rightarrow> if fam_username f \<noteq> cl_sub c then Err (Forbidden ''Cannot revoke another user's session'')
                       else Ok ())) (\<lambda>_.
     hbind (on_families (revoke_family (re_stmt q 1) fam ''user_revoked'')) (\<lambda>_.
     hresult (Ok (status_only 204))))))"

definition revoke_all_sessions :: "('r, 'c) auth_ops \<Rightarrow> request_env \<Rightarrow> claims \<Rightarrow> (('r, 'c) auth_state, response) handler" where
  "revoke_all_sessions ops q c =
     hbind (on_families (revoke_all_for_user (re_stmt q 0) (cl_sub c) ''user_revoked_all'')) (\<lambda>_.
     hbind (on_revoked (\<lambda>rv. if re_has_redis q then bump_epoch (ao_epochs ops) (re_cmd q 0) (cl_sub c) rv else rv)) (\<lambda>_.
     hresult (Ok (status_only 204))))"

section \<open>Two-factor enrolment\<close>

definition already_enabled :: app_error where
  "already_enabled = Conflict ''TWO_FACTOR_ALREADY_ENABLED'' ''Two-factor authentication is already enabled''"

definition not_enabled :: app_error where
  "not_enabled = Conflict ''TWO_FACTOR_NOT_ENABLED'' ''Two-factor authentication is not enabled''"

definition totp_enroll :: "('r, 'c) auth_ops \<Rightarrow> request_env \<Rightarrow> claims \<Rightarrow> (('r, 'c) auth_state, response) handler" where
  "totp_enroll ops q c =
     hbind (fetch_creator ops q (cl_sub c)) (\<lambda>row.
     hbind (hresult (if cr_totp_enabled row then Err already_enabled else Ok ())) (\<lambda>_.
     hbind (hstmt (re_stmt q 1)) (\<lambda>_.
     hbind (on_creator (cl_sub c) (\<lambda>x. x\<lparr>cr_totp_secret := Some (re_totp_secret q)\<rparr>)) (\<lambda>_.
     hbind (hget (\<lambda>s. au_creators s (cl_sub c))) (\<lambda>updated.
     hbind (decode_row ops (app_error_from_sqlx SqlxOther) updated) (\<lambda>_.
     hresult (Ok (json_response 200 (JObj
       [(''otpauth_url'', JStr (''otpauth://totp/StellarTipJar:'' @ cr_username row @ ''?secret='' @ re_totp_secret q
           @ ''&issuer=StellarTipJar&digits=6&period=30'')),
        (''secret'', JStr (re_totp_secret q))])))))))))"

text \<open>Hash the eight backup codes; the first failure is the result.\<close>

fun hash_codes :: "crypto_ops \<Rightarrow> (nat \<Rightarrow> string) \<Rightarrow> nat \<Rightarrow> string list \<Rightarrow> app_error + string list" where
  "hash_codes C salt k [] = Ok []"
| "hash_codes C salt k (x # xs) =
     (case hash_password C (salt k) x of
        Inl e \<Rightarrow> Err e
      | Inr h \<Rightarrow> map_sum id (Cons h) (hash_codes C salt (Suc k) xs))"

definition backup_codes_response :: "string list \<Rightarrow> response" where
  "backup_codes_response codes = json_response 200 (JObj [(''backup_codes'', JArr (map JStr codes))])"

definition totp_verify :: "('r, 'c) auth_ops \<Rightarrow> request_env \<Rightarrow> claims \<Rightarrow> string \<Rightarrow> (('r, 'c) auth_state, response) handler" where
  "totp_verify ops q c code =
     hbind (fetch_creator ops q (cl_sub c)) (\<lambda>row.
     hbind (hresult (if cr_totp_enabled row then Err already_enabled
                     else (case cr_totp_secret row of
                             None \<Rightarrow> Err (Unauthorized ''Two-factor setup has not been initiated'')
                           | Some secret \<Rightarrow> validate_totp_code (ao_crypto ops) (int (re_now q)) secret code))) (\<lambda>valid.
     hbind (hresult (if valid then hash_codes (ao_crypto ops) (re_salt q) 0 (re_backup_codes q)
                     else Err (Unauthorized ''Invalid two-factor code''))) (\<lambda>hashes.
     hbind (hstmt (re_stmt q 1)) (\<lambda>_.
     hbind (on_creator (cl_sub c) (\<lambda>x. x\<lparr>cr_totp_enabled := True, cr_backup_code_hashes := hashes\<rparr>)) (\<lambda>_.
     hresult (Ok (backup_codes_response (re_backup_codes q))))))))"

definition totp_disable :: "('r, 'c) auth_ops \<Rightarrow> request_env \<Rightarrow> claims \<Rightarrow> string \<Rightarrow> (('r, 'c) auth_state, response) handler" where
  "totp_disable ops q c password =
     hbind (fetch_creator ops q (cl_sub c)) (\<lambda>row.
     hbind (hresult (if cr_totp_enabled row then Ok () else Err not_enabled)) (\<lambda>_.
     hbind (check_password ops ''Invalid password'' password row) (\<lambda>_.
     hbind (hstmt (re_stmt q 1)) (\<lambda>_.
     hbind (on_creator (cl_sub c) (\<lambda>x. x\<lparr>cr_totp_enabled := False, cr_totp_secret := None, cr_backup_code_hashes := []\<rparr>)) (\<lambda>_.
     hresult (Ok (status_only 200)))))))"

definition regenerate_backup_codes :: "('r, 'c) auth_ops \<Rightarrow> request_env \<Rightarrow> claims \<Rightarrow> (('r, 'c) auth_state, response) handler" where
  "regenerate_backup_codes ops q c =
     hbind (fetch_creator ops q (cl_sub c)) (\<lambda>row.
     hbind (hresult (if cr_totp_enabled row then hash_codes (ao_crypto ops) (re_salt q) 0 (re_backup_codes q)
                     else Err not_enabled)) (\<lambda>hashes.
     hbind (hstmt (re_stmt q 1)) (\<lambda>_.
     hbind (on_creator (cl_sub c) (\<lambda>x. x\<lparr>cr_backup_code_hashes := hashes\<rparr>)) (\<lambda>_.
     hresult (Ok (backup_codes_response (re_backup_codes q)))))))"

section \<open>Requests\<close>

datatype auth_req =
    RegisterReq headers string string string
  | LoginReq headers string string "string option" "string option"
  | RecoverReq headers string string string
  | RefreshReq string
  | LogoutReq claims "string option"
  | ChangePasswordReq claims string string
  | RevokeSessionReq claims string
  | RevokeAllReq claims
  | EnrollReq claims
  | VerifyReq claims string
  | DisableReq claims string
  | RegenerateReq claims

fun serve_auth :: "('r, 'c) auth_ops \<Rightarrow> request_env \<Rightarrow> auth_req \<Rightarrow> (('r, 'c) auth_state, response) handler" where
  "serve_auth ops q (RegisterReq hs u w p) = register ops q hs u w p"
| "serve_auth ops q (LoginReq hs u p t b) = login ops q hs u p t b"
| "serve_auth ops q (RecoverReq hs u p b) = recover ops q hs u p b"
| "serve_auth ops q (RefreshReq t) = refresh ops q t"
| "serve_auth ops q (LogoutReq c t) = logout ops q c t"
| "serve_auth ops q (ChangePasswordReq c p n) = change_password ops q c p n"
| "serve_auth ops q (RevokeSessionReq c f) = revoke_session q c f"
| "serve_auth ops q (RevokeAllReq c) = revoke_all_sessions ops q c"
| "serve_auth ops q (EnrollReq c) = totp_enroll ops q c"
| "serve_auth ops q (VerifyReq c code) = totp_verify ops q c code"
| "serve_auth ops q (DisableReq c p) = totp_disable ops q c p"
| "serve_auth ops q (RegenerateReq c) = regenerate_backup_codes ops q c"

text \<open>Requests one after the other, each in its own environment.\<close>

definition auth_run :: "('r, 'c) auth_ops \<Rightarrow> (request_env \<times> auth_req) list \<Rightarrow> ('r, 'c) auth_state \<Rightarrow> ('r, 'c) auth_state" where
  "auth_run ops = fold (\<lambda>(q, req) s. snd (serve_auth ops q req s))"

section \<open>Weakest preconditions of handlers\<close>

text \<open>\<open>hwp m Q E s\<close>: run in \<open>s\<close>, the handler ends in \<open>Q\<close> with its value, or in \<open>E\<close> with its error (none
  for a panic).\<close>

definition hwp :: "('s, 'a) handler \<Rightarrow> ('a \<Rightarrow> 's \<Rightarrow> bool) \<Rightarrow> (app_error option \<Rightarrow> 's \<Rightarrow> bool) \<Rightarrow> 's \<Rightarrow> bool" where
  "hwp m Q E s =
     (case m s of (Some (Inr x), s') \<Rightarrow> Q x s' | (Some (Inl e), s') \<Rightarrow> E (Some e) s' | (None, s') \<Rightarrow> E None s')"

lemma hwp_bind: "hwp (hbind m f) Q E s \<longleftrightarrow> hwp m (\<lambda>x. hwp (f x) Q E) E s"
  by (auto simp: hwp_def hbind_def split: prod.splits option.splits sum.splits)

lemma hwp_basic:
  "hwp (hresult r) Q E s \<longleftrightarrow> (case r of Inr x \<Rightarrow> Q x s | Inl e \<Rightarrow> E (Some e) s)"
  "hwp (hpanic p) Q E s \<longleftrightarrow> (case p of None \<Rightarrow> E None s | Some r \<Rightarrow> hwp (hresult r) Q E s)"
  "hwp (hget f) Q E s \<longleftrightarrow> Q (f s) s"
  "hwp (hput g) R E s \<longleftrightarrow> R () (g s)"
  "hwp (hstmt e) R E s \<longleftrightarrow> (case e of None \<Rightarrow> R () s | Some x \<Rightarrow> E (Some (app_error_from_sqlx x)) s)"
  by (auto simp: hwp_def handler_defs split: option.splits sum.splits)

lemma hwp_state:
  "hwp (on_families g) Q E s \<longleftrightarrow>
     (case g (au_families s) of (Inr x, m) \<Rightarrow> Q x (s\<lparr>au_families := m\<rparr>) | (Inl e, m) \<Rightarrow> E (Some e) (s\<lparr>au_families := m\<rparr>))"
  "hwp (on_revoked h) R E s \<longleftrightarrow> R () (s\<lparr>au_revoked := h (au_revoked s)\<rparr>)"
  "hwp (on_creator u k) R E s \<longleftrightarrow> R () (s\<lparr>au_creators := (au_creators s)(u := map_option k (au_creators s u))\<rparr>)"
  by (auto simp: hwp_def on_families_def on_revoked_def on_creator_def handler_defs Let_def split: prod.splits sum.splits)

lemma hwp_decode:
  "hwp (decode_row ops e row) Q E s \<longleftrightarrow>
     (case row of
        None \<Rightarrow> E (Some e) s
      | Some c \<Rightarrow>
          (case ao_column ops (cr_password_hash c) of
             None \<Rightarrow> E None s
           | Some (Inl x) \<Rightarrow> E (Some (app_error_from_sqlx x)) s
           | Some (Inr h) \<Rightarrow> Q (c\<lparr>cr_password_hash := h\<rparr>) s))"
  by (auto simp: decode_row_def hwp_basic split: option.splits sum.splits)

lemmas hwp_simps = hwp_bind hwp_basic hwp_state hwp_decode

lemma decode_row_Ok:
  "decode_row ops e row s = (Some (Ok c'), s') \<longleftrightarrow>
     s' = s \<and> (\<exists>c h. row = Some c \<and> ao_column ops (cr_password_hash c) = Some (Ok h) \<and> c' = c\<lparr>cr_password_hash := h\<rparr>)"
proof (cases row)
  case (Some c)
  then show ?thesis
    by (cases "ao_column ops (cr_password_hash c)"; cases "the (ao_column ops (cr_password_hash c))")
      (auto simp: decode_row_def hpanic_def)
qed (simp add: decode_row_def hresult_def)

text \<open>Nothing after the password check depends on the password column.\<close>

lemma second_factor_password [simp]:
  "second_factor ops q t b (c\<lparr>cr_password_hash := h\<rparr>) = second_factor ops q t b c"
proof -
  have same: "cr_username (c\<lparr>cr_password_hash := h\<rparr>) = cr_username c" "cr_totp_secret (c\<lparr>cr_password_hash := h\<rparr>) = cr_totp_secret c"
    "cr_backup_code_hashes (c\<lparr>cr_password_hash := h\<rparr>) = cr_backup_code_hashes c" by simp_all
  show ?thesis unfolding second_factor_def consume_backup_code_def same ..
qed

lemma hwp_snd: "hwp m (\<lambda>_. P) (\<lambda>_. P) s \<longleftrightarrow> P (snd (m s))"
  by (auto simp: hwp_def split: prod.splits option.splits sum.splits)

lemma hwp_ok: "hwp m Q (\<lambda>_ _. True) s \<Longrightarrow> m s = (Some (Ok x), s') \<Longrightarrow> Q x s'"
  by (simp add: hwp_def)

lemma hwp_mono: "hwp m Q E s \<Longrightarrow> (\<And>x s. Q x s \<Longrightarrow> Q' x s) \<Longrightarrow> (\<And>e s. E e s \<Longrightarrow> E' e s) \<Longrightarrow> hwp m Q' E' s"
  by (auto simp: hwp_def split: prod.splits option.splits sum.splits)

text \<open>A handler that keeps a property of the state, however it ends.\<close>

definition keeps :: "('s \<Rightarrow> bool) \<Rightarrow> ('s, 'a) handler \<Rightarrow> bool" where
  "keeps I m \<longleftrightarrow> (\<forall>s. I s \<longrightarrow> hwp m (\<lambda>_. I) (\<lambda>_. I) s)"

named_theorems keeps \<open>handlers keep what their parts keep\<close>

lemma keeps_bind [keeps]: "keeps I m \<Longrightarrow> (\<And>x. keeps I (f x)) \<Longrightarrow> keeps I (hbind m f)"
  unfolding keeps_def hwp_bind by (blast intro: hwp_mono)

lemma keeps_basic [keeps]:
  "keeps I (hresult r)" "keeps I (hpanic p)" "keeps I (hget f)" "keeps I (hstmt e)"
  by (auto simp: keeps_def hwp_basic split: option.splits sum.splits)

lemma keeps_decode [keeps]: "keeps I (decode_row ops e row)"
  by (auto simp: keeps_def hwp_decode split: option.splits sum.splits)

lemma keeps_cases [keeps]:
  "(P \<Longrightarrow> keeps I m) \<Longrightarrow> (\<not> P \<Longrightarrow> keeps I m') \<Longrightarrow> keeps I (if P then m else m')"
  "(y = None \<Longrightarrow> keeps I m) \<Longrightarrow> (\<And>x. y = Some x \<Longrightarrow> keeps I (g x)) \<Longrightarrow> keeps I (case y of None \<Rightarrow> m | Some x \<Rightarrow> g x)"
  by (auto split: option.splits)

lemma keepsD: "keeps I m \<Longrightarrow> I s \<Longrightarrow> I (snd (m s))"
  by (simp add: keeps_def hwp_snd)

section \<open>The accounts\<close>

text \<open>Every row is at its username, and two-factor authentication is on only with a secret.\<close>

definition accounts_ok :: "(string \<rightharpoonup> creator) \<Rightarrow> bool" where
  "accounts_ok m \<longleftrightarrow> (\<forall>u c. m u = Some c \<longrightarrow> cr_username c = u \<and> (cr_totp_enabled c \<longrightarrow> cr_totp_secret c \<noteq> None))"

lemma accounts_ok_update [simp]:
  "accounts_ok m \<Longrightarrow> accounts_ok (m(u := x)) \<longleftrightarrow>
     (\<forall>c. x = Some c \<longrightarrow> cr_username c = u \<and> (cr_totp_enabled c \<longrightarrow> cr_totp_secret c \<noteq> None))"
  by (auto simp: accounts_ok_def)

lemma accounts_okD:
  assumes "accounts_ok m" and "m u = Some c"
  shows "cr_username c = u" and "cr_totp_enabled c \<Longrightarrow> cr_totp_secret c \<noteq> None"
  using assms by (auto simp: accounts_ok_def)

lemma keeps_accounts_families [keeps]: "keeps (\<lambda>s. P (au_creators s)) (on_families g)"
  by (auto simp: keeps_def hwp_state split: prod.splits sum.splits)

lemma keeps_accounts_revoked [keeps]: "keeps (\<lambda>s. P (au_creators s)) (on_revoked g)"
  by (simp add: keeps_def hwp_state)

text \<open>Updates that leave the name alone and do not enable the second factor.\<close>

lemma keeps_accounts_update:
  assumes "\<And>c. cr_username (f c) = cr_username c"
    and "\<And>c. cr_totp_enabled (f c) \<Longrightarrow> cr_totp_enabled c \<and> (cr_totp_secret c \<noteq> None \<longrightarrow> cr_totp_secret (f c) \<noteq> None)"
  shows "keeps (\<lambda>s. accounts_ok (au_creators s)) (on_creator u f)"
  unfolding keeps_def hwp_state
proof (intro allI impI)
  fix s :: "('a, 'b) auth_state"
  assume "accounts_ok (au_creators s)"
  moreover from this have "cr_username (f c) = u" "cr_totp_enabled (f c) \<Longrightarrow> cr_totp_secret (f c) \<noteq> None"
    if "au_creators s u = Some c" for c using assms accounts_okD that by blast+
  ultimately show "accounts_ok (au_creators (s\<lparr>au_creators := (au_creators s)(u := map_option f (au_creators s u))\<rparr>))"
    by auto
qed

lemma serve_keeps_accounts: "keeps (\<lambda>s. accounts_ok (au_creators s)) (serve_auth ops q req)"
proof -
  let ?I = "\<lambda>s. accounts_ok (au_creators s)"
  have session: "keeps ?I (issue_new_session ops q hs st u role)" for hs st u role
    unfolding issue_new_session_def by (intro keeps)
  have find: "keeps ?I (find_creator ops q u)" "keeps ?I (fetch_creator ops q u)" "keeps ?I (check_password ops m p c)" for u m p c
    unfolding find_creator_def fetch_creator_def check_password_def by (intro keeps)+
  have use: "keeps ?I (consume_backup_code q c i)" for c i
    unfolding consume_backup_code_def by (intro keeps keeps_accounts_update) auto
  have second: "keeps ?I (second_factor ops q t b c)" for t b c
    unfolding second_factor_def by (intro keeps use)
  have logout: "keeps ?I (logout ops q c t)" for c t
    unfolding logout_def by (intro keeps) (auto simp: keeps_def hwp_basic split: option.splits)
  have verify: "keeps ?I (totp_verify ops q c code)" for c code
    unfolding totp_verify_def keeps_def fetch_creator_def
    by (auto simp: hwp_simps accounts_okD split: option.splits sum.splits if_splits)
  have register: "keeps ?I (register ops q hs u w p)" for hs u w p
    unfolding register_def by (intro keeps session) (simp add: keeps_def hwp_basic)
  note rules = keeps keeps_accounts_update session find use second
  show ?thesis
    by (cases req) (auto simp: login_def recover_def refresh_def change_password_def revoke_session_def
        revoke_all_sessions_def totp_enroll_def totp_disable_def regenerate_backup_codes_def
        intro!: rules logout verify register split: option.splits)
qed

text \<open>\<^bold>\<open>C17.\<close> The account table stays well formed: through any sequence of requests, failing statements and
  panics included, every account stays at its username and two-factor authentication is on only for an
  account that has a secret.\<close>

theorem accounts_well_formed:
  assumes "accounts_ok (au_creators s)"
  shows "accounts_ok (au_creators (auth_run ops xs s))"
  using assms unfolding auth_run_def
  by (induction xs arbitrary: s) (auto simp: keepsD [OF serve_keeps_accounts])

section \<open>The sessions\<close>

lemma keeps_families_others [keeps]:
  "keeps (\<lambda>s. P (au_families s)) (on_revoked g)" "keeps (\<lambda>s. P (au_families s)) (on_creator u f)"
  by (simp_all add: keeps_def hwp_state)

lemma keeps_families_op:
  "(\<And>m. P m \<Longrightarrow> P (snd (g m))) \<Longrightarrow> keeps (\<lambda>s. P (au_families s)) (on_families g)"
  by (auto simp: keeps_def hwp_state split: prod.splits sum.splits) (metis snd_conv)+

lemma families_dom:
  "dom (snd (create_family e i now u jti ua ip m)) \<subseteq> insert i (dom m)"
  "dom (snd (rotate_or_detect_reuse e now i presented jti m)) = dom m"
  "dom (snd (revoke_family e i reason m)) = dom m"
  "dom (snd (revoke_all_for_user e u reason m)) = dom m"
  by (auto simp: create_family_def rotate_or_detect_reuse_def revoke_family_def revoke_all_for_user_def Let_def
      split: option.splits rotation_outcome.splits)

text \<open>Rows are only ever inserted under the id that \<open>create_family\<close> draws.\<close>

lemma serve_families_dom:
  assumes "re_uuid q 3 \<in> A"
  shows "keeps (\<lambda>s. dom (au_families s) \<subseteq> A) (serve_auth ops q req)"
proof -
  let ?I = "\<lambda>s. dom (au_families s) \<subseteq> A"
  have session: "keeps ?I (issue_new_session ops q hs st u role)" for hs st u role
    unfolding issue_new_session_def using families_dom(1) assms by (intro keeps keeps_families_op) blast
  have find: "keeps ?I (find_creator ops q u)" "keeps ?I (fetch_creator ops q u)" "keeps ?I (check_password ops m p c)" for u m p c
    unfolding find_creator_def fetch_creator_def check_password_def by (intro keeps)+
  have use: "keeps ?I (consume_backup_code q c i)" for c i
    unfolding consume_backup_code_def by (intro keeps)
  have second: "keeps ?I (second_factor ops q t b c)" for t b c
    unfolding second_factor_def by (intro keeps use)
  have logout: "keeps ?I (logout ops q c t)" for c t
    unfolding logout_def by (intro keeps) (auto simp: keeps_def hwp_basic families_dom split: option.splits)
  have register: "keeps ?I (register ops q hs u w p)" for hs u w p
    unfolding register_def by (intro keeps session) (simp add: keeps_def hwp_basic)
  have "keeps ?I (on_families (rotate_or_detect_reuse e now i p j))" "keeps ?I (on_families (revoke_family e i reason))"
    "keeps ?I (on_families (revoke_all_for_user e u reason))" for e now i p j reason u
    by (intro keeps_families_op; simp add: families_dom)+
  note rules = keeps session find use second this
  show ?thesis
    by (cases req) (auto simp: login_def recover_def refresh_def change_password_def revoke_session_def
        revoke_all_sessions_def totp_enroll_def totp_disable_def totp_verify_def regenerate_backup_codes_def
        intro!: rules logout register split: option.splits)
qed

lemma auth_run_families_dom:
  "dom (au_families (auth_run ops xs s)) \<subseteq> dom (au_families s) \<union> (\<lambda>(q, req). re_uuid q 3) ` set xs"
proof (induction xs arbitrary: s)
  case (Cons x xs)
  obtain q req where x: "x = (q, req)" by (cases x)
  let ?A = "insert (re_uuid q 3) (dom (au_families s))"
  have "dom (au_families (snd (serve_auth ops q req s))) \<subseteq> ?A"
    using keepsD [OF serve_families_dom [of q ?A ops req], of s] by blast
  moreover have "auth_run ops (x # xs) s = auth_run ops xs (snd (serve_auth ops q req s))"
    by (simp add: auth_run_def x)
  ultimately show ?case using Cons [of "snd (serve_auth ops q req s)"] by (simp add: x) blast
qed (simp add: auth_run_def)

lemma hbind_Ok:
  "hbind m f s = (Some (Ok y), s') \<longleftrightarrow> (\<exists>x s1. m s = (Some (Ok x), s1) \<and> f x s1 = (Some (Ok y), s'))"
  by (auto simp: hbind_def split: prod.splits option.splits sum.splits)

lemma auth_response_inj [simp]: "auth_response st a r = auth_response st' a' r' \<longleftrightarrow> st = st' \<and> a = a' \<and> r = r'"
  by (auto simp: auth_response_def json_response_def)

text \<open>What a new session is made of.\<close>

lemma new_sessionE:
  assumes "issue_new_session ops q hs st u role s = (Some (Ok resp), s')"
  obtains tv it where
    "issue_tokens (ao_jwt ops) (re_vars q) (re_now q) (re_uuid q 1) (re_uuid q 2) u role (re_uuid q 0) tv = Some (Ok it)"
    "resp = auth_response st (it_access_token it) (it_refresh_token it)"
    "create_family (re_stmt q 9) (re_uuid q 3) (int (re_now q)) u (it_refresh_jti it) (user_agent hs) (client_ip hs)
       (au_families s) = (Ok (re_uuid q 3), au_families s')"
    "au_creators s' = au_creators s" "au_revoked s' = au_revoked s"
  using assms
  by (auto simp: issue_new_session_def hbind_Ok hget_def hpanic_def hresult_def on_families_def Let_def
      create_family_def split: prod.splits option.splits)

lemma new_session_family:
  assumes "issue_new_session ops q hs st u role s = (Some (Ok resp), s')"
  shows "\<exists>f. au_families s' = (au_families s)(re_uuid q 3 \<mapsto> f) \<and> fam_username f = u \<and> \<not> fam_revoked f"
    and "au_creators s' = au_creators s"
  using assms
  by (auto simp: issue_new_session_def hbind_Ok hget_def hpanic_def hresult_def on_families_def Let_def
      create_family_def split: prod.splits option.splits if_splits)

lemma issue_keyset:
  "issue_tokens J env now aj rj u role fam tv = Some (Ok it) \<Longrightarrow> \<exists>keys. load_keyset env = Some (Ok keys)"
  by (auto simp: issue_tokens_def split: option.splits sum.splits)

text \<open>A successful login checked the password and the second factor, and then made a session.\<close>

lemma loginE:
  assumes "login ops q hs u p t b s = (Some (Ok resp), s1)"
  obtains c h s0 where "au_creators s u = Some c" "ao_column ops (cr_password_hash c) = Some (Ok h)"
    "bcrypt_verify (ao_crypto ops) p h = Some True"
    "if cr_totp_enabled c then second_factor ops q t b c s = (Some (Ok ()), s0) else s0 = s"
    "issue_new_session ops q hs 200 (cr_username c) ''creator'' s0 = (Some (Ok resp), s1)"
  using assms
  by (auto simp: login_def find_creator_def check_password_def hbind_Ok decode_row_Ok hresult_def hget_def hstmt_def verify_password_def
      split: option.splits if_splits)

lemma second_factorE:
  assumes "second_factor ops q t b c s = (Some (Ok ()), s0)"
  obtains code secret where "t = Some code" "cr_totp_secret c = Some secret"
      "validate_totp_code (ao_crypto ops) (int (re_now q)) secret code = Ok True" "s0 = s"
  | code idx where "b = Some code" "verify_backup_code (ao_crypto ops) code (cr_backup_code_hashes c) = Ok (Some idx)"
      "consume_backup_code q c idx s = (Some (Ok ()), s0)"
  using assms
  by (auto simp: second_factor_def hbind_Ok hresult_def split: option.splits if_splits)

lemma session_of_login:
  assumes "login ops q hs u p t b s = (Some (Ok resp), s1)"
  shows "\<exists>(c :: creator) s0. issue_new_session ops q hs 200 (cr_username c) ''creator'' s0 = (Some (Ok resp), s1)
    \<and> au_families s0 = au_families s"
proof -
  have "keeps (\<lambda>s'. au_families s' = au_families s) (second_factor ops q t b c)" for c
    unfolding second_factor_def consume_backup_code_def by (intro keeps)
  note keep = keepsD [OF this]
  obtain c h s0 where c: "if cr_totp_enabled c then second_factor ops q t b c s = (Some (Ok ()), s0) else s0 = s"
    and session: "issue_new_session ops q hs 200 (cr_username c) ''creator'' s0 = (Some (Ok resp), s1)"
    using assms by (rule loginE)
  have "au_families s0 = au_families s" using keep [of s c] c by (auto split: if_splits)
  with session show ?thesis by blast
qed

lemma hwp_errI: "hwp m (\<lambda>_ _. False) (\<lambda>e s'. e \<noteq> None \<and> s' = s) s \<Longrightarrow> \<exists>e. m s = (Some (Err e), s)"
  by (auto simp: hwp_def split: prod.splits option.splits sum.splits)

lemma rotate_unknown:
  "m i = None \<Longrightarrow> rotate_or_detect_reuse e now i p j m =
     (case e of Some x \<Rightarrow> Err (app_error_from_sqlx x) | None \<Rightarrow> Ok FamilyNotFound, m)"
  by (simp add: rotate_or_detect_reuse_def split: option.splits)

lemma issue_no_panic:
  "load_keyset env = Some (Ok keys) \<Longrightarrow> issue_tokens J env now aj rj u role fam tv \<noteq> None"
  by (simp add: issue_tokens_def)

lemma refresh_of_unknown_family:
  assumes "validate_token (ao_jwt ops) (re_vars q) (re_now q) token ''refresh'' = Some r"
    and "\<And>c f. r = Ok c \<Longrightarrow> family_of ops c = Some f \<Longrightarrow> au_families s f = None"
    and "load_keyset (re_vars q) = Some (Ok keys)"
  shows "\<exists>e. refresh ops q token s = (Some (Err e), s)"
proof (rule hwp_errI)
  note no_panic = issue_no_panic [OF assms(3)]
  show "hwp (refresh ops q token) (\<lambda>_ _. False) (\<lambda>e s'. e \<noteq> None \<and> s' = s) s"
  proof (cases r)
    case (Inr c)
    show ?thesis
    proof (cases "family_of ops c")
      case (Some f)
      then show ?thesis using assms(1) Inr rotate_unknown [of "au_families s" f, OF assms(2) [OF Inr Some]]
        by (auto simp: refresh_def hwp_simps no_panic split: sum.splits option.splits)
    qed (simp add: refresh_def hwp_simps assms(1) Inr)
  qed (simp add: refresh_def hwp_simps assms(1))
qed

text \<open>\<^bold>\<open>C38.\<close> No session can be refreshed: the refresh token a login hands out names one fresh UUID as its
  family while the row of the family is stored under another, so whatever requests are served in
  between, and at any time, refreshing with that token fails and changes nothing.\<close>

theorem login_never_refreshes:
  assumes "jwt_library (ao_jwt ops)"
    and "login ops q hs u p t b s = (Some (Ok (auth_response 200 access token)), s1)"
    and "\<forall>(q', req) \<in> set xs. re_uuid q' 3 \<noteq> re_uuid q 0"
    and "re_uuid q 0 \<noteq> re_uuid q 3" and "au_families s (re_uuid q 0) = None"
    and "ao_parse_uuid ops (re_uuid q 0) = Some (re_uuid q 0)" and "re_vars q' = re_vars q"
  shows "\<exists>e. refresh ops q' token (auth_run ops xs s1) = (Some (Err e), auth_run ops xs s1)"
proof -
  obtain c :: creator and s0 where session: "issue_new_session ops q hs 200 (cr_username c) ''creator'' s0
      = (Some (Ok (auth_response 200 access token)), s1)" and "au_families s0 = au_families s"
    using assms(2) session_of_login by blast
  from session obtain tv it where
    it: "issue_tokens (ao_jwt ops) (re_vars q) (re_now q) (re_uuid q 1) (re_uuid q 2) (cr_username c) ''creator'' (re_uuid q 0) tv
        = Some (Ok it)" "token = it_refresh_token it"
    and fam: "create_family (re_stmt q 9) (re_uuid q 3) (int (re_now q)) (cr_username c) (it_refresh_jti it) (user_agent hs)
       (client_ip hs) (au_families s) = (Ok (re_uuid q 3), au_families s1)"
    by (rule new_sessionE) (use \<open>au_families s0 = au_families s\<close> in auto)
  obtain keys where keys: "load_keyset (re_vars q) = Some (Ok keys)" using issue_keyset [OF it(1)] by blast
  have "au_families s1 (re_uuid q 0) = None"
  proof -
    have "dom (au_families s1) \<subseteq> insert (re_uuid q 3) (dom (au_families s))"
      using families_dom(1) [of "re_stmt q 9" "re_uuid q 3" "int (re_now q)" "cr_username c" "it_refresh_jti it"
          "user_agent hs" "client_ip hs" "au_families s"] unfolding fam by simp
    then show ?thesis using assms(4,5) by (auto simp: domIff)
  qed
  then have unknown: "au_families (auth_run ops xs s1) (re_uuid q 0) = None"
    using auth_run_families_dom [of ops xs s1] assms(3) by (fastforce simp: domIff subset_iff image_iff)
  show ?thesis
  proof (rule refresh_of_unknown_family)
    show "load_keyset (re_vars q') = Some (Ok keys)" using keys assms(7) by simp
    show "validate_token (ao_jwt ops) (re_vars q') (re_now q') token ''refresh'' =
        Some (verdict (re_now q') ''refresh'' (refresh_claims (re_vars q) (re_now q) (re_uuid q 2) (cr_username c) ''creator''
          (re_uuid q 0) tv))"
      using jwt_library.validate_issued(2) [OF assms(1) it(1) keys keys] it(2) assms(7) by simp
    fix c' f
    assume "verdict (re_now q') ''refresh'' (refresh_claims (re_vars q) (re_now q) (re_uuid q 2) (cr_username c) ''creator''
          (re_uuid q 0) tv) = Ok c'" "family_of ops c' = Some f"
    then have "f = re_uuid q 0" using assms(6) by (auto simp: verdict_def family_of_def refresh_claims_def split: if_splits)
    with unknown show "au_families (auth_run ops xs s1) f = None" by simp
  qed
qed

text \<open>One account, and the environment of a request.\<close>

definition demo_auth_ops :: "(string keyspace, string \<rightharpoonup> int) auth_ops" where
  "demo_auth_ops = \<lparr>ao_jwt = table_jwt demo_tokens, ao_redis = keyspace_ops, ao_epochs = map_counter,
     ao_crypto = demo_crypto, ao_parse_uuid = Some, ao_column = decode_column open_box demo_manager\<rparr>"

definition demo_hash :: string where
  "demo_hash = enc_payload open_box ''current'' zero_nonce (blank_key @ zero_nonce @ ''pw'')"

lemma demo_column [simp]: "decode_column open_box demo_manager demo_hash = Some (Ok ''pw'')"
proof -
  have "aes_encrypt open_box blank_key zero_nonce ''pw'' = Some (blank_key @ zero_nonce @ ''pw'')"
    "enc_utf8 open_box ''pw''" "em_keys demo_manager ''current'' = Some blank_key"
    by (simp_all add: open_box_def demo_manager_def)
  with box.decrypt_payload [OF demo_lengths(2,1) this(1) _ this(3) demo_lengths(2)] show ?thesis
    by (simp add: decode_column_def demo_hash_def)
qed

definition demo_env :: "int \<Rightarrow> request_env" where
  "demo_env t = \<lparr>re_vars = demo_vars, re_now_ms = t, re_has_redis = True, re_stmt = (\<lambda>_. None), re_cmd = (\<lambda>_. False),
     re_uuid = (\<lambda>n. [''fam'', ''ja'', ''jr'', ''row'', ''id''] ! n), re_salt = (\<lambda>_. []), re_totp_secret = ''s'',
     re_backup_codes = [''b1'', ''b2'']\<rparr>"

definition demo_account :: "bool \<Rightarrow> creator" where
  "demo_account tfa = \<lparr>cr_id = ''id'', cr_username = ''bob'', cr_wallet_address = ''G'', cr_password_hash = demo_hash,
     cr_totp_secret = Some ''s'', cr_totp_enabled = tfa, cr_backup_code_hashes = [''b1'', ''b2'']\<rparr>"

definition demo_service_state :: "bool \<Rightarrow> (string keyspace, string \<rightharpoonup> int) auth_state" where
  "demo_service_state tfa = \<lparr>au_creators = [''bob'' \<mapsto> demo_account tfa], au_families = Map.empty, au_revoked = no_revocations\<rparr>"

lemma demo_session:
  assumes "au_revoked s = no_revocations" and "au_families s = Map.empty"
  shows "\<exists>s1. issue_new_session demo_auth_ops (demo_env 1000000) Map.empty 200 ''bob'' ''creator'' s
    = (Some (Ok (auth_response 200 ''access'' ''refresh'')), s1) \<and> au_creators s1 = au_creators s"
proof -
  have "token_version demo_auth_ops (demo_env 1000000) ''bob'' s = 0"
    using assms(1) by (simp add: token_version_def demo_env_def demo_auth_ops_def current_epoch_def epoch_of_def
        no_revocations_def map_counter_def)
  moreover have "re_now (demo_env 1000000) = 1000" by (simp add: re_now_def demo_env_def)
  ultimately show ?thesis
    using demo_issue assms(2)
    by (simp add: issue_new_session_def hbind_def hget_def hpanic_def hresult_def on_families_def create_family_def
        demo_env_def demo_auth_ops_def numeral_2_eq_2 numeral_3_eq_3)
qed

lemma demo_login:
  "\<exists>s1. login demo_auth_ops (demo_env 1000000) Map.empty ''bob'' ''pw'' None None (demo_service_state False)
     = (Some (Ok (auth_response 200 ''access'' ''refresh'')), s1)"
  using demo_session [of "demo_service_state False"]
  by (auto simp: login_def find_creator_def check_password_def decode_row_def hpanic_def hbind_def hget_def hresult_def hstmt_def verify_password_def
      demo_service_state_def demo_account_def demo_env_def demo_auth_ops_def demo_crypto_def)

theorem login_never_refreshes_witness:
  "\<exists>s1 e. login demo_auth_ops (demo_env 1000000) Map.empty ''bob'' ''pw'' None None (demo_service_state False)
       = (Some (Ok (auth_response 200 ''access'' ''refresh'')), s1)
     \<and> refresh demo_auth_ops (demo_env 1100000) ''refresh'' s1 = (Some (Err e), s1)"
proof -
  obtain s1 where login: "login demo_auth_ops (demo_env 1000000) Map.empty ''bob'' ''pw'' None None (demo_service_state False)
      = (Some (Ok (auth_response 200 ''access'' ''refresh'')), s1)" using demo_login by blast
  have "jwt_library (ao_jwt demo_auth_ops)" by (simp add: demo_auth_ops_def tj.jwt_library_axioms)
  from login_never_refreshes [OF this login, of "[]" "demo_env 1100000"] show ?thesis
    using login by (simp add: auth_run_def demo_env_def demo_auth_ops_def demo_service_state_def)
qed

theorem accounts_well_formed_witness:
  "accounts_ok (au_creators (auth_run demo_auth_ops
     [(demo_env 1000000, EnrollReq demo_access), (demo_env 1001000, VerifyReq demo_access ''000000''),
      (demo_env 1002000, DisableReq demo_access ''pw'')] (demo_service_state False)))"
  by (rule accounts_well_formed) (simp add: accounts_ok_def demo_service_state_def demo_account_def)

section \<open>Logging in\<close>

text \<open>\<^bold>\<open>C8.\<close> A login succeeds only with every factor: the password matches the hash the stored column decodes to and, when the
  second factor is on, a one-time code is accepted or a backup code matches one of the stored
  hashes, which is then removed. Exactly one session is created, for that account.\<close>

theorem login_needs_every_factor:
  assumes "accounts_ok (au_creators s)" and "login ops q hs u p t b s = (Some (Ok resp), s1)"
  shows "\<exists>c h. au_creators s u = Some c \<and> ao_column ops (cr_password_hash c) = Some (Ok h)
    \<and> bcrypt_verify (ao_crypto ops) p h = Some True
    \<and> (if \<not> cr_totp_enabled c then au_creators s1 = au_creators s
       else (\<exists>code secret. t = Some code \<and> cr_totp_secret c = Some secret \<and> au_creators s1 = au_creators s
               \<and> validate_totp_code (ao_crypto ops) (int (re_now q)) secret code = Ok True)
         \<or> (\<exists>code idx. b = Some code \<and> verify_backup_code (ao_crypto ops) code (cr_backup_code_hashes c) = Ok (Some idx)
               \<and> au_creators s1 = (au_creators s)(u \<mapsto> c\<lparr>cr_backup_code_hashes := remove_nth idx (cr_backup_code_hashes c)\<rparr>)))
    \<and> (\<exists>f. au_families s1 = (au_families s)(re_uuid q 3 \<mapsto> f) \<and> fam_username f = u \<and> \<not> fam_revoked f)"
proof -
  obtain c h s0 where c: "au_creators s u = Some c" "ao_column ops (cr_password_hash c) = Some (Ok h)"
      "bcrypt_verify (ao_crypto ops) p h = Some True"
    and factor: "if cr_totp_enabled c then second_factor ops q t b c s = (Some (Ok ()), s0) else s0 = s"
    and session: "issue_new_session ops q hs 200 (cr_username c) ''creator'' s0 = (Some (Ok resp), s1)"
    using assms(2) by (rule loginE)
  have u: "cr_username c = u" using accounts_okD(1) [OF assms(1) c(1)] .
  note made = new_session_family [OF session, unfolded u]
  show ?thesis
  proof (cases "cr_totp_enabled c")
    case True
    with factor have "second_factor ops q t b c s = (Some (Ok ()), s0)" by simp
    then show ?thesis
    proof (cases rule: second_factorE)
      case (1 code secret)
      then show ?thesis using c made True by auto
    next
      case (2 code idx)
      then have "s0 = s\<lparr>au_creators := (au_creators s)(u \<mapsto> c\<lparr>cr_backup_code_hashes := remove_nth idx (cr_backup_code_hashes c)\<rparr>)\<rparr>"
        using c(1) u by (auto simp: consume_backup_code_def hbind_Ok hstmt_def hresult_def on_creator_def hput_def)
      then show ?thesis using 2 c made True by auto
    qed
  qed (use c made factor in auto)
qed

lemma demo_backup_login:
  "\<exists>s1. login demo_auth_ops (demo_env 1000000) Map.empty ''bob'' ''pw'' None (Some ''b2'') (demo_service_state True)
     = (Some (Ok (auth_response 200 ''access'' ''refresh'')), s1)"
proof -
  let ?s0 = "(demo_service_state True)\<lparr>au_creators := [''bob'' \<mapsto> (demo_account True)\<lparr>cr_backup_code_hashes := [''b1'']\<rparr>]\<rparr>"
  have "\<exists>s1. issue_new_session demo_auth_ops (demo_env 1000000) Map.empty 200 ''bob'' ''creator'' ?s0
    = (Some (Ok (auth_response 200 ''access'' ''refresh'')), s1)"
    using demo_session [of ?s0] by (auto simp: demo_service_state_def)
  then show ?thesis
    by (auto simp: login_def find_creator_def check_password_def second_factor_def consume_backup_code_def decode_row_def hpanic_def
        hbind_def hget_def hresult_def hstmt_def hput_def on_creator_def verify_password_def remove_nth_def
        demo_service_state_def demo_account_def demo_env_def demo_auth_ops_def demo_crypto_def)
qed

lemma demo_accounts_ok: "accounts_ok (au_creators (demo_service_state tfa))"
  by (simp add: accounts_ok_def demo_service_state_def demo_account_def)

theorem login_needs_every_factor_witness:
  "\<exists>s1 c. login demo_auth_ops (demo_env 1000000) Map.empty ''bob'' ''pw'' None (Some ''b2'') (demo_service_state True)
       = (Some (Ok (auth_response 200 ''access'' ''refresh'')), s1)
     \<and> au_creators s1 ''bob'' = Some c \<and> cr_backup_code_hashes c = [''b1'']"
proof -
  obtain s1 where l: "login demo_auth_ops (demo_env 1000000) Map.empty ''bob'' ''pw'' None (Some ''b2'') (demo_service_state True)
     = (Some (Ok (auth_response 200 ''access'' ''refresh'')), s1)" using demo_backup_login by blast
  from login_needs_every_factor [OF demo_accounts_ok l]
  have "\<exists>c. au_creators s1 ''bob'' = Some c \<and> cr_backup_code_hashes c = [''b1'']"
    by (auto simp: demo_service_state_def demo_account_def demo_auth_ops_def demo_crypto_def remove_nth_def)
  with l show ?thesis by blast
qed

lemma login_backup:
  assumes "accounts_ok (au_creators s)" and "au_creators s u = Some c" and "cr_totp_enabled c"
    and "login ops q hs u p None (Some code) s = (Some (Ok resp), s1)"
  shows "\<exists>idx. verify_backup_code (ao_crypto ops) code (cr_backup_code_hashes c) = Ok (Some idx)
    \<and> au_creators s1 = (au_creators s)(u \<mapsto> c\<lparr>cr_backup_code_hashes := remove_nth idx (cr_backup_code_hashes c)\<rparr>)"
  using assms(4)
proof (rule loginE)
  fix c' h s0
  assume "au_creators s u = Some c'"
    "if cr_totp_enabled c' then second_factor ops q None (Some code) c' s = (Some (Ok ()), s0) else s0 = s"
    and session: "issue_new_session ops q hs 200 (cr_username c') ''creator'' s0 = (Some (Ok resp), s1)"
  then have "second_factor ops q None (Some code) c s = (Some (Ok ()), s0)" using assms(2,3) by simp
  then show ?thesis
    using assms(2) accounts_okD(1) [OF assms(1,2)] new_session_family(2) [OF session]
    by (elim second_factorE) (auto simp: consume_backup_code_def hbind_Ok hstmt_def hresult_def on_creator_def hput_def)
qed

lemma verify_backup_code_None:
  "list_all (\<lambda>h. bcrypt_verify C code h = Some False) hs \<Longrightarrow> verify_backup_code C code hs = Ok None"
  by (induction hs) auto

lemma verify_backup_code_match:
  assumes "verify_backup_code C code hs = Ok (Some i)"
  shows "i < length hs \<and> bcrypt_verify C code (hs ! i) = Some True"
  using assms
proof (induction hs arbitrary: i)
  case (Cons h hs)
  then show ?case by (cases i; cases "bcrypt_verify C code h"; cases "verify_backup_code C code hs") (auto split: bool.splits)
qed simp

text \<open>Codes of which each string matches at most one.\<close>

definition codes_distinct :: "crypto_ops \<Rightarrow> string list \<Rightarrow> bool" where
  "codes_distinct C hs \<longleftrightarrow> (\<forall>code i j. i < length hs \<and> j < length hs \<and> bcrypt_verify C code (hs ! i) = Some True \<longrightarrow>
     bcrypt_verify C code (hs ! j) = Some (j = i))"

lemma used_code_is_gone:
  assumes "codes_distinct C hs" and "verify_backup_code C code hs = Ok (Some i)"
  shows "verify_backup_code C code (remove_nth i hs) = Ok None"
proof (rule verify_backup_code_None)
  have i: "i < length hs" "bcrypt_verify C code (hs ! i) = Some True" using verify_backup_code_match [OF assms(2)] by auto
  have "bcrypt_verify C code (hs ! j) = Some (j = i)" if "j < length hs" for j
    using assms(1) i that unfolding codes_distinct_def by blast
  then show "list_all (\<lambda>h. bcrypt_verify C code h = Some False) (remove_nth i hs)"
    using i(1) by (auto simp: remove_nth_def list_all_length nth_append min_def)
qed

text \<open>\<^bold>\<open>C16.\<close> A backup code works once: after a login with it, the next login of that account with the same
  code and no one-time code is refused and creates no session, whatever the password, as long as
  a code matches at most one stored hash.\<close>

theorem backup_code_single_use:
  assumes "accounts_ok (au_creators s)" and "au_creators s u = Some c" and "cr_totp_enabled c"
    and "codes_distinct (ao_crypto ops) (cr_backup_code_hashes c)"
    and "login ops q hs u p None (Some code) s = (Some (Ok resp), s1)"
  shows "\<exists>e. login ops q' hs' u p' None (Some code) s1 = (Some (Err e), s1)"
proof -
  obtain idx where idx: "verify_backup_code (ao_crypto ops) code (cr_backup_code_hashes c) = Ok (Some idx)"
    and s1: "au_creators s1 = (au_creators s)(u \<mapsto> c\<lparr>cr_backup_code_hashes := remove_nth idx (cr_backup_code_hashes c)\<rparr>)"
    using login_backup [OF assms(1-3,5)] by blast
  from assms(5) obtain h where column: "ao_column ops (cr_password_hash c) = Some (Ok h)"
    by (rule loginE) (use assms(2) in auto)
  show ?thesis
    by (rule hwp_errI)
      (auto simp: login_def find_creator_def check_password_def second_factor_def hwp_simps s1 assms(3) column
        used_code_is_gone [OF assms(4) idx] split: option.splits sum.splits if_splits)
qed

theorem backup_code_single_use_witness:
  "\<exists>s1 e. login demo_auth_ops (demo_env 1000000) Map.empty ''bob'' ''pw'' None (Some ''b2'') (demo_service_state True)
       = (Some (Ok (auth_response 200 ''access'' ''refresh'')), s1)
     \<and> login demo_auth_ops (demo_env 2000000) Map.empty ''bob'' ''pw'' None (Some ''b2'') s1 = (Some (Err e), s1)"
proof -
  obtain s1 where l: "login demo_auth_ops (demo_env 1000000) Map.empty ''bob'' ''pw'' None (Some ''b2'') (demo_service_state True)
     = (Some (Ok (auth_response 200 ''access'' ''refresh'')), s1)" using demo_backup_login by blast
  have "au_creators (demo_service_state True) ''bob'' = Some (demo_account True)" "cr_totp_enabled (demo_account True)"
    by (simp_all add: demo_service_state_def demo_account_def)
  moreover have "codes_distinct (ao_crypto demo_auth_ops) (cr_backup_code_hashes (demo_account True))"
    by (auto simp: codes_distinct_def demo_auth_ops_def demo_crypto_def demo_account_def less_Suc_eq)
  ultimately show ?thesis using backup_code_single_use [OF demo_accounts_ok _ _ _ l] l by blast
qed

section \<open>Changing the password\<close>

lemma revoke_all_families:
  assumes "revoke_all_for_user e u reason m = (Ok n, m')" and "m' i = Some f" and "fam_username f = u"
  shows "fam_revoked f"
proof -
  have "m' = (\<lambda>i. map_option (\<lambda>f. if fam_username f = u then revoke reason f else f) (m i))"
    using assms(1) by (auto simp: revoke_all_for_user_def split: option.splits)
  then obtain g where "f = (if fam_username g = u then revoke reason g else g)" using assms(2) by auto
  then show ?thesis using assms(3) by (auto simp: revoke_def split: if_splits)
qed

text \<open>A password change that reports success ends every session: the old password was right, the new
  hash is stored, every refresh-token family of the user is revoked, and, when Redis took the new
  epoch, every access token issued to the user up to then is refused at any time.\<close>

theorem change_password_ends_sessions:
  assumes "epoch_counter (ao_epochs ops)" and "change_password ops q c old_password new_password s = (Some (Ok resp), s1)"
    and "re_has_redis q" and "\<not> re_cmd q 0" and "epoch_of (ao_epochs ops) (cl_sub c) (au_revoked s) < i64_max"
  shows "(\<exists>row old h. au_creators s (cl_sub c) = Some row \<and> ao_column ops (cr_password_hash row) = Some (Ok old)
      \<and> bcrypt_verify (ao_crypto ops) old_password old = Some True
      \<and> bcrypt_hash (ao_crypto ops) (re_salt q 0) new_password = Some h
      \<and> au_creators s1 = (au_creators s)(cl_sub c \<mapsto> row\<lparr>cr_password_hash := h\<rparr>))
    \<and> (\<forall>i f. au_families s1 i = Some f \<and> fam_username f = cl_sub c \<longrightarrow> fam_revoked f)
    \<and> (\<forall>J env t hs token fault c'. header_get hs ''authorization'' = Some (''Bearer '' @ token)
        \<and> validate_token J env (nat (t div 1000)) token ''access'' = Some (Ok c')
        \<and> cl_sub c' = cl_sub c \<and> cl_tv c' \<le> epoch_of (ao_epochs ops) (cl_sub c) (au_revoked s)
        \<longrightarrow> (\<exists>e. authenticate J (ao_redis ops) (ao_epochs ops) env True fault t hs (au_revoked s1) = Some (Err e)))"
proof -
  obtain row old h n m' where row: "au_creators s (cl_sub c) = Some row" "ao_column ops (cr_password_hash row) = Some (Ok old)"
      "bcrypt_verify (ao_crypto ops) old_password old = Some True"
      "bcrypt_hash (ao_crypto ops) (re_salt q 0) new_password = Some h"
    and m': "revoke_all_for_user (re_stmt q 2) (cl_sub c) ''password_change'' (au_families s) = (Ok n, m')"
    and s1: "s1 = s\<lparr>au_creators := (au_creators s)(cl_sub c \<mapsto> row\<lparr>cr_password_hash := h\<rparr>),
      au_revoked := bump_epoch (ao_epochs ops) False (cl_sub c) (au_revoked s), au_families := m'\<rparr>"
    using assms(2-4)
    by (auto simp: change_password_def fetch_creator_def check_password_def hbind_Ok decode_row_Ok hstmt_def hresult_def hget_def on_creator_def
        on_revoked_def on_families_def hput_def hash_password_def verify_password_def
        split: option.splits if_splits prod.splits)
  have "epoch_of (ao_epochs ops) (cl_sub c) (au_revoked s1) = epoch_of (ao_epochs ops) (cl_sub c) (au_revoked s) + 1"
    using epoch_counter.bump_epoch_less [OF assms(1,5)] by (simp add: s1)
  then have "\<exists>e. authenticate J (ao_redis ops) (ao_epochs ops) env True fault t hs (au_revoked s1) = Some (Err e)"
    if "header_get hs ''authorization'' = Some (''Bearer '' @ token)"
      "validate_token J env (nat (t div 1000)) token ''access'' = Some (Ok c')"
      "cl_sub c' = cl_sub c" "cl_tv c' \<le> epoch_of (ao_epochs ops) (cl_sub c) (au_revoked s)" for J env t hs token fault c'
    using that by (intro stale_token_refused [OF _ that(1,2)]) simp
  moreover have "fam_revoked f" if "au_families s1 i = Some f" "fam_username f = cl_sub c" for i f
    using revoke_all_families [OF m'] that by (simp add: s1)
  ultimately show ?thesis using row by (auto simp: s1)
qed

theorem change_password_ends_sessions_witness:
  "\<exists>s1 e. change_password demo_auth_ops (demo_env 1100000) demo_access ''pw'' ''new'' (demo_service_state False)
       = (Some (Ok (status_only 204)), s1)
     \<and> authenticate (table_jwt demo_tokens) keyspace_ops map_counter demo_vars True False 1200000 (bearer ''access'') (au_revoked s1)
       = Some (Err e)"
proof -
  have sub: "cl_sub demo_access = ''bob''" "cl_tv demo_access = 0" by (simp_all add: demo_access_def access_claims_def)
  have e: "epoch_of (ao_epochs demo_auth_ops) ''bob'' (au_revoked (demo_service_state False)) = 0"
    by (simp add: epoch_of_def demo_auth_ops_def demo_service_state_def no_revocations_def map_counter_def)
  obtain s1 where run: "change_password demo_auth_ops (demo_env 1100000) demo_access ''pw'' ''new'' (demo_service_state False)
      = (Some (Ok (status_only 204)), s1)"
    by (simp add: change_password_def fetch_creator_def check_password_def decode_row_def hpanic_def hbind_def hget_def hresult_def hstmt_def hput_def
        on_creator_def on_revoked_def on_families_def verify_password_def hash_password_def revoke_all_for_user_def sub
        demo_service_state_def demo_account_def demo_env_def demo_auth_ops_def demo_crypto_def)
  have k: "epoch_counter (ao_epochs demo_auth_ops)" "ao_redis demo_auth_ops = keyspace_ops" "ao_epochs demo_auth_ops = map_counter"
    by (simp_all add: demo_auth_ops_def mc.epoch_counter_axioms)
  have v: "validate_token (table_jwt demo_tokens) demo_vars (nat (1200000 div 1000)) ''access'' ''access'' = Some (Ok demo_access)"
    unfolding demo_validate demo_verdict by simp
  have env: "re_has_redis (demo_env 1100000)" "\<not> re_cmd (demo_env 1100000) 0" by (simp_all add: demo_env_def)
  have small: "epoch_of (ao_epochs demo_auth_ops) (cl_sub demo_access) (au_revoked (demo_service_state False)) < i64_max"
    unfolding sub e by (simp add: int_ranges)
  have "\<exists>e. authenticate (table_jwt demo_tokens) keyspace_ops map_counter demo_vars True False 1200000 (bearer ''access'') (au_revoked s1)
      = Some (Err e)"
    using change_password_ends_sessions [OF k(1) run env small] bearer_authorization v e sub unfolding k by (metis order_refl)
  with run show ?thesis by blast
qed

section \<open>A registered account cannot be used\<close>

lemma plain_hash_column:
  assumes "starts_with h ''$2''" shows "decode_column E M h = Some (Err SqlxOther)"
proof -
  obtain r where "h = ''$2'' @ r" using assms starts_with_iff by auto
  then show ?thesis by (simp add: decode_column_def decrypt_to_string_def split_payload_def FORMAT_PREFIX_def)
qed

text \<open>Registration stores the row, or changes no account.\<close>

lemma register_stores:
  assumes "register ops q hs u w p s = (r, s1)" and "au_creators s1 \<noteq> au_creators s"
  obtains h where "bcrypt_hash (ao_crypto ops) (re_salt q 0) p = Some h"
    "\<exists>c. au_creators s1 u = Some c \<and> cr_password_hash c = h"
    "\<And>x. ao_column ops h = Some (Err x) \<Longrightarrow> r = Some (Err (app_error_from_sqlx x))"
proof (cases "bcrypt_hash (ao_crypto ops) (re_salt q 0) p")
  case None
  then show ?thesis using assms by (simp add: register_def hash_password_def hbind_def hresult_def)
next
  case (Some h)
  let ?fault = "if au_creators s u \<noteq> None then Some (SqlxDatabase (Some ''23505'') (Some ''creators_username_key'')) else re_stmt q 0"
  let ?row = "\<lparr>cr_id = re_uuid q 4, cr_username = u, cr_wallet_address = w, cr_password_hash = h,
    cr_totp_secret = None, cr_totp_enabled = False, cr_backup_code_hashes = []\<rparr>"
  let ?s = "s\<lparr>au_creators := (au_creators s)(u \<mapsto> ?row)\<rparr>"
  have "?fault = None"
    using assms Some by (auto simp: register_def hash_password_def hbind_def hresult_def hget_def split: option.splits sqlx_error.splits if_splits)
  then have run: "register ops q hs u w p s =
      hbind (decode_row ops (app_error_from_sqlx SqlxOther) (Some ?row)) (\<lambda>c. issue_new_session ops q hs 201 (cr_username c) ''creator'') ?s"
    using Some by (simp add: register_def hash_password_def hbind_def hresult_def hget_def hput_def split: if_splits)
  have "keeps (\<lambda>s'. au_creators s' = au_creators ?s) (hbind (decode_row ops (app_error_from_sqlx SqlxOther) (Some ?row))
      (\<lambda>c. issue_new_session ops q hs 201 (cr_username c) ''creator''))"
    unfolding issue_new_session_def by (intro keeps)
  from keepsD [OF this, of ?s] have "au_creators s1 = au_creators ?s" unfolding run [symmetric] assms(1) by simp
  then have "au_creators s1 u = Some ?row" by simp
  moreover have "r = Some (Err (app_error_from_sqlx x))" if "ao_column ops h = Some (Err x)" for x
    using assms(1) run that by (simp add: decode_row_def hbind_def hpanic_def)
  ultimately show thesis using Some by (intro that) auto
qed

text \<open>Registration fails after it stored the account, and the account cannot log in: the password hash is
  written as it is, but read as an encrypted column, and a bcrypt hash is no encrypted payload. Whatever the password and
  the codes, a login or a recovery of the account ends in a database error.\<close>

theorem registered_account_locked_out:
  assumes "ao_column ops = decode_column E M"
    and "\<And>salt pw h. bcrypt_hash (ao_crypto ops) salt pw = Some h \<Longrightarrow> starts_with h ''$2''"
    and "register ops q hs u w p s = (r, s1)" and "au_creators s1 \<noteq> au_creators s"
  shows "r = Some (Err (app_error_from_sqlx SqlxOther))
    \<and> (re_stmt q' 0 = None \<longrightarrow> login ops q' hs' u p' t b s1 = (Some (Err (app_error_from_sqlx SqlxOther)), s1))"
proof -
  obtain h where h: "bcrypt_hash (ao_crypto ops) (re_salt q 0) p = Some h" "\<exists>c. au_creators s1 u = Some c \<and> cr_password_hash c = h"
    and r: "\<And>x. ao_column ops h = Some (Err x) \<Longrightarrow> r = Some (Err (app_error_from_sqlx x))"
    using assms(3,4) by (rule register_stores) auto
  have col: "ao_column ops h = Some (Err SqlxOther)"
    unfolding assms(1) by (rule plain_hash_column [OF assms(2) [OF h(1)]])
  then have "r = Some (Err (app_error_from_sqlx SqlxOther))" by (rule r)
  moreover have "login ops q' hs' u p' t b s1 = (Some (Err (app_error_from_sqlx SqlxOther)), s1)" if "re_stmt q' 0 = None"
    using h(2) col that by (auto simp: login_def find_creator_def decode_row_def hbind_def hget_def hpanic_def hstmt_def hresult_def)
  ultimately show ?thesis by blast
qed

end
