(* ===== verification/Websocket.thy ===== *)
theory Websocket
  imports Auth_Tokens
begin

text \<open>
  The WebSocket feed (\<open>src/ws.rs\<close>): channels and who may subscribe to them, the upgrade handler, and
  the loop that drives one connection. Each iteration of the loop takes one ready branch of its
  \<open>select!\<close>; the model is a step function on an input, the branch that was taken, with the time and
  whether the socket still accepts frames. A branch that is not ready does nothing. Decoding a
  client frame and printing an event are parameters; gauges and logging are left out.
\<close>

section \<open>Channels\<close>

record tip_event =
  ev_creator_id :: string
  ev_tipper_id :: string
  ev_amount :: nat
  ev_timestamp :: int

datatype channel = PublicChannel | CreatorChannel string

definition channel_parse :: "string \<Rightarrow> channel option" where
  "channel_parse s =
     (if s = ''public'' then Some PublicChannel
      else case strip_prefix ''creator:'' s of
             Some name \<Rightarrow> if name = [] then None else Some (CreatorChannel name)
           | None \<Rightarrow> None)"

fun as_wire :: "channel \<Rightarrow> string" where
  "as_wire PublicChannel = ''public''"
| "as_wire (CreatorChannel name) = ''creator:'' @ name"

fun is_authorized_for :: "channel \<Rightarrow> string option \<Rightarrow> bool" where
  "is_authorized_for PublicChannel identity = True"
| "is_authorized_for (CreatorChannel name) identity \<longleftrightarrow> identity = Some name"

fun channel_matches :: "channel \<Rightarrow> tip_event \<Rightarrow> bool" where
  "channel_matches PublicChannel event = True"
| "channel_matches (CreatorChannel name) event \<longleftrightarrow> name = ev_creator_id event"

definition should_forward :: "channel set \<Rightarrow> tip_event \<Rightarrow> bool" where
  "should_forward subs event \<longleftrightarrow> (\<exists>c \<in> subs. channel_matches c event)"

section \<open>Client operations\<close>

datatype client_op = Subscribe string | Unsubscribe string

datatype op_outcome = Subscribed channel | Unsubscribed channel | AuthRequired | InvalidChannel | InvalidFrame

definition ws_error_frame :: "string \<Rightarrow> json" where
  "ws_error_frame message = JObj [(''message'', JStr message), (''op'', JStr ''error'')]"

fun into_frame :: "op_outcome \<Rightarrow> json" where
  "into_frame (Subscribed c) = JObj [(''channel'', JStr (as_wire c)), (''op'', JStr ''subscribed'')]"
| "into_frame (Unsubscribed c) = JObj [(''channel'', JStr (as_wire c)), (''op'', JStr ''unsubscribed'')]"
| "into_frame AuthRequired = ws_error_frame ''not authorized for this channel''"
| "into_frame InvalidChannel = ws_error_frame ''invalid channel''"
| "into_frame InvalidFrame = ws_error_frame ''invalid frame''"

definition gap_frame :: "nat \<Rightarrow> json" where
  "gap_frame missed = JObj [(''missed'', JNum (int missed)), (''op'', JStr ''gap'')]"

record subscription_state =
  sub_identity :: "string option"
  sub_channels :: "channel set"

definition apply_text :: "(string \<Rightarrow> client_op option) \<Rightarrow> string \<Rightarrow> subscription_state \<Rightarrow> op_outcome \<times> subscription_state" where
  "apply_text parse txt s =
     (case parse txt of
        Some (Subscribe ch) \<Rightarrow>
          (case channel_parse ch of
             Some c \<Rightarrow> if \<not> is_authorized_for c (sub_identity s) then (AuthRequired, s)
                      else (Subscribed c, s\<lparr>sub_channels := insert c (sub_channels s)\<rparr>)
           | None \<Rightarrow> (InvalidChannel, s))
      | Some (Unsubscribe ch) \<Rightarrow>
          (case channel_parse ch of
             Some c \<Rightarrow> (Unsubscribed c, s\<lparr>sub_channels := sub_channels s - {c}\<rparr>)
           | None \<Rightarrow> (InvalidChannel, s))
      | None \<Rightarrow> (InvalidFrame, s))"

section \<open>The connection\<close>

record ws_config =
  ping_interval :: duration
  max_missed_pongs :: nat
  idle_timeout :: duration

definition ws_env :: "env \<Rightarrow> string \<Rightarrow> nat \<Rightarrow> nat \<Rightarrow> nat" where
  "ws_env env name limit dflt =
     (case Option.bind (env name) (parse_unsigned limit) of Some v \<Rightarrow> v | None \<Rightarrow> dflt)"

definition ws_config_from_env :: "env \<Rightarrow> ws_config" where
  "ws_config_from_env env =
     \<lparr>ping_interval = from_secs (ws_env env ''WS_PING_INTERVAL_SECS'' u64_max 30),
      max_missed_pongs = ws_env env ''WS_MAX_MISSED_PONGS'' u32_max 2,
      idle_timeout = from_secs (ws_env env ''WS_IDLE_TIMEOUT_SECS'' u64_max 60)\<rparr>"

text \<open>What the server sends: an event, a control frame, a ping, a pong, a close with its code.\<close>

datatype ws_frame = EventFrame tip_event | TextFrame json | PingFrame | PongFrame string | CloseFrame nat string

record ws_conn =
  wc_subs :: subscription_state
  wc_missed_pongs :: nat
  wc_idle_deadline :: nat
  wc_sent :: "ws_frame list"
  wc_open :: bool

datatype ws_message = TextMessage string | PingMessage string | PongMessage | CloseMessage | BinaryMessage

text \<open>The branches of the loop. \<open>Lagged\<close> and \<open>FeedClosed\<close> are the errors of the broadcast channel; an
  absent message is the end of the stream or an error of the socket.\<close>

datatype ws_input =
    IdleTimer
  | ShutdownSignal
  | PingTick
  | Feed tip_event
  | Lagged nat
  | FeedClosed
  | Incoming "ws_message option"

text \<open>\<open>socket.send(..).await.is_err()\<close> leaves the loop.\<close>

definition ws_send :: "bool \<Rightarrow> ws_frame \<Rightarrow> ws_conn \<Rightarrow> ws_conn" where
  "ws_send ok f c = (if ok then c\<lparr>wc_sent := wc_sent c @ [f]\<rparr> else c\<lparr>wc_open := False\<rparr>)"

text \<open>A close frame is sent if it can be, and the loop is left.\<close>

definition ws_close :: "bool \<Rightarrow> nat \<Rightarrow> string \<Rightarrow> ws_conn \<Rightarrow> ws_conn" where
  "ws_close ok code reason c = (ws_send ok (CloseFrame code reason) c)\<lparr>wc_open := False\<rparr>"

fun on_message :: "(string \<Rightarrow> client_op option) \<Rightarrow> bool \<Rightarrow> ws_message option \<Rightarrow> ws_conn \<Rightarrow> ws_conn" where
  "on_message parse ok (Some (TextMessage txt)) c =
     (let (outcome, subs) = apply_text parse txt (wc_subs c)
      in ws_send ok (TextFrame (into_frame outcome)) (c\<lparr>wc_subs := subs\<rparr>))"
| "on_message parse ok (Some (PingMessage p)) c = ws_send ok (PongFrame p) c"
| "on_message parse ok (Some PongMessage) c = c\<lparr>wc_missed_pongs := 0\<rparr>"
| "on_message parse ok (Some BinaryMessage) c = c"
| "on_message parse ok (Some CloseMessage) c = c\<lparr>wc_open := False\<rparr>"
| "on_message parse ok None c = c\<lparr>wc_open := False\<rparr>"

fun ws_branch :: "ws_config \<Rightarrow> (string \<Rightarrow> client_op option) \<Rightarrow> nat \<Rightarrow> bool \<Rightarrow> ws_input \<Rightarrow> ws_conn \<Rightarrow> ws_conn" where
  "ws_branch cfg parse now ok IdleTimer c =
     (if sub_channels (wc_subs c) = {} \<and> wc_idle_deadline c \<le> now then c\<lparr>wc_open := False\<rparr> else c)"
| "ws_branch cfg parse now ok ShutdownSignal c = ws_close ok 1001 ''server shutting down'' c"
| "ws_branch cfg parse now ok PingTick c =
     (if wc_missed_pongs c \<ge> max_missed_pongs cfg then ws_close ok 1000 ''ping timeout'' c
      else ws_send ok PingFrame (c\<lparr>wc_missed_pongs := wc_missed_pongs c + 1\<rparr>))"
| "ws_branch cfg parse now ok (Feed event) c =
     (if should_forward (sub_channels (wc_subs c)) event then ws_send ok (EventFrame event) c else c)"
| "ws_branch cfg parse now ok (Lagged missed) c = ws_send ok (TextFrame (gap_frame missed)) c"
| "ws_branch cfg parse now ok FeedClosed c = c\<lparr>wc_open := False\<rparr>"
| "ws_branch cfg parse now ok (Incoming m) c =
     (let c' = on_message parse ok m c
      in if wc_open c' \<and> sub_channels (wc_subs c') = {}
         then c'\<lparr>wc_idle_deadline := now + idle_timeout cfg\<rparr> else c')"

definition ws_step :: "ws_config \<Rightarrow> (string \<Rightarrow> client_op option) \<Rightarrow> nat \<times> bool \<times> ws_input \<Rightarrow> ws_conn \<Rightarrow> ws_conn" where
  "ws_step cfg parse x c = (if wc_open c then ws_branch cfg parse (fst x) (fst (snd x)) (snd (snd x)) c else c)"

definition ws_run :: "ws_config \<Rightarrow> (string \<Rightarrow> client_op option) \<Rightarrow> (nat \<times> bool \<times> ws_input) list \<Rightarrow> ws_conn \<Rightarrow> ws_conn" where
  "ws_run cfg parse = fold (ws_step cfg parse)"

definition ws_start :: "ws_config \<Rightarrow> nat \<Rightarrow> channel \<Rightarrow> string option \<Rightarrow> ws_conn" where
  "ws_start cfg now initial identity =
     \<lparr>wc_subs = \<lparr>sub_identity = identity, sub_channels = {initial}\<rparr>, wc_missed_pongs = 0,
      wc_idle_deadline = now + idle_timeout cfg, wc_sent = [], wc_open = True\<rparr>"

section \<open>The upgrade\<close>

definition token_from_protocol_header :: "headers \<Rightarrow> string option" where
  "token_from_protocol_header hs =
     Option.bind (header_get hs ''sec-websocket-protocol'')
       (\<lambda>v. Option.bind (List.find (\<lambda>p. starts_with p ''bearer.'') (map trim (split_char (CHR '','') v)))
              (strip_prefix ''bearer.''))"

text \<open>An error response, or the connection that starts; the token is validated, but the revocation store
  is not asked.\<close>

definition ws_handler ::
  "jwt_ops \<Rightarrow> env \<Rightarrow> ws_config \<Rightarrow> nat \<Rightarrow> nat \<Rightarrow> string option \<Rightarrow> string option \<Rightarrow> headers \<Rightarrow> (app_error + ws_conn) option" where
  "ws_handler J env cfg unix_now now query_channel query_token hs =
     (let requested = (case query_channel of Some c \<Rightarrow> c | None \<Rightarrow> ''public'') in
      case channel_parse requested of
        None \<Rightarrow> Some (Err (bad_request (''invalid channel '' @ [CHR 0x27] @ requested @ [CHR 0x27])))
      | Some channel \<Rightarrow>
          (let token = (case query_token of Some t \<Rightarrow> Some t | None \<Rightarrow> token_from_protocol_header hs);
               checked = (case token of
                            None \<Rightarrow> Some None
                          | Some t \<Rightarrow> map_option (\<lambda>r. case r of Inr c \<Rightarrow> Some c | Inl _ \<Rightarrow> None)
                                       (validate_token J env unix_now t ''access''))
           in case checked of
                None \<Rightarrow> None
              | Some claims \<Rightarrow>
                  Some (if \<not> is_authorized_for channel (map_option cl_sub claims)
                        then Err (Unauthorized ''not authorized for this channel'')
                        else Ok (ws_start cfg now channel (map_option cl_sub claims)))))"

section \<open>Who sees what\<close>

lemma channel_parse_as_wire: "c \<noteq> CreatorChannel [] \<Longrightarrow> channel_parse (as_wire c) = Some c"
  by (cases c) (auto simp: channel_parse_def)

lemma ws_send_simps [simp]:
  "wc_subs (ws_send ok f c) = wc_subs c" "wc_missed_pongs (ws_send ok f c) = wc_missed_pongs c"
  "wc_idle_deadline (ws_send ok f c) = wc_idle_deadline c"
  "wc_sent (ws_send ok f c) = (if ok then wc_sent c @ [f] else wc_sent c)"
  "wc_open (ws_send ok f c) \<longleftrightarrow> ok \<and> wc_open c"
  by (auto simp: ws_send_def)

lemma ws_close_simps [simp]:
  "wc_subs (ws_close ok k r c) = wc_subs c" "\<not> wc_open (ws_close ok k r c)"
  "wc_sent (ws_close ok k r c) = (if ok then wc_sent c @ [CloseFrame k r] else wc_sent c)"
  by (auto simp: ws_close_def)

text \<open>Subscriptions stay within what the identity may see.\<close>

definition subs_authorized :: "subscription_state \<Rightarrow> bool" where
  "subs_authorized s \<longleftrightarrow> (\<forall>c \<in> sub_channels s. is_authorized_for c (sub_identity s))"

lemma apply_text_authorized:
  "subs_authorized s \<Longrightarrow> subs_authorized (snd (apply_text parse txt s))
     \<and> sub_identity (snd (apply_text parse txt s)) = sub_identity s"
  by (auto simp: apply_text_def subs_authorized_def split: option.splits client_op.splits)

text \<open>A text that subscribes to the firehose.\<close>

definition subscribes_public :: "(string \<Rightarrow> client_op option) \<Rightarrow> ws_input \<Rightarrow> bool" where
  "subscribes_public parse x \<longleftrightarrow> (\<exists>txt. x = Incoming (Some (TextMessage txt)) \<and> parse txt = Some (Subscribe ''public''))"

definition private_to :: "string \<Rightarrow> ws_conn \<Rightarrow> bool" where
  "private_to who c \<longleftrightarrow> sub_identity (wc_subs c) = Some who \<and> sub_channels (wc_subs c) \<subseteq> {CreatorChannel who}
     \<and> (\<forall>e. EventFrame e \<in> set (wc_sent c) \<longrightarrow> ev_creator_id e = who)"

lemma apply_text_private:
  assumes "sub_identity s = Some who" "sub_channels s \<subseteq> {CreatorChannel who}" "parse txt \<noteq> Some (Subscribe ''public'')"
  shows "sub_channels (snd (apply_text parse txt s)) \<subseteq> {CreatorChannel who}"
proof -
  have "c = CreatorChannel who" if "channel_parse ch = Some c" "is_authorized_for c (Some who)" "ch \<noteq> ''public''" for ch c
    using that by (cases c) (auto simp: channel_parse_def split: option.splits if_splits)
  then show ?thesis using assms by (auto simp: apply_text_def split: option.splits client_op.splits)
qed

lemma apply_text_identity [simp]: "sub_identity (snd (apply_text parse txt s)) = sub_identity s"
  by (auto simp: apply_text_def split: option.splits client_op.splits)

lemma on_message_private:
  assumes "private_to who c" and "\<not> subscribes_public parse (Incoming m)"
  shows "private_to who (on_message parse ok m c)"
  using assms apply_text_private [of "wc_subs c" who parse]
  by (cases "(parse, ok, m, c)" rule: on_message.cases)
    (auto simp: private_to_def subscribes_public_def case_prod_unfold Let_def)

lemma ws_step_private:
  assumes "private_to who c" and "\<not> subscribes_public parse (snd (snd x))"
  shows "private_to who (ws_step cfg parse x c)"
proof (cases "snd (snd x)")
  case (Incoming m)
  then show ?thesis using assms on_message_private [OF assms(1), of parse m]
    by (auto simp: ws_step_def Let_def private_to_def)
qed (use assms in \<open>auto simp: ws_step_def private_to_def should_forward_def\<close>)

text \<open>\<^bold>\<open>C22.\<close> Streams are isolated: a connection accepted for a creator's channel belongs to that creator, and
  as long as the client does not opt in to the public channel, whatever it sends and whatever tips
  are recorded, it is only ever sent tips to that creator.\<close>

theorem ws_isolation:
  assumes "ws_handler J env cfg unix_now now (Some (''creator:'' @ who)) token hs = Some (Ok c)"
    and "\<forall>x \<in> set xs. \<not> subscribes_public parse (snd (snd x))"
  shows "sub_identity (wc_subs c) = Some who
    \<and> (\<forall>e. EventFrame e \<in> set (wc_sent (ws_run cfg parse xs c)) \<longrightarrow> ev_creator_id e = who)"
proof -
  have "who \<noteq> []" using assms(1) by (auto simp: ws_handler_def channel_parse_def)
  then have "channel_parse (''creator:'' @ who) = Some (CreatorChannel who)"
    using channel_parse_as_wire [of "CreatorChannel who"] by simp
  then have start: "private_to who c"
    using assms(1) by (auto simp: ws_handler_def ws_start_def private_to_def split: option.splits if_splits)
  have "private_to who (ws_run cfg parse xs c)"
    using start assms(2) by (induction xs arbitrary: c) (auto simp: ws_run_def ws_step_private)
  with start show ?thesis by (simp add: private_to_def)
qed

theorem ws_isolation_witness:
  "\<exists>c. ws_handler (table_jwt demo_tokens) demo_vars (ws_config_from_env demo_vars) 1100 0 (Some ''creator:bob'') (Some ''access'') Map.empty
       = Some (Ok c)
     \<and> (\<forall>e. EventFrame e \<in> set (wc_sent (ws_run (ws_config_from_env demo_vars) (\<lambda>_. None)
          [(1, True, Feed \<lparr>ev_creator_id = ''bob'', ev_tipper_id = ''t'', ev_amount = 5, ev_timestamp = 0\<rparr>),
           (2, True, Feed \<lparr>ev_creator_id = ''eve'', ev_tipper_id = ''t'', ev_amount = 7, ev_timestamp = 0\<rparr>)] c))
          \<longrightarrow> ev_creator_id e = ''bob'')"
proof -
  let ?xs = "[(1 :: nat, True, Feed \<lparr>ev_creator_id = ''bob'', ev_tipper_id = ''t'', ev_amount = 5, ev_timestamp = 0\<rparr>),
    (2, True, Feed \<lparr>ev_creator_id = ''eve'', ev_tipper_id = ''t'', ev_amount = 7, ev_timestamp = 0\<rparr>)]"
  have v: "validate_token (table_jwt demo_tokens) demo_vars 1100 ''access'' ''access'' = Some (Ok demo_access)"
    unfolding demo_validate demo_verdict by simp
  have sub: "cl_sub demo_access = ''bob''" by (simp add: demo_access_def access_claims_def)
  have parsed: "channel_parse ''creator:bob'' = Some (CreatorChannel ''bob'')" by code_simp
  have upgrade: "ws_handler (table_jwt demo_tokens) demo_vars (ws_config_from_env demo_vars) 1100 0 (Some (''creator:'' @ ''bob''))
      (Some ''access'') Map.empty = Some (Ok (ws_start (ws_config_from_env demo_vars) 0 (CreatorChannel ''bob'') (Some ''bob'')))"
    using parsed by (simp add: ws_handler_def v sub)
  have quiet: "\<forall>x \<in> set ?xs. \<not> subscribes_public (\<lambda>_. None) (snd (snd x))" by (simp add: subscribes_public_def)
  show ?thesis using ws_isolation [OF upgrade quiet] upgrade by auto
qed

section \<open>Liveness\<close>

text \<open>A client that answers no ping.\<close>

definition unanswered :: "(nat \<times> bool \<times> ws_input) list \<Rightarrow> bool" where
  "unanswered xs \<longleftrightarrow> (\<forall>x \<in> set xs. snd (snd x) \<noteq> Incoming (Some PongMessage))"

definition ticks :: "(nat \<times> bool \<times> ws_input) list \<Rightarrow> nat" where
  "ticks xs = length (filter (\<lambda>x. snd (snd x) = PingTick) xs)"

lemma on_message_missed:
  "m \<noteq> Some PongMessage \<Longrightarrow> wc_missed_pongs (on_message parse ok m c) = wc_missed_pongs c"
  by (cases "(parse, ok, m, c)" rule: on_message.cases) (auto simp: case_prod_unfold Let_def)

lemma ws_step_missed:
  assumes "wc_open (ws_step cfg parse x c)" and "snd (snd x) \<noteq> Incoming (Some PongMessage)"
  shows "wc_open c \<and> wc_missed_pongs (ws_step cfg parse x c) = wc_missed_pongs c + (if snd (snd x) = PingTick then 1 else 0)
    \<and> (snd (snd x) = PingTick \<longrightarrow> wc_missed_pongs c < max_missed_pongs cfg)"
  using assms
  by (cases "snd (snd x)") (auto simp: ws_step_def Let_def on_message_missed split: if_splits)

lemma unanswered_ticks:
  assumes "unanswered xs" and "wc_open (ws_run cfg parse xs c)"
  shows "wc_open c \<and> wc_missed_pongs (ws_run cfg parse xs c) = wc_missed_pongs c + ticks xs
    \<and> (ticks xs > 0 \<longrightarrow> wc_missed_pongs c + ticks xs \<le> max_missed_pongs cfg)"
  using assms
proof (induction xs arbitrary: c)
  case (Cons x xs)
  then have IH: "wc_open (ws_step cfg parse x c)"
    "wc_missed_pongs (ws_run cfg parse xs (ws_step cfg parse x c)) = wc_missed_pongs (ws_step cfg parse x c) + ticks xs"
    "ticks xs > 0 \<longrightarrow> wc_missed_pongs (ws_step cfg parse x c) + ticks xs \<le> max_missed_pongs cfg"
    using Cons.IH [of "ws_step cfg parse x c"] by (auto simp: unanswered_def ws_run_def)
  with ws_step_missed [OF IH(1)] Cons.prems(1) show ?case
    by (auto simp: unanswered_def ws_run_def ticks_def)
qed (simp add: ws_run_def ticks_def)

text \<open>Dead connections end: a connection whose client answers no ping is closed at the latest by the
  tick after the tolerated number of missed pongs, whatever else happens on it.\<close>

theorem dead_connection_closes:
  assumes "unanswered xs" and "max_missed_pongs cfg < ticks xs"
  shows "\<not> wc_open (ws_run cfg parse xs c)"
  using unanswered_ticks [OF assms(1), of cfg parse c] assms(2) by linarith

theorem dead_connection_closes_witness:
  "\<not> wc_open (ws_run (ws_config_from_env Map.empty) (\<lambda>_. None) [(30, True, PingTick), (60, True, PingTick), (90, True, PingTick)]
    (ws_start (ws_config_from_env Map.empty) 0 PublicChannel None))"
proof -
  have "max_missed_pongs (ws_config_from_env Map.empty) = 2" by (simp add: ws_config_from_env_def ws_env_def)
  then show ?thesis
    by (intro dead_connection_closes) (simp_all add: unanswered_def ticks_def)
qed

text \<open>One ping interval of a client that answers: the idle timer is polled, the ping goes out, the pong
  comes in.\<close>

definition idle_round :: "nat \<Rightarrow> (nat \<times> bool \<times> ws_input) list" where
  "idle_round t = [(t, True, IdleTimer), (t, True, PingTick), (t, True, Incoming (Some PongMessage))]"

definition idle_rounds :: "ws_config \<Rightarrow> nat \<Rightarrow> nat \<Rightarrow> (nat \<times> bool \<times> ws_input) list" where
  "idle_rounds cfg t0 n = concat (map (\<lambda>k. idle_round (t0 + Suc k * ping_interval cfg)) [0..<n])"

lemma ws_run_append: "ws_run cfg parse (xs @ ys) c = ws_run cfg parse ys (ws_run cfg parse xs c)"
  by (simp add: ws_run_def)

lemma idle_round_keeps:
  assumes "wc_open c" "sub_channels (wc_subs c) = {}" "wc_missed_pongs c = 0" "t < wc_idle_deadline c" "0 < max_missed_pongs cfg"
  shows "ws_run cfg parse (idle_round t) c =
    c\<lparr>wc_sent := wc_sent c @ [PingFrame], wc_idle_deadline := t + idle_timeout cfg\<rparr>"
  using assms by (cases c) (simp add: ws_run_def idle_round_def ws_step_def ws_send_def)

text \<open>The idle timeout does not end an idle connection: every pong counts as activity, so when pings
  are more frequent than the timeout, as the defaults are, a client without any subscription that
  answers pings keeps its connection for any number of intervals.\<close>

theorem idle_connection_lives_on:
  assumes "wc_open c" and "sub_channels (wc_subs c) = {}" and "wc_missed_pongs c = 0"
    and "wc_idle_deadline c = t0 + idle_timeout cfg" and "ping_interval cfg < idle_timeout cfg" and "0 < max_missed_pongs cfg"
  shows "wc_open (ws_run cfg parse (idle_rounds cfg t0 n) c)"
proof -
  let ?c = "\<lambda>n. ws_run cfg parse (idle_rounds cfg t0 n) c"
  have "wc_open (?c n) \<and> sub_channels (wc_subs (?c n)) = {} \<and> wc_missed_pongs (?c n) = 0
      \<and> wc_idle_deadline (?c n) = t0 + n * ping_interval cfg + idle_timeout cfg"
  proof (induction n)
    case 0
    then show ?case using assms by (simp add: idle_rounds_def ws_run_def)
  next
    case (Suc n)
    let ?t = "t0 + Suc n * ping_interval cfg"
    have "?t < wc_idle_deadline (?c n)" using Suc.IH assms(5) by simp
    then have "ws_run cfg parse (idle_round ?t) (?c n) =
        (?c n)\<lparr>wc_sent := wc_sent (?c n) @ [PingFrame], wc_idle_deadline := ?t + idle_timeout cfg\<rparr>"
      using Suc.IH assms(6) by (intro idle_round_keeps) auto
    moreover have "?c (Suc n) = ws_run cfg parse (idle_round ?t) (?c n)"
      unfolding idle_rounds_def by (simp add: ws_run_append)
    ultimately show ?case using Suc.IH by simp
  qed
  then show ?thesis by blast
qed

theorem idle_connection_lives_on_witness:
  "\<forall>n. wc_open (ws_run (ws_config_from_env Map.empty) (\<lambda>_. None) (idle_rounds (ws_config_from_env Map.empty) 0 n)
     ((ws_start (ws_config_from_env Map.empty) 0 PublicChannel None)\<lparr>wc_subs := \<lparr>sub_identity = None, sub_channels = {}\<rparr>\<rparr>))"
proof
  fix n
  let ?cfg = "ws_config_from_env Map.empty"
  let ?c = "(ws_start ?cfg 0 PublicChannel None)\<lparr>wc_subs := \<lparr>sub_identity = None, sub_channels = {}\<rparr>\<rparr>"
  have "ping_interval ?cfg < idle_timeout ?cfg" "0 < max_missed_pongs ?cfg"
    by (simp_all add: ws_config_from_env_def ws_env_def from_secs_def)
  then show "wc_open (ws_run ?cfg (\<lambda>_. None) (idle_rounds ?cfg 0 n) ?c)"
    by (intro idle_connection_lives_on) (simp_all add: ws_start_def)
qed

end
