(* ===== verification/Job_Queue.thy ===== *)
theory Job_Queue
  imports Complex_Main Http
begin

text \<open>
  Background jobs (\<open>src/jobs/queue.rs\<close>, \<open>src/jobs/worker.rs\<close>, the retry policy of
  \<open>src/jobs/types.rs\<close>): the table, its statements, one turn of a worker, and the workers interleaved
  as a step relation. Times are seconds. \<open>FOR UPDATE SKIP LOCKED\<close> makes the choice and the update of a
  \<open>dequeue\<close> one step; rows of equal priority and time are taken in table order. Decoding a row and the
  handlers are parameters. The floating-point back-off is computed exactly.
\<close>

section \<open>Jobs\<close>

datatype job_status = JobPending | JobRunning | JobCompleted | JobFailed | JobRetrying | JobCancelled

record job_row =
  jb_id :: string
  jb_job_type :: string
  jb_payload :: json
  jb_status :: job_status
  jb_retry_count :: int
  jb_max_retries :: int
  jb_created_at :: int
  jb_scheduled_at :: int
  jb_started_at :: "int option"
  jb_completed_at :: "int option"
  jb_error_message :: "string option"
  jb_worker_id :: "string option"
  jb_priority :: "int option"

record retry_policy =
  rp_max_retries :: int
  rp_base_delay_ms :: nat
  rp_max_delay_ms :: nat
  rp_backoff_multiplier :: rat

definition retry_policy_default :: retry_policy where
  "retry_policy_default = \<lparr>rp_max_retries = 3, rp_base_delay_ms = 1000, rp_max_delay_ms = 60000, rp_backoff_multiplier = 2\<rparr>"

definition next_delay_secs :: "retry_policy \<Rightarrow> int \<Rightarrow> int" where
  "next_delay_secs p attempt =
     \<lceil>min (of_nat (rp_base_delay_ms p) * rp_backoff_multiplier p ^ nat attempt) (of_nat (rp_max_delay_ms p)) / 1000\<rceil>"

datatype job_error =
    JobDatabase string
  | JobSerialization string
  | JobHandlerNotFound string
  | JobExecutionFailed string
  | JobServiceUnavailable string
  | JobTimeout nat
  | JobShutdown
  | JobInvalidTransition string string

fun job_error_display :: "job_error \<Rightarrow> string" where
  "job_error_display (JobDatabase e) = ''Database error: '' @ e"
| "job_error_display (JobSerialization e) = ''Serialization error: '' @ e"
| "job_error_display (JobHandlerNotFound t) = ''Job handler not found for type: '' @ t"
| "job_error_display (JobExecutionFailed m) = ''Job execution failed: '' @ m"
| "job_error_display (JobServiceUnavailable s) = ''External service unavailable: '' @ s"
| "job_error_display (JobTimeout ms) = ''Job timeout after '' @ show_nat ms @ ''ms''"
| "job_error_display JobShutdown = ''Worker shutdown requested''"
| "job_error_display (JobInvalidTransition f t) = ''Invalid job state transition from '' @ f @ '' to '' @ t"

text \<open>The payload of a notification, as \<open>serde\<close> encodes it with its tag and content.\<close>

datatype notification_type = TipReceived | TipVerified | TipFailed

fun notification_name :: "notification_type \<Rightarrow> string" where
  "notification_name TipReceived = ''TipReceived''"
| "notification_name TipVerified = ''TipVerified''"
| "notification_name TipFailed = ''TipFailed''"

definition send_notification :: "string \<Rightarrow> string \<Rightarrow> notification_type \<Rightarrow> string \<Rightarrow> json" where
  "send_notification creator_id tip_id kind email =
     JObj [(''type'', JStr ''SendNotification''),
       (''data'', JObj [(''creator_id'', JStr creator_id), (''tip_id'', JStr tip_id),
          (''notification_type'', JStr (notification_name kind)), (''recipient_email'', JStr email)])]"

type_synonym job_table = "job_row list"

definition update_job :: "string \<Rightarrow> (job_row \<Rightarrow> job_row) \<Rightarrow> job_table \<Rightarrow> job_table" where
  "update_job i f rows = map (\<lambda>r. if jb_id r = i then f r else r) rows"

section \<open>The queue\<close>

definition enqueue_job ::
  "string option \<Rightarrow> string \<Rightarrow> int \<Rightarrow> string \<Rightarrow> json \<Rightarrow> int \<Rightarrow> int \<Rightarrow> job_table \<Rightarrow> (job_error + string) \<times> job_table" where
  "enqueue_job fault i now job_type payload priority max_retries rows =
     (case fault of Some e \<Rightarrow> (Err (JobDatabase e), rows)
      | None \<Rightarrow> (Ok i, rows @ [\<lparr>jb_id = i, jb_job_type = job_type, jb_payload = payload, jb_status = JobPending,
              jb_retry_count = 0, jb_max_retries = max_retries, jb_created_at = now, jb_scheduled_at = now,
              jb_started_at = None, jb_completed_at = None, jb_error_message = None, jb_worker_id = None,
              jb_priority = Some priority\<rparr>]))"

definition due :: "int \<Rightarrow> job_row \<Rightarrow> bool" where
  "due now r \<longleftrightarrow> jb_status r \<in> {JobPending, JobRetrying} \<and> jb_scheduled_at r \<le> now"

text \<open>\<open>ORDER BY priority DESC NULLS LAST, scheduled_at ASC\<close>.\<close>

fun higher_priority :: "int option \<Rightarrow> int option \<Rightarrow> bool" where
  "higher_priority (Some a) (Some b) \<longleftrightarrow> b < a"
| "higher_priority (Some a) None = True"
| "higher_priority None p = False"

definition sooner :: "job_row \<Rightarrow> job_row \<Rightarrow> bool" where
  "sooner a b \<longleftrightarrow> higher_priority (jb_priority a) (jb_priority b)
     \<or> jb_priority a = jb_priority b \<and> jb_scheduled_at a < jb_scheduled_at b"

definition next_job :: "int \<Rightarrow> job_table \<Rightarrow> job_row option" where
  "next_job now rows =
     (case filter (due now) rows of
        [] \<Rightarrow> None
      | r # rs \<Rightarrow> Some (fold (\<lambda>y x. if sooner y x then y else x) rs r))"

definition start_job :: "string \<Rightarrow> int \<Rightarrow> job_row \<Rightarrow> job_row" where
  "start_job worker now r = r\<lparr>jb_status := JobRunning, jb_started_at := Some now, jb_worker_id := Some worker,
     jb_retry_count := jb_retry_count r + 1\<rparr>"

definition dequeue ::
  "(job_row \<Rightarrow> string option) \<Rightarrow> string option \<Rightarrow> string \<Rightarrow> int \<Rightarrow> job_table \<Rightarrow> (job_error + job_row option) \<times> job_table" where
  "dequeue undecodable fault worker now rows =
     (case fault of Some e \<Rightarrow> (Err (JobDatabase e), rows)
      | None \<Rightarrow>
          (case next_job now rows of
             None \<Rightarrow> (Ok None, rows)
           | Some r \<Rightarrow>
               (case undecodable r of
                  Some e \<Rightarrow> Err (JobSerialization e)
                | None \<Rightarrow> Ok (Some (start_job worker now r)),
                update_job (jb_id r) (start_job worker now) rows)))"

definition complete_job :: "string option \<Rightarrow> int \<Rightarrow> string \<Rightarrow> job_table \<Rightarrow> (job_error + unit) \<times> job_table" where
  "complete_job fault now i rows =
     (case fault of Some e \<Rightarrow> (Err (JobDatabase e), rows)
      | None \<Rightarrow> (Ok (), update_job i (\<lambda>r. r\<lparr>jb_status := JobCompleted, jb_completed_at := Some now\<rparr>) rows))"

definition fail_job :: "string option \<Rightarrow> int \<Rightarrow> retry_policy \<Rightarrow> string \<Rightarrow> string \<Rightarrow> job_table \<Rightarrow> (job_error + unit) \<times> job_table" where
  "fail_job fault now policy i err rows =
     (case (List.find (\<lambda>r. jb_id r = i) rows, fault) of
        (None, _) \<Rightarrow> (Err (JobDatabase ''no rows returned by a query that expected to return at least one row''), rows)
      | (Some row, Some e) \<Rightarrow> (Err (JobDatabase e), rows)
      | (Some row, None) \<Rightarrow>
          if jb_retry_count row < jb_max_retries row
          then (Ok (), update_job i (\<lambda>r. r\<lparr>jb_status := JobRetrying, jb_error_message := Some err,
                  jb_scheduled_at := now + next_delay_secs policy (jb_retry_count row)\<rparr>) rows)
          else (Ok (), update_job i (\<lambda>r. r\<lparr>jb_status := JobFailed, jb_error_message := Some err,
                  jb_completed_at := Some now\<rparr>) rows))"

definition cleanup_old_jobs :: "int \<Rightarrow> int \<Rightarrow> job_table \<Rightarrow> nat \<times> job_table" where
  "cleanup_old_jobs now retention_days rows =
     (let old = (\<lambda>r. jb_status r \<in> {JobCompleted, JobFailed} \<and> jb_created_at r < now - retention_days * 86400)
      in (length (filter old rows), filter (\<lambda>r. \<not> old r) rows))"

section \<open>A worker\<close>

text \<open>What a handler returns, and the turn of the loop after a job was taken: no handler for the type and
  an error both fail the job; a shutdown leaves it.\<close>

record job_handlers =
  jh_registered :: "string \<Rightarrow> bool"
  jh_policy :: "string \<Rightarrow> retry_policy"

definition finish_job ::
  "job_handlers \<Rightarrow> string option \<Rightarrow> int \<Rightarrow> (job_error + unit) \<Rightarrow> job_row \<Rightarrow> job_table \<Rightarrow> job_table" where
  "finish_job H fault now result job rows =
     (let policy = (if jh_registered H (jb_job_type job) then jh_policy H (jb_job_type job) else retry_policy_default) in
      if \<not> jh_registered H (jb_job_type job)
      then snd (fail_job fault now policy (jb_id job) (''No handler for job type: '' @ jb_job_type job) rows)
      else (case result of
              Inr _ \<Rightarrow> snd (complete_job fault now (jb_id job) rows)
            | Inl e \<Rightarrow> if e = JobShutdown then rows
                       else snd (fail_job fault now policy (jb_id job) (job_error_display e) rows)))"

text \<open>The system: the table, the jobs in execution with their workers, and every execution started.\<close>

record job_system =
  js_rows :: job_table
  js_busy :: "(string \<times> job_row) list"
  js_log :: "string list"

text \<open>Any worker may take a job, return from its handler, or die with the job in hand; anyone may
  enqueue, and the table is cleaned up. A row that does not decode is taken and dropped.\<close>

inductive job_step :: "(job_row \<Rightarrow> string option) \<Rightarrow> job_handlers \<Rightarrow> job_system \<Rightarrow> job_system \<Rightarrow> bool" for undecodable H where
  Enqueue: "i \<notin> jb_id ` set (js_rows s) \<Longrightarrow> i \<notin> set (js_log s) \<Longrightarrow>
    job_step undecodable H s (s\<lparr>js_rows := snd (enqueue_job fault i now t p prio mx (js_rows s))\<rparr>)"
| Take: "dequeue undecodable fault w now (js_rows s) = (Ok (Some j), rows') \<Longrightarrow>
    job_step undecodable H s (s\<lparr>js_rows := rows', js_busy := (w, j) # js_busy s, js_log := js_log s @ [jb_id j]\<rparr>)"
| Drop: "dequeue undecodable fault w now (js_rows s) = (Err (JobSerialization e), rows') \<Longrightarrow>
    job_step undecodable H s (s\<lparr>js_rows := rows'\<rparr>)"
| Finish: "js_busy s = xs @ (w, j) # ys \<Longrightarrow>
    job_step undecodable H s (s\<lparr>js_rows := finish_job H fault now result j (js_rows s), js_busy := xs @ ys\<rparr>)"
| Crash: "js_busy s = xs @ (w, j) # ys \<Longrightarrow> job_step undecodable H s (s\<lparr>js_busy := xs @ ys\<rparr>)"
| Cleanup: "job_step undecodable H s (s\<lparr>js_rows := snd (cleanup_old_jobs now days (js_rows s))\<rparr>)"

definition job_init :: job_system where
  "job_init = \<lparr>js_rows = [], js_busy = [], js_log = []\<rparr>"

inductive_cases job_stepE: "job_step undecodable H s s'"

section \<open>The choice of a job\<close>

text \<open>A strict weak order.\<close>

lemma sooner_trans: "sooner a b \<Longrightarrow> sooner b c \<Longrightarrow> sooner a c"
  by (cases "jb_priority a"; cases "jb_priority b"; cases "jb_priority c") (auto simp: sooner_def)

lemma sooner_negtrans: "\<not> sooner a b \<Longrightarrow> \<not> sooner b c \<Longrightarrow> \<not> sooner a c"
  by (cases "jb_priority a"; cases "jb_priority b"; cases "jb_priority c") (auto simp: sooner_def)

lemma sooner_irrefl: "\<not> sooner a a"
  by (cases "jb_priority a") (auto simp: sooner_def)

lemma fold_sooner:
  "fold (\<lambda>y x. if sooner y x then y else x) rs r \<in> insert r (set rs)
   \<and> (\<forall>z \<in> insert r (set rs). \<not> sooner z (fold (\<lambda>y x. if sooner y x then y else x) rs r))"
proof (induction rs arbitrary: r)
  case Nil
  then show ?case by (simp add: sooner_irrefl)
next
  case (Cons y rs)
  define r' where "r' = (if sooner y r then y else r)"
  define best where "best = fold (\<lambda>y x. if sooner y x then y else x) rs r'"
  have best: "\<not> sooner r' best" "best \<in> insert r' (set rs)" "\<forall>z \<in> set rs. \<not> sooner z best"
    using Cons [of r'] unfolding best_def by auto
  have "\<not> sooner r best \<and> \<not> sooner y best"
  proof (cases "sooner y r")
    case True
    with best(1) have "\<not> sooner y best" by (simp add: r'_def)
    with True show ?thesis using sooner_trans by blast
  next
    case False
    with best(1) have "\<not> sooner r best" by (simp add: r'_def)
    with False show ?thesis using sooner_negtrans by blast
  qed
  moreover have "best \<in> insert r (insert y (set rs))" using best(2) by (auto simp: r'_def split: if_splits)
  moreover have "fold (\<lambda>y x. if sooner y x then y else x) (y # rs) r = best" by (simp add: best_def r'_def)
  ultimately show ?case using best(3) by simp
qed

text \<open>The job that is taken is due, and no due job comes before it.\<close>

lemma next_job_best:
  assumes "next_job now rows = Some r"
  shows "r \<in> set rows" "due now r" "\<forall>x \<in> set rows. due now x \<longrightarrow> \<not> sooner x r"
proof -
  obtain y ys where f: "filter (due now) rows = y # ys" and r: "r = fold (\<lambda>y x. if sooner y x then y else x) ys y"
    using assms by (auto simp: next_job_def split: list.splits)
  have "r \<in> set (filter (due now) rows)" "\<forall>z \<in> set (filter (due now) rows). \<not> sooner z r"
    using fold_sooner [of ys y] unfolding r f by auto
  then show "r \<in> set rows" "due now r" "\<forall>x \<in> set rows. due now x \<longrightarrow> \<not> sooner x r" by auto
qed

section \<open>Executions\<close>

lemma update_job_ids [simp]: "(\<And>r. jb_id (f r) = jb_id r) \<Longrightarrow> map jb_id (update_job i f rows) = map jb_id rows"
  by (simp add: update_job_def comp_def)

lemma set_update_job: "set (update_job i f rows) = (\<lambda>r. if jb_id r = i then f r else r) ` set rows"
  by (simp add: update_job_def)

text \<open>What holds of a row, given the executions so far.\<close>

definition row_ok :: "string list \<Rightarrow> job_row \<Rightarrow> bool" where
  "row_ok runs r \<longleftrightarrow> int (count_list runs (jb_id r)) \<le> jb_retry_count r \<and> jb_retry_count r \<le> max 1 (jb_max_retries r)
     \<and> (jb_status r = JobPending \<longrightarrow> jb_retry_count r = 0) \<and> (jb_status r = JobRetrying \<longrightarrow> jb_retry_count r < jb_max_retries r)"

definition busy_ids :: "job_system \<Rightarrow> string list" where "busy_ids s = map (\<lambda>x. jb_id (snd x)) (js_busy s)"

definition jobs_inv :: "job_system \<Rightarrow> bool" where
  "jobs_inv s \<longleftrightarrow> distinct (map jb_id (js_rows s)) \<and> distinct (busy_ids s)
     \<and> (\<forall>i \<in> set (busy_ids s). \<exists>r \<in> set (js_rows s). jb_id r = i \<and> jb_status r = JobRunning)
     \<and> (\<forall>r \<in> set (js_rows s). row_ok (js_log s) r)"

lemma dequeue_started:
  assumes "dequeue undecodable fault w now rows = (res, rows')" and "res = Ok (Some j) \<or> res = Err (JobSerialization e)"
  obtains r where "r \<in> set rows" "due now r" "rows' = update_job (jb_id r) (start_job w now) rows"
    "res = Ok (Some j) \<Longrightarrow> j = start_job w now r"
  using assms next_job_best by (fastforce simp: dequeue_def split: option.splits)

lemma same_row: "distinct (map jb_id rows) \<Longrightarrow> r \<in> set rows \<Longrightarrow> x \<in> set rows \<Longrightarrow> jb_id x = jb_id r \<Longrightarrow> x = r"
  by (auto simp: distinct_map dest: inj_onD)

lemma start_job_simps [simp]:
  "jb_id (start_job w now r) = jb_id r" "jb_status (start_job w now r) = JobRunning"
  "jb_retry_count (start_job w now r) = jb_retry_count r + 1" "jb_max_retries (start_job w now r) = jb_max_retries r"
  by (simp_all add: start_job_def)

lemma inv_start:
  assumes "jobs_inv s" and "r \<in> set (js_rows s)" and "due now r"
  shows "jb_id r \<notin> set (busy_ids s)"
    and "jobs_inv (s\<lparr>js_rows := update_job (jb_id r) (start_job w now) (js_rows s)\<rparr>)"
    and "jb_id j = jb_id r \<Longrightarrow> jobs_inv (s\<lparr>js_rows := update_job (jb_id r) (start_job w now) (js_rows s),
      js_busy := (w, j) # js_busy s, js_log := js_log s @ [jb_id r]\<rparr>)"
proof -
  let ?rows = "update_job (jb_id r) (start_job w now) (js_rows s)"
  note inv = assms(1) [unfolded jobs_inv_def]
  have idle: "jb_status r \<noteq> JobRunning" using assms(3) by (auto simp: due_def)
  show free: "jb_id r \<notin> set (busy_ids s)"
    using inv assms(2) idle same_row [of "js_rows s" r] by blast
  have ok: "row_ok (js_log s) r" using inv assms(2) by blast
  have grown: "row_ok (js_log s @ [jb_id r]) (start_job w now r)" "row_ok (js_log s) (start_job w now r)"
    using ok assms(3) by (auto simp: row_ok_def due_def)
  have other: "row_ok (js_log s @ [jb_id r]) x" if "x \<in> set (js_rows s)" "jb_id x \<noteq> jb_id r" for x
    using inv that by (auto simp: row_ok_def)
  have busy: "\<exists>x \<in> set ?rows. jb_id x = i \<and> jb_status x = JobRunning" if "i \<in> set (busy_ids s)" for i
    using inv free that by (force simp: set_update_job)
  have started: "\<exists>x \<in> set ?rows. jb_id x = jb_id r \<and> jb_status x = JobRunning"
    using assms(2) by (intro bexI [of _ "start_job w now r"]) (force simp: set_update_job)+
  have rows: "\<forall>x \<in> set ?rows. row_ok (js_log s @ [jb_id r]) x \<and> row_ok (js_log s) x"
    using inv grown other same_row [of "js_rows s" r, OF _ assms(2)] by (auto simp: set_update_job)
  show "jobs_inv (s\<lparr>js_rows := ?rows\<rparr>)"
    using inv busy rows by (auto simp: jobs_inv_def busy_ids_def)
  show "jobs_inv (s\<lparr>js_rows := ?rows, js_busy := (w, j) # js_busy s, js_log := js_log s @ [jb_id r]\<rparr>)"
    if "jb_id j = jb_id r"
    using inv busy rows started free that by (auto simp: jobs_inv_def busy_ids_def)
qed

text \<open>Whatever a handler returns, the job's row keeps its counters, and is retried only while attempts
  remain.\<close>

definition settles :: "job_table \<Rightarrow> string \<Rightarrow> job_table \<Rightarrow> bool" where
  "settles rows i rows' \<longleftrightarrow> (\<exists>f. rows' = update_job i f rows
     \<and> (\<forall>r. jb_id (f r) = jb_id r \<and> jb_retry_count (f r) = jb_retry_count r \<and> jb_max_retries (f r) = jb_max_retries r)
     \<and> (\<forall>r \<in> set rows. jb_id r = i \<longrightarrow> jb_status (f r) \<in> {jb_status r, JobCompleted, JobFailed}
          \<or> jb_status (f r) = JobRetrying \<and> jb_retry_count r < jb_max_retries r))"

lemma settles_same: "settles rows i rows"
  unfolding settles_def by (intro exI [of _ id]) (simp add: update_job_def id_def)

lemma complete_settles: "settles rows i (snd (complete_job fault now i rows))"
proof (cases fault)
  case None
  then show ?thesis unfolding settles_def
    by (intro exI [of _ "\<lambda>r. r\<lparr>jb_status := JobCompleted, jb_completed_at := Some now\<rparr>"]) (simp add: complete_job_def)
qed (simp add: complete_job_def settles_same)

lemma fail_settles:
  assumes "distinct (map jb_id rows)"
  shows "settles rows i (snd (fail_job fault now policy i err rows))"
proof (cases "List.find (\<lambda>r. jb_id r = i) rows")
  case (Some row)
  then have row: "row \<in> set rows" "jb_id row = i" by (auto simp: find_Some_iff)
  show ?thesis
  proof (cases "fault = None")
    case True
    let ?f = "if jb_retry_count row < jb_max_retries row
      then (\<lambda>r. r\<lparr>jb_status := JobRetrying, jb_error_message := Some err,
              jb_scheduled_at := now + next_delay_secs policy (jb_retry_count row)\<rparr>)
      else (\<lambda>r. r\<lparr>jb_status := JobFailed, jb_error_message := Some err, jb_completed_at := Some now\<rparr>)"
    have "snd (fail_job fault now policy i err rows) = update_job i ?f rows" using Some True by (simp add: fail_job_def)
    then show ?thesis unfolding settles_def
      using same_row [OF assms row(1)] row(2) by (intro exI [of _ ?f]) auto
  qed (use Some in \<open>auto simp: fail_job_def settles_same\<close>)
qed (simp add: fail_job_def settles_same)

lemma finish_settles:
  "distinct (map jb_id rows) \<Longrightarrow> settles rows (jb_id j) (finish_job H fault now result j rows)"
  by (simp add: finish_job_def Let_def complete_settles fail_settles settles_same split: sum.splits)

lemma inv_settles:
  assumes "jobs_inv s" and "settles (js_rows s) i rows'" and "set busy \<subseteq> set (js_busy s)"
    and "distinct (map (\<lambda>x. jb_id (snd x)) busy)" and "i \<notin> (\<lambda>x. jb_id (snd x)) ` set busy"
  shows "jobs_inv (s\<lparr>js_rows := rows', js_busy := busy\<rparr>)"
proof -
  note inv = assms(1) [unfolded jobs_inv_def]
  obtain f where f: "rows' = update_job i f (js_rows s)"
      "\<And>r. jb_id (f r) = jb_id r \<and> jb_retry_count (f r) = jb_retry_count r \<and> jb_max_retries (f r) = jb_max_retries r"
      "\<And>r. r \<in> set (js_rows s) \<Longrightarrow> jb_id r = i \<Longrightarrow> jb_status (f r) \<in> {jb_status r, JobCompleted, JobFailed}
        \<or> jb_status (f r) = JobRetrying \<and> jb_retry_count r < jb_max_retries r"
    using assms(2) unfolding settles_def by blast
  have "row_ok (js_log s) (f r)" if "r \<in> set (js_rows s)" "jb_id r = i" for r
    using inv f(2) [of r] f(3) [OF that] that by (auto simp: row_ok_def)
  then have "\<forall>r \<in> set rows'. row_ok (js_log s) r" using inv by (auto simp: f(1) set_update_job)
  moreover have "\<exists>r \<in> set rows'. jb_id r = k \<and> jb_status r = JobRunning" if "k \<in> (\<lambda>x. jb_id (snd x)) ` set busy" for k
  proof -
    have "k \<in> set (busy_ids s)" "k \<noteq> i" using that assms(3,5) by (auto simp: busy_ids_def)
    with inv obtain r where "r \<in> set (js_rows s)" "jb_id r = k" "jb_status r = JobRunning" by blast
    with \<open>k \<noteq> i\<close> show ?thesis by (auto simp: f(1) set_update_job intro!: bexI [of _ r] rev_image_eqI)
  qed
  moreover have "map jb_id rows' = map jb_id (js_rows s)" using f(1,2) by simp
  ultimately show ?thesis using inv assms(4) by (auto simp: jobs_inv_def busy_ids_def)
qed

lemma job_step_inv: "job_step undecodable H s s' \<Longrightarrow> jobs_inv s \<Longrightarrow> jobs_inv s'"
proof (induction rule: job_step.induct)
  case (Enqueue i s fault now t p prio mx)
  then show ?case by (auto simp: enqueue_job_def jobs_inv_def busy_ids_def row_ok_def count_list_0_iff split: option.splits)
next
  case (Take fault w now s j rows')
  from Take(1) obtain r where r: "r \<in> set (js_rows s)" "due now r"
    "rows' = update_job (jb_id r) (start_job w now) (js_rows s)" "j = start_job w now r"
    by (rule dequeue_started) auto
  then show ?case using inv_start(3) [OF Take(2) r(1,2), of j] by simp
next
  case (Drop fault w now s e rows')
  from Drop(1) obtain r where "r \<in> set (js_rows s)" "due now r" "rows' = update_job (jb_id r) (start_job w now) (js_rows s)"
    by (rule dequeue_started) auto
  then show ?case using inv_start(2) [OF Drop(2)] by simp
next
  case (Finish s xs w j ys fault now result)
  then show ?case
    by (intro inv_settles [where i = "jb_id j"] finish_settles) (auto simp: jobs_inv_def busy_ids_def)
next
  case (Crash s xs w j ys)
  then have "jobs_inv (s\<lparr>js_rows := js_rows s, js_busy := xs @ ys\<rparr>)"
    by (intro inv_settles [where i = "jb_id j"] settles_same) (auto simp: jobs_inv_def busy_ids_def)
  then show ?case by simp
next
  case (Cleanup s now days)
  then show ?case
    by (force simp: cleanup_old_jobs_def jobs_inv_def busy_ids_def distinct_map_filter)
qed

lemma jobs_inv_reachable: "(job_step undecodable H)\<^sup>*\<^sup>* job_init s \<Longrightarrow> jobs_inv s"
proof (induction rule: rtranclp_induct)
  case base
  show ?case by (simp add: jobs_inv_def job_init_def busy_ids_def)
qed (rule job_step_inv)

text \<open>\<^bold>\<open>C23.\<close> Jobs are executed by one worker at a time and a bounded number of times: whatever workers do, fail
  and crash, no two of them hold the same job, and a job that is stored was started at most as often
  as its \<open>max_retries\<close> says, and once if that is less than one.\<close>

theorem jobs_run_bounded:
  assumes "(job_step undecodable H)\<^sup>*\<^sup>* job_init s"
  shows "distinct (busy_ids s) \<and> (\<forall>r \<in> set (js_rows s). int (count_list (js_log s) (jb_id r)) \<le> max 1 (jb_max_retries r))"
  using jobs_inv_reachable [OF assms] unfolding jobs_inv_def row_ok_def by fastforce

definition demo_job_row :: job_row where
  "demo_job_row = \<lparr>jb_id = ''j'', jb_job_type = ''cleanup_data'', jb_payload = JNull, jb_status = JobPending, jb_retry_count = 0,
     jb_max_retries = 1, jb_created_at = 0, jb_scheduled_at = 0, jb_started_at = None, jb_completed_at = None,
     jb_error_message = None, jb_worker_id = None, jb_priority = Some 0\<rparr>"

definition demo_taken :: job_system where
  "demo_taken = \<lparr>js_rows = [start_job ''w'' 5 demo_job_row], js_busy = [(''w'', start_job ''w'' 5 demo_job_row)], js_log = [''j'']\<rparr>"

lemma demo_taken_reachable: "(job_step (\<lambda>_. None) H)\<^sup>*\<^sup>* job_init demo_taken"
proof -
  have "job_step (\<lambda>_. None) H job_init
      (job_init\<lparr>js_rows := snd (enqueue_job None ''j'' 0 ''cleanup_data'' JNull 0 1 (js_rows job_init))\<rparr>)"
    by (rule job_step.Enqueue) (simp_all add: job_init_def)
  moreover have "job_init\<lparr>js_rows := snd (enqueue_job None ''j'' 0 ''cleanup_data'' JNull 0 1 (js_rows job_init))\<rparr>
      = \<lparr>js_rows = [demo_job_row], js_busy = [], js_log = []\<rparr>" (is "_ = ?queued")
    by (simp add: job_init_def enqueue_job_def demo_job_row_def)
  moreover have "job_step (\<lambda>_. None) H ?queued (?queued\<lparr>js_rows := [start_job ''w'' 5 demo_job_row],
      js_busy := (''w'', start_job ''w'' 5 demo_job_row) # js_busy ?queued, js_log := js_log ?queued @ [jb_id (start_job ''w'' 5 demo_job_row)]\<rparr>)"
    by (rule job_step.Take [where fault = None and now = 5])
      (simp add: dequeue_def next_job_def due_def update_job_def demo_job_row_def)
  ultimately show ?thesis by (simp add: demo_taken_def demo_job_row_def)
qed

theorem jobs_run_bounded_witness:
  "distinct (busy_ids demo_taken) \<and> int (count_list (js_log demo_taken) ''j'') \<le> 1"
  using jobs_run_bounded [OF demo_taken_reachable] by (simp add: demo_taken_def demo_job_row_def)

text \<open>A job that runs on paper only.\<close>

definition orphaned :: "job_system \<Rightarrow> job_row \<Rightarrow> bool" where
  "orphaned s r \<longleftrightarrow> r \<in> set (js_rows s) \<and> jb_status r = JobRunning \<and> jb_id r \<notin> set (busy_ids s)"

lemma orphaned_update: "orphaned s r \<Longrightarrow> i \<noteq> jb_id r \<Longrightarrow> r \<in> set (update_job i f (js_rows s))"
  by (auto simp: orphaned_def set_update_job intro!: rev_image_eqI)

lemma orphaned_step: "job_step undecodable H s s' \<Longrightarrow> jobs_inv s \<Longrightarrow> orphaned s r \<Longrightarrow> orphaned s' r"
proof (induction rule: job_step.induct)
  case (Enqueue i s fault now t p prio mx)
  then show ?case by (auto simp: orphaned_def enqueue_job_def busy_ids_def split: option.splits)
next
  case (Take fault w now s j rows')
  from Take(1) obtain x where x: "x \<in> set (js_rows s)" "due now x"
    "rows' = update_job (jb_id x) (start_job w now) (js_rows s)" "j = start_job w now x" by (rule dequeue_started) auto
  then have "jb_id x \<noteq> jb_id r" using Take(2,3) same_row [of "js_rows s" r x] by (auto simp: orphaned_def jobs_inv_def due_def)
  then show ?case using Take(3) orphaned_update [OF Take(3)] x by (auto simp: orphaned_def busy_ids_def)
next
  case (Drop fault w now s e rows')
  from Drop(1) obtain x where x: "x \<in> set (js_rows s)" "due now x"
    "rows' = update_job (jb_id x) (start_job w now) (js_rows s)" by (rule dequeue_started) auto
  then have "jb_id x \<noteq> jb_id r" using Drop(2,3) same_row [of "js_rows s" r x] by (auto simp: orphaned_def jobs_inv_def due_def)
  then show ?case using Drop(3) orphaned_update [OF Drop(3)] x by (auto simp: orphaned_def busy_ids_def)
next
  case (Finish s xs w j ys fault now result)
  then have "jb_id j \<noteq> jb_id r" by (auto simp: orphaned_def busy_ids_def)
  moreover obtain f where "finish_job H fault now result j (js_rows s) = update_job (jb_id j) f (js_rows s)"
    using finish_settles Finish(2) unfolding settles_def jobs_inv_def by blast
  ultimately show ?case using Finish(1,3) orphaned_update [OF Finish(3)] by (auto simp: orphaned_def busy_ids_def)
qed (auto simp: orphaned_def busy_ids_def cleanup_old_jobs_def)

text \<open>A crashed job is lost: once a worker has died with a job in hand, or a row could not be decoded,
  the job stays \<open>running\<close>, unchanged and with nobody running it, through every later step: it is never
  retried, reported or cleaned up.\<close>

theorem crashed_job_is_lost:
  assumes "(job_step undecodable H)\<^sup>*\<^sup>* job_init s" and "orphaned s r" and "(job_step undecodable H)\<^sup>*\<^sup>* s s'"
  shows "orphaned s' r"
  using assms(3)
proof (induction rule: rtranclp_induct)
  case (step y z)
  have "jobs_inv y" using assms(1) step(1) by (intro jobs_inv_reachable) (rule rtranclp_trans)
  with step show ?case using orphaned_step by blast
qed (rule assms(2))

definition demo_job_handlers :: job_handlers where
  "demo_job_handlers = \<lparr>jh_registered = (\<lambda>_. True), jh_policy = (\<lambda>_. retry_policy_default)\<rparr>"

theorem crashed_job_is_lost_witness:
  "orphaned (demo_taken\<lparr>js_busy := [], js_rows := snd (cleanup_old_jobs 100000000 1 (js_rows demo_taken))\<rparr>)
     (start_job ''w'' 5 demo_job_row)"
proof -
  let ?crashed = "demo_taken\<lparr>js_busy := []\<rparr>"
  have "job_step (\<lambda>_. None) demo_job_handlers demo_taken (demo_taken\<lparr>js_busy := [] @ []\<rparr>)"
    by (rule job_step.Crash) (simp add: demo_taken_def)
  then have reach: "(job_step (\<lambda>_. None) demo_job_handlers)\<^sup>*\<^sup>* job_init ?crashed"
    using demo_taken_reachable [of demo_job_handlers] by simp
  have later: "(job_step (\<lambda>_. None) demo_job_handlers)\<^sup>*\<^sup>* ?crashed
      (?crashed\<lparr>js_rows := snd (cleanup_old_jobs 100000000 1 (js_rows ?crashed))\<rparr>)"
    by (rule r_into_rtranclp, rule job_step.Cleanup)
  have "orphaned ?crashed (start_job ''w'' 5 demo_job_row)"
    by (simp add: orphaned_def demo_taken_def busy_ids_def)
  from crashed_job_is_lost [OF reach this later] show ?thesis by simp
qed

end
