(* ===== verification/Teams.thy ===== *)
theory Teams
  imports Complex_Main Amounts "HOL-Library.List_Lexorder" "HOL-Library.Char_ord"
begin

text \<open>
  Teams of creators and the division of a tip among them (\<open>src/controllers/team_controller.rs\<close>,
  \<open>src/models/team.rs\<close>, the tables of \<open>migrations/0037_create_teams.sql\<close>). A statement may fail with any
  error, given per statement; a transaction that is not committed leaves the tables as they were. Text
  columns are ordered bytewise. The arithmetic of the \<open>rust_decimal\<close> crate is a parameter whose
  operations may panic (\<open>None\<close>); what the code relies on is the locale \<open>decimal_library\<close>. The sums of
  shares wrap at 32 bits, as in a release build.
\<close>

section \<open>Tables\<close>

record team =
  tm_id :: string
  tm_name :: string
  tm_owner_username :: string
  tm_created_at :: int

record team_member =
  mb_team_id :: string
  mb_creator_username :: string
  mb_share_percentage :: int
  mb_added_at :: int

record tip_split =
  sp_id :: string
  sp_tip_id :: string
  sp_team_id :: string
  sp_member_username :: string
  sp_amount :: string
  sp_created_at :: int

record team_db =
  td_creators :: "string set"
  td_tips :: "string set"
  td_teams :: "team list"
  td_members :: "team_member list"
  td_splits :: "tip_split list"

record member_request =
  mr_creator_username :: string
  mr_share_percentage :: int

record create_team_request =
  ct_name :: string
  ct_owner_username :: string
  ct_members :: "member_request list option"

definition valid_member_request :: "member_request \<Rightarrow> bool" where
  "valid_member_request r \<longleftrightarrow> 3 \<le> char_count (mr_creator_username r) \<and> char_count (mr_creator_username r) \<le> 30
     \<and> 1 \<le> mr_share_percentage r"

definition valid_create_team :: "create_team_request \<Rightarrow> bool" where
  "valid_create_team r \<longleftrightarrow> 3 \<le> char_count (ct_name r) \<and> char_count (ct_name r) \<le> 50
     \<and> 3 \<le> char_count (ct_owner_username r) \<and> char_count (ct_owner_username r) \<le> 30
     \<and> (case ct_members r of None \<Rightarrow> True | Some ms \<Rightarrow> list_all valid_member_request ms)"

definition wrap_i32 :: "int \<Rightarrow> int" where
  "wrap_i32 x = (x + 2 ^ 31) mod 2 ^ 32 - 2 ^ 31"

lemma wrap_i32_id: "0 \<le> x \<Longrightarrow> x < 2 ^ 31 \<Longrightarrow> wrap_i32 x = x"
  by (simp add: wrap_i32_def)

section \<open>Statements\<close>

definition insert_team :: "sqlx_error option \<Rightarrow> team \<Rightarrow> team_db \<Rightarrow> sqlx_error + team_db" where
  "insert_team fault t db =
     (case fault of Some e \<Rightarrow> Err e
      | None \<Rightarrow>
          if tm_id t \<in> tm_id ` set (td_teams db) then Err (SqlxDatabase (Some ''23505'') (Some ''teams_pkey''))
          else if tm_name t \<in> tm_name ` set (td_teams db) then Err (SqlxDatabase (Some ''23505'') (Some ''teams_name_key''))
          else if tm_owner_username t \<notin> td_creators db
          then Err (SqlxDatabase (Some ''23503'') (Some ''teams_owner_username_fkey''))
          else Ok (db\<lparr>td_teams := td_teams db @ [t]\<rparr>))"

definition insert_member :: "sqlx_error option \<Rightarrow> team_member \<Rightarrow> team_db \<Rightarrow> sqlx_error + team_db" where
  "insert_member fault m db =
     (case fault of Some e \<Rightarrow> Err e
      | None \<Rightarrow>
          if mb_share_percentage m \<le> 0
          then Err (SqlxDatabase (Some ''23514'') (Some ''team_members_share_percentage_check''))
          else if mb_creator_username m \<in> mb_creator_username ` set (td_members db)
          then Err (SqlxDatabase (Some ''23505'') (Some ''team_members_creator_unique''))
          else if mb_team_id m \<notin> tm_id ` set (td_teams db) \<or> mb_creator_username m \<notin> td_creators db
          then Err (SqlxDatabase (Some ''23503'') (Some ''team_members_fkey''))
          else Ok (db\<lparr>td_members := td_members db @ [m]\<rparr>))"

definition insert_split :: "sqlx_error option \<Rightarrow> tip_split \<Rightarrow> team_db \<Rightarrow> sqlx_error + team_db" where
  "insert_split fault r db =
     (case fault of Some e \<Rightarrow> Err e
      | None \<Rightarrow>
          if sp_id r \<in> sp_id ` set (td_splits db) then Err (SqlxDatabase (Some ''23505'') (Some ''tip_splits_pkey''))
          else if sp_tip_id r \<notin> td_tips db \<or> sp_team_id r \<notin> tm_id ` set (td_teams db) \<or> sp_member_username r \<notin> td_creators db
          then Err (SqlxDatabase (Some ''23503'') (Some ''tip_splits_fkey''))
          else Ok (db\<lparr>td_splits := td_splits db @ [r]\<rparr>))"

text \<open>\<open>SELECT \<dots> WHERE team_id = $1 ORDER BY creator_username ASC\<close>.\<close>

definition members_of :: "string \<Rightarrow> team_db \<Rightarrow> team_member list" where
  "members_of team_id db = sort_key mb_creator_username (filter (\<lambda>m. mb_team_id m = team_id) (td_members db))"

section \<open>Operations on teams\<close>

definition team_invalid :: "string \<Rightarrow> app_error" where
  "team_invalid message = Validation (InvalidRequest message)"

definition member_conflict :: "string \<Rightarrow> sqlx_error \<Rightarrow> app_error" where
  "member_conflict message e =
     (case e of SqlxDatabase code c \<Rightarrow> if code = Some ''23505'' then Conflict ''TEAM_MEMBER_CONFLICT'' message else app_error_from_sqlx e
      | SqlxOther \<Rightarrow> app_error_from_sqlx e)"

fun total_of_distinct :: "string set \<Rightarrow> int \<Rightarrow> member_request list \<Rightarrow> app_error + int" where
  "total_of_distinct seen shares [] = Ok shares"
| "total_of_distinct seen shares (m # ms) =
     (if mr_creator_username m \<in> seen then Err (team_invalid ''Duplicate team member username'')
      else total_of_distinct (insert (mr_creator_username m) seen) (wrap_i32 (shares + mr_share_percentage m)) ms)"

fun insert_members ::
  "(nat \<Rightarrow> sqlx_error option) \<Rightarrow> nat \<Rightarrow> string \<Rightarrow> int \<Rightarrow> member_request list \<Rightarrow> team_db \<Rightarrow> app_error + team_db" where
  "insert_members fault k team_id now [] db = Ok db"
| "insert_members fault k team_id now (m # ms) db =
     (case insert_member (fault k) \<lparr>mb_team_id = team_id, mb_creator_username = mr_creator_username m,
             mb_share_percentage = mr_share_percentage m, mb_added_at = now\<rparr> db of
        Err e \<Rightarrow> Err (member_conflict ''A team member already belongs to another team or this member is already added'' e)
      | Ok db' \<Rightarrow> insert_members fault (Suc k) team_id now ms db')"

text \<open>Statement 0 is \<open>BEGIN\<close>, 1 the insert of the team, then one per member and the \<open>COMMIT\<close>.\<close>

definition member_requests :: "create_team_request \<Rightarrow> member_request list" where
  "member_requests req =
     (let ms = (case ct_members req of None \<Rightarrow> [] | Some ms \<Rightarrow> ms) in
      if ms = [] then [\<lparr>mr_creator_username = ct_owner_username req, mr_share_percentage = 100\<rparr>] else ms)"

definition create_team ::
  "(nat \<Rightarrow> sqlx_error option) \<Rightarrow> string \<Rightarrow> int \<Rightarrow> create_team_request \<Rightarrow> team_db \<Rightarrow> (app_error + team \<times> team_member list) \<times> team_db" where
  "create_team fault i now req db =
     (let ms = member_requests req;
          t = \<lparr>tm_id = i, tm_name = ct_name req, tm_owner_username = ct_owner_username req, tm_created_at = now\<rparr> in
      case total_of_distinct {} 0 ms of
        Err e \<Rightarrow> (Err e, db)
      | Ok shares \<Rightarrow>
          if shares \<le> 0 then (Err (team_invalid ''Team member share percentages must total more than zero''), db)
          else if fault 0 \<noteq> None then (Err Internal, db)
          else (case insert_team (fault 1) t db of
                  Err e \<Rightarrow> (Err (app_error_from_sqlx e), db)
                | Ok db1 \<Rightarrow>
                    (case insert_members fault 2 i now ms db1 of
                       Err e \<Rightarrow> (Err e, db)
                     | Ok db2 \<Rightarrow>
                         (case fault (2 + length ms) of
                            Some e \<Rightarrow> (Err (app_error_from_sqlx e), db)
                          | None \<Rightarrow> (Ok (t, drop (length (td_members db)) (td_members db2)), db2)))))"

definition get_team :: "(nat \<Rightarrow> sqlx_error option) \<Rightarrow> string \<Rightarrow> team_db \<Rightarrow> app_error + team \<times> team_member list" where
  "get_team fault team_id db =
     (case (fault 0, List.find (\<lambda>t. tm_id t = team_id) (td_teams db)) of
        (Some e, _) \<Rightarrow> Err (app_error_from_sqlx e)
      | (None, None) \<Rightarrow> Err (app_error_from_sqlx SqlxOther)
      | (None, Some t) \<Rightarrow>
          (case fault 1 of Some e \<Rightarrow> Err (app_error_from_sqlx e) | None \<Rightarrow> Ok (t, members_of team_id db)))"

definition add_member ::
  "sqlx_error option \<Rightarrow> string \<Rightarrow> int \<Rightarrow> member_request \<Rightarrow> team_db \<Rightarrow> (app_error + team_member) \<times> team_db" where
  "add_member fault team_id now req db =
     (let m = \<lparr>mb_team_id = team_id, mb_creator_username = mr_creator_username req,
               mb_share_percentage = mr_share_percentage req, mb_added_at = now\<rparr> in
      case insert_member fault m db of
        Err e \<Rightarrow> (Err (member_conflict ''A team member already belongs to another team or is already a member of this team'' e), db)
      | Ok db' \<Rightarrow> (Ok m, db'))"

definition update_member_share ::
  "sqlx_error option \<Rightarrow> string \<Rightarrow> string \<Rightarrow> int \<Rightarrow> team_db \<Rightarrow> (app_error + team_member) \<times> team_db" where
  "update_member_share fault team_id username share db =
     (let here = (\<lambda>m. mb_team_id m = team_id \<and> mb_creator_username m = username) in
      case (fault, List.find here (td_members db)) of
        (Some e, _) \<Rightarrow> (Err (app_error_from_sqlx e), db)
      | (None, None) \<Rightarrow> (Err (app_error_from_sqlx SqlxOther), db)
      | (None, Some m) \<Rightarrow>
          if share \<le> 0
          then (Err (app_error_from_sqlx (SqlxDatabase (Some ''23514'') (Some ''team_members_share_percentage_check''))), db)
          else (Ok (m\<lparr>mb_share_percentage := share\<rparr>),
                db\<lparr>td_members := map (\<lambda>m. if here m then m\<lparr>mb_share_percentage := share\<rparr> else m) (td_members db)\<rparr>))"

definition remove_member :: "sqlx_error option \<Rightarrow> string \<Rightarrow> string \<Rightarrow> team_db \<Rightarrow> (app_error + unit) \<times> team_db" where
  "remove_member fault team_id username db =
     (case fault of
        Some e \<Rightarrow> (Err (app_error_from_sqlx e), db)
      | None \<Rightarrow> (Ok (), db\<lparr>td_members := filter (\<lambda>m. \<not> (mb_team_id m = team_id \<and> mb_creator_username m = username)) (td_members db)\<rparr>))"

section \<open>Splitting a tip\<close>

record 'd dec_ops =
  dc_parse :: "string \<Rightarrow> 'd option"
  dc_to_string :: "'d \<Rightarrow> string"
  dc_from_i32 :: "int \<Rightarrow> 'd"
  dc_zero :: 'd
  dc_add :: "'d \<Rightarrow> 'd \<Rightarrow> 'd option"
  dc_sub :: "'d \<Rightarrow> 'd \<Rightarrow> 'd option"
  dc_mul :: "'d \<Rightarrow> 'd \<Rightarrow> 'd option"
  dc_div :: "'d \<Rightarrow> 'd \<Rightarrow> 'd option"
  dc_round_dp7 :: "'d \<Rightarrow> 'd"

text \<open>A member's amount and the new running total: the last member gets what is left.\<close>

definition member_amount :: "'d dec_ops \<Rightarrow> int \<Rightarrow> 'd \<Rightarrow> bool \<Rightarrow> int \<Rightarrow> 'd \<Rightarrow> ('d \<times> 'd) option" where
  "member_amount D shares amount is_last share acc =
     (if is_last then map_option (\<lambda>d. (d, acc)) (dc_sub D amount acc)
      else Option.bind (dc_div D (dc_from_i32 D share) (dc_from_i32 D shares)) (\<lambda>percent.
           Option.bind (dc_mul D amount percent) (\<lambda>product.
             let split = dc_round_dp7 D product in
             map_option (\<lambda>acc'. (split, acc')) (dc_add D acc split))))"

text \<open>The loop, with the statements of the transaction; a panic is \<open>None\<close>.\<close>

fun split_loop ::
  "'d dec_ops \<Rightarrow> (nat \<Rightarrow> sqlx_error option) \<Rightarrow> (nat \<Rightarrow> string) \<Rightarrow> int \<Rightarrow> string \<Rightarrow> string \<Rightarrow> int \<Rightarrow> 'd \<Rightarrow>
   nat \<Rightarrow> team_member list \<Rightarrow> 'd \<Rightarrow> team_db \<Rightarrow> (app_error + unit) option \<times> team_db" where
  "split_loop D fault ids now tip_id team_id shares amount k [] acc db = (Some (Ok ()), db)"
| "split_loop D fault ids now tip_id team_id shares amount k (m # ms) acc db =
     (case member_amount D shares amount (ms = []) (mb_share_percentage m) acc of
        None \<Rightarrow> (None, db)
      | Some (part, acc') \<Rightarrow>
          (case insert_split (fault (2 + k)) \<lparr>sp_id = ids k, sp_tip_id = tip_id, sp_team_id = team_id,
                  sp_member_username = mb_creator_username m, sp_amount = dc_to_string D part, sp_created_at = now\<rparr> db of
             Err e \<Rightarrow> (Some (Err (app_error_from_sqlx e)), db)
           | Ok db' \<Rightarrow> split_loop D fault ids now tip_id team_id shares amount (Suc k) ms acc' db'))"

text \<open>Runs in the caller's transaction, which the caller rolls back on an error.\<close>

definition record_tip_splits ::
  "'d dec_ops \<Rightarrow> (nat \<Rightarrow> sqlx_error option) \<Rightarrow> (nat \<Rightarrow> string) \<Rightarrow> int \<Rightarrow> string \<Rightarrow> string \<Rightarrow> string \<Rightarrow> team_db
     \<Rightarrow> (app_error + unit) option \<times> team_db" where
  "record_tip_splits D fault ids now tip_id recipient amount db =
     (case (fault 0, List.find (\<lambda>m. mb_creator_username m = recipient) (td_members db)) of
        (Some e, _) \<Rightarrow> (Some (Err (app_error_from_sqlx e)), db)
      | (None, None) \<Rightarrow> (Some (Ok ()), db)
      | (None, Some own) \<Rightarrow>
          let team_id = mb_team_id own; members = members_of team_id db in
          (case fault 1 of
             Some e \<Rightarrow> (Some (Err (app_error_from_sqlx e)), db)
           | None \<Rightarrow>
               if members = [] then (Some (Ok ()), db)
               else (case dc_parse D amount of
                       None \<Rightarrow> (Some (Err (team_invalid ''Invalid tip amount for split calculation'')), db)
                     | Some amount_decimal \<Rightarrow>
                         let shares = wrap_i32 (sum_list (map mb_share_percentage members)) in
                         if shares \<le> 0 then (Some (Ok ()), db)
                         else split_loop D fault ids now tip_id team_id shares amount_decimal 0 members (dc_zero D) db)))"

section \<open>The tables stay consistent\<close>

text \<open>A creator is in at most one team, every share is positive, every member's team and creator exist.\<close>

definition teams_inv :: "team_db \<Rightarrow> bool" where
  "teams_inv db \<longleftrightarrow> distinct (map tm_id (td_teams db)) \<and> distinct (map mb_creator_username (td_members db))
     \<and> (\<forall>m \<in> set (td_members db). 0 < mb_share_percentage m \<and> mb_team_id m \<in> tm_id ` set (td_teams db)
          \<and> mb_creator_username m \<in> td_creators db)"

lemma insert_team_inv: "insert_team fault t db = Ok db' \<Longrightarrow> teams_inv db \<Longrightarrow> teams_inv db'"
  by (auto simp: insert_team_def teams_inv_def split: option.splits if_splits)

lemma insert_member_inv: "insert_member fault m db = Ok db' \<Longrightarrow> teams_inv db \<Longrightarrow> teams_inv db'"
  by (auto simp: insert_member_def teams_inv_def split: option.splits if_splits)

lemma insert_members_inv: "insert_members fault k i now ms db = Ok db' \<Longrightarrow> teams_inv db \<Longrightarrow> teams_inv db'"
  by (induction ms arbitrary: k db) (auto split: sum.splits dest: insert_member_inv)

lemma create_team_inv: "teams_inv db \<Longrightarrow> teams_inv (snd (create_team fault i now req db))"
  by (auto simp: create_team_def Let_def split: sum.splits option.splits dest: insert_team_inv insert_members_inv)

lemma add_member_inv: "teams_inv db \<Longrightarrow> teams_inv (snd (add_member fault i now req db))"
  by (auto simp: add_member_def Let_def split: sum.splits dest: insert_member_inv)

lemma update_member_share_inv:
  assumes "teams_inv db"
  shows "teams_inv (snd (update_member_share fault i u share db))"
proof -
  have names: "map mb_creator_username (map (\<lambda>m. if P m then m\<lparr>mb_share_percentage := share\<rparr> else m) ms) = map mb_creator_username ms"
    for P ms by (induction ms) simp_all
  from assms show ?thesis
    by (auto simp: update_member_share_def teams_inv_def Let_def names simp del: map_map split: option.splits)
qed

lemma remove_member_inv: "teams_inv db \<Longrightarrow> teams_inv (snd (remove_member fault i u db))"
  by (auto simp: remove_member_def teams_inv_def distinct_map inj_on_def split: option.splits)

lemma insert_split_inv: "insert_split fault r db = Ok db' \<Longrightarrow> teams_inv db \<Longrightarrow> teams_inv db'"
  by (auto simp: insert_split_def teams_inv_def split: option.splits if_splits)

lemma split_loop_inv: "teams_inv db \<Longrightarrow> teams_inv (snd (split_loop D fault ids now t i shares a k ms acc db))"
  by (induction ms arbitrary: k acc db) (auto split: option.splits sum.splits dest: insert_split_inv)

lemma record_tip_splits_inv: "teams_inv db \<Longrightarrow> teams_inv (snd (record_tip_splits D fault ids now t r a db))"
  by (auto simp: record_tip_splits_def Let_def split_loop_inv split: option.splits)

inductive team_step :: "'d dec_ops \<Rightarrow> team_db \<Rightarrow> team_db \<Rightarrow> bool" for D where
  Create: "team_step D db (snd (create_team fault i now req db))"
| Add: "team_step D db (snd (add_member f i now mr db))"
| Update: "team_step D db (snd (update_member_share f i u share db))"
| Remove: "team_step D db (snd (remove_member f i u db))"
| Split: "team_step D db (snd (record_tip_splits D fault ids now t r a db))"

lemma team_step_inv: "team_step D db db' \<Longrightarrow> teams_inv db \<Longrightarrow> teams_inv db'"
  by (induction rule: team_step.induct)
    (simp_all add: create_team_inv add_member_inv update_member_share_inv remove_member_inv record_tip_splits_inv)

section \<open>Decimal arithmetic\<close>

text \<open>The value of a decimal in stroops when it is a whole number of them, in the range where sums are exact.\<close>

definition stroops_value :: "('d \<Rightarrow> rat) \<Rightarrow> 'd \<Rightarrow> int \<Rightarrow> bool" where
  "stroops_value val d k \<longleftrightarrow> val d = of_int k / 10 ^ 7 \<and> \<bar>k\<bar> \<le> 4 * 10 ^ 18"

text \<open>The amount a stored split stands for, and a split that gives a member a share of \<open>x\<close> up to \<open>e\<close>.\<close>

definition split_value :: "'d dec_ops \<Rightarrow> ('d \<Rightarrow> rat) \<Rightarrow> tip_split \<Rightarrow> rat" where
  "split_value D val r = (case dc_parse D (sp_amount r) of None \<Rightarrow> 0 | Some d \<Rightarrow> val d)"

definition fair_split :: "'d dec_ops \<Rightarrow> ('d \<Rightarrow> rat) \<Rightarrow> string \<Rightarrow> string \<Rightarrow> rat \<Rightarrow> rat \<Rightarrow> int \<Rightarrow> team_member \<Rightarrow> tip_split \<Rightarrow> bool" where
  "fair_split D val tip team x e shares m r \<longleftrightarrow> sp_tip_id r = tip \<and> sp_team_id r = team \<and> sp_member_username r = mb_creator_username m
     \<and> \<bar>split_value D val r - x * (of_int (mb_share_percentage m) / of_int shares)\<bar> \<le> e"

text \<open>The rows a split may refer to exist and the ids are new.\<close>

definition can_insert_splits :: "(nat \<Rightarrow> string) \<Rightarrow> nat \<Rightarrow> string \<Rightarrow> string \<Rightarrow> team_member list \<Rightarrow> team_db \<Rightarrow> bool" where
  "can_insert_splits ids k tip team ms db \<longleftrightarrow> inj ids \<and> (\<forall>i \<ge> k. ids i \<notin> sp_id ` set (td_splits db)) \<and> tip \<in> td_tips db
     \<and> team \<in> tm_id ` set (td_teams db) \<and> (\<forall>m \<in> set ms. mb_creator_username m \<in> td_creators db)"

lemma can_insert_splits_Cons:
  assumes "can_insert_splits ids k tip team (m # ms) db" and "sp_id r = ids k" "sp_tip_id r = tip" "sp_team_id r = team"
    "sp_member_username r = mb_creator_username m"
  shows "insert_split None r db = Ok (db\<lparr>td_splits := td_splits db @ [r]\<rparr>)"
    and "can_insert_splits ids (Suc k) tip team ms (db\<lparr>td_splits := td_splits db @ [r]\<rparr>)"
  using assms by (auto simp: can_insert_splits_def insert_split_def inj_eq)

text \<open>What the documentation of the crate gives for a 96-bit mantissa: sums and differences of such amounts are
  exact and print to a text that parses back, a quotient of two \<open>i32\<close> and a product with it carry at
  least the digits stated, and \<open>round_dp(7)\<close> gives a nearest multiple of a stroop.\<close>

locale decimal_library =
  fixes D :: "'d dec_ops" and val :: "'d \<Rightarrow> rat"
  assumes zero: "val (dc_zero D) = 0"
    and add_exact: "stroops_value val a i \<Longrightarrow> stroops_value val b j \<Longrightarrow> \<exists>c. dc_add D a b = Some c \<and> val c = val a + val b"
    and sub_exact: "stroops_value val a i \<Longrightarrow> stroops_value val b j \<Longrightarrow> \<exists>c. dc_sub D a b = Some c \<and> val c = val a - val b"
    and ratio: "0 < s \<Longrightarrow> s \<le> t \<Longrightarrow> t < 2 ^ 31 \<Longrightarrow>
      \<exists>p. dc_div D (dc_from_i32 D s) (dc_from_i32 D t) = Some p \<and> \<bar>val p - of_int s / of_int t\<bar> \<le> 1 / 10 ^ 27"
    and product: "0 \<le> val a \<Longrightarrow> val a \<le> 10 ^ 11 \<Longrightarrow> \<bar>val p\<bar> \<le> 2 \<Longrightarrow>
      \<exists>q. dc_mul D a p = Some q \<and> \<bar>val q - val a * val p\<bar> \<le> 1 / 10 ^ 9"
    and nearest: "\<exists>k. val (dc_round_dp7 D x) = of_int k / 10 ^ 7 \<and> \<bar>val (dc_round_dp7 D x) - val x\<bar> \<le> 1 / (2 * 10 ^ 7)"
    and printed: "stroops_value val d k \<Longrightarrow> \<exists>d'. dc_parse D (dc_to_string D d) = Some d' \<and> val d' = val d"
begin

lemma part:
  assumes "stroops_value val amount n" and "0 \<le> n" and "n \<le> 10 ^ 18" and "0 < s" and "s \<le> t" and "t < 2 ^ 31"
    and "stroops_value val acc j" and "\<bar>j\<bar> \<le> 2 * 10 ^ 18"
  shows "\<exists>d k acc'. member_amount D t amount False s acc = Some (d, acc') \<and> val d = of_int k / 10 ^ 7
    \<and> val acc' = of_int (j + k) / 10 ^ 7 \<and> \<bar>val d - val amount * (of_int s / of_int t)\<bar> \<le> 52 / 10 ^ 9"
proof -
  obtain p where p: "dc_div D (dc_from_i32 D s) (dc_from_i32 D t) = Some p" "\<bar>val p - of_int s / of_int t\<bar> \<le> 1 / 10 ^ 27"
    using ratio [OF assms(4-6)] by blast
  have st: "0 \<le> (of_int s :: rat) / of_int t" "(of_int s :: rat) / of_int t \<le> 1" using assms(4,5) by simp_all
  moreover have "(1 :: rat) / 10 ^ 27 \<le> 1" by simp
  ultimately have p2: "\<bar>val p\<bar> \<le> 2" using p(2) by linarith
  have am: "0 \<le> val amount" "val amount \<le> 10 ^ 11" using assms(1-3) by (auto simp: stroops_value_def)
  obtain q where q: "dc_mul D amount p = Some q" "\<bar>val q - val amount * val p\<bar> \<le> 1 / 10 ^ 9"
    using product [OF am p2] by blast
  obtain k where k: "val (dc_round_dp7 D q) = of_int k / 10 ^ 7" "\<bar>val (dc_round_dp7 D q) - val q\<bar> \<le> 1 / (2 * 10 ^ 7)"
    using nearest by blast
  have "\<bar>val amount * (val p - of_int s / of_int t)\<bar> \<le> 10 ^ 11 * (1 / 10 ^ 27)"
    unfolding abs_mult using am p(2) by (intro mult_mono) simp_all
  then have close: "\<bar>val amount * val p - val amount * (of_int s / of_int t)\<bar> \<le> 1 / 10 ^ 16"
    by (simp add: right_diff_distrib)
  have err: "\<bar>val (dc_round_dp7 D q) - val amount * (of_int s / of_int t)\<bar> \<le> 52 / 10 ^ 9"
  proof -
    have "(1 :: rat) / (2 * 10 ^ 7) + 1 / 10 ^ 9 + 1 / 10 ^ 16 \<le> 52 / 10 ^ 9" by simp
    then show ?thesis using k(2) q(2) close by linarith
  qed
  have "0 \<le> val amount * (of_int s / of_int t)" by (rule mult_nonneg_nonneg) (fact am(1), fact st(1))
  moreover have "val amount * (of_int s / of_int t) \<le> 10 ^ 11 * 1" by (rule mult_mono) (use am st in simp_all)
  moreover have "(52 :: rat) / 10 ^ 9 \<le> 1" by simp
  ultimately have "\<bar>of_int k / 10 ^ 7\<bar> \<le> (10 ^ 11 + 1 :: rat)" using err k(1) by linarith
  then have "\<bar>of_int k\<bar> \<le> (of_int (2 * 10 ^ 18) :: rat)" by (simp add: abs_divide divide_le_eq)
  then have "\<bar>k\<bar> \<le> 2 * 10 ^ 18" by linarith
  then have "stroops_value val (dc_round_dp7 D q) k" using k(1) by (simp add: stroops_value_def)
  from add_exact [OF assms(7) this] obtain acc' where "dc_add D acc (dc_round_dp7 D q) = Some acc'"
    "val acc' = val acc + val (dc_round_dp7 D q)" by blast
  then show ?thesis using p(1) q(1) k err assms(7)
    by (intro exI [of _ "dc_round_dp7 D q"] exI [of _ k] exI [of _ acc'])
      (simp add: member_amount_def Let_def stroops_value_def add_divide_distrib)
qed

lemma rest:
  assumes "stroops_value val amount n" and "0 \<le> n" and "n \<le> 10 ^ 18" and "stroops_value val acc j"
  shows "\<exists>d. member_amount D t amount True s acc = Some (d, acc) \<and> val d = of_int (n - j) / 10 ^ 7"
  using sub_exact [OF assms(1,4)] assms by (auto simp: member_amount_def stroops_value_def diff_divide_distrib)

lemma value_of_printed:
  "val d = of_int k / 10 ^ 7 \<Longrightarrow> \<bar>k\<bar> \<le> 4 * 10 ^ 18 \<Longrightarrow> sp_amount r = dc_to_string D d \<Longrightarrow> split_value D val r = val d"
  using printed [of d k] by (auto simp: split_value_def stroops_value_def)

lemma near_bounded:
  assumes "0 \<le> n" and "n \<le> 10 ^ 18" and "0 \<le> x" and "x \<le> (1 :: rat)" and "\<bar>of_int j / 10 ^ 7 - of_int n / 10 ^ 7 * x\<bar> \<le> of_int k / 10 ^ 7" and "k < 2 ^ 31"
  shows "\<bar>j\<bar> \<le> (2 * 10 ^ 18 :: int)"
proof -
  have "\<bar>of_int j - of_int n * x\<bar> \<le> (of_int k :: rat)"
    using assms(5) by (simp add: divide_le_cancel flip: diff_divide_distrib)
  moreover have "0 \<le> of_int n * x" using assms(1,3) by simp
  moreover have "of_int n * x \<le> of_int n * 1" using assms(1,4) by (intro mult_left_mono) simp_all
  ultimately have "of_int \<bar>j\<bar> \<le> (of_int (n + k) :: rat)" by simp
  then have "\<bar>j\<bar> \<le> n + k" by (simp only: of_int_le_iff)
  then show ?thesis using assms(2,6) by simp
qed

lemma split_loop_ok:
  assumes amount: "stroops_value val amount n" "0 \<le> n" "n \<le> 10 ^ 18" and t: "0 < t" "t < 2 ^ 31"
  shows "\<lbrakk>ms \<noteq> []; \<forall>m \<in> set ms. 0 < mb_share_percentage m; before + sum_list (map mb_share_percentage ms) = t;
      int k \<le> before; stroops_value val acc j; \<bar>val acc - val amount * (of_int before / of_int t)\<bar> \<le> of_nat k / 10 ^ 7;
      can_insert_splits ids k tip team ms db\<rbrakk> \<Longrightarrow>
    \<exists>rows. split_loop D (\<lambda>_. None) ids now tip team t amount k ms acc db = (Some (Ok ()), db\<lparr>td_splits := td_splits db @ rows\<rparr>)
      \<and> list_all2 (fair_split D val tip team (val amount) (of_nat (k + length ms) / 10 ^ 7) t) ms rows
      \<and> sum_list (map (split_value D val) rows) = val amount - val acc"
proof (induction ms arbitrary: before k acc j db)
  case (Cons m ms)
  let ?s = "mb_share_percentage m"
  have pos: "0 < ?s" and sums: "0 \<le> sum_list (map mb_share_percentage ms)" and k: "int k < 2 ^ 31"
  proof -
    show "0 < ?s" using Cons.prems(2) by simp
    show "0 \<le> sum_list (map mb_share_percentage ms)" using Cons.prems(2) by (intro sum_list_nonneg) force
    with \<open>0 < ?s\<close> show "int k < 2 ^ 31" using Cons.prems(3,4) t by simp
  qed
  have frac: "0 \<le> (of_int before :: rat) / of_int t" "(of_int before :: rat) / of_int t \<le> 1"
    using Cons.prems(3,4) pos sums t(1) by simp_all
  have vals: "val acc = of_int j / 10 ^ 7" "val amount = of_int n / 10 ^ 7"
    using Cons.prems(5) amount(1) by (simp_all add: stroops_value_def)
  have j: "\<bar>j\<bar> \<le> 2 * 10 ^ 18"
    using near_bounded [OF amount(2,3) frac _ k, of j] Cons.prems(6) vals by simp
  show ?case
  proof (cases "ms = []")
    case True
    then have s: "?s = t - before" using Cons.prems(3) by simp
    obtain d where d: "member_amount D t amount True ?s acc = Some (d, acc)" "val d = of_int (n - j) / 10 ^ 7"
      using rest [OF amount Cons.prems(5)] by blast
    define r where "r = \<lparr>sp_id = ids k, sp_tip_id = tip, sp_team_id = team, sp_member_username = mb_creator_username m,
      sp_amount = dc_to_string D d, sp_created_at = now\<rparr>"
    have ins: "insert_split None r db = Ok (db\<lparr>td_splits := td_splits db @ [r]\<rparr>)"
      by (rule can_insert_splits_Cons [OF Cons.prems(7)]) (simp_all add: r_def)
    have sv: "split_value D val r = val amount - val acc"
      using value_of_printed [OF d(2), of r] j amount(2,3) d(2) vals by (simp add: r_def diff_divide_distrib)
    have fair: "\<bar>split_value D val r - val amount * (of_int ?s / of_int t)\<bar> = \<bar>val acc - val amount * (of_int before / of_int t)\<bar>"
      using t(1) by (simp add: sv s diff_divide_distrib right_diff_distrib abs_minus_commute)
    have "of_nat k / 10 ^ 7 \<le> (of_nat (Suc k) / 10 ^ 7 :: rat)" by (simp add: divide_right_mono)
    with True d(1) ins sv fair Cons.prems(6) show ?thesis
      by (intro exI [of _ "[r]"]) (simp add: fair_split_def r_def [symmetric], simp add: r_def)
  next
    case False
    have le: "?s \<le> t" using Cons.prems(3,4) sums by simp
    obtain d i acc' where d: "member_amount D t amount False ?s acc = Some (d, acc')" "val d = of_int i / 10 ^ 7"
      "val acc' = of_int (j + i) / 10 ^ 7" "\<bar>val d - val amount * (of_int ?s / of_int t)\<bar> \<le> 1 / 10 ^ 7"
    proof -
      have "(52 :: rat) / 10 ^ 9 \<le> 1 / 10 ^ 7" by simp
      then show ?thesis using part [OF amount pos le t(2) Cons.prems(5) j] that by (meson order_trans)
    qed
    define r where "r = \<lparr>sp_id = ids k, sp_tip_id = tip, sp_team_id = team, sp_member_username = mb_creator_username m,
      sp_amount = dc_to_string D d, sp_created_at = now\<rparr>"
    note ins = can_insert_splits_Cons [OF Cons.prems(7), of r, unfolded r_def, simplified, folded r_def]
    have acc': "val acc' = val acc + val d" using d(2,3) vals by (simp add: add_divide_distrib)
    have near: "\<bar>val acc' - val amount * (of_int (before + ?s) / of_int t)\<bar> \<le> of_nat (Suc k) / 10 ^ 7"
    proof -
      have "val acc' - val amount * (of_int (before + ?s) / of_int t)
          = (val acc - val amount * (of_int before / of_int t)) + (val d - val amount * (of_int ?s / of_int t))"
        by (simp add: acc' add_divide_distrib distrib_left)
      moreover have "of_nat (Suc k) / 10 ^ 7 = of_nat k / 10 ^ 7 + (1 / 10 ^ 7 :: rat)" by (simp add: add_divide_distrib)
      ultimately show ?thesis using Cons.prems(6) d(4) by linarith
    qed
    have step: "int (Suc k) \<le> before + ?s" "0 \<le> (of_int (before + ?s) :: rat) / of_int t" "(of_int (before + ?s) :: rat) / of_int t \<le> 1"
      using Cons.prems(3,4) pos sums t(1) by simp_all
    have k': "int (Suc k) < 2 ^ 31" using step(1) Cons.prems(3) sums t(2) by simp
    have j': "\<bar>j + i\<bar> \<le> 2 * 10 ^ 18"
      using near_bounded [OF amount(2,3) step(2,3) _ k', of "j + i"] near d(3) vals(2) by simp
    then have "split_value D val r = val d" using value_of_printed [OF d(2), of r] j by (simp add: r_def)
    moreover have sv: "stroops_value val acc' (j + i)" using d(3) j' by (simp add: stroops_value_def)
    moreover have "before + ?s + sum_list (map mb_share_percentage ms) = t" using Cons.prems(3) by simp
    ultimately obtain rows where rows:
      "split_loop D (\<lambda>_. None) ids now tip team t amount (Suc k) ms acc' (db\<lparr>td_splits := td_splits db @ [r]\<rparr>)
         = (Some (Ok ()), db\<lparr>td_splits := (td_splits db @ [r]) @ rows\<rparr>)"
      "list_all2 (fair_split D val tip team (val amount) (of_nat (Suc k + length ms) / 10 ^ 7) t) ms rows"
      "sum_list (map (split_value D val) rows) = val amount - val acc'" "split_value D val r = val d"
      using Cons.IH [OF False _ _ step(1) sv near ins(2)] Cons.prems(2) by auto
    have "1 / 10 ^ 7 \<le> (of_nat (k + length (m # ms)) / 10 ^ 7 :: rat)" by (simp add: divide_right_mono)
    then have "fair_split D val tip team (val amount) (of_nat (k + length (m # ms)) / 10 ^ 7) t m r"
      using d(4) rows(4) by (simp add: fair_split_def r_def)
    with False d(1) ins(1) rows acc' show ?thesis
      by (intro exI [of _ "r # rows"]) (simp add: r_def [symmetric])
  qed
qed simp

text \<open>Three stroops among five equal members: each of the first four is rounded up to one.\<close>

lemma rounded_up:
  assumes "val amount = 3 / 10 ^ 7" and "5 * s = t" and "0 < s" and "t < 2 ^ 31" and "stroops_value val acc j" "\<bar>j\<bar> \<le> 2 * 10 ^ 18"
  shows "\<exists>d acc'. member_amount D t amount False s acc = Some (d, acc') \<and> val d = 1 / 10 ^ 7 \<and> val acc' = of_int (j + 1) / 10 ^ 7"
proof -
  have a: "stroops_value val amount 3" using assms(1) by (simp add: stroops_value_def)
  obtain d k acc' where d: "member_amount D t amount False s acc = Some (d, acc')" "val d = of_int k / 10 ^ 7"
    "val acc' = of_int (j + k) / 10 ^ 7" "\<bar>val d - val amount * (of_int s / of_int t)\<bar> \<le> 52 / 10 ^ 9"
    using part [OF a _ _ assms(3) _ assms(4,5,6)] assms(2,3) by auto
  have "(of_int s :: rat) / of_int t = 1 / 5" using assms(2,3) by auto
  with d(4) have "\<bar>of_int k / 10 ^ 7 - (3 :: rat) / 10 ^ 7 * (1 / 5)\<bar> \<le> 52 / 10 ^ 9" by (simp only: d(2) assms(1))
  then have "8 / 100 \<le> (of_int k :: rat) \<and> of_int k \<le> (112 / 100 :: rat)" unfolding abs_le_iff by simp
  then have "0 < (of_int k :: rat) \<and> of_int k < (2 :: rat)" by linarith
  then have "k = 1" by simp
  with d show ?thesis by auto
qed

lemma equal_shares_loop:
  assumes "val amount = 3 / 10 ^ 7" and "5 * s = t" and "0 < s" and "t < 2 ^ 31"
  shows "\<lbrakk>ms \<noteq> []; \<forall>m \<in> set ms. mb_share_percentage m = s; int (length ms) \<le> 5; stroops_value val acc j; \<bar>j\<bar> + int (length ms) \<le> 10 ^ 18;
      can_insert_splits ids k tip team ms db\<rbrakk> \<Longrightarrow>
    \<exists>rows r. split_loop D (\<lambda>_. None) ids now tip team t amount k ms acc db = (Some (Ok ()), db\<lparr>td_splits := td_splits db @ rows @ [r]\<rparr>)
      \<and> sp_member_username r = mb_creator_username (last ms) \<and> split_value D val r = of_int (4 - j - int (length ms)) / 10 ^ 7"
proof (induction ms arbitrary: k acc j db)
  case (Cons m ms)
  have s: "mb_share_percentage m = s" using Cons.prems(2) by simp
  have a: "stroops_value val amount 3" using assms(1) by (simp add: stroops_value_def)
  have acc: "val acc = of_int j / 10 ^ 7" using Cons.prems(4) by (simp add: stroops_value_def)
  show ?case
  proof (cases "ms = []")
    case True
    obtain d where d: "member_amount D t amount True s acc = Some (d, acc)" "val d = of_int (3 - j) / 10 ^ 7"
      using rest [OF a _ _ Cons.prems(4)] by auto
    define r where "r = \<lparr>sp_id = ids k, sp_tip_id = tip, sp_team_id = team, sp_member_username = mb_creator_username m,
      sp_amount = dc_to_string D d, sp_created_at = now\<rparr>"
    note ins = can_insert_splits_Cons [OF Cons.prems(6), of r, unfolded r_def, simplified, folded r_def]
    have "split_value D val r = val d" using value_of_printed [OF d(2), of r] Cons.prems(5) by (simp add: r_def)
    with True d ins s show ?thesis
      by (intro exI [of _ "[]"] exI [of _ r]) (simp add: r_def [symmetric], simp add: r_def)
  next
    case False
    obtain d acc' where d: "member_amount D t amount False s acc = Some (d, acc')" "val d = 1 / 10 ^ 7" "val acc' = of_int (j + 1) / 10 ^ 7"
      using rounded_up [OF assms Cons.prems(4)] Cons.prems(5) by auto
    define r where "r = \<lparr>sp_id = ids k, sp_tip_id = tip, sp_team_id = team, sp_member_username = mb_creator_username m,
      sp_amount = dc_to_string D d, sp_created_at = now\<rparr>"
    note ins = can_insert_splits_Cons [OF Cons.prems(6), of r, unfolded r_def, simplified, folded r_def]
    have "stroops_value val acc' (j + 1)" "\<bar>j + 1\<bar> + int (length ms) \<le> 10 ^ 18"
      using d(3) Cons.prems(5) by (auto simp: stroops_value_def)
    from Cons.IH [OF False _ _ this ins(2)] Cons.prems(2,3) obtain rows r' where
      "split_loop D (\<lambda>_. None) ids now tip team t amount (Suc k) ms acc' (db\<lparr>td_splits := td_splits db @ [r]\<rparr>)
         = (Some (Ok ()), db\<lparr>td_splits := (td_splits db @ [r]) @ rows @ [r']\<rparr>)"
      "sp_member_username r' = mb_creator_username (last ms)" "split_value D val r' = of_int (4 - (j + 1) - int (length ms)) / 10 ^ 7"
      by auto
    with False d(1) s ins(1) show ?thesis
      by (intro exI [of _ "r # rows"] exI [of _ r']) (simp add: r_def [symmetric])
  qed
qed simp

end

section \<open>An exact decimal\<close>

text \<open>Rational numbers, printed with seven decimals, meet the contract.\<close>

definition parse_rat :: "string \<Rightarrow> rat option" where
  "parse_rat s =
     (case strip_prefix ''-'' s of
        Some r \<Rightarrow> (case xlm_to_stroops r of Ok k \<Rightarrow> Some (- of_int k / 10 ^ 7) | Err _ \<Rightarrow> None)
      | None \<Rightarrow> (case xlm_to_stroops s of Ok k \<Rightarrow> Some (of_int k / 10 ^ 7) | Err _ \<Rightarrow> None))"

definition print_rat :: "rat \<Rightarrow> string" where
  "print_rat x = (let k = \<lfloor>x * 10 ^ 7\<rfloor> in (if k < 0 then ''-'' else []) @ horizon_amount (nat \<bar>k\<bar>))"

definition rat_decimal :: "rat dec_ops" where
  "rat_decimal = \<lparr>dc_parse = parse_rat, dc_to_string = print_rat, dc_from_i32 = of_int, dc_zero = 0,
     dc_add = (\<lambda>a b. Some (a + b)), dc_sub = (\<lambda>a b. Some (a - b)), dc_mul = (\<lambda>a b. Some (a * b)),
     dc_div = (\<lambda>a b. if b = 0 then None else Some (a / b)), dc_round_dp7 = (\<lambda>x. of_int (round (x * 10 ^ 7)) / 10 ^ 7)\<rparr>"

lemma parse_print_rat:
  assumes "\<bar>k\<bar> \<le> 4 * 10 ^ 18"
  shows "parse_rat (print_rat (of_int k / 10 ^ 7)) = Some (of_int k / 10 ^ 7)"
proof -
  have n: "xlm_to_stroops (horizon_amount (nat \<bar>k\<bar>)) = Ok \<bar>k\<bar>"
    using xlm_of_horizon_amount [of "nat \<bar>k\<bar>"] assms by (simp add: int_ranges)
  have "show_nat m \<noteq> []" "is_ascii_digit (hd (show_nat m))" for m
    using show_nat_digits [of m] by (auto simp: all_digits_def list_all_iff)
  then obtain c r where c: "show_nat (nat \<bar>k\<bar> div 10 ^ 7) = c # r" "is_ascii_digit c" by (metis list.collapse)
  then have "strip_prefix ''-'' (horizon_amount (nat \<bar>k\<bar>)) = None"
    using digit_not_sign [OF c(2)] by (auto simp: horizon_amount_def)
  with n show ?thesis by (auto simp: parse_rat_def print_rat_def)
qed

interpretation rd: decimal_library rat_decimal id
proof unfold_locales
  fix s t :: int
  assume "0 < s" "s \<le> t"
  then show "\<exists>p. dc_div rat_decimal (dc_from_i32 rat_decimal s) (dc_from_i32 rat_decimal t) = Some p
      \<and> \<bar>id p - of_int s / of_int t\<bar> \<le> 1 / 10 ^ 27" by (simp add: rat_decimal_def)
next
  fix x :: rat
  have "of_int (round (x * 10 ^ 7)) / 10 ^ 7 - x = (of_int (round (x * 10 ^ 7)) - x * 10 ^ 7) / 10 ^ 7"
    by (simp add: diff_divide_distrib)
  then have "\<bar>of_int (round (x * 10 ^ 7)) / 10 ^ 7 - x\<bar> = \<bar>of_int (round (x * 10 ^ 7)) - x * 10 ^ 7\<bar> / 10 ^ 7"
    by (simp only: abs_divide) simp
  also have "\<dots> \<le> (1 / 2) / 10 ^ 7" by (intro divide_right_mono of_int_round_abs_le) simp
  finally show "\<exists>k. id (dc_round_dp7 rat_decimal x) = of_int k / 10 ^ 7 \<and> \<bar>id (dc_round_dp7 rat_decimal x) - id x\<bar> \<le> 1 / (2 * 10 ^ 7)"
    by (auto simp: rat_decimal_def)
next
  fix d :: rat and k :: int
  assume "stroops_value id d k"
  then have "d = of_int k / 10 ^ 7" "\<bar>k\<bar> \<le> 4 * 10 ^ 18" by (simp_all only: stroops_value_def id_def)
  then have "parse_rat (print_rat d) = Some d" by (metis parse_print_rat)
  then show "\<exists>d'. dc_parse rat_decimal (dc_to_string rat_decimal d) = Some d' \<and> id d' = id d" by (simp add: rat_decimal_def)
qed (simp_all add: rat_decimal_def)

section \<open>Dividing a tip\<close>

lemma members_of_props:
  assumes "teams_inv db"
  shows "m \<in> set (members_of i db) \<longleftrightarrow> m \<in> set (td_members db) \<and> mb_team_id m = i"
    and "\<forall>m \<in> set (members_of i db). 0 < mb_share_percentage m \<and> mb_creator_username m \<in> td_creators db"
  using assms by (auto simp: members_of_def teams_inv_def)

lemma record_tip_splits_loop:
  assumes "teams_inv db" and "List.find (\<lambda>m. mb_creator_username m = recipient) (td_members db) = Some own"
    and "dc_parse D amount = Some a" and "sum_list (map mb_share_percentage (members_of (mb_team_id own) db)) < 2 ^ 31"
    and "inj ids" "\<forall>i. ids i \<notin> sp_id ` set (td_splits db)" "tip \<in> td_tips db"
  defines "ms \<equiv> members_of (mb_team_id own) db" and "t \<equiv> sum_list (map mb_share_percentage (members_of (mb_team_id own) db))"
  shows "record_tip_splits D (\<lambda>_. None) ids now tip recipient amount db
      = split_loop D (\<lambda>_. None) ids now tip (mb_team_id own) t a 0 ms (dc_zero D) db"
    and "ms \<noteq> []" and "\<forall>m \<in> set ms. 0 < mb_share_percentage m" and "0 < t" and "can_insert_splits ids 0 tip (mb_team_id own) ms db"
proof -
  have own: "own \<in> set (td_members db)" using find_Some_split [OF assms(2)] by blast
  then have in_ms: "own \<in> set ms" unfolding ms_def using members_of_props(1) [OF assms(1)] by blast
  then show ms: "ms \<noteq> []" by auto
  show pos: "\<forall>m \<in> set ms. 0 < mb_share_percentage m" unfolding ms_def using members_of_props(2) [OF assms(1)] by blast
  have "0 < mb_share_percentage own" "\<forall>m \<in> set ms. 0 \<le> mb_share_percentage m" using pos in_ms by auto
  moreover have "mb_share_percentage own \<le> t"
    unfolding t_def ms_def [symmetric] using in_ms calculation(2) by (intro member_le_sum_list) auto
  ultimately show t: "0 < t" by linarith
  then have "wrap_i32 t = t" using assms(4) by (intro wrap_i32_id) (simp_all add: t_def)
  then show "record_tip_splits D (\<lambda>_. None) ids now tip recipient amount db
      = split_loop D (\<lambda>_. None) ids now tip (mb_team_id own) t a 0 ms (dc_zero D) db"
    using assms(2,3) ms t by (simp add: record_tip_splits_def Let_def ms_def t_def)
  show "can_insert_splits ids 0 tip (mb_team_id own) ms db"
    using assms(1,5-7) own members_of_props(2) [OF assms(1)] by (auto simp: can_insert_splits_def ms_def teams_inv_def)
qed


text \<open>The last member may be debited: three stroops among five members with equal shares give the first
  four one stroop each and store a negative amount, one stroop, for the last.\<close>

theorem last_split_may_be_negative:
  assumes "decimal_library D val" and "teams_inv db"
    and "List.find (\<lambda>m. mb_creator_username m = recipient) (td_members db) = Some own"
    and "dc_parse D amount = Some a" and "val a = 3 / 10 ^ 7"
    and "length (members_of (mb_team_id own) db) = 5" and "\<forall>m \<in> set (members_of (mb_team_id own) db). mb_share_percentage m = s"
    and "s < 2 ^ 28" and "inj ids" and "\<forall>i. ids i \<notin> sp_id ` set (td_splits db)" and "tip \<in> td_tips db"
  shows "\<exists>rows r. record_tip_splits D (\<lambda>_. None) ids now tip recipient amount db
        = (Some (Ok ()), db\<lparr>td_splits := td_splits db @ rows @ [r]\<rparr>)
      \<and> sp_member_username r = mb_creator_username (last (members_of (mb_team_id own) db)) \<and> split_value D val r = - 1 / 10 ^ 7"
proof -
  let ?ms = "members_of (mb_team_id own) db"
  have "map mb_share_percentage ?ms = replicate 5 s"
    using assms(6,7) by (intro replicate_eqI) auto
  then have t: "sum_list (map mb_share_percentage ?ms) = 5 * s" by (simp add: numeral_eq_Suc)
  have len: "5 * s < 2 ^ 31" using assms(8) by simp
  note loop = record_tip_splits_loop [OF assms(2-4) _ assms(9-11), unfolded t, OF len]
  have s: "0 < s" using loop(4) by simp
  have zero: "stroops_value val (dc_zero D) 0"
    using decimal_library.zero [OF assms(1)] by (simp add: stroops_value_def)
  show ?thesis unfolding loop(1)
    using decimal_library.equal_shares_loop [OF assms(1,5) refl s len loop(2) assms(7) _ zero _ loop(5)] assms(6) by simp
qed

section \<open>Examples\<close>

definition demo_member :: "string \<Rightarrow> team_member" where
  "demo_member u = \<lparr>mb_team_id = ''t'', mb_creator_username = u, mb_share_percentage = 20, mb_added_at = 0\<rparr>"

definition demo_team_db :: team_db where
  "demo_team_db = \<lparr>td_creators = {''a'', ''b'', ''c'', ''d'', ''e''}, td_tips = {''tip''},
     td_teams = [\<lparr>tm_id = ''t'', tm_name = ''five'', tm_owner_username = ''a'', tm_created_at = 0\<rparr>],
     td_members = map demo_member [''a'', ''b'', ''c'', ''d'', ''e''], td_splits = []\<rparr>"

definition demo_ids :: "nat \<Rightarrow> string" where
  "demo_ids k = replicate k (CHR ''i'')"

lemma demo_team:
  "teams_inv demo_team_db" "List.find (\<lambda>m. mb_creator_username m = ''a'') (td_members demo_team_db) = Some (demo_member ''a'')"
  "length (members_of ''t'' demo_team_db) = 5" "\<forall>m \<in> set (members_of ''t'' demo_team_db). mb_share_percentage m = 20"
  "inj demo_ids" "\<forall>i. demo_ids i \<notin> sp_id ` set (td_splits demo_team_db)" "''tip'' \<in> td_tips demo_team_db"
  "dc_parse rat_decimal (horizon_amount 3) = Some (3 / 10 ^ 7)"
proof -
  show "inj demo_ids" by (rule injI) (metis demo_ids_def length_replicate)
  have "print_rat (of_int 3 / 10 ^ 7) = horizon_amount 3" by (simp add: print_rat_def)
  then show "dc_parse rat_decimal (horizon_amount 3) = Some (3 / 10 ^ 7)"
    using parse_print_rat [of 3] by (simp add: rat_decimal_def)
qed (simp_all add: demo_team_db_def demo_member_def teams_inv_def members_of_def)


theorem last_split_may_be_negative_witness:
  "\<exists>rows r. record_tip_splits rat_decimal (\<lambda>_. None) demo_ids 0 ''tip'' ''a'' (horizon_amount 3) demo_team_db
      = (Some (Ok ()), demo_team_db\<lparr>td_splits := rows @ [r]\<rparr>) \<and> split_value rat_decimal id r = - 1 / 10 ^ 7"
  using last_split_may_be_negative [OF rd.decimal_library_axioms demo_team(1,2,8) _ _ _ _ demo_team(5-7), of 20 0] demo_team(3,4)
  by (auto simp: demo_member_def) (simp add: demo_team_db_def)

section \<open>Registering a team\<close>

lemma insert_member_adds: "insert_member fault m db = Ok db' \<Longrightarrow> db' = db\<lparr>td_members := td_members db @ [m]\<rparr>"
  by (auto simp: insert_member_def split: option.splits if_splits)

lemma insert_members_adds:
  "insert_members fault k i now ms db = Ok db' \<Longrightarrow>
     db' = db\<lparr>td_members := td_members db @ map (\<lambda>m. \<lparr>mb_team_id = i, mb_creator_username = mr_creator_username m,
       mb_share_percentage = mr_share_percentage m, mb_added_at = now\<rparr>) ms\<rparr>"
proof (induction ms arbitrary: k db)
  case (Cons m ms)
  from Cons.prems show ?case
    by (auto split: sum.splits dest!: Cons.IH insert_member_adds)
qed simp

text \<open>Teams are consistent: through any sequence of operations, failing statements included, a creator is
  in at most one team, and every member has a positive share of an existing team.\<close>

theorem teams_stay_consistent:
  assumes "(team_step D)\<^sup>*\<^sup>* db db'" and "teams_inv db"
  shows "teams_inv db'"
  using assms by (induction rule: rtranclp_induct) (auto intro: team_step_inv)

theorem teams_stay_consistent_witness:
  "teams_inv (snd (record_tip_splits rat_decimal (\<lambda>_. None) demo_ids 0 ''tip'' ''a'' (horizon_amount 3)
     (snd (remove_member None ''t'' ''e'' demo_team_db))))"
proof (rule teams_stay_consistent [where D = rat_decimal])
  have "team_step rat_decimal demo_team_db (snd (remove_member None ''t'' ''e'' demo_team_db))" by (rule team_step.Remove)
  moreover have "team_step rat_decimal (snd (remove_member None ''t'' ''e'' demo_team_db))
      (snd (record_tip_splits rat_decimal (\<lambda>_. None) demo_ids 0 ''tip'' ''a'' (horizon_amount 3)
        (snd (remove_member None ''t'' ''e'' demo_team_db))))" by (rule team_step.Split)
  ultimately show "(team_step rat_decimal)\<^sup>*\<^sup>* demo_team_db (snd (record_tip_splits rat_decimal (\<lambda>_. None) demo_ids 0 ''tip'' ''a''
      (horizon_amount 3) (snd (remove_member None ''t'' ''e'' demo_team_db))))" by (rule converse_rtranclp_into_rtranclp [OF _ r_into_rtranclp])
qed (rule demo_team(1))

text \<open>A registration is all or nothing.\<close>

lemma create_team_atomic:
  assumes "create_team fault i now req db = (res, db')"
  shows "(\<exists>e. res = Err e \<and> db' = db)
    \<or> (\<exists>t ms. res = Ok (t, ms) \<and> tm_id t = i \<and> td_teams db' = td_teams db @ [t] \<and> td_members db' = td_members db @ ms
         \<and> map (\<lambda>m. (mb_creator_username m, mb_share_percentage m)) ms
             = map (\<lambda>m. (mr_creator_username m, mr_share_percentage m)) (member_requests req))"
  using assms
  by (auto simp: create_team_def Let_def insert_team_def comp_def split: sum.splits option.splits if_splits dest!: insert_members_adds)

end
