(* ===== verification/Sql.thy ===== *)
theory Sql
  imports App_Errors Job_Queue
begin

text \<open>
  What the controllers over single tables share: how a statement ends, the transaction that a failing
  statement ends, \<open>COALESCE\<close>, and the notification of a creator through the job queue
  (\<open>dispatch_notification\<close> of \<open>src/services/subscription_service.rs\<close> and \<open>enqueue_notification\<close> of
  \<open>src/services/scheduled_tip_service.rs\<close>).
\<close>

datatype stmt_error = RowNotFound | StmtError sqlx_error

definition unique_violation :: "string \<Rightarrow> stmt_error" where
  "unique_violation name = StmtError (SqlxDatabase (Some ''23505'') (Some name))"

definition foreign_key_violation :: "string \<Rightarrow> stmt_error" where
  "foreign_key_violation name = StmtError (SqlxDatabase (Some ''23503'') (Some name))"

type_synonym stmt_faults = "nat \<Rightarrow> sqlx_error option"

text \<open>A statement that fails ends the transaction, and the tables are as they were.\<close>

definition stmt :: "sqlx_error option \<Rightarrow> 's \<Rightarrow> (stmt_error + 'a) \<times> 's \<Rightarrow> (stmt_error + 'a) \<times> 's" where
  "stmt fault db rest = (case fault of Some e \<Rightarrow> (Err (StmtError e), db) | None \<Rightarrow> rest)"

lemma stmt_None [simp]: "stmt None db rest = rest"
  by (simp add: stmt_def)

definition coalesce_opt :: "'a option \<Rightarrow> 'a \<Rightarrow> 'a" where
  "coalesce_opt x y = (case x of None \<Rightarrow> y | Some v \<Rightarrow> v)"

text \<open>The errors of a route: \<open>not_found_or\<close> of \<open>src/routes/subscriptions.rs\<close>.\<close>

definition not_found_or :: "stmt_error \<Rightarrow> app_error" where
  "not_found_or e = (case e of RowNotFound \<Rightarrow> Unauthorized ''Resource not found'' | StmtError s \<Rightarrow> app_error_from_sqlx s)"

text \<open>Look the creator up and enqueue a notification; every failure is only logged.\<close>

record notify_env =
  ne_now :: int
  ne_creator_fault :: bool
  ne_job_id :: string
  ne_job_fault :: "string option"

definition notify_creator ::
  "notify_env \<Rightarrow> (string \<rightharpoonup> string) \<Rightarrow> string \<Rightarrow> string \<Rightarrow> notification_type \<Rightarrow> job_table \<Rightarrow> job_table" where
  "notify_creator e creators username i kind jobs =
     (case (if ne_creator_fault e then None else creators username) of
        None \<Rightarrow> jobs
      | Some creator_id \<Rightarrow>
          snd (enqueue_job (ne_job_fault e) (ne_job_id e) (ne_now e) ''send_notification''
            (send_notification creator_id i kind (username @ ''@placeholder.invalid'')) 0 3 jobs))"

end
