(* ===== verification/Subscriptions.thy ===== *)
theory Subscriptions
  imports Sql
begin

text \<open>
  Paid subscriptions (\<open>src/controllers/subscription_controller.rs\<close>,
  \<open>src/services/subscription_service.rs\<close>, the tables of \<open>migrations/0038_subscription_tiers.sql\<close>): tiers and
  their benefits, subscribing, cancelling and renewing with the payment of each period, and the pass that
  renews what is due and notifies the creator through the job queue. A statement may fail with any error,
  given per statement; a transaction that is not committed leaves the tables as they were. Times are
  seconds; the clock of the process and that of the database are separate arguments. Rows of equal end of
  period are taken in table order.
\<close>

section \<open>Tables\<close>

record subscription_tier =
  ti_id :: string
  ti_creator_username :: string
  ti_name :: string
  ti_description :: "string option"
  ti_price_xlm :: string
  ti_is_active :: bool
  ti_position :: int
  ti_created_at :: int
  ti_updated_at :: int

record tier_benefit =
  tb_id :: string
  tb_tier_id :: string
  tb_description :: string
  tb_position :: int

datatype subscription_status = SubActive | SubCancelled | SubExpired | SubPastDue

record subscription =
  su_id :: string
  su_tier_id :: string
  su_creator_username :: string
  su_subscriber_ref :: string
  su_status :: subscription_status
  su_started_at :: int
  su_period_start :: int
  su_period_end :: int
  su_cancelled_at :: "int option"
  su_created_at :: int
  su_updated_at :: int

datatype payment_status = PayPending | PayCompleted | PayFailed

record subscription_payment =
  py_id :: string
  py_subscription_id :: string
  py_amount_xlm :: string
  py_transaction_hash :: "string option"
  py_status :: payment_status
  py_period_start :: int
  py_period_end :: int
  py_created_at :: int

record sub_db =
  sd_creators :: "string \<rightharpoonup> string"
  sd_tiers :: "subscription_tier list"
  sd_benefits :: "tier_benefit list"
  sd_subs :: "subscription list"
  sd_payments :: "subscription_payment list"
  sd_jobs :: job_table

section \<open>Tiers and benefits\<close>

record create_tier_request =
  cr_name :: string
  cr_description :: "string option"
  cr_price_xlm :: string
  cr_benefits :: "string list"
  cr_position :: int

fun insert_benefits ::
  "stmt_faults \<Rightarrow> nat \<Rightarrow> (nat \<Rightarrow> string) \<Rightarrow> string \<Rightarrow> int \<Rightarrow> string list \<Rightarrow> tier_benefit list \<Rightarrow> stmt_error + tier_benefit list" where
  "insert_benefits fault k ids tier i [] bs = Ok bs"
| "insert_benefits fault k ids tier i (d # ds) bs =
     (case fault k of
        Some e \<Rightarrow> Err (StmtError e)
      | None \<Rightarrow> insert_benefits fault (Suc k) ids tier (i + 1) ds
                  (bs @ [\<lparr>tb_id = ids k, tb_tier_id = tier, tb_description = d, tb_position = i\<rparr>]))"

text \<open>Statement 0 is \<open>BEGIN\<close>, 1 the insert of the tier, then one per benefit and the \<open>COMMIT\<close>.\<close>

definition create_tier ::
  "stmt_faults \<Rightarrow> (nat \<Rightarrow> string) \<Rightarrow> int \<Rightarrow> string \<Rightarrow> create_tier_request \<Rightarrow> sub_db
     \<Rightarrow> (stmt_error + subscription_tier \<times> tier_benefit list) \<times> sub_db" where
  "create_tier fault ids now username req db =
     (let t = \<lparr>ti_id = ids 1, ti_creator_username = username, ti_name = cr_name req, ti_description = cr_description req,
               ti_price_xlm = cr_price_xlm req, ti_is_active = True, ti_position = cr_position req,
               ti_created_at = now, ti_updated_at = now\<rparr> in
      case (fault 0, fault 1) of
        (Some e, _) \<Rightarrow> (Err (StmtError e), db)
      | (None, Some e) \<Rightarrow> (Err (StmtError e), db)
      | (None, None) \<Rightarrow>
          if ti_id t \<in> ti_id ` set (sd_tiers db) then (Err (unique_violation ''subscription_tiers_pkey''), db)
          else if sd_creators db username = None
          then (Err (foreign_key_violation ''subscription_tiers_creator_username_fkey''), db)
          else (case insert_benefits fault 2 ids (ti_id t) 0 (cr_benefits req) [] of
                  Err e \<Rightarrow> (Err e, db)
                | Ok bs \<Rightarrow>
                    (case fault (2 + length (cr_benefits req)) of
                       Some e \<Rightarrow> (Err (StmtError e), db)
                     | None \<Rightarrow> (Ok (t, bs), db\<lparr>sd_tiers := sd_tiers db @ [t], sd_benefits := sd_benefits db @ bs\<rparr>))))"

definition get_tier :: "sqlx_error option \<Rightarrow> string \<Rightarrow> sub_db \<Rightarrow> stmt_error + subscription_tier" where
  "get_tier fault i db =
     (case (fault, List.find (\<lambda>t. ti_id t = i) (sd_tiers db)) of
        (Some e, _) \<Rightarrow> Err (StmtError e)
      | (None, None) \<Rightarrow> Err RowNotFound
      | (None, Some t) \<Rightarrow> Ok t)"

record update_tier_request =
  ut_name :: "string option"
  ut_description :: "string option"
  ut_price_xlm :: "string option"
  ut_is_active :: "bool option"
  ut_position :: "int option"

definition updated_tier :: "int \<Rightarrow> update_tier_request \<Rightarrow> subscription_tier \<Rightarrow> subscription_tier" where
  "updated_tier now req t =
     t\<lparr>ti_name := coalesce_opt (ut_name req) (ti_name t),
       ti_description := (case ut_description req of None \<Rightarrow> ti_description t | Some d \<Rightarrow> Some d),
       ti_price_xlm := coalesce_opt (ut_price_xlm req) (ti_price_xlm t),
       ti_is_active := coalesce_opt (ut_is_active req) (ti_is_active t),
       ti_position := coalesce_opt (ut_position req) (ti_position t), ti_updated_at := now\<rparr>"

definition update_tier ::
  "sqlx_error option \<Rightarrow> int \<Rightarrow> string \<Rightarrow> update_tier_request \<Rightarrow> sub_db \<Rightarrow> (stmt_error + subscription_tier) \<times> sub_db" where
  "update_tier fault now i req db =
     (case get_tier fault i db of
        Err e \<Rightarrow> (Err e, db)
      | Ok t \<Rightarrow> (Ok (updated_tier now req t),
          db\<lparr>sd_tiers := map (\<lambda>t. if ti_id t = i then updated_tier now req t else t) (sd_tiers db)\<rparr>))"

text \<open>The benefits go with their tier; a tier with subscriptions stays.\<close>

definition delete_tier :: "sqlx_error option \<Rightarrow> string \<Rightarrow> sub_db \<Rightarrow> (stmt_error + bool) \<times> sub_db" where
  "delete_tier fault i db =
     (case fault of
        Some e \<Rightarrow> (Err (StmtError e), db)
      | None \<Rightarrow>
          if i \<notin> ti_id ` set (sd_tiers db) then (Ok False, db)
          else if i \<in> su_tier_id ` set (sd_subs db) then (Err (foreign_key_violation ''subscriptions_tier_id_fkey''), db)
          else (Ok True, db\<lparr>sd_tiers := filter (\<lambda>t. ti_id t \<noteq> i) (sd_tiers db),
                 sd_benefits := filter (\<lambda>b. tb_tier_id b \<noteq> i) (sd_benefits db)\<rparr>))"

definition add_benefit :: "sqlx_error option \<Rightarrow> string \<Rightarrow> string \<Rightarrow> string \<Rightarrow> int \<Rightarrow> sub_db \<Rightarrow> (stmt_error + tier_benefit) \<times> sub_db" where
  "add_benefit fault i tier description pos db =
     (let b = \<lparr>tb_id = i, tb_tier_id = tier, tb_description = description, tb_position = pos\<rparr> in
      case fault of
        Some e \<Rightarrow> (Err (StmtError e), db)
      | None \<Rightarrow>
          if i \<in> tb_id ` set (sd_benefits db) then (Err (unique_violation ''tier_benefits_pkey''), db)
          else if tier \<notin> ti_id ` set (sd_tiers db) then (Err (foreign_key_violation ''tier_benefits_tier_id_fkey''), db)
          else (Ok b, db\<lparr>sd_benefits := sd_benefits db @ [b]\<rparr>))"

definition remove_benefit :: "sqlx_error option \<Rightarrow> string \<Rightarrow> sub_db \<Rightarrow> (stmt_error + bool) \<times> sub_db" where
  "remove_benefit fault i db =
     (case fault of
        Some e \<Rightarrow> (Err (StmtError e), db)
      | None \<Rightarrow> (Ok (i \<in> tb_id ` set (sd_benefits db)), db\<lparr>sd_benefits := filter (\<lambda>b. tb_id b \<noteq> i) (sd_benefits db)\<rparr>))"

section \<open>Subscriptions\<close>

definition DAYS30 :: int where "DAYS30 = 30 * 86400"

definition payment_status_of :: "string option \<Rightarrow> payment_status" where
  "payment_status_of hash = (if hash \<noteq> None then PayCompleted else PayPending)"

record subscribe_request =
  sr_tier_id :: string
  sr_subscriber_ref :: string
  sr_transaction_hash :: "string option"

text \<open>Statement 0 reads the tier, 1 is \<open>BEGIN\<close>, 2 and 3 insert the subscription and its first payment, 4
  is \<open>COMMIT\<close>. The end of the period is computed by the process, its start by the database.\<close>

definition subscribe ::
  "stmt_faults \<Rightarrow> string \<Rightarrow> string \<Rightarrow> int \<Rightarrow> int \<Rightarrow> subscribe_request \<Rightarrow> sub_db \<Rightarrow> (stmt_error + subscription) \<times> sub_db" where
  "subscribe fault sid pid clock now req db =
     (case get_tier (fault 0) (sr_tier_id req) db of
        Err e \<Rightarrow> (Err e, db)
      | Ok tier \<Rightarrow>
          let period_end = clock + DAYS30;
              sub = \<lparr>su_id = sid, su_tier_id = sr_tier_id req, su_creator_username = ti_creator_username tier,
                     su_subscriber_ref = sr_subscriber_ref req, su_status = SubActive, su_started_at = now,
                     su_period_start = now, su_period_end = period_end, su_cancelled_at = None,
                     su_created_at = now, su_updated_at = now\<rparr>;
              pay = \<lparr>py_id = pid, py_subscription_id = sid, py_amount_xlm = ti_price_xlm tier,
                     py_transaction_hash = sr_transaction_hash req, py_status = payment_status_of (sr_transaction_hash req),
                     py_period_start = now, py_period_end = period_end, py_created_at = now\<rparr> in
          stmt (fault 1) db (stmt (fault 2) db (
            if sid \<in> su_id ` set (sd_subs db) then (Err (unique_violation ''subscriptions_pkey''), db)
            else if \<exists>s \<in> set (sd_subs db). su_tier_id s = sr_tier_id req \<and> su_subscriber_ref s = sr_subscriber_ref req
            then (Err (unique_violation ''subscriptions_tier_id_subscriber_ref_key''), db)
            else stmt (fault 3) db (
              if pid \<in> py_id ` set (sd_payments db) then (Err (unique_violation ''subscription_payments_pkey''), db)
              else stmt (fault 4) db (Ok sub, db\<lparr>sd_subs := sd_subs db @ [sub], sd_payments := sd_payments db @ [pay]\<rparr>)))))"

definition update_sub :: "string \<Rightarrow> (subscription \<Rightarrow> subscription) \<Rightarrow> sub_db \<Rightarrow> sub_db" where
  "update_sub i f db = db\<lparr>sd_subs := map (\<lambda>s. if su_id s = i then f s else s) (sd_subs db)\<rparr>"

definition cancel_subscription :: "sqlx_error option \<Rightarrow> int \<Rightarrow> string \<Rightarrow> sub_db \<Rightarrow> (stmt_error + bool) \<times> sub_db" where
  "cancel_subscription fault now i db =
     (case fault of
        Some e \<Rightarrow> (Err (StmtError e), db)
      | None \<Rightarrow>
          (Ok (\<exists>s \<in> set (sd_subs db). su_id s = i \<and> su_status s = SubActive),
           update_sub i (\<lambda>s. if su_status s = SubActive
                             then s\<lparr>su_status := SubCancelled, su_cancelled_at := Some now, su_updated_at := now\<rparr> else s) db))"

definition renewed :: "int \<Rightarrow> subscription \<Rightarrow> subscription" where
  "renewed now s = s\<lparr>su_period_start := su_period_end s, su_period_end := su_period_end s + DAYS30,
     su_status := SubActive, su_updated_at := now\<rparr>"

text \<open>Statement 0 is \<open>BEGIN\<close>, 1 advances the period, 2 reads the tier, 3 inserts the payment, 4 is
  \<open>COMMIT\<close>.\<close>

definition renew_subscription ::
  "stmt_faults \<Rightarrow> string \<Rightarrow> int \<Rightarrow> string \<Rightarrow> string option \<Rightarrow> sub_db \<Rightarrow> (stmt_error + subscription) \<times> sub_db" where
  "renew_subscription fault pid now i hash db =
     stmt (fault 0) db (stmt (fault 1) db (
       case List.find (\<lambda>s. su_id s = i) (sd_subs db) of
         None \<Rightarrow> (Err RowNotFound, db)
       | Some s \<Rightarrow>
           (case get_tier (fault 2) (su_tier_id s) db of
              Err e \<Rightarrow> (Err e, db)
            | Ok tier \<Rightarrow>
                let s' = renewed now s;
                    pay = \<lparr>py_id = pid, py_subscription_id = i, py_amount_xlm = ti_price_xlm tier, py_transaction_hash = hash,
                           py_status = payment_status_of hash, py_period_start = su_period_start s',
                           py_period_end = su_period_end s', py_created_at = now\<rparr> in
                stmt (fault 3) db (
                  if pid \<in> py_id ` set (sd_payments db) then (Err (unique_violation ''subscription_payments_pkey''), db)
                  else stmt (fault 4) db (Ok s', (update_sub i (renewed now) db)\<lparr>sd_payments := sd_payments db @ [pay]\<rparr>)))))"

text \<open>\<open>ORDER BY current_period_end ASC LIMIT 100\<close>.\<close>

definition is_due :: "int \<Rightarrow> subscription \<Rightarrow> bool" where
  "is_due now s \<longleftrightarrow> su_status s = SubActive \<and> su_period_end s \<le> now"

definition due_renewals :: "int \<Rightarrow> sub_db \<Rightarrow> subscription list" where
  "due_renewals now db = take 100 (sort_key su_period_end (filter (is_due now) (sd_subs db)))"

definition mark_past_due :: "sqlx_error option \<Rightarrow> int \<Rightarrow> string \<Rightarrow> sub_db \<Rightarrow> (stmt_error + unit) \<times> sub_db" where
  "mark_past_due fault now i db =
     (case fault of
        Some e \<Rightarrow> (Err (StmtError e), db)
      | None \<Rightarrow> (Ok (), update_sub i (\<lambda>s. s\<lparr>su_status := SubPastDue, su_updated_at := now\<rparr>) db))"

section \<open>The renewal pass\<close>

text \<open>What a pass draws on for one subscription: the database clock, the faults of its statements, the
  id of the payment, and what the notification draws on.\<close>

record renewal_env =
  rn_now :: int
  rn_faults :: stmt_faults
  rn_mark_fault :: "sqlx_error option"
  rn_payment_id :: string
  rn_notify :: notify_env

definition dispatch_notification :: "renewal_env \<Rightarrow> string \<Rightarrow> string \<Rightarrow> string \<Rightarrow> sub_db \<Rightarrow> sub_db" where
  "dispatch_notification e username i event_type db =
     (let kind = (if event_type = ''subscription_renewed'' then TipReceived else TipFailed) in
      db\<lparr>sd_jobs := notify_creator (rn_notify e) (sd_creators db) username i kind (sd_jobs db)\<rparr>)"

definition process_renewal :: "renewal_env \<Rightarrow> subscription \<Rightarrow> sub_db \<Rightarrow> sub_db" where
  "process_renewal e sub db =
     (case renew_subscription (rn_faults e) (rn_payment_id e) (rn_now e) (su_id sub) None db of
        (Ok s', db') \<Rightarrow> dispatch_notification e (su_creator_username sub) (su_id sub) ''subscription_renewed'' db'
      | (Err _, db') \<Rightarrow>
          dispatch_notification e (su_creator_username sub) (su_id sub) ''subscription_past_due''
            (snd (mark_past_due (rn_mark_fault e) (rn_now e) (su_id sub) db')))"

definition process_renewals :: "sqlx_error option \<Rightarrow> int \<Rightarrow> (nat \<Rightarrow> renewal_env) \<Rightarrow> sub_db \<Rightarrow> (stmt_error + unit) \<times> sub_db" where
  "process_renewals fault now envs db =
     (case fault of
        Some e \<Rightarrow> (Err (StmtError e), db)
      | None \<Rightarrow> (Ok (), fold (\<lambda>(k, sub). process_renewal (envs k) sub) (enumerate 0 (due_renewals now db)) db))"

section \<open>Every period is billed once\<close>

fun contiguous :: "subscription_payment list \<Rightarrow> bool" where
  "contiguous (p # q # ps) \<longleftrightarrow> py_period_end p = py_period_start q \<and> py_period_end q = py_period_start q + DAYS30 \<and> contiguous (q # ps)"
| "contiguous ps \<longleftrightarrow> True"

lemma contiguous_snoc:
  "ps \<noteq> [] \<Longrightarrow> contiguous (ps @ [q]) \<longleftrightarrow>
     contiguous ps \<and> py_period_end (last ps) = py_period_start q \<and> py_period_end q = py_period_start q + DAYS30"
  by (induction ps rule: contiguous.induct) auto

definition payments_of :: "string \<Rightarrow> sub_db \<Rightarrow> subscription_payment list" where
  "payments_of i db = filter (\<lambda>p. py_subscription_id p = i) (sd_payments db)"

text \<open>The payments of a subscription cover it without a gap or an overlap, up to its current period.\<close>

definition billed :: "sub_db \<Rightarrow> subscription \<Rightarrow> bool" where
  "billed db s \<longleftrightarrow> (let ps = payments_of (su_id s) db in
     ps \<noteq> [] \<and> contiguous ps \<and> py_period_start (last ps) = su_period_start s \<and> py_period_end (last ps) = su_period_end s)"

definition subs_inv :: "sub_db \<Rightarrow> bool" where
  "subs_inv db \<longleftrightarrow> distinct (map su_id (sd_subs db)) \<and> (\<forall>p \<in> set (sd_payments db). py_subscription_id p \<in> su_id ` set (sd_subs db))
     \<and> (\<forall>s \<in> set (sd_subs db). su_tier_id s \<in> ti_id ` set (sd_tiers db) \<and> billed db s)"

lemma billed_cong:
  "su_id s = su_id s' \<Longrightarrow> su_period_start s = su_period_start s' \<Longrightarrow> su_period_end s = su_period_end s' \<Longrightarrow> billed db s = billed db s'"
  by (simp add: billed_def)

lemma billed_payments: "sd_payments db = sd_payments db' \<Longrightarrow> billed db s = billed db' s"
  by (simp add: billed_def payments_of_def)

text \<open>A change that leaves the subscriptions' ids and periods, the payments and the tiers in use alone.\<close>

lemma subs_inv_frame:
  assumes "subs_inv db" and "sd_payments db' = sd_payments db" and "\<forall>s \<in> set (sd_subs db). su_tier_id s \<in> ti_id ` set (sd_tiers db')"
    and "sd_subs db' = map f (sd_subs db)"
    and "\<And>s. su_id (f s) = su_id s \<and> su_tier_id (f s) = su_tier_id s \<and> su_period_start (f s) = su_period_start s \<and> su_period_end (f s) = su_period_end s"
  shows "subs_inv db'"
proof -
  have ids: "map su_id (sd_subs db') = map su_id (sd_subs db)" using assms(4,5) by simp
  then have ids': "su_id ` set (sd_subs db') = su_id ` set (sd_subs db)" by (metis image_set)
  have billed: "billed db' (f s) = billed db s" for s
    using billed_cong [of "f s" s db'] billed_payments [OF assms(2)] assms(5) by simp
  have old: "distinct (map su_id (sd_subs db))" "\<forall>p \<in> set (sd_payments db). py_subscription_id p \<in> su_id ` set (sd_subs db)"
    "\<forall>s \<in> set (sd_subs db). su_tier_id s \<in> ti_id ` set (sd_tiers db) \<and> billed db s"
    using assms(1) by (simp_all add: subs_inv_def)
  have "su_tier_id s \<in> ti_id ` set (sd_tiers db') \<and> billed db' s" if "s \<in> set (sd_subs db')" for s
    using that old(3) billed assms(3,5) unfolding assms(4) by auto
  with old(1,2) show ?thesis unfolding subs_inv_def ids ids' assms(2) by blast
qed

lemma subs_inv_same:
  assumes "subs_inv db" and "sd_payments db' = sd_payments db" and "\<forall>s \<in> set (sd_subs db). su_tier_id s \<in> ti_id ` set (sd_tiers db')"
    and "sd_subs db' = sd_subs db"
  shows "subs_inv db'"
  by (rule subs_inv_frame [OF assms(1-3), of id]) (simp_all add: assms(4))

lemma subs_inv_tiers: "subs_inv db \<Longrightarrow> \<forall>s \<in> set (sd_subs db). su_tier_id s \<in> ti_id ` set (sd_tiers db)"
  by (simp add: subs_inv_def)

lemma tier_ops_inv:
  assumes "subs_inv db"
  shows "subs_inv (snd (create_tier fault ids now u req db))" and "subs_inv (snd (update_tier f now i ureq db))"
    and "subs_inv (snd (delete_tier f i db))" and "subs_inv (snd (add_benefit f i tier d pos db))" and "subs_inv (snd (remove_benefit f i db))"
proof -
  note same = subs_inv_same [OF assms]
  note tiers = subs_inv_tiers [OF assms]
  show "subs_inv (snd (create_tier fault ids now u req db))"
    by (rule same) (use tiers in \<open>auto simp: create_tier_def Let_def split: option.splits sum.splits\<close>)
  have "ti_id (updated_tier now ureq t) = ti_id t" for t by (simp add: updated_tier_def)
  then have "(\<lambda>t. ti_id (if ti_id t = i then updated_tier now ureq t else t)) = ti_id" by auto
  then have "ti_id ` set (map (\<lambda>t. if ti_id t = i then updated_tier now ureq t else t) ts) = ti_id ` set ts" for ts
    by (simp only: set_map image_image)
  then have "ti_id ` set (sd_tiers (snd (update_tier f now i ureq db))) = ti_id ` set (sd_tiers db)"
    by (simp add: update_tier_def split: sum.split del: set_map)
  then show "subs_inv (snd (update_tier f now i ureq db))"
    by (intro same) (use tiers in \<open>simp_all add: update_tier_def split: sum.split\<close>)
  show "subs_inv (snd (delete_tier f i db))"
    by (rule same) (use tiers in \<open>auto simp: delete_tier_def split: option.splits\<close>, fastforce simp: image_iff)
  show "subs_inv (snd (add_benefit f i tier d pos db))"
    by (rule same) (use tiers in \<open>auto simp: add_benefit_def Let_def split: option.splits\<close>)
  show "subs_inv (snd (remove_benefit f i db))"
    by (rule same) (use tiers in \<open>auto simp: remove_benefit_def split: option.splits\<close>)
qed

lemma status_ops_inv:
  assumes "subs_inv db"
  shows "subs_inv (snd (cancel_subscription f now i db))" and "subs_inv (snd (mark_past_due f now i db))"
    and "subs_inv (dispatch_notification e u i ev db)"
proof -
  note frame = subs_inv_frame [OF assms]
  show "subs_inv (snd (cancel_subscription f now i db))"
  proof (cases f)
    case None
    then show ?thesis
      by (intro frame [where f = "\<lambda>s. if su_id s = i then if su_status s = SubActive
          then s\<lparr>su_status := SubCancelled, su_cancelled_at := Some now, su_updated_at := now\<rparr> else s else s"])
        (use subs_inv_tiers [OF assms] in \<open>simp_all add: cancel_subscription_def update_sub_def\<close>)
  qed (simp add: cancel_subscription_def assms)
  show "subs_inv (snd (mark_past_due f now i db))"
  proof (cases f)
    case None
    then show ?thesis
      by (intro frame [where f = "\<lambda>s. if su_id s = i then s\<lparr>su_status := SubPastDue, su_updated_at := now\<rparr> else s"])
        (use subs_inv_tiers [OF assms] in \<open>simp_all add: mark_past_due_def update_sub_def\<close>)
  qed (simp add: mark_past_due_def assms)
  show "subs_inv (dispatch_notification e u i ev db)"
    by (rule subs_inv_same [OF assms])
      (use subs_inv_tiers [OF assms] in \<open>auto simp: dispatch_notification_def\<close>)
qed

lemma get_tier_Ok: "get_tier f i db = Ok t \<Longrightarrow> t \<in> set (sd_tiers db) \<and> ti_id t = i"
  by (auto simp: get_tier_def dest: find_Some_split split: option.splits)

lemma get_tier_mem: "get_tier f i db = Ok t \<Longrightarrow> i \<in> ti_id ` set (sd_tiers db)"
  using get_tier_Ok by blast

lemma subscribe_Ok:
  assumes "subscribe fault sid pid clock now req db = (Ok s, db')"
  defines "p \<equiv> last (sd_payments db')"
  shows "db' = db\<lparr>sd_subs := sd_subs db @ [s], sd_payments := sd_payments db @ [p]\<rparr> \<and> py_subscription_id p = su_id s
    \<and> py_period_start p = su_period_start s \<and> py_period_end p = su_period_end s \<and> su_id s \<notin> su_id ` set (sd_subs db)
    \<and> su_tier_id s \<in> ti_id ` set (sd_tiers db) \<and> su_status s = SubActive \<and> su_period_end s = clock + DAYS30"
  using assms(1) unfolding p_def
  by (auto simp: subscribe_def stmt_def Let_def split: sum.splits option.splits if_splits dest: get_tier_mem)

lemma subscribe_Err: "subscribe fault sid pid clock now req db = (Err e, db') \<Longrightarrow> db' = db"
  by (auto simp: subscribe_def stmt_def Let_def split: sum.splits option.splits if_splits)

lemma subscribe_inv:
  assumes "subs_inv db"
  shows "subs_inv (snd (subscribe fault sid pid clock now req db))"
proof (cases "subscribe fault sid pid clock now req db")
  case (Pair r db')
  show ?thesis
  proof (cases r)
    case (Inl e)
    with Pair assms subscribe_Err show ?thesis by force
  next
    case (Inr s)
    from subscribe_Ok [OF Pair [unfolded Inr]] obtain p where p: "db' = db\<lparr>sd_subs := sd_subs db @ [s], sd_payments := sd_payments db @ [p]\<rparr>"
      "py_subscription_id p = su_id s" "py_period_start p = su_period_start s" "py_period_end p = su_period_end s"
      "su_id s \<notin> su_id ` set (sd_subs db)" "su_tier_id s \<in> ti_id ` set (sd_tiers db)" by blast
    have none: "payments_of (su_id s) db = []"
      using assms p(5) unfolding payments_of_def subs_inv_def filter_empty_conv by metis
    have "payments_of (su_id s) db' = [p]" using none p(1,2) by (simp add: payments_of_def)
    then have "billed db' s" using p(3,4) by (simp add: billed_def)
    moreover have "billed db' s'" if "s' \<in> set (sd_subs db)" for s'
    proof -
      have "su_id s' \<noteq> su_id s" using that p(5) by (metis imageI)
      then have "payments_of (su_id s') db' = payments_of (su_id s') db" using p(1,2) by (simp add: payments_of_def)
      then show ?thesis using assms that by (simp add: subs_inv_def billed_def)
    qed
    ultimately show ?thesis using assms p Pair Inr by (auto simp: subs_inv_def)
  qed
qed

lemma renew_Ok:
  assumes "renew_subscription fault pid now i hash db = (Ok s', db')"
  defines "p \<equiv> last (sd_payments db')"
  shows "\<exists>s \<in> set (sd_subs db). su_id s = i \<and> s' = renewed now s"
    and "sd_payments db' = sd_payments db @ [p]"
    and "sd_subs db' = map (\<lambda>s. if su_id s = i then renewed now s else s) (sd_subs db)"
    and "sd_tiers db' = sd_tiers db" and "sd_creators db' = sd_creators db"
    and "py_subscription_id p = i" and "py_period_start p = su_period_start s'" and "py_period_end p = su_period_end s'"
    and "py_status p = payment_status_of hash"
  using assms(1) unfolding p_def
  by (auto simp: renew_subscription_def stmt_def update_sub_def Let_def split: sum.splits option.splits if_splits dest!: find_Some_split)

lemma renew_Err: "renew_subscription fault pid now i hash db = (Err e, db') \<Longrightarrow> db' = db"
  by (auto simp: renew_subscription_def stmt_def Let_def split: sum.splits option.splits if_splits)

lemma same_id: "distinct (map su_id ss) \<Longrightarrow> s \<in> set ss \<Longrightarrow> s' \<in> set ss \<Longrightarrow> su_id s = su_id s' \<Longrightarrow> s = s'"
  by (simp add: distinct_map inj_on_def)

lemma renewed_simps [simp]:
  "su_id (renewed now s) = su_id s" "su_tier_id (renewed now s) = su_tier_id s" "su_period_start (renewed now s) = su_period_end s"
  "su_period_end (renewed now s) = su_period_end s + DAYS30" "su_status (renewed now s) = SubActive"
  "su_cancelled_at (renewed now s) = su_cancelled_at s" "su_creator_username (renewed now s) = su_creator_username s"
  by (simp_all add: renewed_def)

lemma renew_inv:
  assumes "subs_inv db"
  shows "subs_inv (snd (renew_subscription fault pid now i hash db))"
proof (cases "renew_subscription fault pid now i hash db")
  case (Pair r db')
  show ?thesis
  proof (cases r)
    case (Inl e)
    with Pair assms renew_Err show ?thesis by force
  next
    case (Inr s')
    define p where "p = last (sd_payments db')"
    note renew = renew_Ok [OF Pair [unfolded Inr], folded p_def]
    obtain s where s: "s \<in> set (sd_subs db)" "su_id s = i" "s' = renewed now s" using renew(1) by blast
    have pays: "payments_of j db' = payments_of j db @ (if j = i then [p] else [])" for j
      by (simp add: payments_of_def renew(2,6))
    have ids: "map su_id (sd_subs db') = map su_id (sd_subs db)" by (simp add: renew(3))
    then have id_set: "su_id ` set (sd_subs db') = su_id ` set (sd_subs db)" by (metis image_set)
    have old: "distinct (map su_id (sd_subs db))" "\<forall>p \<in> set (sd_payments db). py_subscription_id p \<in> su_id ` set (sd_subs db)"
      "\<forall>s \<in> set (sd_subs db). su_tier_id s \<in> ti_id ` set (sd_tiers db) \<and> billed db s"
      using assms by (simp_all add: subs_inv_def)
    have new: "billed db' s'"
      using old(3) s renew(7,8) by (auto simp: billed_def pays contiguous_snoc Let_def)
    have "su_tier_id x \<in> ti_id ` set (sd_tiers db') \<and> billed db' x" if "x \<in> set (sd_subs db')" for x
    proof -
      from that obtain y where y: "y \<in> set (sd_subs db)" "x = (if su_id y = i then renewed now y else y)"
        unfolding renew(3) by auto
      show ?thesis
      proof (cases "su_id y = i")
        case True
        then have "y = s" using same_id [OF old(1) y(1) s(1)] s(2) by simp
        then show ?thesis using y s(3) new old(3) renew(4) True by simp
      next
        case False
        then show ?thesis using y old(3) renew(4) by (simp add: billed_def pays)
      qed
    qed
    moreover have "\<forall>q \<in> set (sd_payments db'). py_subscription_id q \<in> su_id ` set (sd_subs db')"
      using old(2) s(1,2) renew(2,6) unfolding id_set by auto
    ultimately show ?thesis using Pair old(1) by (simp add: subs_inv_def ids)
  qed
qed

lemma process_renewal_inv: "subs_inv db \<Longrightarrow> subs_inv (process_renewal e s db)"
  using renew_inv [of db "rn_faults e" "rn_payment_id e" "rn_now e" "su_id s" None] status_ops_inv
  by (auto simp: process_renewal_def split: prod.split sum.split)

inductive sub_step :: "sub_db \<Rightarrow> sub_db \<Rightarrow> bool" where
  CreateTier: "sub_step db (snd (create_tier fault ids now u treq db))"
| UpdateTier: "sub_step db (snd (update_tier f now i ureq db))"
| DeleteTier: "sub_step db (snd (delete_tier f i db))"
| AddBenefit: "sub_step db (snd (add_benefit f i tier d pos db))"
| RemoveBenefit: "sub_step db (snd (remove_benefit f i db))"
| Subscribe: "sub_step db (snd (subscribe fault sid pid clock now req db))"
| Cancel: "sub_step db (snd (cancel_subscription f now i db))"
| Renew: "sub_step db (snd (renew_subscription fault pid now i hash db))"
| Process: "sub_step db (process_renewal e s db)"

lemma sub_step_inv: "sub_step db db' \<Longrightarrow> subs_inv db \<Longrightarrow> subs_inv db'"
  by (induction rule: sub_step.induct)
    (simp_all add: tier_ops_inv status_ops_inv subscribe_inv renew_inv process_renewal_inv)

text \<open>\<^bold>\<open>C10.\<close> Every period is billed once: through any interleaving of requests, renewal passes and failing
  statements, the payments of every subscription follow one another without gap or overlap, each renewal for
  exactly thirty days, and the last one is for its current period.\<close>

theorem periods_billed_once:
  assumes "sub_step\<^sup>*\<^sup>* db db'" and "subs_inv db" and "s \<in> set (sd_subs db')"
  shows "payments_of (su_id s) db' \<noteq> [] \<and> contiguous (payments_of (su_id s) db')
    \<and> py_period_start (last (payments_of (su_id s) db')) = su_period_start s
    \<and> py_period_end (last (payments_of (su_id s) db')) = su_period_end s"
proof -
  have "subs_inv db'" using assms(1,2) by (induction rule: rtranclp_induct) (auto intro: sub_step_inv)
  then show ?thesis using assms(3) by (simp add: subs_inv_def billed_def Let_def)
qed

section \<open>Renewal passes catch up\<close>

text \<open>The periods a subscription owes at a time.\<close>

definition owed :: "int \<Rightarrow> subscription \<Rightarrow> nat" where
  "owed now s = (if is_due now s then nat ((now - su_period_end s) div DAYS30) + 1 else 0)"

definition total_owed :: "int \<Rightarrow> sub_db \<Rightarrow> nat" where
  "total_owed now db = sum_list (map (owed now) (sd_subs db))"

lemma owed_renewed: "is_due now s \<Longrightarrow> owed now s = Suc (owed now (renewed t s))"
proof -
  assume due: "is_due now s"
  have d: "now - (su_period_end s + DAYS30) = (now - su_period_end s) + (- 1) * DAYS30" by simp
  have "(now - (su_period_end s + DAYS30)) div DAYS30 = (now - su_period_end s) div DAYS30 - 1"
    unfolding d by (subst div_mult_self1) (simp_all add: DAYS30_def)
  moreover have "0 \<le> (now - su_period_end s) div DAYS30" using due by (intro pos_imp_zdiv_nonneg_iff [THEN iffD2]) (simp_all add: is_due_def DAYS30_def)
  moreover have "(now - su_period_end s) div DAYS30 = 0 \<longleftrightarrow> now < su_period_end s + DAYS30"
    using due by (auto simp: is_due_def DAYS30_def zdiv_eq_0_iff)
  ultimately show ?thesis using due by (auto simp: owed_def is_due_def)
qed

definition healthy_env :: "int \<Rightarrow> renewal_env \<Rightarrow> bool" where
  "healthy_env now e \<longleftrightarrow> rn_now e = now \<and> rn_faults e = (\<lambda>_. None)"

lemma dispatch_simps [simp]:
  "sd_subs (dispatch_notification e u i ev db) = sd_subs db" "sd_payments (dispatch_notification e u i ev db) = sd_payments db"
  "sd_tiers (dispatch_notification e u i ev db) = sd_tiers db" "sd_creators (dispatch_notification e u i ev db) = sd_creators db"
  by (simp_all add: dispatch_notification_def)

lemma healthy_renewal:
  assumes "subs_inv db" and "healthy_env now e" and "su_id x \<in> su_id ` set (sd_subs db)" and "rn_payment_id e \<notin> py_id ` set (sd_payments db)"
  shows "sd_subs (process_renewal e x db) = map (\<lambda>s. if su_id s = su_id x then renewed now s else s) (sd_subs db)"
    and "py_id ` set (sd_payments (process_renewal e x db)) = insert (rn_payment_id e) (py_id ` set (sd_payments db))"
proof -
  from assms(3) obtain s where s: "List.find (\<lambda>s. su_id s = su_id x) (sd_subs db) = Some s"
    by (cases "List.find (\<lambda>s. su_id s = su_id x) (sd_subs db)") (auto simp: find_None_iff)
  then have "s \<in> set (sd_subs db)" using find_Some_split by fast
  then have "su_tier_id s \<in> ti_id ` set (sd_tiers db)" using assms(1) by (simp add: subs_inv_def)
  then obtain t where "get_tier None (su_tier_id s) db = Ok t"
    by (cases "List.find (\<lambda>t. ti_id t = su_tier_id s) (sd_tiers db)") (auto simp: get_tier_def find_None_iff)
  then show "sd_subs (process_renewal e x db) = map (\<lambda>s. if su_id s = su_id x then renewed now s else s) (sd_subs db)"
    and "py_id ` set (sd_payments (process_renewal e x db)) = insert (rn_payment_id e) (py_id ` set (sd_payments db))"
    using s assms(2,4) by (simp_all add: process_renewal_def renew_subscription_def stmt_def healthy_env_def update_sub_def Let_def)
qed

lemma renewals_fold:
  assumes "subs_inv db" and "\<forall>k. healthy_env now (envs k)" and "inj (\<lambda>k. rn_payment_id (envs k))"
    and "\<forall>k \<ge> n. rn_payment_id (envs k) \<notin> py_id ` set (sd_payments db)" and "distinct (map su_id xs)" and "su_id ` set xs \<subseteq> su_id ` set (sd_subs db)"
  defines "db' \<equiv> fold (\<lambda>(k, sub). process_renewal (envs k) sub) (enumerate n xs) db"
  shows "sd_subs db' = map (\<lambda>s. if su_id s \<in> su_id ` set xs then renewed now s else s) (sd_subs db) \<and> subs_inv db'
    \<and> py_id ` set (sd_payments db') \<subseteq> py_id ` set (sd_payments db) \<union> range (\<lambda>k. rn_payment_id (envs k))"
  using assms(1,4-6) unfolding db'_def
proof (induction xs arbitrary: n db)
  case (Cons x xs)
  have "su_id x \<in> su_id ` set (sd_subs db)" using Cons.prems(4) by simp
  note step = healthy_renewal [OF Cons.prems(1) assms(2) [rule_format] this Cons.prems(2) [rule_format, OF order_refl]]
  let ?db1 = "process_renewal (envs n) x db"
  have "map su_id (sd_subs ?db1) = map su_id (sd_subs db)" unfolding step(1) by simp
  then have ids: "su_id ` set (sd_subs ?db1) = su_id ` set (sd_subs db)" by (metis image_set)
  have "\<forall>k \<ge> Suc n. rn_payment_id (envs k) \<notin> py_id ` set (sd_payments ?db1)"
    using Cons.prems(2) unfolding step(2) by (auto dest: injD [OF assms(3)])
  moreover have "su_id ` set xs \<subseteq> su_id ` set (sd_subs ?db1)" using Cons.prems(4) unfolding ids by simp
  moreover have "distinct (map su_id xs)" using Cons.prems(3) by simp
  ultimately have IH: "sd_subs (fold (\<lambda>(k, sub). process_renewal (envs k) sub) (enumerate (Suc n) xs) ?db1)
        = map (\<lambda>s. if su_id s \<in> su_id ` set xs then renewed now s else s) (sd_subs ?db1)"
      "subs_inv (fold (\<lambda>(k, sub). process_renewal (envs k) sub) (enumerate (Suc n) xs) ?db1)"
      "py_id ` set (sd_payments (fold (\<lambda>(k, sub). process_renewal (envs k) sub) (enumerate (Suc n) xs) ?db1))
        \<subseteq> py_id ` set (sd_payments ?db1) \<union> range (\<lambda>k. rn_payment_id (envs k))"
    using Cons.IH [OF process_renewal_inv [OF Cons.prems(1)]] by blast+
  have "su_id x \<notin> su_id ` set xs" using Cons.prems(3) by simp
  then have "map (\<lambda>s. if su_id s \<in> su_id ` set xs then renewed now s else s) (sd_subs ?db1)
      = map (\<lambda>s. if su_id s \<in> su_id ` set (x # xs) then renewed now s else s) (sd_subs db)"
    unfolding step(1) by auto
  with IH step(2) show ?case by auto
qed simp

lemma due_renewals_props:
  assumes "subs_inv db"
  shows "set (due_renewals now db) \<subseteq> {s \<in> set (sd_subs db). is_due now s}" and "distinct (map su_id (due_renewals now db))"
    and "due_renewals now db = [] \<longleftrightarrow> (\<forall>s \<in> set (sd_subs db). \<not> is_due now s)"
proof -
  let ?due = "sort_key su_period_end (filter (is_due now) (sd_subs db))"
  show "set (due_renewals now db) \<subseteq> {s \<in> set (sd_subs db). is_due now s}"
    using set_take_subset [of 100 ?due] by (auto simp: due_renewals_def)
  have "distinct (map su_id (filter (is_due now) (sd_subs db)))" using assms by (simp add: subs_inv_def distinct_map_filter)
  then have "distinct (map su_id ?due)" by (simp add: distinct_map)
  then show "distinct (map su_id (due_renewals now db))" by (simp add: due_renewals_def take_map [symmetric])
  have "?due = [] \<longleftrightarrow> filter (is_due now) (sd_subs db) = []" by (metis length_0_conv length_sort)
  then show "due_renewals now db = [] \<longleftrightarrow> (\<forall>s \<in> set (sd_subs db). \<not> is_due now s)"
    by (simp add: due_renewals_def filter_empty_conv)
qed

lemma sum_list_map_less:
  assumes "\<forall>x \<in> set xs. f x \<le> (g x :: nat)" and "x \<in> set xs" and "f x < g x"
  shows "sum_list (map f xs) < sum_list (map g xs)"
  using assms
proof (induction xs)
  case (Cons y ys)
  have "sum_list (map f ys) \<le> sum_list (map g ys)" using Cons.prems(1) by (intro sum_list_mono) simp
  with Cons show ?case by (cases "x = y") (auto intro: add_less_le_mono add_le_less_mono)
qed simp

text \<open>Passes one after the other, each with its own statements and ids.\<close>

fun passes :: "int \<Rightarrow> (nat \<Rightarrow> nat \<Rightarrow> renewal_env) \<Rightarrow> nat \<Rightarrow> sub_db \<Rightarrow> sub_db" where
  "passes now envs 0 db = db"
| "passes now envs (Suc n) db = passes now (\<lambda>k. envs (Suc k)) n (snd (process_renewals None now (envs 0) db))"

definition healthy_passes :: "int \<Rightarrow> (nat \<Rightarrow> nat \<Rightarrow> renewal_env) \<Rightarrow> sub_db \<Rightarrow> bool" where
  "healthy_passes now envs db \<longleftrightarrow> (\<forall>n k. healthy_env now (envs n k) \<and> rn_payment_id (envs n k) \<notin> py_id ` set (sd_payments db))
     \<and> inj (\<lambda>(n, k). rn_payment_id (envs n k))"

lemma healthy_pass:
  assumes "subs_inv db" and "healthy_passes now envs db"
  defines "db' \<equiv> snd (process_renewals None now (envs 0) db)"
  shows "subs_inv db'" and "healthy_passes now (\<lambda>k. envs (Suc k)) db'"
    and "sd_subs db' = map (\<lambda>s. if su_id s \<in> su_id ` set (due_renewals now db) then renewed now s else s) (sd_subs db)"
proof -
  have healthy: "\<forall>n k. healthy_env now (envs n k)" "\<forall>n k. rn_payment_id (envs n k) \<notin> py_id ` set (sd_payments db)"
    and inj: "\<And>n k n' k'. rn_payment_id (envs n k) = rn_payment_id (envs n' k') \<longleftrightarrow> n = n' \<and> k = k'"
    using assms(2) by (auto simp: healthy_passes_def inj_def)
  have "inj (\<lambda>k. rn_payment_id (envs 0 k))" by (simp add: inj_def inj)
  moreover have "su_id ` set (due_renewals now db) \<subseteq> su_id ` set (sd_subs db)" using due_renewals_props(1) [OF assms(1)] by blast
  ultimately have pass: "sd_subs db' = map (\<lambda>s. if su_id s \<in> su_id ` set (due_renewals now db) then renewed now s else s) (sd_subs db)
      \<and> subs_inv db' \<and> py_id ` set (sd_payments db') \<subseteq> py_id ` set (sd_payments db) \<union> range (\<lambda>k. rn_payment_id (envs 0 k))"
    unfolding db'_def process_renewals_def option.case snd_conv
    using healthy assms(1) due_renewals_props(2) [OF assms(1)] by (intro renewals_fold) auto
  then show "subs_inv db'"
    and "sd_subs db' = map (\<lambda>s. if su_id s \<in> su_id ` set (due_renewals now db) then renewed now s else s) (sd_subs db)" by blast+
  have "rn_payment_id (envs (Suc n) k) \<notin> py_id ` set (sd_payments db')" for n k
  proof
    assume "rn_payment_id (envs (Suc n) k) \<in> py_id ` set (sd_payments db')"
    then have "rn_payment_id (envs (Suc n) k) \<in> range (\<lambda>k. rn_payment_id (envs 0 k))" using pass healthy(2) by blast
    then show False using inj by blast
  qed
  moreover have "inj (\<lambda>(n, k). rn_payment_id (envs (Suc n) k))" by (rule injI) (simp add: case_prod_unfold inj prod_eq_iff)
  ultimately show "healthy_passes now (\<lambda>k. envs (Suc k)) db'" using healthy(1) by (simp add: healthy_passes_def)
qed

lemma pass_reduces_owed:
  assumes "subs_inv db" and "healthy_passes now envs db" and "s \<in> set (sd_subs db)" and "is_due now s"
  shows "total_owed now (snd (process_renewals None now (envs 0) db)) < total_owed now db"
proof -
  let ?D = "su_id ` set (due_renewals now db)"
  have due: "is_due now x" if "x \<in> set (sd_subs db)" "su_id x \<in> ?D" for x
  proof -
    from that(2) obtain y where y: "y \<in> set (due_renewals now db)" "su_id x = su_id y" by blast
    then have "y \<in> set (sd_subs db)" "is_due now y" using due_renewals_props(1) [OF assms(1)] by auto
    with y(2) that(1) assms(1) show ?thesis using same_id by (metis subs_inv_def)
  qed
  have "due_renewals now db \<noteq> []" using due_renewals_props(3) [OF assms(1)] assms(3,4) by blast
  then obtain y where "y \<in> set (due_renewals now db)" by (metis list.set_intros(1) neq_Nil_conv)
  then have y: "y \<in> set (sd_subs db)" "is_due now y" "su_id y \<in> ?D" using due_renewals_props(1) [OF assms(1)] by auto
  have "sum_list (map (\<lambda>x. owed now (if su_id x \<in> ?D then renewed now x else x)) (sd_subs db)) < sum_list (map (owed now) (sd_subs db))"
  proof (rule sum_list_map_less [OF _ y(1)])
    have dec: "owed now (renewed now x) < owed now x" if "is_due now x" for x using owed_renewed [OF that, of now] by simp
    then show "owed now (if su_id y \<in> ?D then renewed now y else y) < owed now y" using y(2,3) by simp
    show "\<forall>x \<in> set (sd_subs db). owed now (if su_id x \<in> ?D then renewed now x else x) \<le> owed now x"
      using dec due by (simp add: less_imp_le)
  qed
  then show ?thesis unfolding total_owed_def healthy_pass(3) [OF assms(1,2)] by (simp add: comp_def)
qed

text \<open>\<^bold>\<open>C24.\<close> Renewals catch up: when no statement fails, after at most as many passes as there are periods owed in
  total, no active subscription is due any more, however many were overdue and for however long.\<close>

theorem renewals_catch_up:
  assumes "subs_inv db" and "healthy_passes now envs db"
  shows "\<exists>n \<le> total_owed now db. \<forall>s \<in> set (sd_subs (passes now envs n db)). \<not> is_due now s"
  using assms
proof (induction "total_owed now db" arbitrary: db envs rule: less_induct)
  case less
  show ?case
  proof (cases "\<exists>s \<in> set (sd_subs db). is_due now s")
    case False
    then show ?thesis by (intro exI [of _ 0]) simp
  next
    case True
    then have "total_owed now (snd (process_renewals None now (envs 0) db)) < total_owed now db"
      using pass_reduces_owed [OF less.prems] by blast
    moreover from less.hyps [OF this healthy_pass(1,2) [OF less.prems]] obtain n
      where "n \<le> total_owed now (snd (process_renewals None now (envs 0) db))"
        "\<forall>s \<in> set (sd_subs (passes now (\<lambda>k. envs (Suc k)) n (snd (process_renewals None now (envs 0) db)))). \<not> is_due now s" by blast
    ultimately show ?thesis by (intro exI [of _ "Suc n"]) simp
  qed
qed

section \<open>A cancelled subscription\<close>

lemma renew_finds:
  assumes "subs_inv db" and "healthy_env now e" and "su_id x \<in> su_id ` set (sd_subs db)" and "rn_payment_id e \<notin> py_id ` set (sd_payments db)"
    and "s \<in> set (sd_subs db)" and "su_id s = su_id x"
  shows "renewed now s \<in> set (sd_subs (process_renewal e x db))"
  using assms(5,6) healthy_renewal(1) [OF assms(1-4)] by (auto intro!: rev_image_eqI)

text \<open>A cancellation is undone by a pass under way: a subscription that was due when the pass read its list
  and is cancelled before its turn is renewed all the same: it is active again, with its cancellation date
  still set and a new period to pay.\<close>

theorem cancelled_subscription_revives:
  assumes "subs_inv db" and "s \<in> set (due_renewals now db)" and "cancel_subscription None t (su_id s) db = (Ok True, db1)"
    and "healthy_env now e" and "rn_payment_id e \<notin> py_id ` set (sd_payments db1)"
  shows "\<exists>s' \<in> set (sd_subs (process_renewal e s db1)). su_id s' = su_id s \<and> su_status s' = SubActive
    \<and> su_cancelled_at s' = Some t \<and> su_period_end s' = su_period_end s + DAYS30"
proof -
  have s: "s \<in> set (sd_subs db)" "su_status s = SubActive" using due_renewals_props(1) [OF assms(1)] assms(2) by (auto simp: is_due_def)
  let ?c = "s\<lparr>su_status := SubCancelled, su_cancelled_at := Some t, su_updated_at := t\<rparr>"
  have c: "?c \<in> set (sd_subs db1)"
    using assms(3) s by (auto simp: cancel_subscription_def update_sub_def intro!: rev_image_eqI)
  moreover have "subs_inv db1" using status_ops_inv(1) [OF assms(1), of None t "su_id s"] assms(3) by simp
  moreover have "su_id s \<in> su_id ` set (sd_subs db1)" using imageI [OF c, of su_id] by simp
  ultimately have "renewed now ?c \<in> set (sd_subs (process_renewal e s db1))"
    using assms(4,5) by (intro renew_finds) simp_all
  then show ?thesis by (rule rev_bexI) simp
qed

section \<open>Examples\<close>

definition demo_tier :: subscription_tier where
  "demo_tier = \<lparr>ti_id = ''t'', ti_creator_username = ''bob'', ti_name = ''gold'', ti_description = None, ti_price_xlm = ''5'',
     ti_is_active = True, ti_position = 0, ti_created_at = 0, ti_updated_at = 0\<rparr>"

definition demo_tiers_db :: sub_db where
  "demo_tiers_db = \<lparr>sd_creators = [''bob'' \<mapsto> ''b''], sd_tiers = [demo_tier], sd_benefits = [], sd_subs = [], sd_payments = [], sd_jobs = []\<rparr>"

definition demo_subscribed_db :: sub_db where
  "demo_subscribed_db = snd (subscribe (\<lambda>_. None) ''s'' ''p'' 0 0 \<lparr>sr_tier_id = ''t'', sr_subscriber_ref = ''ann'', sr_transaction_hash = None\<rparr> demo_tiers_db)"

definition demo_renewal :: "nat \<Rightarrow> nat \<Rightarrow> renewal_env" where
  "demo_renewal n k = \<lparr>rn_now = 6000000, rn_faults = (\<lambda>_. None), rn_mark_fault = None,
     rn_payment_id = ''p'' @ replicate n (CHR ''n'') @ replicate (Suc k) (CHR ''k''), 
     rn_notify = \<lparr>ne_now = 6000000, ne_creator_fault = False, ne_job_id = ''j'', ne_job_fault = None\<rparr>\<rparr>"

lemma demo_tiers_inv: "subs_inv demo_tiers_db"
  by (simp add: subs_inv_def demo_tiers_db_def)

lemma demo_subscribed: "subs_inv demo_subscribed_db" "sub_step demo_tiers_db demo_subscribed_db"
  "\<exists>s. sd_subs demo_subscribed_db = [s] \<and> su_id s = ''s'' \<and> is_due 6000000 s \<and> su_status s = SubActive" "py_id ` set (sd_payments demo_subscribed_db) = {''p''}"
proof -
  show "subs_inv demo_subscribed_db" unfolding demo_subscribed_db_def by (rule subscribe_inv [OF demo_tiers_inv])
  show "sub_step demo_tiers_db demo_subscribed_db" unfolding demo_subscribed_db_def by (rule sub_step.Subscribe)
qed (simp_all add: demo_subscribed_db_def subscribe_def get_tier_def stmt_def demo_tiers_db_def demo_tier_def is_due_def DAYS30_def Let_def)

lemma demo_replicate_inj:
  "replicate n (CHR ''n'') @ CHR ''k'' # replicate k (CHR ''k'') = replicate n' (CHR ''n'') @ CHR ''k'' # replicate k' (CHR ''k'') \<Longrightarrow> n = n' \<and> k = k'"
proof (induction n arbitrary: n')
  case 0
  then show ?case by (cases n') auto
next
  case (Suc n)
  from Suc.prems show ?case by (cases n') (auto dest: Suc.IH)
qed

lemma demo_healthy: "healthy_passes 6000000 demo_renewal demo_subscribed_db" "healthy_env 6000000 (demo_renewal n k)"
  using demo_subscribed(4) by (auto simp: healthy_passes_def healthy_env_def demo_renewal_def inj_def dest: demo_replicate_inj)

theorem periods_billed_once_witness:
  "\<exists>s. sd_subs demo_subscribed_db = [s] \<and> payments_of (su_id s) demo_subscribed_db \<noteq> []
     \<and> contiguous (payments_of (su_id s) demo_subscribed_db)"
  using periods_billed_once [OF r_into_rtranclp [where r = sub_step, OF demo_subscribed(2)] demo_tiers_inv] demo_subscribed(3) by force

theorem renewals_catch_up_witness:
  "\<exists>n. sd_subs demo_subscribed_db \<noteq> [] \<and> list_all (\<lambda>s. \<not> is_due 6000000 s) (sd_subs (passes 6000000 demo_renewal n demo_subscribed_db))"
  using renewals_catch_up [OF demo_subscribed(1) demo_healthy(1)] demo_subscribed(3) by (auto simp: list_all_iff)

theorem cancelled_subscription_revives_witness:
  "\<exists>s \<in> set (sd_subs demo_subscribed_db). \<exists>s' \<in> set (sd_subs (process_renewal (demo_renewal 0 0) s
     (snd (cancel_subscription None 5000000 ''s'' demo_subscribed_db)))). su_status s' = SubActive \<and> su_cancelled_at s' = Some 5000000"
proof -
  obtain s where s: "sd_subs demo_subscribed_db = [s]" "su_id s = ''s''" "is_due 6000000 s" "su_status s = SubActive" using demo_subscribed(3) by blast
  then have due: "s \<in> set (due_renewals 6000000 demo_subscribed_db)" by (simp add: due_renewals_def)
  obtain db1 where db1: "cancel_subscription None 5000000 (su_id s) demo_subscribed_db = (Ok True, db1)" "sd_payments db1 = sd_payments demo_subscribed_db"
    using s by (simp add: cancel_subscription_def update_sub_def)
  have "rn_payment_id (demo_renewal 0 0) \<notin> py_id ` set (sd_payments db1)"
    unfolding db1(2) demo_subscribed(4) by (simp add: demo_renewal_def)
  from cancelled_subscription_revives [OF demo_subscribed(1) due db1(1) demo_healthy(2) this] show ?thesis
    using s db1 by auto
qed

end
