(* ===== verification/Scheduled_Tips.thy ===== *)
theory Scheduled_Tips
  imports Sql
begin

text \<open>
  Scheduled and recurring tips (\<open>src/controllers/scheduled_tip_controller.rs\<close>,
  \<open>src/models/scheduled_tip.rs\<close>, \<open>src/services/scheduled_tip_service.rs\<close>, the table of
  \<open>migrations/0036_scheduled_tips.sql\<close>): the statements, the next occurrence of a rule, one instance's pass, and
  several instances interleaved as a step relation. Times are seconds; adding a calendar month is a
  parameter that may fail. An execution enqueues a notification; the log keeps, for every execution
  begun, the tip and the occurrence it was for.
\<close>

section \<open>The table\<close>

datatype scheduled_status = SchedPending | SchedProcessing | SchedCompleted | SchedFailed | SchedCancelled

record scheduled_tip =
  sc_id :: string
  sc_creator_username :: string
  sc_amount :: string
  sc_tipper_ref :: string
  sc_message :: "string option"
  sc_status :: scheduled_status
  sc_scheduled_at :: int
  sc_is_recurring :: bool
  sc_recurrence_rule :: "string option"
  sc_recurrence_end :: "int option"
  sc_next_run_at :: "int option"
  sc_last_run_at :: "int option"
  sc_run_count :: int
  sc_last_error :: "string option"
  sc_created_at :: int
  sc_updated_at :: int

record create_scheduled_request =
  cs_creator_username :: string
  cs_amount :: string
  cs_tipper_ref :: string
  cs_message :: "string option"
  cs_scheduled_at :: int
  cs_is_recurring :: bool
  cs_recurrence_rule :: "string option"
  cs_recurrence_end :: "int option"

record update_scheduled_request =
  us_scheduled_at :: "int option"
  us_amount :: "string option"
  us_message :: "string option"
  us_recurrence_rule :: "string option"
  us_recurrence_end :: "int option"

type_synonym scheduled_table = "scheduled_tip list"

definition create_scheduled ::
  "sqlx_error option \<Rightarrow> string \<Rightarrow> int \<Rightarrow> create_scheduled_request \<Rightarrow> scheduled_table \<Rightarrow> (stmt_error + scheduled_tip) \<times> scheduled_table" where
  "create_scheduled fault i now req rows =
     (let r = \<lparr>sc_id = i, sc_creator_username = cs_creator_username req, sc_amount = cs_amount req, sc_tipper_ref = cs_tipper_ref req,
               sc_message = cs_message req, sc_status = SchedPending, sc_scheduled_at = cs_scheduled_at req,
               sc_is_recurring = cs_is_recurring req, sc_recurrence_rule = cs_recurrence_rule req,
               sc_recurrence_end = cs_recurrence_end req, sc_next_run_at = Some (cs_scheduled_at req), sc_last_run_at = None,
               sc_run_count = 0, sc_last_error = None, sc_created_at = now, sc_updated_at = now\<rparr> in
      stmt fault rows (if i \<in> sc_id ` set rows then (Err (unique_violation ''scheduled_tips_pkey''), rows) else (Ok r, rows @ [r])))"

text \<open>The statements of the form \<open>UPDATE \<dots> WHERE id = $1\<close>.\<close>

definition update_scheduled :: "string \<Rightarrow> (scheduled_tip \<Rightarrow> scheduled_tip) \<Rightarrow> scheduled_table \<Rightarrow> scheduled_table" where
  "update_scheduled i f rows = map (\<lambda>r. if sc_id r = i then f r else r) rows"

definition pending_at :: "string \<Rightarrow> scheduled_tip \<Rightarrow> bool" where
  "pending_at i r \<longleftrightarrow> sc_id r = i \<and> sc_status r = SchedPending"

definition coalesce2 :: "'a option \<Rightarrow> 'a option \<Rightarrow> 'a option" where
  "coalesce2 x y = (case x of None \<Rightarrow> y | Some v \<Rightarrow> Some v)"

definition edited :: "int \<Rightarrow> update_scheduled_request \<Rightarrow> scheduled_tip \<Rightarrow> scheduled_tip" where
  "edited now req r = r\<lparr>sc_scheduled_at := coalesce_opt (us_scheduled_at req) (sc_scheduled_at r),
     sc_next_run_at := coalesce2 (us_scheduled_at req) (sc_next_run_at r),
     sc_amount := coalesce_opt (us_amount req) (sc_amount r), sc_message := coalesce2 (us_message req) (sc_message r),
     sc_recurrence_rule := coalesce2 (us_recurrence_rule req) (sc_recurrence_rule r),
     sc_recurrence_end := coalesce2 (us_recurrence_end req) (sc_recurrence_end r), sc_updated_at := now\<rparr>"

definition edit_scheduled ::
  "sqlx_error option \<Rightarrow> int \<Rightarrow> string \<Rightarrow> update_scheduled_request \<Rightarrow> scheduled_table \<Rightarrow> (stmt_error + scheduled_tip) \<times> scheduled_table" where
  "edit_scheduled fault now i req rows =
     stmt fault rows
       (case List.find (pending_at i) rows of
          None \<Rightarrow> (Err RowNotFound, rows)
        | Some r \<Rightarrow> (Ok (edited now req r), update_scheduled i (\<lambda>r. if sc_status r = SchedPending then edited now req r else r) rows))"

text \<open>\<open>cancel\<close> and \<open>mark_processing\<close>: a status change of a pending row, with the number of rows changed.\<close>

definition leave_pending ::
  "scheduled_status \<Rightarrow> sqlx_error option \<Rightarrow> int \<Rightarrow> string \<Rightarrow> scheduled_table \<Rightarrow> (stmt_error + bool) \<times> scheduled_table" where
  "leave_pending st fault now i rows =
     stmt fault rows
       (Ok (\<exists>r \<in> set rows. pending_at i r),
        update_scheduled i (\<lambda>r. if sc_status r = SchedPending then r\<lparr>sc_status := st, sc_updated_at := now\<rparr> else r) rows)"

definition cancel_scheduled :: "sqlx_error option \<Rightarrow> int \<Rightarrow> string \<Rightarrow> scheduled_table \<Rightarrow> (stmt_error + bool) \<times> scheduled_table" where
  "cancel_scheduled = leave_pending SchedCancelled"

definition mark_processing :: "sqlx_error option \<Rightarrow> int \<Rightarrow> string \<Rightarrow> scheduled_table \<Rightarrow> (stmt_error + bool) \<times> scheduled_table" where
  "mark_processing = leave_pending SchedProcessing"

definition is_due_tip :: "int \<Rightarrow> scheduled_tip \<Rightarrow> bool" where
  "is_due_tip now r \<longleftrightarrow> sc_status r = SchedPending \<and> (case sc_next_run_at r of None \<Rightarrow> False | Some t \<Rightarrow> t \<le> now)"

definition due_tips :: "int \<Rightarrow> scheduled_table \<Rightarrow> scheduled_tip list" where
  "due_tips now rows = take 100 (sort_key (\<lambda>r. the (sc_next_run_at r)) (filter (is_due_tip now) rows))"

definition completed_tip :: "int \<Rightarrow> int option \<Rightarrow> scheduled_tip \<Rightarrow> scheduled_tip" where
  "completed_tip now next_at r = r\<lparr>sc_status := (if next_at \<noteq> None then SchedPending else SchedCompleted), sc_last_run_at := Some now,
     sc_next_run_at := next_at, sc_run_count := sc_run_count r + 1, sc_last_error := None, sc_updated_at := now\<rparr>"

definition mark_completed ::
  "sqlx_error option \<Rightarrow> int \<Rightarrow> string \<Rightarrow> int option \<Rightarrow> scheduled_table \<Rightarrow> (stmt_error + unit) \<times> scheduled_table" where
  "mark_completed fault now i next_at rows = stmt fault rows (Ok (), update_scheduled i (completed_tip now next_at) rows)"

definition mark_failed ::
  "sqlx_error option \<Rightarrow> int \<Rightarrow> string \<Rightarrow> string \<Rightarrow> scheduled_table \<Rightarrow> (stmt_error + unit) \<times> scheduled_table" where
  "mark_failed fault now i err rows =
     stmt fault rows (Ok (), update_scheduled i (\<lambda>r. r\<lparr>sc_status := SchedFailed, sc_last_error := Some err, sc_updated_at := now\<rparr>) rows)"

section \<open>Recurrence\<close>

definition next_run :: "(int \<Rightarrow> int option) \<Rightarrow> int \<Rightarrow> string \<Rightarrow> int option \<Rightarrow> int option" where
  "next_run add_month from rule end_at =
     (case (if rule = ''daily'' then Some (from + 86400)
            else if rule = ''weekly'' then Some (from + 7 * 86400)
            else if rule = ''monthly'' then add_month from
            else None) of
        None \<Rightarrow> None
      | Some n \<Rightarrow> (case end_at of None \<Rightarrow> Some n | Some e \<Rightarrow> if n > e then None else Some n))"

text \<open>The occurrence an instance executes and the next one, from the row it read.\<close>

definition occurrence :: "scheduled_tip \<Rightarrow> int" where
  "occurrence tip = coalesce_opt (sc_next_run_at tip) (sc_scheduled_at tip)"

definition next_occurrence :: "(int \<Rightarrow> int option) \<Rightarrow> scheduled_tip \<Rightarrow> int option" where
  "next_occurrence add_month tip =
     (case sc_recurrence_rule tip of
        None \<Rightarrow> None
      | Some rule \<Rightarrow> if sc_is_recurring tip then next_run add_month (occurrence tip) rule (sc_recurrence_end tip) else None)"

section \<open>Instances\<close>

text \<open>The tables, the instances with the rows each has still to look at and the tip it executes, and the
  executions begun.\<close>

record instance_state =
  in_todo :: "scheduled_tip list"
  in_running :: "scheduled_tip option"

record sched_system =
  ss_creators :: "string \<rightharpoonup> string"
  ss_rows :: scheduled_table
  ss_jobs :: job_table
  ss_instances :: "nat \<Rightarrow> instance_state"
  ss_log :: "(string \<times> int) list"

definition idle :: instance_state where
  "idle = \<lparr>in_todo = [], in_running = None\<rparr>"

definition set_instance :: "nat \<Rightarrow> instance_state \<Rightarrow> sched_system \<Rightarrow> sched_system" where
  "set_instance w x s = s\<lparr>ss_instances := (ss_instances s)(w := x)\<rparr>"

text \<open>The pass in pieces: reading the due tips, claiming the next of them, and finishing an execution. A
  failing \<open>mark_processing\<close> or \<open>mark_completed\<close> ends the pass.\<close>

definition poll :: "nat \<Rightarrow> int \<Rightarrow> sched_system \<Rightarrow> sched_system" where
  "poll w now s = set_instance w \<lparr>in_todo = due_tips now (ss_rows s), in_running = None\<rparr> s"

definition claim :: "nat \<Rightarrow> sqlx_error option \<Rightarrow> int \<Rightarrow> scheduled_tip \<Rightarrow> scheduled_tip list \<Rightarrow> sched_system \<Rightarrow> sched_system" where
  "claim w fault now tip rest s =
     (case mark_processing fault now (sc_id tip) (ss_rows s) of
        (Err _, rows) \<Rightarrow> set_instance w idle s
      | (Ok False, rows) \<Rightarrow> (set_instance w \<lparr>in_todo = rest, in_running = None\<rparr> s)\<lparr>ss_rows := rows\<rparr>
      | (Ok True, rows) \<Rightarrow>
          (set_instance w \<lparr>in_todo = rest, in_running = Some tip\<rparr> s)\<lparr>ss_rows := rows, ss_log := ss_log s @ [(sc_id tip, occurrence tip)]\<rparr>)"

definition finish ::
  "(int \<Rightarrow> int option) \<Rightarrow> nat \<Rightarrow> sqlx_error option \<Rightarrow> int \<Rightarrow> notify_env \<Rightarrow> scheduled_tip \<Rightarrow> sched_system \<Rightarrow> sched_system" where
  "finish add_month w fault now ne tip s =
     (let jobs = notify_creator ne (ss_creators s) (sc_creator_username tip) (sc_id tip) TipReceived (ss_jobs s) in
      case mark_completed fault now (sc_id tip) (next_occurrence add_month tip) (ss_rows s) of
        (Err _, rows) \<Rightarrow> (set_instance w idle s)\<lparr>ss_jobs := jobs\<rparr>
      | (Ok _, rows) \<Rightarrow> (set_instance w \<lparr>in_todo = in_todo (ss_instances s w), in_running = None\<rparr> s)\<lparr>ss_rows := rows, ss_jobs := jobs\<rparr>)"

text \<open>A whole pass of one instance, alone.\<close>

record tip_env =
  te_now :: int
  te_claim_fault :: "sqlx_error option"
  te_complete_fault :: "sqlx_error option"
  te_notify :: notify_env

fun process_loop :: "(int \<Rightarrow> int option) \<Rightarrow> nat \<Rightarrow> (nat \<Rightarrow> tip_env) \<Rightarrow> nat \<Rightarrow> scheduled_tip list \<Rightarrow> sched_system \<Rightarrow> sched_system" where
  "process_loop add_month w envs k [] s = s"
| "process_loop add_month w envs k (tip # rest) s =
     (let s1 = claim w (te_claim_fault (envs k)) (te_now (envs k)) tip rest s in
      if te_claim_fault (envs k) \<noteq> None then s1
      else if in_running (ss_instances s1 w) = None then process_loop add_month w envs (Suc k) rest s1
      else (let s2 = finish add_month w (te_complete_fault (envs k)) (te_now (envs k)) (te_notify (envs k)) tip s1 in
            if te_complete_fault (envs k) \<noteq> None then s2 else process_loop add_month w envs (Suc k) rest s2))"

definition process_due :: "(int \<Rightarrow> int option) \<Rightarrow> nat \<Rightarrow> sqlx_error option \<Rightarrow> int \<Rightarrow> (nat \<Rightarrow> tip_env) \<Rightarrow> sched_system \<Rightarrow> sched_system" where
  "process_due add_month w fault now envs s =
     (if fault \<noteq> None then s else process_loop add_month w envs 0 (due_tips now (ss_rows s)) (poll w now s))"

inductive sched_step :: "(int \<Rightarrow> int option) \<Rightarrow> sched_system \<Rightarrow> sched_system \<Rightarrow> bool" for add_month where
  Create: "sched_step add_month s (s\<lparr>ss_rows := snd (create_scheduled f i now req (ss_rows s))\<rparr>)"
| Edit: "sched_step add_month s (s\<lparr>ss_rows := snd (edit_scheduled f now i ureq (ss_rows s))\<rparr>)"
| Cancel: "sched_step add_month s (s\<lparr>ss_rows := snd (cancel_scheduled f now i (ss_rows s))\<rparr>)"
| Poll: "in_running (ss_instances s w) = None \<Longrightarrow> sched_step add_month s (poll w now s)"
| Claim: "in_running (ss_instances s w) = None \<Longrightarrow> in_todo (ss_instances s w) = tip # rest \<Longrightarrow>
    sched_step add_month s (claim w f now tip rest s)"
| Finish: "in_running (ss_instances s w) = Some tip \<Longrightarrow> sched_step add_month s (finish add_month w f now ne tip s)"
| Crash: "sched_step add_month s (set_instance w idle s)"

section \<open>Rows\<close>

definition row_of :: "scheduled_table \<Rightarrow> string \<Rightarrow> scheduled_tip option" where
  "row_of rows i = List.find (\<lambda>r. sc_id r = i) rows"

lemma row_of_Some: "row_of rows i = Some r \<Longrightarrow> r \<in> set rows \<and> sc_id r = i"
  unfolding row_of_def using find_Some_split by force

lemma row_of_member: "distinct (map sc_id rows) \<Longrightarrow> r \<in> set rows \<Longrightarrow> row_of rows (sc_id r) = Some r"
  unfolding row_of_def by (induction rows) (auto simp: image_iff)

lemma row_of_None: "row_of rows i = None \<longleftrightarrow> i \<notin> sc_id ` set rows"
  by (auto simp: row_of_def find_None_iff)

lemma row_of_snoc: "row_of (rows @ [r]) i = (case row_of rows i of None \<Rightarrow> if sc_id r = i then Some r else None | Some x \<Rightarrow> Some x)"
  unfolding row_of_def by (induction rows) auto

lemma row_of_update:
  assumes "\<And>r. sc_id (f r) = sc_id r"
  shows "row_of (update_scheduled i f rows) j = (if i = j then map_option f (row_of rows j) else row_of rows j)"
  unfolding row_of_def update_scheduled_def using assms by (induction rows) auto

lemma ids_update: "(\<And>r. sc_id (f r) = sc_id r) \<Longrightarrow> map sc_id (update_scheduled i f rows) = map sc_id rows"
  by (simp add: update_scheduled_def)

lemma pending_iff: "distinct (map sc_id rows) \<Longrightarrow>
    (\<exists>r \<in> set rows. pending_at i r) \<longleftrightarrow> (\<exists>r. row_of rows i = Some r \<and> sc_status r = SchedPending)"
  using row_of_Some row_of_member by (fastforce simp: pending_at_def)

section \<open>Executions\<close>

definition runs :: "sched_system \<Rightarrow> string \<Rightarrow> nat" where
  "runs s i = count_list (map fst (ss_log s)) i"

lemma runs_simps [simp]:
  "runs (s\<lparr>ss_rows := rs\<rparr>) i = runs s i" "runs (s\<lparr>ss_instances := x\<rparr>) i = runs s i" "runs (s\<lparr>ss_jobs := js\<rparr>) i = runs s i"
  by (simp_all add: runs_def)

text \<open>What an instance holds is of the same kind as its row; what it executes is marked so, and by it
  alone; a one-shot tip has run at most once, and not at all while pending.\<close>

definition held_ok :: "scheduled_table \<Rightarrow> scheduled_tip \<Rightarrow> bool" where
  "held_ok rows tip \<longleftrightarrow> (\<exists>r. row_of rows (sc_id tip) = Some r \<and> sc_is_recurring r = sc_is_recurring tip)"

definition running_ok :: "scheduled_table \<Rightarrow> scheduled_tip \<Rightarrow> bool" where
  "running_ok rows tip \<longleftrightarrow> (\<exists>r. row_of rows (sc_id tip) = Some r \<and> sc_status r = SchedProcessing)"

definition once_ok :: "sched_system \<Rightarrow> string \<Rightarrow> bool" where
  "once_ok s i \<longleftrightarrow> (case row_of (ss_rows s) i of None \<Rightarrow> runs s i = 0
     | Some r \<Rightarrow> sc_is_recurring r \<or> runs s i = 0 \<or> runs s i = 1 \<and> sc_status r \<noteq> SchedPending)"

definition sched_inv :: "sched_system \<Rightarrow> bool" where
  "sched_inv s \<longleftrightarrow> distinct (map sc_id (ss_rows s))
     \<and> (\<forall>w. \<forall>tip \<in> set (in_todo (ss_instances s w)). held_ok (ss_rows s) tip)
     \<and> (\<forall>w tip. in_running (ss_instances s w) = Some tip \<longrightarrow> held_ok (ss_rows s) tip \<and> running_ok (ss_rows s) tip)
     \<and> (\<forall>w w' t t'. in_running (ss_instances s w) = Some t \<and> in_running (ss_instances s w') = Some t' \<and> sc_id t = sc_id t' \<longrightarrow> w = w')
     \<and> (\<forall>i. once_ok s i)"

lemma sched_invD:
  assumes "sched_inv s"
  shows "distinct (map sc_id (ss_rows s))" and "tip \<in> set (in_todo (ss_instances s w)) \<Longrightarrow> held_ok (ss_rows s) tip"
    and "in_running (ss_instances s w) = Some tip \<Longrightarrow> held_ok (ss_rows s) tip"
    and "in_running (ss_instances s w) = Some tip \<Longrightarrow> running_ok (ss_rows s) tip"
    and "in_running (ss_instances s w) = Some t \<Longrightarrow> in_running (ss_instances s w') = Some t' \<Longrightarrow> sc_id t = sc_id t' \<Longrightarrow> w = w'"
    and "once_ok s i"
  using assms unfolding sched_inv_def by blast+

lemma sched_invI:
  assumes "distinct (map sc_id (ss_rows s))" and "\<And>w tip. tip \<in> set (in_todo (ss_instances s w)) \<Longrightarrow> held_ok (ss_rows s) tip"
    and "\<And>w tip. in_running (ss_instances s w) = Some tip \<Longrightarrow> held_ok (ss_rows s) tip \<and> running_ok (ss_rows s) tip"
    and "\<And>w w' t t'. in_running (ss_instances s w) = Some t \<Longrightarrow> in_running (ss_instances s w') = Some t' \<Longrightarrow> sc_id t = sc_id t' \<Longrightarrow> w = w'"
    and "\<And>i. once_ok s i"
  shows "sched_inv s"
  unfolding sched_inv_def using assms by blast

definition keeps_kind :: "(scheduled_tip \<Rightarrow> scheduled_tip) \<Rightarrow> bool" where
  "keeps_kind f \<longleftrightarrow> (\<forall>r. sc_id (f r) = sc_id r \<and> sc_is_recurring (f r) = sc_is_recurring r)"

lemma row_of_update_kind:
  "keeps_kind f \<Longrightarrow> row_of (update_scheduled i f rows) j = (if i = j then map_option f (row_of rows j) else row_of rows j)"
  by (rule row_of_update) (simp add: keeps_kind_def)

lemma held_ok_update: "keeps_kind f \<Longrightarrow> held_ok (update_scheduled i f rows) tip = held_ok rows tip"
  by (auto simp: held_ok_def row_of_update_kind keeps_kind_def)

lemma distinct_update: "keeps_kind f \<Longrightarrow> distinct (map sc_id (update_scheduled i f rows)) = distinct (map sc_id rows)"
  using ids_update [of f i rows] by (simp add: keeps_kind_def)

lemma running_ok_other: "keeps_kind f \<Longrightarrow> sc_id tip \<noteq> i \<Longrightarrow> running_ok (update_scheduled i f rows) tip = running_ok rows tip"
  by (simp add: running_ok_def row_of_update_kind)

text \<open>A change of a row that keeps its kind, leaves a row under execution alone and brings none back to
  pending.\<close>

lemma sched_inv_update:
  assumes inv: "sched_inv s" and f: "keeps_kind f" "\<And>r. sc_status r = SchedProcessing \<Longrightarrow> sc_status (f r) = SchedProcessing"
    and pend: "\<And>r. sc_status (f r) = SchedPending \<Longrightarrow> sc_status r = SchedPending"
  shows "sched_inv (s\<lparr>ss_rows := update_scheduled i f (ss_rows s)\<rparr>)"
proof -
  have run: "running_ok (update_scheduled i f (ss_rows s)) tip" if "running_ok (ss_rows s) tip" for tip
    using that f by (auto simp: running_ok_def row_of_update_kind)
  have once: "once_ok (s\<lparr>ss_rows := update_scheduled i f (ss_rows s)\<rparr>) j" for j
    using sched_invD(6) [OF inv, of j] f(1) pend
    by (cases "row_of (ss_rows s) j") (auto simp: once_ok_def row_of_update_kind keeps_kind_def split: if_splits)
  show ?thesis
    by (rule sched_invI)
      (auto simp: distinct_update held_ok_update f(1) once intro: run sched_invD [OF inv])
qed

text \<open>What the claim of an instance and the end of an execution do to the invariant.\<close>

lemma sched_inv_instance:
  assumes inv: "sched_inv s" and "in_running x = None" and "\<And>tip. tip \<in> set (in_todo x) \<Longrightarrow> held_ok (ss_rows s) tip"
  shows "sched_inv (set_instance w x s)"
proof (rule sched_invI)
  show "once_ok (set_instance w x s) i" for i
    using sched_invD(6) [OF inv, of i] by (simp add: once_ok_def set_instance_def split: option.splits)
qed (use sched_invD [OF inv] assms(2,3) in \<open>auto simp: set_instance_def split: if_splits\<close>)

lemma poll_inv:
  assumes "sched_inv s"
  shows "sched_inv (poll w now s)"
  unfolding poll_def
proof (rule sched_inv_instance [OF assms])
  fix tip
  assume "tip \<in> set (in_todo \<lparr>in_todo = due_tips now (ss_rows s), in_running = None\<rparr>)"
  then have "tip \<in> set (ss_rows s)" by (auto simp: due_tips_def dest!: in_set_takeD)
  then show "held_ok (ss_rows s) tip" using row_of_member [OF sched_invD(1) [OF assms]] by (auto simp: held_ok_def)
qed simp

lemma create_inv:
  assumes inv: "sched_inv s"
  shows "sched_inv (s\<lparr>ss_rows := snd (create_scheduled f i now req (ss_rows s))\<rparr>)"
proof (cases "f \<noteq> None \<or> i \<in> sc_id ` set (ss_rows s)")
  case True
  then show ?thesis using inv by (auto simp: create_scheduled_def stmt_def Let_def split: option.split)
next
  case False
  define r where "r = last (snd (create_scheduled f i now req (ss_rows s)))"
  have rows: "snd (create_scheduled f i now req (ss_rows s)) = ss_rows s @ [r]" and r: "sc_id r = i" "sc_status r = SchedPending"
    using False by (auto simp: r_def create_scheduled_def Let_def)
  have none: "row_of (ss_rows s) i = None" using False by (simp add: row_of_None)
  have row: "row_of (ss_rows s @ [r]) j = (if j = i then Some r else row_of (ss_rows s) j)" for j
    using none r(1) by (auto simp: row_of_snoc split: option.splits)
  have held: "held_ok (ss_rows s) tip \<Longrightarrow> held_ok (ss_rows s @ [r]) tip" and run: "running_ok (ss_rows s) tip \<Longrightarrow> running_ok (ss_rows s @ [r]) tip" for tip
    using none by (auto simp: held_ok_def running_ok_def row)
  have "once_ok (s\<lparr>ss_rows := ss_rows s @ [r]\<rparr>) j" for j
    using sched_invD(6) [OF inv, of j] none r(2) by (auto simp: once_ok_def row split: option.splits)
  then show ?thesis unfolding rows
    by (intro sched_invI) (use sched_invD [OF inv] held run False r(1) in \<open>auto simp: image_iff\<close>)
qed

lemma edited_kind: "keeps_kind (\<lambda>r. if sc_status r = SchedPending then edited now req r else r)"
  "keeps_kind (\<lambda>r. if sc_status r = SchedPending then r\<lparr>sc_status := st, sc_updated_at := now\<rparr> else r)" "keeps_kind (completed_tip now n)"
  by (simp_all add: keeps_kind_def edited_def completed_tip_def)

lemma edit_inv: "sched_inv s \<Longrightarrow> sched_inv (s\<lparr>ss_rows := snd (edit_scheduled f now i req (ss_rows s))\<rparr>)"
  by (auto simp: edit_scheduled_def stmt_def split: option.splits if_splits intro!: sched_inv_update edited_kind)

lemma leave_pending_inv:
  "sched_inv s \<Longrightarrow> st \<noteq> SchedPending \<Longrightarrow> sched_inv (s\<lparr>ss_rows := snd (leave_pending st f now i (ss_rows s))\<rparr>)"
  by (auto simp: leave_pending_def stmt_def edited_kind(2) split: option.splits if_splits intro!: sched_inv_update)

lemma set_instance_rows: "(set_instance w x s)\<lparr>ss_rows := rows\<rparr> = set_instance w x (s\<lparr>ss_rows := rows\<rparr>)"
  by (simp add: set_instance_def)

lemma claim_inv:
  assumes inv: "sched_inv s" and free: "in_running (ss_instances s w) = None" and todo: "in_todo (ss_instances s w) = tip # rest"
  shows "sched_inv (claim w f now tip rest s)"
proof -
  have held: "held_ok (ss_rows s) t" if "t \<in> set (tip # rest)" for t using sched_invD(2) [OF inv, of t w] todo that by simp
  let ?rows = "snd (mark_processing f now (sc_id tip) (ss_rows s))"
  have inv': "sched_inv (s\<lparr>ss_rows := ?rows\<rparr>)" unfolding mark_processing_def by (rule leave_pending_inv [OF inv]) simp
  have held': "held_ok ?rows t" if "t \<in> set (tip # rest)" for t
    using held [OF that] held_ok_update [OF edited_kind(2)] by (simp add: mark_processing_def leave_pending_def stmt_def split: option.split)
  show ?thesis
  proof (cases "f = None \<and> (\<exists>r \<in> set (ss_rows s). pending_at (sc_id tip) r)")
    case False
    then have "claim w f now tip rest s = set_instance w idle s
        \<or> claim w f now tip rest s = set_instance w \<lparr>in_todo = rest, in_running = None\<rparr> (s\<lparr>ss_rows := ?rows\<rparr>)"
      by (cases f) (auto simp: claim_def mark_processing_def leave_pending_def stmt_def set_instance_rows)
    then show ?thesis
      using sched_inv_instance [OF inv, of idle w] sched_inv_instance [OF inv', of "\<lparr>in_todo = rest, in_running = None\<rparr>" w] held'
      by (auto simp: idle_def)
  next
    case True
    then obtain r where r: "row_of (ss_rows s) (sc_id tip) = Some r" "sc_status r = SchedPending"
      using pending_iff [OF sched_invD(1) [OF inv]] by blast
    define s' where "s' = claim w f now tip rest s"
    have s': "ss_rows s' = ?rows" "ss_instances s' = (ss_instances s)(w := \<lparr>in_todo = rest, in_running = Some tip\<rparr>)"
      "runs s' i = runs s i + (if i = sc_id tip then 1 else 0)" for i
      using True by (auto simp: s'_def claim_def mark_processing_def leave_pending_def stmt_def set_instance_def runs_def)
    have row: "row_of ?rows i = (if i = sc_id tip then Some (r\<lparr>sc_status := SchedProcessing, sc_updated_at := now\<rparr>) else row_of (ss_rows s) i)" for i
      using True r by (auto simp: mark_processing_def leave_pending_def row_of_update_kind [OF edited_kind(2)])
    have other: "sc_id t \<noteq> sc_id tip" if "in_running (ss_instances s w') = Some t" for w' t
      using sched_invD(4) [OF inv that] r by (auto simp: running_ok_def)
    have "sched_inv s'"
    proof (rule sched_invI)
      fix i
      show "once_ok s' i" using sched_invD(6) [OF inv, of i] r by (auto simp: once_ok_def s' row split: option.splits)
    next
      fix w' t
      assume "in_running (ss_instances s' w') = Some t"
      then show "held_ok (ss_rows s') t \<and> running_ok (ss_rows s') t"
        using held' sched_invD(3) [OF inv'] sched_invD(4) [OF inv] other
        by (auto simp: s' running_ok_def row split: if_splits)
    next
      fix w1 w2 t1 t2
      assume "in_running (ss_instances s' w1) = Some t1" "in_running (ss_instances s' w2) = Some t2" "sc_id t1 = sc_id t2"
      then show "w1 = w2" using other sched_invD(5) [OF inv] by (auto simp: s' split: if_splits)
    qed (use held' sched_invD(1,2) [OF inv'] in \<open>auto simp: s' split: if_splits\<close>)
    then show ?thesis by (simp add: s'_def)
  qed
qed

lemma finish_inv:
  assumes inv: "sched_inv s" and run: "in_running (ss_instances s w) = Some tip"
  shows "sched_inv (finish add_month w f now ne tip s)"
proof -
  have "once_ok (x\<lparr>ss_jobs := js\<rparr>) i = once_ok x i" for x js i by (simp add: once_ok_def split: option.split)
  then have jobs: "sched_inv (x\<lparr>ss_jobs := js\<rparr>) = sched_inv x" for x js by (simp add: sched_inv_def)
  show ?thesis
  proof (cases f)
    case (Some e)
    then show ?thesis using sched_inv_instance [OF inv, of idle w]
      by (simp add: finish_def mark_completed_def stmt_def jobs idle_def)
  next
    case None
    define g where "g = completed_tip now (next_occurrence add_month tip)"
    have g: "keeps_kind g" unfolding g_def by (rule edited_kind(3))
    define s' where "s' = set_instance w \<lparr>in_todo = in_todo (ss_instances s w), in_running = None\<rparr> s
      \<lparr>ss_rows := update_scheduled (sc_id tip) g (ss_rows s)\<rparr>"
    obtain r where r: "row_of (ss_rows s) (sc_id tip) = Some r" "sc_is_recurring r = sc_is_recurring tip" "sc_status r = SchedProcessing"
      using sched_invD(3,4) [OF inv run] by (auto simp: held_ok_def running_ok_def)
    have other: "sc_id t \<noteq> sc_id tip" if "in_running (ss_instances s w') = Some t" "w' \<noteq> w" for w' t
      using sched_invD(5) [OF inv that(1) run] that(2) by blast
    have "sched_inv s'"
    proof (rule sched_invI)
      fix i
      have "\<not> sc_is_recurring r \<Longrightarrow> sc_status (g r) = SchedCompleted"
        using r(2) by (simp add: g_def completed_tip_def next_occurrence_def split: option.split)
      moreover have "sc_is_recurring (g r) = sc_is_recurring r" using g by (simp add: keeps_kind_def)
      ultimately show "once_ok s' i" using sched_invD(6) [OF inv, of i] r
        by (auto simp: once_ok_def s'_def set_instance_def row_of_update_kind [OF g] split: option.splits)
    next
      fix w' t
      assume "in_running (ss_instances s' w') = Some t"
      then have "w' \<noteq> w" "in_running (ss_instances s w') = Some t" by (auto simp: s'_def set_instance_def split: if_splits)
      then show "held_ok (ss_rows s') t \<and> running_ok (ss_rows s') t"
        using sched_invD(3,4) [OF inv] other running_ok_other [OF g] by (simp add: s'_def held_ok_update [OF g])
    next
      fix w1 w2 t1 t2
      assume "in_running (ss_instances s' w1) = Some t1" "in_running (ss_instances s' w2) = Some t2" "sc_id t1 = sc_id t2"
      then show "w1 = w2" using sched_invD(5) [OF inv] by (auto simp: s'_def set_instance_def split: if_splits)
    next
      show "distinct (map sc_id (ss_rows s'))" using sched_invD(1) [OF inv] by (simp add: s'_def distinct_update [OF g])
    next
      fix w' t
      assume "t \<in> set (in_todo (ss_instances s' w'))"
      then have "t \<in> set (in_todo (ss_instances s w'))" by (auto simp: s'_def set_instance_def split: if_splits)
      then show "held_ok (ss_rows s') t" using sched_invD(2) [OF inv] by (simp add: s'_def held_ok_update [OF g])
    qed
    then have "sched_inv (s'\<lparr>ss_jobs := js\<rparr>)" for js by (simp add: jobs)
    then show ?thesis using None by (simp add: finish_def mark_completed_def s'_def g_def [symmetric] set_instance_def)
  qed
qed

lemma sched_step_inv: "sched_step add_month s s' \<Longrightarrow> sched_inv s \<Longrightarrow> sched_inv s'"
proof (induction rule: sched_step.induct)
  case (Crash s w)
  then show ?case by (intro sched_inv_instance) (simp_all add: idle_def)
qed (simp_all add: create_inv edit_inv leave_pending_inv poll_inv claim_inv finish_inv cancel_scheduled_def)

definition sched_init :: "(string \<rightharpoonup> string) \<Rightarrow> sched_system" where
  "sched_init creators = \<lparr>ss_creators = creators, ss_rows = [], ss_jobs = [], ss_instances = (\<lambda>_. idle), ss_log = []\<rparr>"

lemma sched_inv_init: "sched_inv (sched_init creators)"
  by (rule sched_invI) (simp_all add: sched_init_def idle_def once_ok_def runs_def row_of_def)

lemma sched_inv_reachable: "(sched_step add_month)\<^sup>*\<^sup>* (sched_init creators) s \<Longrightarrow> sched_inv s"
  by (induction rule: rtranclp_induct) (auto intro: sched_inv_init sched_step_inv)

text \<open>\<^bold>\<open>C11.\<close> A one-shot tip runs at most once and no tip is executed by two instances at the same time, whatever
  the instances, the users, failing statements and crashes do in between.\<close>

theorem scheduled_tip_exclusive:
  assumes "(sched_step add_month)\<^sup>*\<^sup>* (sched_init creators) s"
  shows "(\<forall>r \<in> set (ss_rows s). \<not> sc_is_recurring r \<longrightarrow> runs s (sc_id r) \<le> 1)
    \<and> (\<forall>w w' t t'. in_running (ss_instances s w) = Some t \<and> in_running (ss_instances s w') = Some t' \<and> sc_id t = sc_id t' \<longrightarrow> w = w')"
proof -
  note inv = sched_inv_reachable [OF assms]
  have "runs s (sc_id r) \<le> 1" if "r \<in> set (ss_rows s)" "\<not> sc_is_recurring r" for r
    using sched_invD(6) [OF inv, of "sc_id r"] row_of_member [OF sched_invD(1) [OF inv] that(1)] that(2) by (auto simp: once_ok_def)
  then show ?thesis using sched_invD(5) [OF inv] by blast
qed

section \<open>A pass is a run\<close>

lemma claim_instance:
  "f = None \<Longrightarrow> in_todo (ss_instances (claim w f now tip rest s) w) = rest"
  "in_running (ss_instances (claim w f now tip rest s) w) \<in> {None, Some tip}"
proof -
  obtain b rows where "f = None \<longrightarrow> mark_processing f now (sc_id tip) (ss_rows s) = (Ok b, rows)"
    "f \<noteq> None \<longrightarrow> (\<exists>e. mark_processing f now (sc_id tip) (ss_rows s) = (Err e, ss_rows s))"
    by (cases f) (auto simp: mark_processing_def leave_pending_def stmt_def)
  then show "f = None \<Longrightarrow> in_todo (ss_instances (claim w f now tip rest s) w) = rest"
    and "in_running (ss_instances (claim w f now tip rest s) w) \<in> {None, Some tip}"
    by (cases "f = None"; cases b; auto simp: claim_def set_instance_def idle_def)+
qed

lemma finish_instance:
  "f = None \<Longrightarrow> in_todo (ss_instances (finish add_month w f now ne tip s) w) = in_todo (ss_instances s w)"
  "in_running (ss_instances (finish add_month w f now ne tip s) w) = None"
  by (cases f; simp add: finish_def mark_completed_def stmt_def set_instance_def idle_def Let_def)+

lemma process_loop_run:
  "in_running (ss_instances s w) = None \<Longrightarrow> in_todo (ss_instances s w) = tips \<Longrightarrow>
     (sched_step add_month)\<^sup>*\<^sup>* s (process_loop add_month w envs k tips s)"
proof (induction tips arbitrary: k s)
  case (Cons tip rest)
  define s1 where "s1 = claim w (te_claim_fault (envs k)) (te_now (envs k)) tip rest s"
  have step1: "sched_step add_month s s1" unfolding s1_def using Cons.prems by (rule sched_step.Claim)
  note loop = process_loop.simps(2) [of add_month w envs k tip rest s, folded s1_def, unfolded Let_def, folded s1_def]
  show ?case
  proof (cases "te_claim_fault (envs k) \<noteq> None")
    case True
    then show ?thesis using step1 unfolding loop by (simp add: r_into_rtranclp)
  next
    case False
    then have todo1: "in_todo (ss_instances s1 w) = rest" by (simp add: s1_def claim_instance)
    show ?thesis
    proof (cases "in_running (ss_instances s1 w)")
      case None
      then show ?thesis using False step1 Cons.IH [OF None todo1] unfolding loop
        by (simp add: converse_rtranclp_into_rtranclp)
    next
      case (Some x)
      then have run: "in_running (ss_instances s1 w) = Some tip"
        using claim_instance(2) [of w "te_claim_fault (envs k)" "te_now (envs k)" tip rest s] by (simp add: s1_def)
      define s2 where "s2 = finish add_month w (te_complete_fault (envs k)) (te_now (envs k)) (te_notify (envs k)) tip s1"
      have "sched_step add_month s1 s2" unfolding s2_def using run by (rule sched_step.Finish)
      with step1 have two: "(sched_step add_month)\<^sup>*\<^sup>* s s2" by (meson converse_rtranclp_into_rtranclp r_into_rtranclp)
      show ?thesis
      proof (cases "te_complete_fault (envs k) \<noteq> None")
        case True
        then show ?thesis using two False run unfolding loop s2_def by simp
      next
        case ok: False
        have "(sched_step add_month)\<^sup>*\<^sup>* s2 (process_loop add_month w envs (Suc k) rest s2)"
          by (rule Cons.IH) (use ok todo1 in \<open>simp_all add: s2_def finish_instance\<close>)
        then show ?thesis using two False ok run unfolding loop s2_def by simp
      qed
    qed
  qed
qed simp

text \<open>A pass of the scheduled-tip service is a run of the step relation: what holds of every reachable
  state of interleaved instances holds of the service.\<close>

theorem process_due_is_run:
  assumes "in_running (ss_instances s w) = None"
  shows "(sched_step add_month)\<^sup>*\<^sup>* s (process_due add_month w fault now envs s)"
proof (cases "fault = None")
  case True
  have "sched_step add_month s (poll w now s)" using assms by (rule sched_step.Poll)
  moreover have "(sched_step add_month)\<^sup>*\<^sup>* (poll w now s) (process_loop add_month w envs 0 (due_tips now (ss_rows s)) (poll w now s))"
    by (rule process_loop_run) (simp_all add: poll_def set_instance_def)
  ultimately show ?thesis using True by (simp add: process_due_def converse_rtranclp_into_rtranclp)
qed (simp add: process_due_def)

section \<open>A race\<close>

definition demo_recurring :: create_scheduled_request where
  "demo_recurring = \<lparr>cs_creator_username = ''bob'', cs_amount = ''1'', cs_tipper_ref = ''ann'', cs_message = None, cs_scheduled_at = 0,
     cs_is_recurring = True, cs_recurrence_rule = Some ''daily'', cs_recurrence_end = None\<rparr>"

definition demo_notify :: notify_env where
  "demo_notify = \<lparr>ne_now = 10, ne_creator_fault = False, ne_job_id = ''j'', ne_job_fault = None\<rparr>"

definition demo_row :: "create_scheduled_request \<Rightarrow> scheduled_tip" where
  "demo_row req = hd (snd (create_scheduled None ''r'' 0 req []))"

text \<open>An occurrence of a recurring tip may run twice: the claim looks at the status only, so an
  instance that read the tip before another one executed it executes the same occurrence again, although the
  row is no longer due.\<close>

theorem recurring_occurrence_runs_twice:
  "\<exists>s. (sched_step add_month)\<^sup>*\<^sup>* (sched_init creators) s \<and> ss_log s = [(''r'', 0), (''r'', 0)]
     \<and> map sc_next_run_at (ss_rows s) = [Some 86400] \<and> due_tips 86399 (ss_rows s) = []"
proof -
  let ?tip = "demo_row demo_recurring"
  define s1 where "s1 = sched_init creators\<lparr>ss_rows := snd (create_scheduled None ''r'' 0 demo_recurring (ss_rows (sched_init creators)))\<rparr>"
  define s2 where "s2 = poll 0 10 s1"
  define s3 where "s3 = poll 1 10 s2"
  define s4 where "s4 = claim 0 None 10 ?tip [] s3"
  define s5 where "s5 = finish add_month 0 None 10 demo_notify ?tip s4"
  define s6 where "s6 = claim 1 None 11 ?tip [] s5"
  note tip = demo_row_def demo_recurring_def create_scheduled_def Let_def
  have r1: "ss_rows s1 = [?tip]" "ss_instances s1 = (\<lambda>_. idle)" "ss_log s1 = []" by (simp_all add: s1_def sched_init_def tip)
  have due: "due_tips 10 [?tip] = [?tip]" by (simp add: due_tips_def is_due_tip_def tip)
  let ?some = "\<lparr>in_todo = [?tip], in_running = None\<rparr>"
  have r3: "ss_rows s3 = [?tip]" "ss_instances s3 = (\<lambda>_. idle)(0 := ?some, 1 := ?some)" "ss_log s3 = []"
    by (simp_all add: s3_def s2_def poll_def set_instance_def r1 due)
  let ?busy = "?tip\<lparr>sc_status := SchedProcessing, sc_updated_at := 10\<rparr>"
  have r4: "ss_rows s4 = [?busy]" "ss_instances s4 = (ss_instances s3)(0 := \<lparr>in_todo = [], in_running = Some ?tip\<rparr>)" "ss_log s4 = [(''r'', 0)]"
    by (simp_all add: s4_def claim_def mark_processing_def leave_pending_def r3 update_scheduled_def pending_at_def set_instance_def
        occurrence_def coalesce_opt_def tip)
  have r5: "ss_rows s5 = [completed_tip 10 (Some 86400) ?busy]" "ss_instances s5 = (ss_instances s4)(0 := idle)" "ss_log s5 = [(''r'', 0)]"
    by (simp_all add: s5_def finish_def mark_completed_def r4 update_scheduled_def next_occurrence_def next_run_def occurrence_def
        coalesce_opt_def set_instance_def idle_def tip)
  have "ss_rows s6 = [(completed_tip 10 (Some 86400) ?busy)\<lparr>sc_status := SchedProcessing, sc_updated_at := 11\<rparr>]" "ss_log s6 = [(''r'', 0), (''r'', 0)]"
    by (simp_all add: s6_def claim_def mark_processing_def leave_pending_def r5 update_scheduled_def pending_at_def completed_tip_def
        occurrence_def coalesce_opt_def set_instance_def tip)
  moreover have "sched_step add_month (sched_init creators) s1" unfolding s1_def by (rule sched_step.Create)
  moreover have "sched_step add_month s1 s2" unfolding s2_def by (rule sched_step.Poll) (simp add: r1 idle_def)
  moreover have "sched_step add_month s2 s3" unfolding s3_def by (rule sched_step.Poll) (simp add: s2_def poll_def set_instance_def r1 idle_def)
  moreover have "sched_step add_month s3 s4" unfolding s4_def by (rule sched_step.Claim) (simp_all add: r3)
  moreover have "sched_step add_month s4 s5" unfolding s5_def by (rule sched_step.Finish) (simp add: r4)
  moreover have "sched_step add_month s5 s6" unfolding s6_def by (rule sched_step.Claim) (simp_all add: r5 r4 r3)
  ultimately show ?thesis
    by (intro exI [of _ s6]) (auto simp: due_tips_def is_due_tip_def completed_tip_def intro!: converse_rtranclp_into_rtranclp)
qed

theorem scheduled_tip_exclusive_witness:
  "runs (sched_init Map.empty\<lparr>ss_rows := snd (create_scheduled None ''r'' 0 (demo_recurring\<lparr>cs_is_recurring := False\<rparr>) [])\<rparr>) ''r'' \<le> 1"
proof -
  let ?s = "sched_init Map.empty\<lparr>ss_rows := snd (create_scheduled None ''r'' 0 (demo_recurring\<lparr>cs_is_recurring := False\<rparr>) (ss_rows (sched_init Map.empty)))\<rparr>"
  have "(sched_step (\<lambda>_. None))\<^sup>*\<^sup>* (sched_init Map.empty) ?s" by (rule r_into_rtranclp, rule sched_step.Create)
  from scheduled_tip_exclusive [OF this] show ?thesis
    by (auto simp: create_scheduled_def demo_recurring_def Let_def sched_init_def)
qed

theorem process_due_is_run_witness:
  "(sched_step (\<lambda>_. None))\<^sup>*\<^sup>* (sched_init Map.empty) (process_due (\<lambda>_. None) 0 None 10
     (\<lambda>_. \<lparr>te_now = 10, te_claim_fault = None, te_complete_fault = None, te_notify = demo_notify\<rparr>) (sched_init Map.empty))"
  by (rule process_due_is_run) (simp add: sched_init_def idle_def)

end
