(* ===== verification/Tx_Pool.thy ===== *)
theory Tx_Pool
  imports Sql Stellar_Verify
begin

text \<open>
  The pool of submitted transactions (\<open>src/services/tx_pool_service.rs\<close>, \<open>src/models/tx_pool.rs\<close>, the table of
  \<open>migrations/0057_tx_pool.sql\<close>): enqueueing, the claim of a batch, the verification of each claimed entry with
  its retries, and the workers interleaved as a step relation. Verification is any state transformer (in the
  program \<open>verify_transaction\<close> of the Stellar client, theory Stellar_Verify); so is the text of an error. The
  claim with \<open>FOR UPDATE SKIP LOCKED\<close> is one step; rows of equal time are taken in table order. Times are
  seconds.
\<close>

section \<open>The table\<close>

datatype tx_status = TxPending | TxProcessing | TxConfirmed | TxFailed

record tx_row =
  tx_id :: string
  tx_transaction_hash :: string
  tx_pool_status :: tx_status
  tx_retry_count :: int
  tx_max_retries :: int
  tx_last_error :: "string option"
  tx_metadata :: json
  tx_created_at :: int
  tx_updated_at :: int
  tx_next_retry_at :: int

type_synonym tx_table = "tx_row list"

definition clamp_i32 :: "int \<Rightarrow> int \<Rightarrow> int \<Rightarrow> int" where
  "clamp_i32 lo hi x = (if x < lo then lo else if x > hi then hi else x)"

definition requeued :: "int \<Rightarrow> tx_row \<Rightarrow> tx_row" where
  "requeued now r = r\<lparr>tx_pool_status := TxPending, tx_retry_count := 0, tx_last_error := None, tx_updated_at := now, tx_next_retry_at := now\<rparr>"

definition enqueue_tx ::
  "sqlx_error option \<Rightarrow> string \<Rightarrow> int \<Rightarrow> string \<Rightarrow> json \<Rightarrow> int option \<Rightarrow> tx_table \<Rightarrow> (stmt_error + tx_row) \<times> tx_table" where
  "enqueue_tx fault i now hash metadata retries rows =
     (let m = clamp_i32 1 10 (coalesce_opt retries 5);
          r = \<lparr>tx_id = i, tx_transaction_hash = hash, tx_pool_status = TxPending, tx_retry_count = 0, tx_max_retries = m,
               tx_last_error = None, tx_metadata = metadata, tx_created_at = now, tx_updated_at = now, tx_next_retry_at = now\<rparr> in
      stmt fault rows
        (case List.find (\<lambda>x. tx_transaction_hash x = hash) rows of
           Some x \<Rightarrow> (Ok (requeued now x), map (\<lambda>x. if tx_transaction_hash x = hash then requeued now x else x) rows)
         | None \<Rightarrow>
             if i \<in> tx_id ` set rows then (Err (unique_violation ''tx_pool_pkey''), rows) else (Ok r, rows @ [r])))"

definition update_tx :: "string \<Rightarrow> (tx_row \<Rightarrow> tx_row) \<Rightarrow> tx_table \<Rightarrow> tx_table" where
  "update_tx i f rows = map (\<lambda>r. if tx_id r = i then f r else r) rows"

section \<open>A batch\<close>

definition ready :: "int \<Rightarrow> tx_row \<Rightarrow> bool" where
  "ready now r \<longleftrightarrow> tx_pool_status r = TxPending \<and> tx_next_retry_at r \<le> now"

definition claimed :: "int \<Rightarrow> tx_row \<Rightarrow> tx_row" where
  "claimed now r = r\<lparr>tx_pool_status := TxProcessing, tx_updated_at := now\<rparr>"

definition claim_batch :: "nat \<Rightarrow> int \<Rightarrow> tx_table \<Rightarrow> tx_row list \<times> tx_table" where
  "claim_batch batch now rows =
     (let chosen = tx_id ` set (take batch (sort_key tx_next_retry_at (filter (ready now) rows))) in
      (map (claimed now) (filter (\<lambda>r. tx_id r \<in> chosen) rows), map (\<lambda>r. if tx_id r \<in> chosen then claimed now r else r) rows))"

text \<open>\<open>(30u64 * 2u64.saturating_pow(new_retry as u32)).min(3600)\<close>.\<close>

definition backoff_secs :: "int \<Rightarrow> nat" where
  "backoff_secs new_retry = min (30 * sat_pow u64_max 2 (nat (new_retry mod 2 ^ 32)) mod 2 ^ 64) 3600"

text \<open>What happens to an entry after its verification; an update that fails is only logged.\<close>

definition settle_entry ::
  "(app_error \<Rightarrow> string) \<Rightarrow> sqlx_error option \<Rightarrow> int \<Rightarrow> tx_row \<Rightarrow> app_error + bool \<Rightarrow> tx_table \<Rightarrow> tx_table" where
  "settle_entry show_error fault now entry result rows =
     (if fault \<noteq> None then rows
      else if result = Ok True then update_tx (tx_id entry) (\<lambda>r. r\<lparr>tx_pool_status := TxConfirmed, tx_updated_at := now\<rparr>) rows
      else (let err = (case result of Err e \<Rightarrow> show_error e | Ok _ \<Rightarrow> ''transaction not found or unsuccessful'');
                new_retry = tx_retry_count entry + 1 in
            if new_retry \<ge> tx_max_retries entry
            then update_tx (tx_id entry) (\<lambda>r. r\<lparr>tx_pool_status := TxFailed, tx_retry_count := new_retry,
                   tx_last_error := Some err, tx_updated_at := now\<rparr>) rows
            else update_tx (tx_id entry) (\<lambda>r. r\<lparr>tx_pool_status := TxPending, tx_retry_count := new_retry,
                   tx_last_error := Some err, tx_updated_at := now, tx_next_retry_at := now + int (backoff_secs new_retry)\<rparr>) rows))"

record entry_env =
  ee_now :: int
  ee_fault :: "sqlx_error option"

fun process_entries ::
  "(string \<Rightarrow> 'h \<Rightarrow> (app_error + bool) \<times> 'h) \<Rightarrow> (app_error \<Rightarrow> string) \<Rightarrow> (nat \<Rightarrow> entry_env) \<Rightarrow> nat \<Rightarrow> tx_row list \<Rightarrow> 'h \<times> tx_table \<Rightarrow> 'h \<times> tx_table" where
  "process_entries verify show_error envs k [] s = s"
| "process_entries verify show_error envs k (entry # entries) (h, rows) =
     (let (result, h') = verify (tx_transaction_hash entry) h in
      process_entries verify show_error envs (Suc k) entries
        (h', settle_entry show_error (ee_fault (envs k)) (ee_now (envs k)) entry result rows))"

definition process_batch ::
  "(string \<Rightarrow> 'h \<Rightarrow> (app_error + bool) \<times> 'h) \<Rightarrow> (app_error \<Rightarrow> string) \<Rightarrow> sqlx_error option \<Rightarrow> nat \<Rightarrow> int \<Rightarrow> (nat \<Rightarrow> entry_env) \<Rightarrow>
     'h \<times> tx_table \<Rightarrow> 'h \<times> tx_table" where
  "process_batch verify show_error fault batch now envs s =
     (if fault \<noteq> None then s
      else (let (entries, rows) = claim_batch batch now (snd s) in
            process_entries verify show_error envs 0 entries (fst s, rows)))"

section \<open>Workers\<close>

text \<open>The table, the entries claimed and not yet settled, the state of the verifier, and every verification
  made with its result.\<close>

record 'h tx_system =
  tp_rows :: tx_table
  tp_held :: "tx_row list"
  tp_verifier :: 'h
  tp_log :: "(string \<times> (app_error + bool)) list"

inductive tx_step :: "(string \<Rightarrow> 'h \<Rightarrow> (app_error + bool) \<times> 'h) \<Rightarrow> (app_error \<Rightarrow> string) \<Rightarrow> 'h tx_system \<Rightarrow> 'h tx_system \<Rightarrow> bool"
  for verify show_error where
  Enqueue: "tx_step verify show_error s (s\<lparr>tp_rows := snd (enqueue_tx fault i now hash metadata m (tp_rows s))\<rparr>)"
| Claim: "claim_batch batch now (tp_rows s) = (entries, rows) \<Longrightarrow>
    tx_step verify show_error s (s\<lparr>tp_rows := rows, tp_held := tp_held s @ entries\<rparr>)"
| Settle: "tp_held s = xs @ entry # ys \<Longrightarrow> verify (tx_transaction_hash entry) (tp_verifier s) = (result, h) \<Longrightarrow>
    tx_step verify show_error s (s\<lparr>tp_rows := settle_entry show_error fault now entry result (tp_rows s), tp_held := xs @ ys,
      tp_verifier := h, tp_log := tp_log s @ [(tx_transaction_hash entry, result)]\<rparr>)"
| Crash: "tp_held s = xs @ entry # ys \<Longrightarrow> tx_step verify show_error s (s\<lparr>tp_held := xs @ ys\<rparr>)"

section \<open>The pool stays in bounds\<close>

definition tx_row_ok :: "(string \<times> (app_error + bool)) list \<Rightarrow> tx_row \<Rightarrow> bool" where
  "tx_row_ok entries r \<longleftrightarrow> 1 \<le> tx_max_retries r \<and> tx_max_retries r \<le> 10 \<and> 0 \<le> tx_retry_count r \<and> tx_retry_count r \<le> tx_max_retries r
     \<and> (tx_pool_status r \<in> {TxPending, TxProcessing} \<longrightarrow> tx_retry_count r < tx_max_retries r)
     \<and> (tx_pool_status r = TxFailed \<longrightarrow> tx_retry_count r = tx_max_retries r)
     \<and> (tx_pool_status r = TxConfirmed \<longrightarrow> (tx_transaction_hash r, Ok True) \<in> set entries)"

text \<open>An entry in a worker's hands agrees with its row in what never changes.\<close>

definition held_entry_ok :: "tx_table \<Rightarrow> tx_row \<Rightarrow> bool" where
  "held_entry_ok rows x \<longleftrightarrow> 0 \<le> tx_retry_count x \<and> tx_retry_count x < tx_max_retries x
     \<and> (\<forall>r \<in> set rows. tx_id r = tx_id x \<longrightarrow> tx_max_retries r = tx_max_retries x \<and> tx_transaction_hash r = tx_transaction_hash x)
     \<and> tx_id x \<in> tx_id ` set rows"

definition pool_inv :: "'h tx_system \<Rightarrow> bool" where
  "pool_inv s \<longleftrightarrow> distinct (map tx_id (tp_rows s)) \<and> distinct (map tx_transaction_hash (tp_rows s))
     \<and> (\<forall>r \<in> set (tp_rows s). tx_row_ok (tp_log s) r) \<and> (\<forall>x \<in> set (tp_held s). held_entry_ok (tp_rows s) x)"

text \<open>A change of rows that keeps what never changes.\<close>

definition keeps_identity :: "(tx_row \<Rightarrow> tx_row) \<Rightarrow> bool" where
  "keeps_identity f \<longleftrightarrow> (\<forall>r. tx_id (f r) = tx_id r \<and> tx_transaction_hash (f r) = tx_transaction_hash r \<and> tx_max_retries (f r) = tx_max_retries r)"

lemma pool_inv_map:
  assumes "pool_inv s" and "keeps_identity f" and "\<And>r. r \<in> set (tp_rows s) \<Longrightarrow> tx_row_ok entries (f r)"
    and "set held \<subseteq> set (tp_held s)"
  shows "pool_inv (s\<lparr>tp_rows := map f (tp_rows s), tp_held := held, tp_verifier := h, tp_log := entries\<rparr>)"
proof -
  have "tx_id \<circ> f = tx_id" "tx_transaction_hash \<circ> f = tx_transaction_hash"
    using assms(2) by (simp_all add: keeps_identity_def fun_eq_iff)
  moreover have "held_entry_ok (map f (tp_rows s)) x" if "held_entry_ok (tp_rows s) x" for x
    using that assms(2) by (simp add: held_entry_ok_def keeps_identity_def image_image)
  ultimately show ?thesis using assms(1,3,4) unfolding pool_inv_def by auto
qed

lemma tx_row_ok_mono: "tx_row_ok l r \<Longrightarrow> set l \<subseteq> set l' \<Longrightarrow> tx_row_ok l' r"
  by (auto simp: tx_row_ok_def)

lemma enqueue_tx_inv:
  assumes inv: "pool_inv s"
  shows "pool_inv (s\<lparr>tp_rows := snd (enqueue_tx fault i now hash metadata m (tp_rows s))\<rparr>)"
proof (cases "fault = None \<and> List.find (\<lambda>x. tx_transaction_hash x = hash) (tp_rows s) = None \<and> i \<notin> tx_id ` set (tp_rows s)")
  case True
  define r where "r = last (snd (enqueue_tx fault i now hash metadata m (tp_rows s)))"
  have rows: "snd (enqueue_tx fault i now hash metadata m (tp_rows s)) = tp_rows s @ [r]" and
    r: "tx_id r = i" "tx_transaction_hash r = hash" "tx_row_ok l r" for l
    using True by (auto simp: r_def enqueue_tx_def Let_def tx_row_ok_def clamp_i32_def)
  have "held_entry_ok (tp_rows s @ [r]) x" if "held_entry_ok (tp_rows s) x" for x
    using that True r(1) by (auto simp: held_entry_ok_def)
  then show ?thesis unfolding rows using inv True r by (auto simp: pool_inv_def find_None_iff)
next
  case False
  then have "snd (enqueue_tx fault i now hash metadata m (tp_rows s)) = tp_rows s
      \<or> snd (enqueue_tx fault i now hash metadata m (tp_rows s)) = map (\<lambda>x. if tx_transaction_hash x = hash then requeued now x else x) (tp_rows s)"
    by (auto simp: enqueue_tx_def Let_def stmt_def split: option.splits)
  moreover have "pool_inv (s\<lparr>tp_rows := map (\<lambda>x. if tx_transaction_hash x = hash then requeued now x else x) (tp_rows s),
      tp_held := tp_held s, tp_verifier := tp_verifier s, tp_log := tp_log s\<rparr>)"
    by (rule pool_inv_map [OF inv]) (use inv in \<open>auto simp: keeps_identity_def requeued_def pool_inv_def tx_row_ok_def\<close>)
  ultimately show ?thesis using inv by auto
qed

lemma claim_batch_inv:
  assumes inv: "pool_inv s" and claim: "claim_batch batch now (tp_rows s) = (entries, rows)"
  shows "pool_inv (s\<lparr>tp_rows := rows, tp_held := tp_held s @ entries\<rparr>)"
proof -
  define chosen where "chosen = tx_id ` set (take batch (sort_key tx_next_retry_at (filter (ready now) (tp_rows s))))"
  define g where "g = (\<lambda>r. if tx_id r \<in> chosen then claimed now r else r)"
  have rows: "rows = map g (tp_rows s)" and entries: "entries = map (claimed now) (filter (\<lambda>r. tx_id r \<in> chosen) (tp_rows s))"
    using claim by (auto simp: claim_batch_def chosen_def g_def Let_def)
  have pending: "tx_pool_status r = TxPending" if r: "r \<in> set (tp_rows s)" "tx_id r \<in> chosen" for r
  proof -
    from r(2) obtain x where x: "x \<in> set (tp_rows s)" "ready now x" "tx_id r = tx_id x"
      unfolding chosen_def by (auto dest!: in_set_takeD)
    then have "r = x" using r(1) inv by (simp add: pool_inv_def distinct_map inj_on_def)
    with x(2) show ?thesis by (simp add: ready_def)
  qed
  have g: "keeps_identity g" by (simp add: keeps_identity_def g_def claimed_def)
  have "tx_row_ok (tp_log s) (g r)" if "r \<in> set (tp_rows s)" for r
    using inv that pending [OF that] by (auto simp: pool_inv_def tx_row_ok_def g_def claimed_def)
  then have "pool_inv (s\<lparr>tp_rows := map g (tp_rows s), tp_held := tp_held s, tp_verifier := tp_verifier s, tp_log := tp_log s\<rparr>)"
    by (intro pool_inv_map [OF inv g]) auto
  moreover have "held_entry_ok (map g (tp_rows s)) x" if x: "x \<in> set entries" for x
  proof -
    from x obtain r where r: "r \<in> set (tp_rows s)" "tx_id r \<in> chosen" "x = claimed now r" by (auto simp: entries)
    have "tx_row_ok (tp_log s) r" using inv r(1) by (simp add: pool_inv_def)
    moreover have "y = r" if "y \<in> set (tp_rows s)" "tx_id y = tx_id r" for y
      using that r(1) inv by (simp add: pool_inv_def distinct_map inj_on_def)
    ultimately show ?thesis using r pending [OF r(1,2)] g
      by (auto simp: held_entry_ok_def tx_row_ok_def claimed_def keeps_identity_def image_image)
  qed
  ultimately show ?thesis by (auto simp: pool_inv_def rows)
qed

lemma settle_entry_inv:
  assumes inv: "pool_inv s" and held: "tp_held s = xs @ entry # ys"
  shows "pool_inv (s\<lparr>tp_rows := settle_entry show_error fault now entry result (tp_rows s), tp_held := xs @ ys,
    tp_verifier := h, tp_log := tp_log s @ [(tx_transaction_hash entry, result)]\<rparr>)"
proof -
  have e: "held_entry_ok (tp_rows s) entry" and ok: "\<And>r. r \<in> set (tp_rows s) \<Longrightarrow> tx_row_ok (tp_log s) r"
    using inv held by (auto simp: pool_inv_def)
  let ?log = "tp_log s @ [(tx_transaction_hash entry, result)]"
  have log: "set (tp_log s) \<subseteq> set ?log" by auto
  obtain f where f: "settle_entry show_error fault now entry result (tp_rows s) = map f (tp_rows s)" "keeps_identity f"
    "\<And>r. r \<in> set (tp_rows s) \<Longrightarrow> tx_row_ok ?log (f r)"
  proof (cases "fault = None")
    case False
    then show ?thesis using that [of id] tx_row_ok_mono [OF ok log] by (auto simp: settle_entry_def keeps_identity_def)
  next
    case True
    define g :: "tx_row \<Rightarrow> tx_row" where "g = (if result = Ok True then (\<lambda>r. r\<lparr>tx_pool_status := TxConfirmed, tx_updated_at := now\<rparr>)
      else let err = (case result of Err e \<Rightarrow> show_error e | Ok _ \<Rightarrow> ''transaction not found or unsuccessful''); new_retry = tx_retry_count entry + 1
        in if new_retry \<ge> tx_max_retries entry
           then (\<lambda>r. r\<lparr>tx_pool_status := TxFailed, tx_retry_count := new_retry, tx_last_error := Some err, tx_updated_at := now\<rparr>)
           else (\<lambda>r. r\<lparr>tx_pool_status := TxPending, tx_retry_count := new_retry, tx_last_error := Some err, tx_updated_at := now,
                   tx_next_retry_at := now + int (backoff_secs new_retry)\<rparr>))"
    let ?f = "\<lambda>r. if tx_id r = tx_id entry then g r else r"
    have "settle_entry show_error fault now entry result (tp_rows s) = map ?f (tp_rows s)"
      using True by (auto simp: settle_entry_def g_def update_tx_def Let_def)
    moreover have "keeps_identity ?f" by (simp add: keeps_identity_def g_def Let_def)
    moreover have "tx_row_ok ?log (?f r)" if r: "r \<in> set (tp_rows s)" for r
    proof (cases "tx_id r = tx_id entry")
      case False
      then show ?thesis using tx_row_ok_mono [OF ok [OF r] log] by simp
    next
      case id: True
      then have "tx_max_retries r = tx_max_retries entry" "tx_transaction_hash r = tx_transaction_hash entry"
        using e r by (auto simp: held_entry_ok_def)
      then show ?thesis using id ok [OF r] e by (auto simp: tx_row_ok_def g_def Let_def held_entry_ok_def)
    qed
    ultimately show ?thesis by (rule that)
  qed
  show ?thesis unfolding f(1) by (rule pool_inv_map [OF inv f(2,3)]) (auto simp: held)
qed

lemma tx_step_inv: "tx_step verify show_error s s' \<Longrightarrow> pool_inv s \<Longrightarrow> pool_inv s'"
proof (induction rule: tx_step.induct)
  case (Crash s xs entry ys)
  then show ?case by (auto simp: pool_inv_def)
qed (simp_all add: enqueue_tx_inv claim_batch_inv settle_entry_inv)

definition pool_init :: "'h \<Rightarrow> 'h tx_system" where
  "pool_init h = \<lparr>tp_rows = [], tp_held = [], tp_verifier = h, tp_log = []\<rparr>"

lemma pool_inv_reachable: "(tx_step verify show_error)\<^sup>*\<^sup>* (pool_init h) s \<Longrightarrow> pool_inv s"
proof (induction rule: rtranclp_induct)
  case base
  show ?case by (simp add: pool_init_def pool_inv_def)
qed (rule tx_step_inv)

text \<open>\<^bold>\<open>C12.\<close> The pool confirms only what was verified and gives up only after the allowed tries: in every reachable
  state a confirmed entry's transaction was verified with success, a failed one has used up its tries, and
  no entry ever counts more than its maximum of at most ten.\<close>

theorem pool_confirms_verified:
  assumes "(tx_step verify show_error)\<^sup>*\<^sup>* (pool_init h) s" and "r \<in> set (tp_rows s)"
  shows "(tx_pool_status r = TxConfirmed \<longrightarrow> (tx_transaction_hash r, Ok True) \<in> set (tp_log s))
    \<and> (tx_pool_status r = TxFailed \<longrightarrow> tx_retry_count r = tx_max_retries r)
    \<and> 0 \<le> tx_retry_count r \<and> tx_retry_count r \<le> tx_max_retries r \<and> tx_max_retries r \<le> 10"
  using pool_inv_reachable [OF assms(1)] assms(2) by (auto simp: pool_inv_def tx_row_ok_def)

section \<open>A pass is a run\<close>

lemma process_entries_run:
  assumes "tp_held s = entries"
  shows "\<exists>log. (tx_step verify show_error)\<^sup>*\<^sup>* s
    (let (h, rows) = process_entries verify show_error envs k entries (tp_verifier s, tp_rows s)
     in s\<lparr>tp_rows := rows, tp_held := [], tp_verifier := h, tp_log := tp_log s @ log\<rparr>)"
  using assms
proof (induction entries arbitrary: k s)
  case Nil
  then have "s\<lparr>tp_rows := tp_rows s, tp_held := [], tp_verifier := tp_verifier s, tp_log := tp_log s @ []\<rparr> = s" by simp
  then show ?case by (intro exI [of _ "[]"]) simp
next
  case (Cons entry entries)
  obtain result h where v: "verify (tx_transaction_hash entry) (tp_verifier s) = (result, h)" by fastforce
  define s1 where "s1 = s\<lparr>tp_rows := settle_entry show_error (ee_fault (envs k)) (ee_now (envs k)) entry result (tp_rows s),
    tp_held := [] @ entries, tp_verifier := h, tp_log := tp_log s @ [(tx_transaction_hash entry, result)]\<rparr>"
  have step: "tx_step verify show_error s s1" unfolding s1_def by (rule tx_step.Settle) (use Cons.prems v in simp_all)
  have "tp_held s1 = entries" by (simp add: s1_def)
  from Cons.IH [OF this, of "Suc k"] obtain log where "(tx_step verify show_error)\<^sup>*\<^sup>* s1
      (let (h, rows) = process_entries verify show_error envs (Suc k) entries (tp_verifier s1, tp_rows s1)
       in s1\<lparr>tp_rows := rows, tp_held := [], tp_verifier := h, tp_log := tp_log s1 @ log\<rparr>)" by blast
  with step have "(tx_step verify show_error)\<^sup>*\<^sup>* s
      (let (h, rows) = process_entries verify show_error envs (Suc k) entries (tp_verifier s1, tp_rows s1)
       in s1\<lparr>tp_rows := rows, tp_held := [], tp_verifier := h, tp_log := tp_log s1 @ log\<rparr>)" by (rule converse_rtranclp_into_rtranclp)
  then show ?case by (intro exI [of _ "(tx_transaction_hash entry, result) # log"]) (simp add: v s1_def case_prod_unfold Let_def)
qed

text \<open>A pass of the pool's worker is a run of the step relation, in particular with the Stellar client's
  \<open>verify_transaction\<close> behind its circuit breaker as the verifier.\<close>

theorem process_batch_is_run:
  assumes "tp_held s = []"
  shows "\<exists>log. (tx_step (verify_transaction ops env svc) show_error)\<^sup>*\<^sup>* s
    (let (h, rows) = process_batch (verify_transaction ops env svc) show_error fault batch now envs (tp_verifier s, tp_rows s)
     in s\<lparr>tp_rows := rows, tp_held := [], tp_verifier := h, tp_log := tp_log s @ log\<rparr>)"
proof (cases "fault = None")
  case False
  have "s\<lparr>tp_rows := tp_rows s, tp_held := [], tp_verifier := tp_verifier s, tp_log := tp_log s @ []\<rparr> = s" using assms by simp
  then show ?thesis using False by (intro exI [of _ "[]"]) (simp add: process_batch_def)
next
  case True
  obtain entries rows where c: "claim_batch batch now (tp_rows s) = (entries, rows)" by fastforce
  define s1 where "s1 = s\<lparr>tp_rows := rows, tp_held := tp_held s @ entries\<rparr>"
  have step: "tx_step (verify_transaction ops env svc) show_error s s1" unfolding s1_def using c by (rule tx_step.Claim)
  have "tp_held s1 = entries" using assms by (simp add: s1_def)
  from process_entries_run [OF this, of "verify_transaction ops env svc" show_error envs 0] obtain log where
    "(tx_step (verify_transaction ops env svc) show_error)\<^sup>*\<^sup>* s1
      (let (h, rows) = process_entries (verify_transaction ops env svc) show_error envs 0 entries (tp_verifier s1, tp_rows s1)
       in s1\<lparr>tp_rows := rows, tp_held := [], tp_verifier := h, tp_log := tp_log s1 @ log\<rparr>)" by blast
  with step have "(tx_step (verify_transaction ops env svc) show_error)\<^sup>*\<^sup>* s
      (let (h, rows) = process_entries (verify_transaction ops env svc) show_error envs 0 entries (tp_verifier s1, tp_rows s1)
       in s1\<lparr>tp_rows := rows, tp_held := [], tp_verifier := h, tp_log := tp_log s1 @ log\<rparr>)" by (rule converse_rtranclp_into_rtranclp)
  then show ?thesis using True by (intro exI [of _ log]) (simp add: process_batch_def c s1_def case_prod_unfold Let_def)
qed

text \<open>The back-off is bounded: whenever an entry of a reachable pool is put back, its next try is between one
  minute and one hour away.\<close>

theorem backoff_between_minute_and_hour:
  assumes "pool_inv s" and "entry \<in> set (tp_held s)" and "tx_retry_count entry + 1 < tx_max_retries entry"
  shows "60 \<le> backoff_secs (tx_retry_count entry + 1) \<and> backoff_secs (tx_retry_count entry + 1) \<le> 3600"
proof -
  have held: "held_entry_ok (tp_rows s) entry" using assms(1,2) by (simp add: pool_inv_def)
  then have "tx_id entry \<in> tx_id ` set (tp_rows s)" by (simp add: held_entry_ok_def)
  then obtain r where r: "r \<in> set (tp_rows s)" "tx_id r = tx_id entry" by (metis imageE)
  then have "tx_row_ok (tp_log s) r" "tx_max_retries r = tx_max_retries entry"
    using assms(1) held by (simp_all add: pool_inv_def held_entry_ok_def)
  then have "tx_max_retries entry \<le> 10" by (simp add: tx_row_ok_def)
  then have n: "1 \<le> tx_retry_count entry + 1" "tx_retry_count entry + 1 \<le> 9" using held assms(3) by (auto simp: held_entry_ok_def)
  define n where "n = nat (tx_retry_count entry + 1)"
  have mod: "(tx_retry_count entry + 1) mod 2 ^ 32 = tx_retry_count entry + 1" using n by (intro mod_pos_pos_trivial) simp_all
  have "1 \<le> n" "n \<le> 9" using n by (auto simp: n_def)
  then have "(2 :: nat) ^ 1 \<le> 2 ^ n" "(2 :: nat) ^ n \<le> 2 ^ 9" by (intro power_increasing; simp)+
  then have "2 \<le> (2 :: nat) ^ n" "(2 :: nat) ^ n \<le> 512" by simp_all
  then show ?thesis unfolding backoff_secs_def mod n_def [symmetric] sat_pow_def u64_max_def by (simp add: min_def)
qed

section \<open>Examples\<close>

text \<open>A verifier that finds every transaction, and a pool with one entry confirmed and one in hand.\<close>

definition always_found :: "string \<Rightarrow> unit \<Rightarrow> (app_error + bool) \<times> unit" where
  "always_found hash u = (Ok True, u)"

definition demo_entry :: tx_row where
  "demo_entry = \<lparr>tx_id = ''a'', tx_transaction_hash = ''h'', tx_pool_status = TxPending, tx_retry_count = 0, tx_max_retries = 5,
     tx_last_error = None, tx_metadata = JNull, tx_created_at = 0, tx_updated_at = 0, tx_next_retry_at = 0\<rparr>"

definition demo_claimed_pool :: "unit tx_system" where
  "demo_claimed_pool = \<lparr>tp_rows = [claimed 1 demo_entry], tp_held = [claimed 1 demo_entry], tp_verifier = (), tp_log = []\<rparr>"

lemma demo_claimed_reachable: "(tx_step always_found (\<lambda>_. [])) \<^sup>*\<^sup>* (pool_init ()) demo_claimed_pool"
proof -
  let ?s = "pool_init ()\<lparr>tp_rows := snd (enqueue_tx None ''a'' 0 ''h'' JNull None (tp_rows (pool_init ())))\<rparr>"
  have rows: "tp_rows ?s = [demo_entry]" by (simp add: pool_init_def enqueue_tx_def demo_entry_def coalesce_opt_def clamp_i32_def Let_def)
  have "tx_step always_found (\<lambda>_. []) (pool_init ()) ?s" by (rule tx_step.Enqueue)
  moreover have "tx_step always_found (\<lambda>_. []) ?s (?s\<lparr>tp_rows := [claimed 1 demo_entry], tp_held := tp_held ?s @ [claimed 1 demo_entry]\<rparr>)"
    by (rule tx_step.Claim [where batch = 20 and now = 1])
      (simp add: rows claim_batch_def ready_def, simp add: demo_entry_def)
  moreover have "?s\<lparr>tp_rows := [claimed 1 demo_entry], tp_held := tp_held ?s @ [claimed 1 demo_entry]\<rparr> = demo_claimed_pool"
    by (simp add: demo_claimed_pool_def pool_init_def)
  ultimately show ?thesis by (metis converse_rtranclp_into_rtranclp r_into_rtranclp)
qed

theorem pool_confirms_verified_witness:
  "claimed 1 demo_entry \<in> set (tp_rows demo_claimed_pool) \<and> tx_max_retries (claimed 1 demo_entry) \<le> 10"
  using pool_confirms_verified [OF demo_claimed_reachable, of "claimed 1 demo_entry"] by (simp add: demo_claimed_pool_def)

theorem backoff_between_minute_and_hour_witness:
  "60 \<le> backoff_secs 1 \<and> backoff_secs 1 \<le> 3600"
  using backoff_between_minute_and_hour [OF pool_inv_reachable [OF demo_claimed_reachable], of "claimed 1 demo_entry"]
  by (simp add: demo_claimed_pool_def claimed_def demo_entry_def)

theorem process_batch_is_run_witness:
  "\<exists>log s'. (tx_step (verify_transaction demo_ops (\<lambda>_. None) demo_service) (\<lambda>_. []))\<^sup>*\<^sup>* (pool_init (cb_new 5 (from_secs 60), 0)) s'
     \<and> tp_log s' = log \<and> tp_rows s' = snd (process_batch (verify_transaction demo_ops (\<lambda>_. None) demo_service) (\<lambda>_. []) None 20 1
         (\<lambda>_. \<lparr>ee_now = 1, ee_fault = None\<rparr>) ((cb_new 5 (from_secs 60), 0), []))"
proof -
  have "tp_held (pool_init (cb_new 5 (from_secs 60), 0 :: nat)) = []" by (simp add: pool_init_def)
  from process_batch_is_run [OF this, of demo_ops "\<lambda>_. None" demo_service "\<lambda>_. []" None 20 1 "\<lambda>_. \<lparr>ee_now = 1, ee_fault = None\<rparr>"]
  show ?thesis by (fastforce simp: pool_init_def case_prod_unfold Let_def)
qed

end
