(* ===== verification/Refunds.thy ===== *)
theory Refunds
  imports Sql
begin

text \<open>
  Refund requests (\<open>src/controllers/refund_controller.rs\<close>, \<open>src/models/refund.rs\<close>, the table of
  \<open>migrations/0032_tip_refunds.sql\<close>): requesting a refund of a tip and its review by an administrator.
  A request reads twice and then inserts, in three statements of their own: a request at a time is
  \<open>create_refund\<close>, and its last statement alone, after reads that have become stale, is
  \<open>insert_refund\<close>.
\<close>

datatype refund_status = RefundPending | RefundApproved | RefundRejected | RefundCompleted

record tip_refund =
  rf_id :: string
  rf_tip_id :: string
  rf_reason :: string
  rf_status :: refund_status
  rf_refund_tx_hash :: "string option"
  rf_reviewed_by :: "string option"
  rf_reviewed_at :: "int option"
  rf_created_at :: int
  rf_updated_at :: int

record refund_db =
  rd_tips :: "string set"
  rd_refunds :: "tip_refund list"

definition insert_refund :: "sqlx_error option \<Rightarrow> string \<Rightarrow> int \<Rightarrow> string \<Rightarrow> string \<Rightarrow> refund_db \<Rightarrow> (app_error + tip_refund) \<times> refund_db" where
  "insert_refund fault i now tip reason db =
     (let r = \<lparr>rf_id = i, rf_tip_id = tip, rf_reason = reason, rf_status = RefundPending, rf_refund_tx_hash = None,
               rf_reviewed_by = None, rf_reviewed_at = None, rf_created_at = now, rf_updated_at = now\<rparr> in
      case fault of
        Some e \<Rightarrow> (Err (app_error_from_sqlx e), db)
      | None \<Rightarrow>
          if i \<in> rf_id ` set (rd_refunds db) then (Err (app_error_from_sqlx (SqlxDatabase (Some ''23505'') (Some ''tip_refunds_pkey''))), db)
          else if tip \<notin> rd_tips db then (Err (app_error_from_sqlx (SqlxDatabase (Some ''23503'') (Some ''tip_refunds_tip_id_fkey''))), db)
          else (Ok r, db\<lparr>rd_refunds := rd_refunds db @ [r]\<rparr>))"

definition create_refund :: "stmt_faults \<Rightarrow> string \<Rightarrow> int \<Rightarrow> string \<Rightarrow> string \<Rightarrow> refund_db \<Rightarrow> (app_error + tip_refund) \<times> refund_db" where
  "create_refund fault i now tip reason db =
     (case fault 0 of
        Some e \<Rightarrow> (Err (app_error_from_sqlx e), db)
      | None \<Rightarrow>
          if tip \<notin> rd_tips db then (Err (Validation (InvalidRequest (''Tip '' @ tip @ '' not found''))), db)
          else (case fault 1 of
                  Some e \<Rightarrow> (Err (app_error_from_sqlx e), db)
                | None \<Rightarrow>
                    if \<exists>r \<in> set (rd_refunds db). rf_tip_id r = tip \<and> rf_status r = RefundPending
                    then (Err (Conflict ''REFUND_ALREADY_PENDING'' ''A refund request for this tip is already pending''), db)
                    else insert_refund (fault 2) i now tip reason db))"

definition list_refunds :: "refund_status option \<Rightarrow> refund_db \<Rightarrow> tip_refund list" where
  "list_refunds st db = rev (sort_key rf_created_at (filter (\<lambda>r. st = None \<or> st = Some (rf_status r)) (rd_refunds db)))"

definition get_refund :: "string \<Rightarrow> refund_db \<Rightarrow> tip_refund option" where
  "get_refund i db = List.find (\<lambda>r. rf_id r = i) (rd_refunds db)"

definition single_quoted :: "string \<Rightarrow> string" where
  "single_quoted s = CHR 0x27 # s @ [CHR 0x27]"

text \<open>The update of a review: \<open>COALESCE($2, refund_tx_hash)\<close>.\<close>

definition reviewed :: "refund_status \<Rightarrow> string option \<Rightarrow> string \<Rightarrow> int \<Rightarrow> tip_refund \<Rightarrow> tip_refund" where
  "reviewed st hash reviewer now r =
     r\<lparr>rf_status := st, rf_refund_tx_hash := (case hash of None \<Rightarrow> rf_refund_tx_hash r | Some h \<Rightarrow> Some h),
       rf_reviewed_by := Some reviewer, rf_reviewed_at := Some now, rf_updated_at := now\<rparr>"

definition review_refund ::
  "sqlx_error option \<Rightarrow> int \<Rightarrow> string \<Rightarrow> string \<Rightarrow> string \<Rightarrow> string option \<Rightarrow> refund_db \<Rightarrow> (app_error + tip_refund option) \<times> refund_db" where
  "review_refund fault now i reviewer action hash db =
     (if action \<noteq> ''approved'' \<and> action \<noteq> ''rejected''
      then (Err (Validation (InvalidRequest (''action must be '' @ single_quoted ''approved'' @ '' or '' @ single_quoted ''rejected''))), db)
      else if action = ''approved'' \<and> hash = None
      then (Err (Validation (InvalidRequest ''refund_tx_hash is required when approving a refund'')), db)
      else (let st = (if action = ''approved'' then RefundCompleted else RefundRejected);
                here = (\<lambda>r. rf_id r = i \<and> rf_status r = RefundPending) in
            case fault of
              Some e \<Rightarrow> (Err (app_error_from_sqlx e), db)
            | None \<Rightarrow>
                (case List.find here (rd_refunds db) of
                   None \<Rightarrow> (Ok None, db)
                 | Some r \<Rightarrow>
                     if hash \<noteq> None \<and> (\<exists>x \<in> set (rd_refunds db). rf_id x \<noteq> i \<and> rf_refund_tx_hash x = hash)
                     then (Err (app_error_from_sqlx (SqlxDatabase (Some ''23505'') (Some ''tip_refunds_refund_tx_hash_key''))), db)
                     else (Ok (Some (reviewed st hash reviewer now r)),
                           db\<lparr>rd_refunds := map (\<lambda>r. if here r then reviewed st hash reviewer now r else r) (rd_refunds db)\<rparr>))))"

section \<open>Decisions\<close>

inductive refund_step :: "refund_db \<Rightarrow> refund_db \<Rightarrow> bool" where
  Create: "refund_step db (snd (create_refund faults i now tip reason db))"
| Insert: "refund_step db (snd (insert_refund f i now tip reason db))"
| Review: "refund_step db (snd (review_refund f now i reviewer action hash db))"

text \<open>Requests have their own ids and refund transactions, and a completed one names its transaction and its
  reviewer.\<close>

definition refund_ok :: "tip_refund \<Rightarrow> bool" where
  "refund_ok r \<longleftrightarrow> (rf_status r = RefundPending \<longrightarrow> rf_refund_tx_hash r = None) \<and> rf_status r \<noteq> RefundApproved
     \<and> (rf_status r = RefundCompleted \<longrightarrow> rf_refund_tx_hash r \<noteq> None \<and> rf_reviewed_by r \<noteq> None)"

definition hashes_unique :: "tip_refund set \<Rightarrow> bool" where
  "hashes_unique R \<longleftrightarrow> (\<forall>r \<in> R. \<forall>x \<in> R. rf_refund_tx_hash r \<noteq> None \<and> rf_refund_tx_hash x = rf_refund_tx_hash r \<longrightarrow> x = r)"

definition refunds_inv :: "refund_db \<Rightarrow> bool" where
  "refunds_inv db \<longleftrightarrow> distinct (map rf_id (rd_refunds db)) \<and> (\<forall>r \<in> set (rd_refunds db). refund_ok r) \<and> hashes_unique (set (rd_refunds db))"

lemma refunds_invI:
  "distinct (map rf_id xs) \<Longrightarrow> set xs = R \<Longrightarrow> \<forall>r \<in> R. refund_ok r \<Longrightarrow> hashes_unique R \<Longrightarrow> refunds_inv (db\<lparr>rd_refunds := xs\<rparr>)"
  by (simp add: refunds_inv_def)

lemma insert_refund_cases:
  obtains (same) "snd (insert_refund f i now tip reason db) = db"
  | (new) r where "snd (insert_refund f i now tip reason db) = db\<lparr>rd_refunds := rd_refunds db @ [r]\<rparr>" "rf_id r = i" "i \<notin> rf_id ` set (rd_refunds db)"
      "rf_tip_id r = tip" "rf_status r = RefundPending" "rf_refund_tx_hash r = None"
proof (cases "f = None \<and> i \<notin> rf_id ` set (rd_refunds db) \<and> tip \<in> rd_tips db")
  case True
  then show ?thesis using that(2) [of "\<lparr>rf_id = i, rf_tip_id = tip, rf_reason = reason, rf_status = RefundPending, rf_refund_tx_hash = None,
      rf_reviewed_by = None, rf_reviewed_at = None, rf_created_at = now, rf_updated_at = now\<rparr>"]
    by (simp add: insert_refund_def Let_def)
next
  case False
  then show ?thesis using that(1) by (cases f) (auto simp: insert_refund_def Let_def split: if_splits)
qed

lemma create_refund_insert:
  "snd (create_refund faults i now tip reason db) = db \<or> snd (create_refund faults i now tip reason db) = snd (insert_refund (faults 2) i now tip reason db)"
  by (auto simp: create_refund_def split: option.split)

lemma insert_refund_inv:
  assumes "refunds_inv db"
  shows "refunds_inv (snd (insert_refund f i now tip reason db))"
proof (cases rule: insert_refund_cases [of f i now tip reason db])
  case (new r)
  have "hashes_unique (insert r (set (rd_refunds db)))"
    using assms new(6) unfolding refunds_inv_def hashes_unique_def by (metis insert_iff)
  moreover have "refund_ok r" using new(5,6) by (simp add: refund_ok_def)
  ultimately show ?thesis using assms new(1-3) by (simp add: refunds_inv_def)
qed (use assms in simp)

lemma review_refund_cases:
  obtains (same) "snd (review_refund f now i reviewer action hash db) = db"
  | (settled) r st where "r \<in> set (rd_refunds db)" "rf_id r = i" "rf_status r = RefundPending" "st = RefundCompleted \<and> hash \<noteq> None \<or> st = RefundRejected"
      "hash \<noteq> None \<longrightarrow> (\<forall>x \<in> set (rd_refunds db). rf_id x \<noteq> i \<longrightarrow> rf_refund_tx_hash x \<noteq> hash)"
      "snd (review_refund f now i reviewer action hash db) =
         db\<lparr>rd_refunds := map (\<lambda>r. if rf_id r = i \<and> rf_status r = RefundPending then reviewed st hash reviewer now r else r) (rd_refunds db)\<rparr>"
proof (cases "snd (review_refund f now i reviewer action hash db) = db")
  case False
  define st where "st = (if action = ''approved'' then RefundCompleted else RefundRejected)"
  have "action = ''approved'' \<or> action = ''rejected''" "\<not> (action = ''approved'' \<and> hash = None)" "f = None"
    using False by (auto simp: review_refund_def Let_def split: if_splits option.splits)
  with False that(2) [of _ st] show ?thesis
    by (cases "List.find (\<lambda>r. rf_id r = i \<and> rf_status r = RefundPending) (rd_refunds db)")
      (auto simp: review_refund_def Let_def st_def split: if_splits dest!: find_Some_split)
qed

lemma review_refund_inv:
  assumes "refunds_inv db"
  shows "refunds_inv (snd (review_refund f now i reviewer action hash db))"
proof (rule review_refund_cases [of f now i reviewer action hash db])
  fix r st
  assume r: "r \<in> set (rd_refunds db)" "rf_id r = i" "rf_status r = RefundPending" "st = RefundCompleted \<and> hash \<noteq> None \<or> st = RefundRejected"
    and new: "hash \<noteq> None \<longrightarrow> (\<forall>x \<in> set (rd_refunds db). rf_id x \<noteq> i \<longrightarrow> rf_refund_tx_hash x \<noteq> hash)"
    and db': "snd (review_refund f now i reviewer action hash db) =
         db\<lparr>rd_refunds := map (\<lambda>r. if rf_id r = i \<and> rf_status r = RefundPending then reviewed st hash reviewer now r else r) (rd_refunds db)\<rparr>"
  let ?g = "\<lambda>r. if rf_id r = i \<and> rf_status r = RefundPending then reviewed st hash reviewer now r else r"
  have ids: "rf_id \<circ> ?g = rf_id" by (auto simp: reviewed_def)
  have one: "x = r" if "x \<in> set (rd_refunds db)" "rf_id x = i" for x
    using that r(1,2) assms by (simp add: refunds_inv_def distinct_map inj_on_def)
  have g: "?g x = (if x = r then reviewed st hash reviewer now r else x)" if "x \<in> set (rd_refunds db)" for x
    using one [OF that] r(2,3) by (cases "x = r") auto
  have old: "rf_refund_tx_hash r = None" using assms r(1,3) by (simp add: refunds_inv_def refund_ok_def)
  have eq: "map ?g (rd_refunds db) = map (\<lambda>x. if x = r then reviewed st hash reviewer now r else x) (rd_refunds db)"
    by (rule map_cong [OF refl g])
  let ?r = "reviewed st hash reviewer now r"
  have "distinct (map rf_id (map (\<lambda>x. if x = r then ?r else x) (rd_refunds db)))"
    using assms unfolding eq [symmetric] map_map ids by (simp add: refunds_inv_def)
  moreover have "refund_ok ?r" using r(4) old by (auto simp: refund_ok_def reviewed_def)
  moreover have "hashes_unique (insert ?r (set (rd_refunds db) - {r}))"
  proof (cases hash)
    case None
    then have "rf_refund_tx_hash ?r = None" using old by (simp add: reviewed_def)
    then show ?thesis using assms unfolding refunds_inv_def hashes_unique_def by (metis DiffD1 insert_iff)
  next
    case (Some h)
    then have "rf_refund_tx_hash ?r = Some h" by (simp add: reviewed_def)
    moreover have "rf_refund_tx_hash x \<noteq> Some h" if "x \<in> set (rd_refunds db) - {r}" for x using new Some that one by blast
    ultimately show ?thesis using assms unfolding refunds_inv_def hashes_unique_def by (metis DiffD1 insert_iff)
  qed
  moreover have "set (map (\<lambda>x. if x = r then ?r else x) (rd_refunds db)) = insert ?r (set (rd_refunds db) - {r})" using r(1) by auto
  moreover have "\<forall>x \<in> set (rd_refunds db). refund_ok x" using assms by (simp add: refunds_inv_def)
  ultimately have "refunds_inv (db\<lparr>rd_refunds := map (\<lambda>x. if x = r then ?r else x) (rd_refunds db)\<rparr>)"
    by (intro refunds_invI) auto
  then show ?thesis unfolding db' eq .
qed (use assms in simp)

lemma refund_step_inv: "refund_step db db' \<Longrightarrow> refunds_inv db \<Longrightarrow> refunds_inv db'"
proof (induction rule: refund_step.induct)
  case (Create db faults i now tip reason)
  then show ?case using create_refund_insert [of faults i now tip reason db] insert_refund_inv by metis
qed (simp_all add: insert_refund_inv review_refund_inv)

lemma refund_step_final:
  "refund_step db db' \<Longrightarrow> r \<in> set (rd_refunds db) \<Longrightarrow> rf_status r \<noteq> RefundPending \<Longrightarrow> r \<in> set (rd_refunds db')"
proof (induction rule: refund_step.induct)
  case (Create db faults i now tip reason)
  then show ?case using create_refund_insert [of faults i now tip reason db]
    by (cases rule: insert_refund_cases [of "faults 2" i now tip reason db]) auto
next
  case (Insert db f i now tip reason)
  then show ?case by (cases rule: insert_refund_cases [of f i now tip reason db]) auto
next
  case (Review db f now i reviewer action hash)
  show ?case
  proof (cases rule: review_refund_cases [of f now i reviewer action hash db])
    case (settled x st)
    then show ?thesis using Review by (auto intro!: rev_image_eqI)
  qed (use Review in simp)
qed


section \<open>Examples\<close>

definition demo_refunds :: refund_db where
  "demo_refunds = \<lparr>rd_tips = {''tip''}, rd_refunds = []\<rparr>"

definition demo_refund_run :: refund_db where
  "demo_refund_run =
     snd (review_refund None 4 ''b'' ''ann'' ''approved'' (Some ''h2'') (snd (create_refund (\<lambda>_. None) ''b'' 3 ''tip'' ''again''
       (snd (review_refund None 2 ''a'' ''ann'' ''approved'' (Some ''h1'') (snd (create_refund (\<lambda>_. None) ''a'' 1 ''tip'' ''why'' demo_refunds)))))))"

lemma demo_refund_steps: "refund_step\<^sup>*\<^sup>* demo_refunds demo_refund_run"
  unfolding demo_refund_run_def
  by (rule converse_rtranclp_into_rtranclp, rule refund_step.Create, rule converse_rtranclp_into_rtranclp, rule refund_step.Review,
      rule converse_rtranclp_into_rtranclp, rule refund_step.Create, rule r_into_rtranclp, rule refund_step.Review)

lemma demo_refund_rows:
  "map (\<lambda>r. (rf_tip_id r, rf_status r, rf_refund_tx_hash r)) (rd_refunds demo_refund_run)
     = [(''tip'', RefundCompleted, Some ''h1''), (''tip'', RefundCompleted, Some ''h2'')]"
  by (simp add: demo_refund_run_def demo_refunds_def create_refund_def insert_refund_def review_refund_def reviewed_def Let_def)


text \<open>A tip can be refunded twice: a request is refused only while another one for the tip is pending, so
  after a completed refund a second request for the same tip is accepted and completed too.\<close>

theorem tip_refunded_twice:
  "\<exists>db a b. refund_step\<^sup>*\<^sup>* \<lparr>rd_tips = {''tip''}, rd_refunds = []\<rparr> db \<and> rd_refunds db = [a, b] \<and> rf_tip_id a = rf_tip_id b
     \<and> rf_status a = RefundCompleted \<and> rf_status b = RefundCompleted \<and> rf_refund_tx_hash a \<noteq> rf_refund_tx_hash b"
  using demo_refund_steps demo_refund_rows unfolding demo_refunds_def by (intro exI [of _ demo_refund_run]) auto

end
