(* ===== verification/Pagination.thy ===== *)
theory Pagination
  imports Tip_Pipeline Webhook_Signature Complex_Main "HOL-Library.Product_Lexorder" "HOL-Library.List_Lexorder" "HOL-Library.Char_ord"
begin

text \<open>
  Listing tips page by page (\<open>src/models/pagination.rs\<close>, \<open>get_tips_paginated\<close> of
  \<open>src/controllers/tip_controller.rs\<close>): the request parameters, the signed keyset cursor, the query with its
  filters and the page that is returned. Times of rows are microseconds here, the resolution of the
  column and of the cursor; ids are ordered as their text. HMAC, base64, UTF-8 checking, UUID parsing and
  the cast of an amount to \<open>NUMERIC\<close> are parameters; the locale \<open>cursor_codec\<close> states what is needed
  of them.
\<close>

section \<open>Parameters\<close>

definition DEFAULT_LIMIT :: int where "DEFAULT_LIMIT = 20"
definition MAX_LIMIT :: int where "MAX_LIMIT = 100"
definition DEFAULT_MAX_OFFSET :: int where "DEFAULT_MAX_OFFSET = 10000"

definition default_max_offset :: "env \<Rightarrow> int" where
  "default_max_offset env =
     (case Option.bind (env ''PAGINATION_MAX_OFFSET'') parse_i64 of Some v \<Rightarrow> v | None \<Rightarrow> DEFAULT_MAX_OFFSET)"

definition cursor_secret :: "env \<Rightarrow> string" where
  "cursor_secret env =
     (case env ''PAGINATION_CURSOR_SECRET'' of
        Some s \<Rightarrow> s
      | None \<Rightarrow> (case env ''JWT_SECRET'' of Some s \<Rightarrow> s | None \<Rightarrow> ''development-pagination-secret-change-me''))"

record pagination_params =
  pp_limit :: int
  pp_cursor :: "string option"
  pp_after :: "string option"
  pp_before :: "string option"
  pp_page :: "int option"
  pp_offset :: "int option"

definition pagination_params_default :: pagination_params where
  "pagination_params_default = \<lparr>pp_limit = DEFAULT_LIMIT, pp_cursor = None, pp_after = None, pp_before = None, pp_page = None, pp_offset = None\<rparr>"

definition clamp_i64 :: "int \<Rightarrow> int \<Rightarrow> int \<Rightarrow> int" where
  "clamp_i64 lo hi x = (if x < lo then lo else if x > hi then hi else x)"

definition validated :: "pagination_params \<Rightarrow> pagination_params" where
  "validated p = p\<lparr>pp_limit := clamp_i64 1 MAX_LIMIT (pp_limit p)\<rparr>"

datatype cursor_direction = After | Before

definition direction :: "pagination_params \<Rightarrow> cursor_direction" where
  "direction p = (if pp_before p \<noteq> None then Before else After)"

definition active_cursor :: "pagination_params \<Rightarrow> string option" where
  "active_cursor p =
     (case pp_before p of Some c \<Rightarrow> Some c | None \<Rightarrow> (case pp_after p of Some c \<Rightarrow> Some c | None \<Rightarrow> pp_cursor p))"

definition uses_offset :: "pagination_params \<Rightarrow> bool" where
  "uses_offset p \<longleftrightarrow> pp_page p \<noteq> None \<or> pp_offset p \<noteq> None"

text \<open>The product wraps in a release build; \<open>clamp\<close> panics when the configured maximum is negative.\<close>

definition offset :: "env \<Rightarrow> pagination_params \<Rightarrow> int option" where
  "offset env p =
     (let requested = (case pp_offset p of
            Some n \<Rightarrow> n
          | None \<Rightarrow> (case pp_page p of Some n \<Rightarrow> wrap_i64 ((max n 1 - 1) * pp_limit p) | None \<Rightarrow> 0)) in
      if default_max_offset env < 0 then None else Some (clamp_i64 0 (default_max_offset env) requested))"

section \<open>Cursors\<close>

record keyset_cursor =
  kc_created_at :: int
  kc_id :: uuid

record cursor_ops =
  cu_hmac :: mac
  cu_encode :: "string \<Rightarrow> string"
  cu_decode :: "string \<Rightarrow> string option"
  cu_utf8 :: "string \<Rightarrow> bool"
  cu_parse_uuid :: "string \<Rightarrow> uuid option"
  cu_timestamp_micros :: "int \<Rightarrow> int option"

definition cursor_payload :: "string \<Rightarrow> string \<Rightarrow> string" where
  "cursor_payload micros i = micros @ ''|'' @ i"

definition encode_cursor :: "cursor_ops \<Rightarrow> env \<Rightarrow> keyset_cursor \<Rightarrow> string" where
  "encode_cursor C env c =
     (let payload = cursor_payload (show_int (kc_created_at c)) (kc_id c) in
      cu_encode C (payload @ ''|'' @ cu_hmac C (cursor_secret env) payload))"

definition decode_cursor :: "cursor_ops \<Rightarrow> env \<Rightarrow> string \<Rightarrow> app_error + keyset_cursor" where
  "decode_cursor C env token =
     (case cu_decode C token of
        None \<Rightarrow> Err (bad_request ''Invalid cursor format'')
      | Some s \<Rightarrow>
          if \<not> cu_utf8 C s then Err (bad_request ''Invalid cursor encoding'')
          else (case split_char (CHR ''|'') s of
                  [micros, i, sig] \<Rightarrow>
                    if cu_hmac C (cursor_secret env) (cursor_payload micros i) \<noteq> sig
                    then Err (bad_request ''Invalid cursor signature'')
                    else (case parse_i64 micros of
                            None \<Rightarrow> Err (bad_request ''Invalid cursor timestamp'')
                          | Some t \<Rightarrow>
                              (case cu_parse_uuid C i of
                                 None \<Rightarrow> Err (bad_request ''Invalid cursor id'')
                               | Some u \<Rightarrow>
                                   (case cu_timestamp_micros C t of
                                      None \<Rightarrow> Err (bad_request ''Invalid cursor timestamp'')
                                    | Some t \<Rightarrow> Ok \<lparr>kc_created_at = t, kc_id = u\<rparr>)))
                | _ \<Rightarrow> Err (bad_request ''Invalid cursor structure'')))"

section \<open>Pages\<close>

record 'a page =
  pg_items :: "'a list"
  pg_next_cursor :: "string option"
  pg_prev_cursor :: "string option"
  pg_has_more :: bool

definition page_keyset :: "cursor_ops \<Rightarrow> env \<Rightarrow> 'a list \<Rightarrow> int \<Rightarrow> ('a \<Rightarrow> keyset_cursor) \<Rightarrow> 'a page" where
  "page_keyset C env items limit cursor_for =
     (let has_more = nat limit < length items;
          items = (if has_more then take (nat limit) items else items) in
      \<lparr>pg_items = items,
       pg_next_cursor = (if items = [] then None else Some (encode_cursor C env (cursor_for (last items)))),
       pg_prev_cursor = (if items = [] then None else Some (encode_cursor C env (cursor_for (hd items)))),
       pg_has_more = has_more\<rparr>)"

record tip_filters =
  tf_min_amount :: "string option"
  tf_max_amount :: "string option"
  tf_from_date :: "int option"
  tf_to_date :: "int option"

text \<open>The conditions of the \<open>WHERE\<close> clause but for the cursor; \<open>numeric\<close> is the database's cast.\<close>

definition satisfies :: "(string \<Rightarrow> rat) \<Rightarrow> string option \<Rightarrow> tip_filters \<Rightarrow> tip_row \<Rightarrow> bool" where
  "satisfies numeric username fs r \<longleftrightarrow>
     (case username of None \<Rightarrow> True | Some u \<Rightarrow> row_creator r = u)
     \<and> (case tf_min_amount fs of None \<Rightarrow> True | Some a \<Rightarrow> numeric a \<le> numeric (row_amount r))
     \<and> (case tf_max_amount fs of None \<Rightarrow> True | Some a \<Rightarrow> numeric (row_amount r) \<le> numeric a)
     \<and> (case tf_from_date fs of None \<Rightarrow> True | Some t \<Rightarrow> t \<le> row_created_at r)
     \<and> (case tf_to_date fs of None \<Rightarrow> True | Some t \<Rightarrow> row_created_at r \<le> t)"

definition row_key :: "tip_row \<Rightarrow> int \<times> uuid" where
  "row_key r = (row_created_at r, row_id r)"

definition cursor_key :: "keyset_cursor \<Rightarrow> int \<times> uuid" where
  "cursor_key c = (kc_created_at c, kc_id c)"

text \<open>The rows the statement returns: with an offset always newest first, otherwise in the direction of the
  cursor; one row more than the limit.\<close>

definition page_rows ::
  "(tip_row \<Rightarrow> bool) \<Rightarrow> cursor_direction \<Rightarrow> keyset_cursor option \<Rightarrow> int \<Rightarrow> int option \<Rightarrow> tip_row list \<Rightarrow> tip_row list" where
  "page_rows P dir cursor limit off rows =
     (let beyond = (\<lambda>r. case cursor of None \<Rightarrow> True
            | Some c \<Rightarrow> if dir = After then row_key r < cursor_key c else cursor_key c < row_key r);
          ascending = sort_key row_key (filter (\<lambda>r. P r \<and> beyond r) rows) in
      case off of
        Some n \<Rightarrow> take (nat (limit + 1)) (drop (nat n) (rev ascending))
      | None \<Rightarrow> take (nat (limit + 1)) (if dir = After then rev ascending else ascending))"

definition tip_cursor :: "tip \<Rightarrow> keyset_cursor" where
  "tip_cursor t = \<lparr>kc_created_at = tip_created_at t, kc_id = tip_id t\<rparr>"

text \<open>\<open>None\<close> is the panic of \<open>clamp\<close>.\<close>

definition get_tips_paginated ::
  "cursor_ops \<Rightarrow> env \<Rightarrow> row_decoder \<Rightarrow> (string \<Rightarrow> rat) \<Rightarrow> sqlx_error option \<Rightarrow> string option \<Rightarrow> pagination_params \<Rightarrow> tip_filters \<Rightarrow>
     tip_row list \<Rightarrow> (app_error + tip page) option" where
  "get_tips_paginated C env from_row numeric fault username params fs rows =
     (let p = validated params;
          cursor = (case active_cursor p of None \<Rightarrow> Ok None | Some token \<Rightarrow> map_sum id Some (decode_cursor C env token)) in
      case cursor of
        Err e \<Rightarrow> Some (Err e)
      | Ok c \<Rightarrow>
          (case (if uses_offset p then map_option Some (offset env p) else Some None) of
             None \<Rightarrow> None
           | Some off \<Rightarrow>
               (case fault of
                  Some e \<Rightarrow> Some (Err (app_error_from_sqlx e))
                | None \<Rightarrow>
                    (case decode_all from_row (page_rows (satisfies numeric username fs) (direction p) c (pp_limit p) off rows) of
                       Inl e \<Rightarrow> Some (Err (app_error_from_sqlx e))
                     | Inr ts \<Rightarrow>
                         let ts = (if direction p = Before \<and> \<not> uses_offset p then rev ts else ts) in
                         Some (Ok (page_keyset C env ts (pp_limit p) tip_cursor))))))"

section \<open>What the cursor needs of its libraries\<close>

text \<open>The canonical text of a UUID: lower-case hexadecimal digits and hyphens.\<close>

definition canonical_uuid :: "string \<Rightarrow> bool" where
  "canonical_uuid i \<longleftrightarrow> length i = 36 \<and> list_all (\<lambda>c. is_ascii_digit c \<or> c \<in> set ''abcdef-'') i"

text \<open>Microseconds from 1970 up to the year 10000, well inside the range of \<open>chrono\<close>.\<close>

definition chrono_range :: "int \<Rightarrow> bool" where
  "chrono_range t \<longleftrightarrow> 0 \<le> t \<and> t < 253402300800000000"

definition cursor_ok :: "keyset_cursor \<Rightarrow> bool" where
  "cursor_ok c \<longleftrightarrow> canonical_uuid (kc_id c) \<and> chrono_range (kc_created_at c)"

locale cursor_codec =
  fixes C :: cursor_ops
  assumes decode_encode: "cu_decode C (cu_encode C s) = Some s"
    and ascii_is_utf8: "list_all (\<lambda>c. byte c < 128) s \<Longrightarrow> cu_utf8 C s"
    and digest: "hex_digest (cu_hmac C)"
    and parse_canonical: "canonical_uuid i \<Longrightarrow> cu_parse_uuid C i = Some i"
    and timestamp_in_range: "chrono_range t \<Longrightarrow> cu_timestamp_micros C t = Some t"

lemma canonical_uuid_chars:
  assumes "canonical_uuid i" shows "CHR ''|'' \<notin> set i" "list_all (\<lambda>c. byte c < 128) i"
  using assms by (auto simp: canonical_uuid_def list_all_iff is_ascii_digit_def)

lemma digits_plain:
  assumes "all_digits s" shows "CHR ''|'' \<notin> set s" "list_all (\<lambda>c. byte c < 128) s"
  using assms by (auto simp: all_digits_def list_all_iff is_ascii_digit_def)

lemma hexdigit_plain: "is_ascii_hexdigit c \<Longrightarrow> c \<noteq> CHR ''|'' \<and> byte c < 128"
  by (auto simp: is_ascii_hexdigit_def is_ascii_digit_def)

lemma chrono_micros:
  assumes "chrono_range t"
  shows "all_digits (show_int t)" "parse_i64 (show_int t) = Some t"
  using assms show_nat_digits [of "nat t"]
  by (auto simp: show_int_def chrono_range_def parse_i64_digits int_ranges)

context cursor_codec
begin

lemma decode_encoded:
  assumes "cursor_ok c"
  shows "decode_cursor C env (encode_cursor C env c) = Ok c"
proof -
  let ?m = "show_int (kc_created_at c)" and ?i = "kc_id c"
  let ?h = "cu_hmac C (cursor_secret env) (cursor_payload ?m ?i)"
  have i: "canonical_uuid ?i" and t: "chrono_range (kc_created_at c)"
    using assms by (simp_all add: cursor_ok_def)
  have h: "CHR ''|'' \<notin> set ?h" "list_all (\<lambda>c. byte c < 128) ?h"
    using digest hexdigit_plain by (simp_all add: hex_digest_def list_all_iff, blast+)
  have "split_char (CHR ''|'') (cursor_payload ?m ?i @ ''|'' @ ?h) = [?m, ?i, ?h]"
    using digits_plain(1) [OF chrono_micros(1) [OF t]] canonical_uuid_chars(1) [OF i] h(1)
    by (simp add: cursor_payload_def split_char_append split_char_no_sep)
  moreover have "cu_utf8 C (cursor_payload ?m ?i @ ''|'' @ ?h)"
    using digits_plain(2) [OF chrono_micros(1) [OF t]] canonical_uuid_chars(2) [OF i] h(2)
    by (intro ascii_is_utf8) (simp add: cursor_payload_def)
  ultimately show ?thesis
    using chrono_micros(2) [OF t] parse_canonical [OF i] timestamp_in_range [OF t]
    by (simp add: encode_cursor_def decode_cursor_def decode_encode Let_def)
qed

end

text \<open>The plain codec: a digest of zeros, texts as they are.\<close>

definition plain_codec :: cursor_ops where
  "plain_codec =
     \<lparr>cu_hmac = (\<lambda>secret msg. zfill 64 (show_nat (length secret + length msg))),
      cu_encode = id, cu_decode = Some, cu_utf8 = list_all (\<lambda>c. byte c < 128),
      cu_parse_uuid = (\<lambda>i. if canonical_uuid i then Some i else None),
      cu_timestamp_micros = (\<lambda>t. if chrono_range t then Some t else None)\<rparr>"

lemma hexdigit_zfill: "list_all is_ascii_hexdigit (zfill n (show_nat k))"
  using show_nat_digits [of k]
  by (auto simp: zfill_def all_digits_def list_all_iff is_ascii_hexdigit_def is_ascii_digit_def)

interpretation pc: cursor_codec plain_codec
  by unfold_locales (simp_all add: plain_codec_def hex_digest_def hexdigit_zfill)

section \<open>Cursors are the server's own\<close>

text \<open>Round trip of cursors: over a codec that keeps its laws, every cursor made of a canonical id and a
  time in the supported range is decoded from its encoding to itself, under the same secret.
\<close>

theorem cursor_roundtrip:
  assumes "cursor_codec C" and "cursor_ok c"
  shows "decode_cursor C env (encode_cursor C env c) = Ok c"
  using assms by (rule cursor_codec.decode_encoded)

theorem cursor_roundtrip_witness:
  "decode_cursor plain_codec Map.empty (encode_cursor plain_codec Map.empty
     \<lparr>kc_created_at = 1700000000000000, kc_id = ''3f2504e0-4f89-41d3-9a0c-0305e82c3301''\<rparr>)
   = Ok \<lparr>kc_created_at = 1700000000000000, kc_id = ''3f2504e0-4f89-41d3-9a0c-0305e82c3301''\<rparr>"
  by (rule cursor_roundtrip [OF pc.cursor_codec_axioms])
    (simp add: cursor_ok_def canonical_uuid_def chrono_range_def is_ascii_digit_def)

lemma split_char_three:
  assumes "split_char d s = [a, b, c]" shows "s = a @ d # b @ d # c"
proof -
  have "join [d] (split_char d s) = s"
  proof (induction s)
    case (Cons x s)
    then show ?case by (cases "split_char d s" rule: list.exhaust; cases "tl (split_char d s)") (auto split: list.splits)
  qed simp
  with assms show ?thesis by simp
qed

text \<open>Forged cursors are refused: a token that decodes carries the HMAC of its own payload under the
  server's secret, and the cursor it yields is the one the payload spells.
\<close>

theorem cursor_is_authentic:
  assumes "decode_cursor C env token = Ok c"
  shows "\<exists>micros i t. cu_decode C token =
      Some (cursor_payload micros i @ ''|'' @ cu_hmac C (cursor_secret env) (cursor_payload micros i))
    \<and> parse_i64 micros = Some t \<and> cu_timestamp_micros C t = Some (kc_created_at c) \<and> cu_parse_uuid C i = Some (kc_id c)"
proof -
  obtain s micros i t where "cu_decode C token = Some s"
    "split_char (CHR ''|'') s = [micros, i, cu_hmac C (cursor_secret env) (cursor_payload micros i)]"
    "parse_i64 micros = Some t" "cu_timestamp_micros C t = Some (kc_created_at c)" "cu_parse_uuid C i = Some (kc_id c)"
    using assms by (auto simp: decode_cursor_def split: option.splits if_splits list.splits)
  then show ?thesis
    using split_char_three [of "CHR ''|''" s]
    by (intro exI [of _ micros] exI [of _ i] exI [of _ t]) (simp add: cursor_payload_def)
qed

theorem cursor_is_authentic_witness:
  "\<exists>micros i t. cu_decode plain_codec (encode_cursor plain_codec Map.empty
        \<lparr>kc_created_at = 7, kc_id = ''3f2504e0-4f89-41d3-9a0c-0305e82c3301''\<rparr>) =
      Some (cursor_payload micros i @ ''|'' @ cu_hmac plain_codec (cursor_secret Map.empty) (cursor_payload micros i))
    \<and> parse_i64 micros = Some t \<and> cu_timestamp_micros plain_codec t = Some 7
    \<and> cu_parse_uuid plain_codec i = Some ''3f2504e0-4f89-41d3-9a0c-0305e82c3301''"
proof -
  let ?c = "\<lparr>kc_created_at = 7, kc_id = ''3f2504e0-4f89-41d3-9a0c-0305e82c3301''\<rparr>"
  have "cursor_ok ?c" by (simp add: cursor_ok_def canonical_uuid_def chrono_range_def is_ascii_digit_def)
  from cursor_is_authentic [OF pc.decode_encoded [OF this, of Map.empty]] show ?thesis by simp
qed

section \<open>The newest-first listing\<close>

text \<open>The listing the pages cut: the rows that satisfy the filters, newest first, ties by descending id.\<close>

definition listing :: "(tip_row \<Rightarrow> bool) \<Rightarrow> tip_row list \<Rightarrow> tip_row list" where
  "listing P rows = rev (sort_key row_key (filter P rows))"

definition older :: "int \<times> uuid \<Rightarrow> tip_row \<Rightarrow> bool" where
  "older k r \<longleftrightarrow> row_key r < k"

lemma listing_desc:
  assumes "distinct (map row_id rows)"
  shows "sorted_wrt (\<lambda>a b. row_key b < row_key a) (listing P rows)"
proof -
  have "distinct (map row_key rows)"
    using assms by (auto simp: distinct_map inj_on_def row_key_def)
  then have "distinct (map row_key (sort_key row_key (filter P rows)))"
    by (simp add: distinct_map inj_on_def)
  then have "sorted_wrt (<) (map row_key (sort_key row_key (filter P rows)))"
    by (simp add: strict_sorted_iff)
  then show ?thesis by (simp add: listing_def sorted_wrt_rev sorted_wrt_map)
qed

lemma older_than_split:
  assumes "sorted_wrt (\<lambda>a b. row_key b < row_key a) (xs @ r # ys)"
  shows "filter (older (row_key r)) (xs @ r # ys) = ys"
proof -
  have "filter (older (row_key r)) xs = []" "filter (older (row_key r)) ys = ys"
    using assms by (auto simp: sorted_wrt_append older_def filter_empty_conv intro: filter_True)
  then show ?thesis by (simp add: older_def)
qed

lemma page_rows_forward:
  "page_rows P After None limit None rows = take (nat (limit + 1)) (listing P rows)"
  "page_rows P After (Some c) limit None rows = take (nat (limit + 1)) (filter (older (cursor_key c)) (listing P rows))"
  by (simp_all add: page_rows_def listing_def older_def [abs_def] rev_filter [symmetric] filter_sort filter_filter)

lemma page_rows_ignore_newer:
  assumes "\<forall>r \<in> set new. \<not> older (cursor_key c) r"
  shows "page_rows P After (Some c) limit None (new @ rows) = page_rows P After (Some c) limit None rows"
  using assms by (auto simp: page_rows_def older_def filter_empty_conv)

lemma decode_all_map:
  "\<forall>r \<in> set rs. from_row tip_columns r = Ok (conv r) \<Longrightarrow> decode_all from_row rs = Ok (map conv rs)"
  by (induction rs) auto

section \<open>Walking forward\<close>

text \<open>A client that follows \<open>next_cursor\<close> while \<open>has_more\<close> holds; \<open>fetch k after\<close> answers its \<open>k\<close>-th
  request, and \<open>None\<close> is a failed request or not enough requests.\<close>

fun walk_tips :: "(nat \<Rightarrow> string option \<Rightarrow> (app_error + tip page) option) \<Rightarrow> nat \<Rightarrow> nat \<Rightarrow> string option \<Rightarrow> tip list option" where
  "walk_tips fetch 0 k after = None"
| "walk_tips fetch (Suc left) k after =
     (case fetch k after of
        Some (Inr pg) \<Rightarrow>
          if pg_has_more pg then map_option (\<lambda>ts. pg_items pg @ ts) (walk_tips fetch left (Suc k) (pg_next_cursor pg))
          else Some (pg_items pg)
      | _ \<Rightarrow> None)"

definition forward :: "int \<Rightarrow> string option \<Rightarrow> pagination_params" where
  "forward limit after = pagination_params_default\<lparr>pp_limit := limit, pp_after := after\<rparr>"

text \<open>The request for the page behind a token that decodes to \<open>c\<close>, or for the first page.\<close>

lemma forward_page:
  assumes limit: "1 \<le> limit" "limit \<le> MAX_LIMIT"
    and tok: "(case after of None \<Rightarrow> Ok None | Some token \<Rightarrow> map_sum id Some (decode_cursor C env token)) = Ok c"
    and page: "page_rows (satisfies numeric username fs) After c limit None rows = take (nat (limit + 1)) rest"
    and dec: "\<forall>r \<in> set rest. from_row tip_columns r = Ok (conv r)"
  shows "get_tips_paginated C env from_row numeric None username (forward limit after) fs rows =
    Some (Ok (page_keyset C env (map conv (take (nat (limit + 1)) rest)) limit tip_cursor))"
proof -
  have v: "validated (forward limit after) = forward limit after"
    using limit by (simp add: validated_def forward_def clamp_i64_def)
  have "decode_all from_row (take (nat (limit + 1)) rest) = Ok (map conv (take (nat (limit + 1)) rest))"
    using dec by (intro decode_all_map) (auto dest: in_set_takeD)
  moreover have "direction (forward limit after) = After" "active_cursor (forward limit after) = after"
    "\<not> uses_offset (forward limit after)" "pp_limit (forward limit after) = limit"
    by (simp_all add: forward_def direction_def active_cursor_def uses_offset_def pagination_params_default_def split: option.split)
  ultimately show ?thesis
    using tok page by (simp add: get_tips_paginated_def v Let_def)
qed

lemma keyset_page:
  assumes "1 \<le> limit"
  shows "pg_items (page_keyset C env (map conv (take (nat (limit + 1)) rest)) limit f) = map conv (take (nat limit) rest)"
    and "pg_has_more (page_keyset C env (map conv (take (nat (limit + 1)) rest)) limit f) = (nat limit < length rest)"
    and "rest \<noteq> [] \<Longrightarrow> pg_next_cursor (page_keyset C env (map conv (take (nat (limit + 1)) rest)) limit f) =
      Some (encode_cursor C env (f (conv (last (take (nat limit) rest)))))"
  using assms by (auto simp: page_keyset_def Let_def take_map min_def last_map)

locale tip_walk = cursor_codec C + row_decoding from_row
  for C :: cursor_ops and from_row :: row_decoder +
  fixes env :: env and numeric :: "string \<Rightarrow> rat" and username :: "string option" and fs :: tip_filters
    and limit :: int and conv :: "tip_row \<Rightarrow> tip" and rows :: "tip_row list" and new :: "nat \<Rightarrow> tip_row list"
  assumes limit: "1 \<le> limit" "limit \<le> MAX_LIMIT"
    and ids: "distinct (map row_id rows)"
    and usable: "r \<in> set rows \<Longrightarrow> canonical_uuid (row_id r) \<and> chrono_range (row_created_at r)"
    and decodes: "r \<in> set rows \<Longrightarrow> from_row tip_columns r = Ok (conv r)"
    and first: "new 0 = []"
    and arrivals: "r' \<in> set (new k) \<Longrightarrow> r \<in> set rows \<Longrightarrow> row_key r < row_key r'"
begin

abbreviation fetch :: "nat \<Rightarrow> string option \<Rightarrow> (app_error + tip page) option" where
  "fetch \<equiv> \<lambda>k after. get_tips_paginated C env from_row numeric None username (forward limit after) fs (new k @ rows)"

definition token_for :: "tip_row list \<Rightarrow> string option" where
  "token_for seen = (if seen = [] then None else Some (encode_cursor C env (tip_cursor (conv (last seen)))))"

abbreviation L :: "tip_row list" where "L \<equiv> listing (satisfies numeric username fs) rows"

lemma L_rows: "set L \<subseteq> set rows"
  by (auto simp: listing_def)

lemma row_cursor:
  assumes "r \<in> set rows"
  shows "cursor_ok (tip_cursor (conv r))" "cursor_key (tip_cursor (conv r)) = row_key r"
proof -
  from decoded [OF decodes [OF assms]] usable [OF assms]
  show "cursor_ok (tip_cursor (conv r))" "cursor_key (tip_cursor (conv r)) = row_key r"
    by (simp_all add: tip_cursor_def cursor_ok_def cursor_key_def row_key_def)
qed

lemma fetch_after:
  assumes split: "L = seen @ rest" and k: "seen = [] \<Longrightarrow> k = 0"
  shows "fetch k (token_for seen) = Some (Ok (page_keyset C env (map conv (take (nat (limit + 1)) rest)) limit tip_cursor))"
proof (cases "seen = []")
  case True
  with split k first show ?thesis
    unfolding token_for_def using L_rows decodes limit
    by (intro forward_page [where c = None]) (auto simp: page_rows_forward)
next
  case False
  then obtain pre r where s: "seen = pre @ [r]" by (metis append_butlast_last_id)
  let ?c = "tip_cursor (conv r)"
  have r: "r \<in> set rows" using L_rows split s by auto
  have "filter (older (row_key r)) L = rest"
    using older_than_split [of pre r rest] listing_desc [OF ids, of "satisfies numeric username fs"]
    unfolding split s by simp
  moreover have "\<forall>r' \<in> set (new k). \<not> older (cursor_key ?c) r'"
    using arrivals [OF _ r] by (auto simp: row_cursor [OF r] older_def dest: less_imp_not_less)
  ultimately have "page_rows (satisfies numeric username fs) After (Some ?c) limit None (new k @ rows) = take (nat (limit + 1)) rest"
    unfolding row_cursor [OF r] by (subst page_rows_ignore_newer) (simp_all add: page_rows_forward row_cursor [OF r])
  then show ?thesis
    unfolding token_for_def using False s L_rows decodes limit split decode_encoded [OF row_cursor(1) [OF r]]
    by (intro forward_page [where c = "Some ?c"]) auto
qed

lemma walk_rest:
  assumes "L = seen @ rest" "seen = [] \<Longrightarrow> k = 0" "length rest < fuel"
  shows "walk_tips fetch fuel k (token_for seen) = Some (map conv rest)"
  using assms
proof (induction fuel arbitrary: seen rest k)
  case (Suc fuel)
  let ?n = "nat limit"
  note page = keyset_page [OF limit(1), where rest = rest and conv = conv and f = tip_cursor]
  show ?case
  proof (cases "?n < length rest")
    case True
    have n: "0 < ?n" using limit by simp
    have ne: "take ?n rest \<noteq> []" "rest \<noteq> []" using True n by auto
    have "walk_tips fetch fuel (Suc k) (token_for (seen @ take ?n rest)) = Some (map conv (drop ?n rest))"
      using Suc.prems ne n True by (intro Suc.IH) auto
    moreover have "token_for (seen @ take ?n rest) = Some (encode_cursor C env (tip_cursor (conv (last (take ?n rest)))))"
      using ne by (simp add: token_for_def)
    ultimately show ?thesis
      using fetch_after [OF Suc.prems(1,2)] page True ne
      by (simp add: map_append [symmetric] del: map_append)
  next
    case False
    then show ?thesis using fetch_after [OF Suc.prems(1,2)] page by simp
  qed
qed simp

lemma walk_all: "walk_tips fetch (Suc (length rows)) 0 None = Some (map conv L)"
  using walk_rest [of "[]" L 0 "Suc (length rows)"]
  by (simp add: token_for_def listing_def less_Suc_eq_le)

end


definition page_row :: "uuid \<Rightarrow> int \<Rightarrow> tip_row" where
  "page_row i t = \<lparr>row_id = i, row_creator = ''alice'', row_amount = ''2'', row_hash = i, row_created_at = t,
     row_status = TipConfirmed, row_source = None, row_message = None, row_visibility = ''public''\<rparr>"

definition page_table :: "tip_row list" where
  "page_table = [page_row ''3f2504e0-4f89-41d3-9a0c-0305e82c3302'' 20, page_row ''3f2504e0-4f89-41d3-9a0c-0305e82c3301'' 10,
     page_row ''3f2504e0-4f89-41d3-9a0c-0305e82c3303'' 30]"

definition demo_conv :: "tip_row \<Rightarrow> tip" where
  "demo_conv r = \<lparr>tip_id = row_id r, tip_creator_username = row_creator r, tip_amount = row_amount r,
     tip_transaction_hash = row_hash r, tip_message = row_message r, tip_message_visibility = Some (row_visibility r),
     tip_created_at = row_created_at r, tip_status_of = Some (row_status r), tip_source_account = row_source r\<rparr>"

definition demo_filters :: tip_filters where
  "demo_filters = \<lparr>tf_min_amount = None, tf_max_amount = None, tf_from_date = Some 15, tf_to_date = None\<rparr>"

definition demo_arrivals :: "nat \<Rightarrow> tip_row list" where
  "demo_arrivals k = (if k = 0 then [] else [page_row ''3f2504e0-4f89-41d3-9a0c-0305e82c3304'' 40])"

lemma full_from_row_conv: "full_from_row tip_columns r = Ok (demo_conv r)"
  by (simp add: full_from_row_def derived_from_row_def tip_required_columns_def tip_columns_def demo_conv_def)

lemmas demo_page = page_table_def page_row_def demo_arrivals_def demo_filters_def row_key_def

interpretation dw: tip_walk plain_codec full_from_row env numeric username fs 1 demo_conv page_table demo_arrivals
  for env numeric username fs
  by (intro tip_walk.intro pc.cursor_codec_axioms full_row_decoding, unfold_locales)
    (auto simp: demo_page canonical_uuid_def chrono_range_def is_ascii_digit_def MAX_LIMIT_def full_from_row_conv less_prod_def
      split: if_splits)


section \<open>Walking backward\<close>

text \<open>A backward page may skip the row next to the cursor: when more rows than the limit are newer than the
  cursor, the page is cut at the wrong end, after the rows were put in newest-first order. It holds the rows after the nearest
  one, and the nearest newer row is on no page.
\<close>

theorem backward_page_skips_nearest:
  assumes "decode_cursor C env token = Ok c" and "1 \<le> limit" "limit \<le> MAX_LIMIT"
    and newer: "sort_key row_key (filter (\<lambda>r. satisfies numeric username fs r \<and> cursor_key c < row_key r) rows) = nearest # others"
    and "nat limit \<le> length others"
    and dec: "\<And>r. r \<in> set rows \<Longrightarrow> from_row tip_columns r = Ok (conv r)"
  shows "map_option (map_sum id pg_items) (get_tips_paginated C env from_row numeric None username
      (pagination_params_default\<lparr>pp_limit := limit, pp_before := Some token\<rparr>) fs rows) =
    Some (Ok (map conv (rev (take (nat limit) others))))"
proof -
  let ?p = "pagination_params_default\<lparr>pp_limit := limit, pp_before := Some token\<rparr>"
  let ?rs = "nearest # take (nat limit) others"
  have v: "validated ?p = ?p"
    using assms(2,3) by (simp add: validated_def clamp_i64_def)
  have "set (nearest # others) \<subseteq> set rows"
    unfolding newer [symmetric] by auto
  then have d: "decode_all from_row ?rs = Ok (map conv ?rs)"
    using dec by (intro decode_all_map) (auto dest: in_set_takeD)
  have "nat (limit + 1) = Suc (nat limit)" using assms(2) by simp
  then have p: "page_rows (satisfies numeric username fs) Before (Some c) limit None rows = ?rs"
    by (simp add: page_rows_def newer)
  have sel: "direction ?p = Before" "active_cursor ?p = Some token" "\<not> uses_offset ?p" "pp_limit ?p = limit"
    by (simp_all add: direction_def active_cursor_def uses_offset_def pagination_params_default_def)
  have "get_tips_paginated C env from_row numeric None username ?p fs rows =
      Some (Ok (page_keyset C env (rev (map conv ?rs)) limit tip_cursor))"
    using assms(1) by (simp add: get_tips_paginated_def v sel p d Let_def del: decode_all.simps)
  then show ?thesis
    using assms(5) by (simp add: page_keyset_def rev_map Let_def)
qed

theorem backward_page_skips_nearest_witness:
  "map_option (map_sum id pg_items) (get_tips_paginated plain_codec Map.empty full_from_row (\<lambda>s. 0) None None
      (pagination_params_default\<lparr>pp_limit := 1, pp_before :=
         Some (encode_cursor plain_codec Map.empty \<lparr>kc_created_at = 10, kc_id = ''3f2504e0-4f89-41d3-9a0c-0305e82c3301''\<rparr>)\<rparr>)
      demo_filters page_table) =
    Some (Ok [demo_conv (page_row ''3f2504e0-4f89-41d3-9a0c-0305e82c3303'' 30)])"
proof -
  let ?c = "\<lparr>kc_created_at = 10, kc_id = ''3f2504e0-4f89-41d3-9a0c-0305e82c3301''\<rparr>"
  have ok: "cursor_ok ?c" by (simp add: cursor_ok_def canonical_uuid_def chrono_range_def is_ascii_digit_def)
  have newer: "sort_key row_key (filter (\<lambda>r. satisfies (\<lambda>s. 0) None demo_filters r \<and> cursor_key ?c < row_key r) page_table) =
    [page_row ''3f2504e0-4f89-41d3-9a0c-0305e82c3302'' 20, page_row ''3f2504e0-4f89-41d3-9a0c-0305e82c3303'' 30]"
    by (simp add: demo_page satisfies_def less_eq_prod_def less_prod_def cursor_key_def)
  show ?thesis
    using backward_page_skips_nearest [where from_row = full_from_row and conv = demo_conv,
      OF pc.decode_encoded [OF ok] dw.limit newer _ full_from_row_conv, of Map.empty] by simp
qed

end
