(* ===== verification/Api_Keys.thy ===== *)
theory Api_Keys
  imports Sql Encryption
begin

text \<open>
  API keys (\<open>src/models/api_key.rs\<close>, \<open>src/controllers/api_key_controller.rs\<close>, \<open>src/middleware/api_key_auth.rs\<close>) over the table of
  migrations 0028 and 0034. The secret column is read as \<open>EncryptedString\<close>: \<open>column\<close> is its decoding (\<open>decode_column\<close> of the
  theory \<open>Encryption\<close>, an outer \<open>None\<close> is a panic), and written as it is. \<open>hex\<close> stands for \<open>hex::encode\<close>; the UUIDs drawn are arguments,
  as their bytes.
\<close>

section \<open>Keys and statements\<close>

record api_key =
  ak_id :: string
  ak_key :: string
  ak_secret :: string
  ak_name :: string
  ak_permissions :: "string list"
  ak_active :: bool
  ak_usage_count :: int
  ak_created_at :: int
  ak_rotated_at :: "int option"
  ak_revoked_at :: "int option"

type_synonym api_key_table = "api_key list"
type_synonym column_decoder = "string \<Rightarrow> (sqlx_error + string) option"

record api_key_created =
  kc_row_id :: string
  kc_key :: string
  kc_secret :: string
  kc_name :: string
  kc_permissions :: "string list"
  kc_row_created_at :: int

definition generate_key :: "(string \<Rightarrow> string) \<Rightarrow> string \<Rightarrow> string \<Rightarrow> string \<Rightarrow> string" where
  "generate_key hex prefix id1 id2 = prefix @ ''_'' @ hex (id1 @ id2)"

definition decode_api_key :: "column_decoder \<Rightarrow> api_key \<Rightarrow> (stmt_error + api_key) option" where
  "decode_api_key column r =
     map_option (map_sum StmtError (\<lambda>secret. r\<lparr>ak_secret := secret\<rparr>)) (column (ak_secret r))"

text \<open>\<open>key VARCHAR(64) NOT NULL UNIQUE, secret VARCHAR(128)\<close>: a longer text is an error, and so is a key that exists.\<close>

definition KEY_COLUMN_LEN :: nat where "KEY_COLUMN_LEN = 64"
definition SECRET_COLUMN_LEN :: nat where "SECRET_COLUMN_LEN = 128"

record key_env =
  ke_hex :: "string \<Rightarrow> string"
  ke_uuid_bytes :: "nat \<Rightarrow> string"
  ke_id :: string
  ke_now :: int
  ke_fault :: "nat \<Rightarrow> sqlx_error option"

definition insert_fault :: "key_env \<Rightarrow> string \<Rightarrow> string \<Rightarrow> api_key_table \<Rightarrow> stmt_error option" where
  "insert_fault q key secret rows =
     (if length key > KEY_COLUMN_LEN \<or> length secret > SECRET_COLUMN_LEN then Some (StmtError (SqlxDatabase (Some ''22001'') None))
      else if (\<exists>r \<in> set rows. ak_key r = key) then Some (unique_violation ''api_keys_key_key'')
      else map_option StmtError (ke_fault q 1))"

definition create_key ::
  "column_decoder \<Rightarrow> key_env \<Rightarrow> string \<Rightarrow> string list \<Rightarrow> api_key_table \<Rightarrow> (stmt_error + api_key_created) option \<times> api_key_table" where
  "create_key column q name permissions rows =
     (let key = generate_key (ke_hex q) ''tjk'' (ke_uuid_bytes q 0) (ke_uuid_bytes q 1);
          secret = generate_key (ke_hex q) ''tjs'' (ke_uuid_bytes q 2) (ke_uuid_bytes q 3);
          row = \<lparr>ak_id = ke_id q, ak_key = key, ak_secret = secret, ak_name = name, ak_permissions = permissions, ak_active = True,
                 ak_usage_count = 0, ak_created_at = ke_now q, ak_rotated_at = None, ak_revoked_at = None\<rparr>
      in case insert_fault q key secret rows of
           Some e \<Rightarrow> (Some (Err e), rows)
         | None \<Rightarrow>
             (map_option (map_sum id (\<lambda>r. \<lparr>kc_row_id = ak_id r, kc_key = ak_key r, kc_secret = secret, kc_name = ak_name r,
                 kc_permissions = ak_permissions r, kc_row_created_at = ak_created_at r\<rparr>)) (decode_api_key column row),
              rows @ [row]))"

definition live :: "string \<Rightarrow> api_key \<Rightarrow> bool" where
  "live key r \<longleftrightarrow> ak_key r = key \<and> ak_active r \<and> ak_revoked_at r = None"

definition verify_key :: "column_decoder \<Rightarrow> sqlx_error option \<Rightarrow> string \<Rightarrow> string \<Rightarrow> api_key_table \<Rightarrow> (stmt_error + api_key) option" where
  "verify_key column fault key secret rows =
     (case fault of
        Some e \<Rightarrow> Some (Err (StmtError e))
      | None \<Rightarrow>
          (case List.find (\<lambda>r. live key r \<and> ak_secret r = secret) rows of
             None \<Rightarrow> Some (Err RowNotFound)
           | Some r \<Rightarrow> decode_api_key column r))"

definition get_by_key :: "column_decoder \<Rightarrow> sqlx_error option \<Rightarrow> string \<Rightarrow> api_key_table \<Rightarrow> (stmt_error + api_key) option" where
  "get_by_key column fault key rows =
     (case fault of
        Some e \<Rightarrow> Some (Err (StmtError e))
      | None \<Rightarrow>
          (case List.find (\<lambda>r. ak_key r = key) rows of None \<Rightarrow> Some (Err RowNotFound) | Some r \<Rightarrow> decode_api_key column r))"

text \<open>The update is fire-and-forget; a counter at the maximum of its column makes the statement fail.\<close>

definition record_usage :: "sqlx_error option \<Rightarrow> string \<Rightarrow> api_key_table \<Rightarrow> api_key_table" where
  "record_usage fault key rows =
     (if fault \<noteq> None \<or> (\<exists>r \<in> set rows. ak_key r = key \<and> ak_usage_count r \<ge> i64_max) then rows
      else map (\<lambda>r. if ak_key r = key then r\<lparr>ak_usage_count := ak_usage_count r + 1\<rparr> else r) rows)"

text \<open>The old row is deactivated by one statement, the new one inserted by the next; the first returns the row, and
  reading it decodes the secret.\<close>

definition rotated :: "int \<Rightarrow> api_key \<Rightarrow> api_key" where
  "rotated now r = r\<lparr>ak_active := False, ak_rotated_at := Some now\<rparr>"

definition rotate_key ::
  "column_decoder \<Rightarrow> key_env \<Rightarrow> string \<Rightarrow> api_key_table \<Rightarrow> (stmt_error + api_key_created) option \<times> api_key_table" where
  "rotate_key column q key rows =
     (case ke_fault q 0 of
        Some e \<Rightarrow> (Some (Err (StmtError e)), rows)
      | None \<Rightarrow>
          (case List.find (live key) rows of
             None \<Rightarrow> (Some (Err RowNotFound), rows)
           | Some r \<Rightarrow>
               (let rows' = map (\<lambda>x. if live key x then rotated (ke_now q) x else x) rows in
                case decode_api_key column (rotated (ke_now q) r) of
                  None \<Rightarrow> (None, rows')
                | Some (Inl e) \<Rightarrow> (Some (Err e), rows')
                | Some (Inr row) \<Rightarrow> create_key column q (ak_name row) (ak_permissions row) rows')))"

definition revoke_key :: "sqlx_error option \<Rightarrow> int \<Rightarrow> string \<Rightarrow> api_key_table \<Rightarrow> (stmt_error + unit) \<times> api_key_table" where
  "revoke_key fault now key rows =
     stmt fault rows
       (Ok (), map (\<lambda>r. if ak_key r = key \<and> ak_revoked_at r = None then r\<lparr>ak_active := False, ak_revoked_at := Some now\<rparr> else r) rows)"

section \<open>The controller and the middleware\<close>

definition key_error :: "string \<Rightarrow> stmt_error \<Rightarrow> app_error" where
  "key_error missing e = (case e of RowNotFound \<Rightarrow> Unauthorized missing | StmtError s \<Rightarrow> app_error_from_sqlx s)"

definition create_api_key ::
  "column_decoder \<Rightarrow> key_env \<Rightarrow> string \<Rightarrow> string list \<Rightarrow> api_key_table \<Rightarrow> (app_error + api_key_created) option \<times> api_key_table" where
  "create_api_key column q name permissions rows =
     (let (r, rows') = create_key column q name permissions rows in
      (map_option (map_sum (\<lambda>e. case e of RowNotFound \<Rightarrow> app_error_from_sqlx SqlxOther | StmtError s \<Rightarrow> app_error_from_sqlx s) id) r, rows'))"

definition get_api_key :: "column_decoder \<Rightarrow> sqlx_error option \<Rightarrow> string \<Rightarrow> api_key_table \<Rightarrow> (app_error + api_key) option" where
  "get_api_key column fault key rows = map_option (map_sum (key_error ''API key not found'') id) (get_by_key column fault key rows)"

definition rotate_api_key ::
  "column_decoder \<Rightarrow> key_env \<Rightarrow> string \<Rightarrow> api_key_table \<Rightarrow> (app_error + api_key_created) option \<times> api_key_table" where
  "rotate_api_key column q key rows =
     (let (r, rows') = rotate_key column q key rows in
      (map_option (map_sum (key_error ''API key not found or already inactive'') id) r, rows'))"

definition revoke_api_key :: "sqlx_error option \<Rightarrow> int \<Rightarrow> string \<Rightarrow> api_key_table \<Rightarrow> (app_error + unit) \<times> api_key_table" where
  "revoke_api_key fault now key rows =
     (let (r, rows') = revoke_key fault now key rows in (map_sum (key_error ''API key not found'') id r, rows'))"

definition require_api_key ::
  "column_decoder \<Rightarrow> (nat \<Rightarrow> sqlx_error option) \<Rightarrow> headers \<Rightarrow> (api_key \<Rightarrow> 'w \<Rightarrow> response \<times> 'w) \<Rightarrow> api_key_table \<Rightarrow> 'w \<Rightarrow>
     (response \<times> api_key_table \<times> 'w) option" where
  "require_api_key column fault hs next rows w =
     (case (header_get hs ''x-api-key'', header_get hs ''x-api-secret'') of
        (Some key, Some secret) \<Rightarrow>
          (case verify_key column (fault 0) key secret rows of
             None \<Rightarrow> None
           | Some (Inl e) \<Rightarrow> Some (into_response None (Unauthorized ''Invalid or revoked API key''), rows, w)
           | Some (Inr k) \<Rightarrow> (let (resp, w') = next k w in Some (resp, record_usage (fault 1) (ak_key k) rows, w')))
      | _ \<Rightarrow> Some (into_response None (Unauthorized ''Missing X-API-Key or X-API-Secret headers''), rows, w))"

section \<open>Requests one after the other\<close>

datatype key_req =
    CreateKey key_env string "string list"
  | RotateKey key_env string
  | RevokeKey "sqlx_error option" int string
  | UseKey "nat \<Rightarrow> sqlx_error option" headers

fun serve_key :: "column_decoder \<Rightarrow> key_req \<Rightarrow> api_key_table \<Rightarrow> api_key_table" where
  "serve_key column (CreateKey q name permissions) rows = snd (create_api_key column q name permissions rows)"
| "serve_key column (RotateKey q key) rows = snd (rotate_api_key column q key rows)"
| "serve_key column (RevokeKey fault now key) rows = snd (revoke_api_key fault now key rows)"
| "serve_key column (UseKey fault hs) rows =
     (case require_api_key column fault hs (\<lambda>_ w. (json_response 200 JNull, w)) rows () of
        None \<Rightarrow> rows | Some (_, rows', _) \<Rightarrow> rows')"

definition key_run :: "column_decoder \<Rightarrow> key_req list \<Rightarrow> api_key_table \<Rightarrow> api_key_table" where
  "key_run column reqs = fold (serve_key column) reqs"

text \<open>What every statement does to the table: it changes rows in place, keeping the key and never reviving one, and
  may append one row with a new key.\<close>

definition ages :: "api_key \<Rightarrow> api_key \<Rightarrow> bool" where
  "ages r r' \<longleftrightarrow> ak_key r' = ak_key r \<and> (ak_active r' \<longrightarrow> ak_active r) \<and> (ak_revoked_at r \<noteq> None \<longrightarrow> ak_revoked_at r' \<noteq> None)"

definition table_step :: "api_key_table \<Rightarrow> api_key_table \<Rightarrow> bool" where
  "table_step rows rows' \<longleftrightarrow> (\<exists>old new. rows' = old @ new \<and> list_all2 ages rows old
     \<and> (new = [] \<or> (\<exists>r. new = [r] \<and> ak_key r \<notin> ak_key ` set rows)))"

lemma ages_refl [simp]: "ages r r"
  by (simp add: ages_def)

lemma ages_keys: "list_all2 ages rows old \<Longrightarrow> map ak_key old = map ak_key rows"
  by (induction rows old rule: list_all2_induct) (auto simp: ages_def)

lemma table_step_old: "list_all2 ages rows old \<Longrightarrow> table_step rows old"
  unfolding table_step_def by (intro exI [of _ old] exI [of _ "[]"]) simp

lemma table_step_append: "list_all2 ages rows old \<Longrightarrow> ak_key r \<notin> ak_key ` set rows \<Longrightarrow> table_step rows (old @ [r])"
  unfolding table_step_def by (intro exI [of _ old] exI [of _ "[r]"]) simp

lemma table_step_map: "(\<And>r. ages r (f r)) \<Longrightarrow> table_step rows (map f rows)"
  unfolding table_step_def by (intro exI [of _ "map f rows"] exI [of _ "[]"]) (simp add: list_all2_map2 list_all2_same)

lemma table_step_refl [simp]: "table_step rows rows"
  using table_step_map [of id rows] by simp

lemma create_step:
  assumes "list_all2 ages rows old"
  shows "table_step rows (snd (create_key column q name permissions old))"
proof (cases "insert_fault q (generate_key (ke_hex q) ''tjk'' (ke_uuid_bytes q 0) (ke_uuid_bytes q 1))
    (generate_key (ke_hex q) ''tjs'' (ke_uuid_bytes q 2) (ke_uuid_bytes q 3)) old")
  case None
  let ?key = "generate_key (ke_hex q) ''tjk'' (ke_uuid_bytes q 0) (ke_uuid_bytes q 1)"
  have "ak_key ` set old = ak_key ` set rows" using ages_keys [OF assms] by (metis image_set)
  moreover have "?key \<notin> ak_key ` set old" using None by (auto simp: insert_fault_def split: if_splits)
  ultimately have "?key \<notin> ak_key ` set rows" by simp
  then show ?thesis
    using None unfolding create_key_def Let_def by (simp add: table_step_append [OF assms])
next
  case (Some e)
  then show ?thesis using table_step_old [OF assms] by (simp add: create_key_def Let_def)
qed

lemma serve_step: "table_step rows (serve_key column req rows)"
proof (cases req)
  case (CreateKey q name permissions)
  have "list_all2 ages rows rows" by (simp add: list_all2_same)
  from create_step [OF this] CreateKey show ?thesis by (simp add: create_api_key_def split_beta Let_def)
next
  case (RotateKey q key)
  let ?f = "\<lambda>x. if live key x then rotated (ke_now q) x else x"
  have age: "ages r (?f r)" for r by (simp add: ages_def rotated_def)
  then have old: "list_all2 ages rows (map ?f rows)" by (simp add: list_all2_map2 list_all2_same)
  have "table_step rows (snd (rotate_key column q key rows))"
    using create_step [OF old] table_step_map [of ?f rows] age
    by (auto simp: rotate_key_def Let_def split: option.splits sum.splits)
  then show ?thesis using RotateKey by (simp add: rotate_api_key_def split_beta Let_def)
next
  case (RevokeKey fault now key)
  have "table_step rows (snd (revoke_key fault now key rows))"
    by (auto simp: revoke_key_def stmt_def ages_def split: option.split intro: table_step_map)
  then show ?thesis using RevokeKey by (simp add: revoke_api_key_def split_beta)
next
  case (UseKey fault hs)
  have "table_step rows (record_usage e key rows)" for e key
    by (auto simp: record_usage_def ages_def intro: table_step_map)
  then show ?thesis
    using UseKey by (auto simp: require_api_key_def split_beta Let_def split: option.splits sum.splits)
qed

section \<open>Dead keys stay dead\<close>

definition dead :: "string \<Rightarrow> api_key_table \<Rightarrow> bool" where
  "dead key rows \<longleftrightarrow> key \<in> ak_key ` set rows \<and> (\<forall>r \<in> set rows. \<not> live key r)"

lemma dead_step:
  assumes "dead key rows" "table_step rows rows'"
  shows "dead key rows'"
proof -
  obtain old new where r: "rows' = old @ new" "list_all2 ages rows old" "new = [] \<or> (\<exists>r. new = [r] \<and> ak_key r \<notin> ak_key ` set rows)"
    using assms(2) by (auto simp: table_step_def)
  have "ak_key ` set old = ak_key ` set rows" using ages_keys [OF r(2)] by (metis image_set)
  then have "key \<in> ak_key ` set old" using assms(1) by (simp add: dead_def)
  moreover have "\<not> live key x" if x: "x \<in> set old" for x
  proof -
    obtain i where "x = old ! i" "i < length rows" using x list_all2_lengthD [OF r(2)] by (auto simp: in_set_conv_nth)
    then have "ages (rows ! i) x" "rows ! i \<in> set rows" using r(2) by (auto simp: list_all2_nthD)
    then show ?thesis using assms(1) by (auto simp: dead_def live_def ages_def)
  qed
  moreover have "\<forall>x \<in> set new. \<not> live key x"
    using r(3) assms(1) by (auto simp: dead_def live_def)
  ultimately show ?thesis using r(1) by (auto simp: dead_def)
qed

lemma dead_run: "dead key rows \<Longrightarrow> dead key (key_run column reqs rows)"
  unfolding key_run_def by (induction reqs arbitrary: rows) (auto intro: dead_step serve_step)

lemma dead_verify:
  assumes "dead key rows"
  shows "verify_key column fault key secret rows = Some (Err (case fault of Some e \<Rightarrow> StmtError e | None \<Rightarrow> RowNotFound))"
proof -
  have "List.find (\<lambda>r. live key r \<and> ak_secret r = secret) rows = None"
    using assms by (auto simp: find_None_iff dead_def)
  then show ?thesis by (simp add: verify_key_def split: option.split)
qed


definition demo_key_row :: api_key where
  "demo_key_row = \<lparr>ak_id = ''1'', ak_key = ''k'', ak_secret = ''s'', ak_name = ''ci'', ak_permissions = [''*''], ak_active = True,
     ak_usage_count = 0, ak_created_at = 0, ak_rotated_at = None, ak_revoked_at = None\<rparr>"

definition demo_key_headers :: headers where
  "demo_key_headers = [''x-api-key'' \<mapsto> ''k'', ''x-api-secret'' \<mapsto> ''s'']"


section \<open>No key is ever issued\<close>

text \<open>A generated key has four characters of prefix and 64 hexadecimal digits, more than its column holds.\<close>

lemma create_key_too_long:
  assumes "length (ke_hex q (ke_uuid_bytes q 0 @ ke_uuid_bytes q 1)) = 64"
  shows "create_key column q name permissions rows = (Some (Err (StmtError (SqlxDatabase (Some ''22001'') None))), rows)"
  using assms by (simp add: create_key_def generate_key_def insert_fault_def KEY_COLUMN_LEN_def Let_def)

text \<open>The requests in which \<open>hex\<close> writes two digits per byte and a UUID has sixteen bytes.\<close>

definition hex_ok :: "key_env \<Rightarrow> bool" where
  "hex_ok q \<longleftrightarrow> length (ke_hex q (ke_uuid_bytes q 0 @ ke_uuid_bytes q 1)) = 64"

fun req_ok :: "key_req \<Rightarrow> bool" where
  "req_ok (CreateKey q _ _) = hex_ok q"
| "req_ok (RotateKey q _) = hex_ok q"
| "req_ok _ = True"

lemma serve_empty: "req_ok req \<Longrightarrow> serve_key column req [] = []"
proof (cases req)
  case (UseKey fault hs)
  then show ?thesis
    by (auto simp: require_api_key_def verify_key_def split: option.splits sum.splits)
qed (auto simp: create_api_key_def rotate_api_key_def rotate_key_def revoke_api_key_def revoke_key_def stmt_def hex_ok_def
      create_key_too_long split: option.splits)

text \<open>No API key can be issued: every creation fails with a database error and leaves the table as it is, because the
  generated key is longer than its column. A service that starts without keys has none after any requests, and no request with an API
  key is let through.\<close>

theorem api_keys_never_issued:
  assumes "\<forall>req \<in> set reqs. req_ok req"
  shows "key_run column reqs [] = []
    \<and> (hex_ok q \<longrightarrow> fst (create_api_key column q name permissions rows)
         = Some (Err (app_error_from_sqlx (SqlxDatabase (Some ''22001'') None))))"
proof -
  have "key_run column reqs [] = []"
    using assms unfolding key_run_def by (induction reqs) (auto simp: serve_empty)
  then show ?thesis by (simp add: create_api_key_def create_key_too_long hex_ok_def)
qed

theorem api_keys_never_issued_witness:
  "key_run (\<lambda>c. Some (Ok c)) [CreateKey \<lparr>ke_hex = letters, ke_uuid_bytes = (\<lambda>_. replicate 16 (CHR ''u'')), ke_id = ''1'', ke_now = 0, ke_fault = (\<lambda>_. None)\<rparr>
     ''ci'' []] [] = []"
proof -
  have "length (letters s) = 2 * length s" for s by (induction s) (auto simp: letters_def)
  then have "\<forall>req \<in> set [CreateKey \<lparr>ke_hex = letters, ke_uuid_bytes = (\<lambda>_. replicate 16 (CHR ''u'')), ke_id = ''1'', ke_now = 0,
      ke_fault = (\<lambda>_. None)\<rparr> ''ci'' []]. req_ok req" by (simp add: hex_ok_def)
  from conjunct1 [OF api_keys_never_issued [OF this]] show ?thesis .
qed

end
