(* ===== verification/Gateway.thy ===== *)
theory Gateway
  imports Rate_Limiter Api_Keys
begin

text \<open>
  The gateway in front of every versioned route (\<open>src/gateway/\<close>, stacked in \<open>src/main.rs\<close>): authentication, rate limit,
  daily quota, version negotiation, request transformation and the header layers, each a function on a service. A service takes a
  request and the world and gives a response and the new world; the routes are a parameter. \<open>gateway_auth\<close> is outermost and may panic
  (\<open>None\<close>) when no signing key is configured. Metrics and log lines are left out. A header is what \<open>to_str\<close> returns.
\<close>

section \<open>Requests and services\<close>

record http_req =
  hq_method :: string
  hq_path :: string
  hq_headers :: headers
  hq_body :: string
  hq_peer :: "string option"
  hq_identity :: "gateway_identity option"

type_synonym 'w service = "http_req \<Rightarrow> 'w \<Rightarrow> response \<times> 'w"

section \<open>Quotas\<close>

datatype quota_period = Daily | Monthly

definition current_period_start :: "nat \<times> nat \<times> nat \<Rightarrow> quota_period \<Rightarrow> string" where
  "current_period_start date p =
     (let (y, m, d) = date in
      case p of
        Daily \<Rightarrow> zfill 4 (show_nat y) @ ''-'' @ zfill 2 (show_nat m) @ ''-'' @ zfill 2 (show_nat d)
      | Monthly \<Rightarrow> show_nat y @ ''-'' @ zfill 2 (show_nat m) @ ''-01'')"

fun period_as_str :: "quota_period \<Rightarrow> string" where
  "period_as_str Daily = ''daily''"
| "period_as_str Monthly = ''monthly''"

record client_quota =
  cq_client_id :: string
  cq_period :: string
  cq_max_requests :: int
  cq_used_requests :: int
  cq_period_start :: string
  cq_enabled :: bool

type_synonym quota_table = "string \<times> string \<times> string \<rightharpoonup> client_quota"

definition quota_remaining :: "client_quota \<Rightarrow> int" where
  "quota_remaining c = max (wrap_i64 (cq_max_requests c - cq_used_requests c)) 0"

definition is_exhausted :: "client_quota \<Rightarrow> bool" where
  "is_exhausted c \<longleftrightarrow> cq_used_requests c \<ge> cq_max_requests c"

definition env_i64 :: "env \<Rightarrow> string \<Rightarrow> int \<Rightarrow> int" where
  "env_i64 env key fallback = (case Option.bind (env key) parse_i64 of Some v \<Rightarrow> v | None \<Rightarrow> fallback)"

definition tier_daily_quota :: "env \<Rightarrow> string \<Rightarrow> int" where
  "tier_daily_quota env tier =
     (if tier = ''anonymous'' then env_i64 env ''QUOTA_ANON_DAILY'' 1000
      else if tier = ''free'' then env_i64 env ''QUOTA_FREE_DAILY'' 10000
      else if tier = ''premium'' then env_i64 env ''QUOTA_PREMIUM_DAILY'' 100000
      else if tier = ''admin'' then env_i64 env ''QUOTA_ADMIN_DAILY'' 1000000
      else 5000)"

definition tier_monthly_quota :: "env \<Rightarrow> string \<Rightarrow> int" where
  "tier_monthly_quota env tier =
     (if tier = ''anonymous'' then env_i64 env ''QUOTA_ANON_MONTHLY'' 10000
      else if tier = ''free'' then env_i64 env ''QUOTA_FREE_MONTHLY'' 100000
      else if tier = ''premium'' then env_i64 env ''QUOTA_PREMIUM_MONTHLY'' 1000000
      else if tier = ''admin'' then env_i64 env ''QUOTA_ADMIN_MONTHLY'' 10000000
      else 50000)"

text \<open>A failing query counts as no row.\<close>

definition fetch_quota :: "bool \<Rightarrow> nat \<times> nat \<times> nat \<Rightarrow> string \<Rightarrow> quota_period \<Rightarrow> quota_table \<Rightarrow> client_quota option" where
  "fetch_quota fault date client p db =
     (case db (client, period_as_str p, current_period_start date p) of
        Some c \<Rightarrow> if fault \<or> \<not> cq_enabled c then None else Some c
      | None \<Rightarrow> None)"

definition increment_quota ::
  "env \<Rightarrow> bool \<Rightarrow> nat \<times> nat \<times> nat \<Rightarrow> string \<Rightarrow> quota_period \<Rightarrow> string \<Rightarrow> quota_table \<Rightarrow> quota_table" where
  "increment_quota env fault date client p tier db =
     (let start = current_period_start date p;
          k = (client, period_as_str p, start) in
      if fault then db
      else (case db k of
              None \<Rightarrow> db(k \<mapsto> \<lparr>cq_client_id = client, cq_period = period_as_str p,
                cq_max_requests = (case p of Daily \<Rightarrow> tier_daily_quota env tier | Monthly \<Rightarrow> tier_monthly_quota env tier),
                cq_used_requests = 1, cq_period_start = start, cq_enabled = True\<rparr>)
            | Some c \<Rightarrow> if cq_used_requests c \<ge> i64_max then db else db(k \<mapsto> c\<lparr>cq_used_requests := cq_used_requests c + 1\<rparr>)))"

definition upsert_client_quota ::
  "sqlx_error option \<Rightarrow> nat \<times> nat \<times> nat \<Rightarrow> string \<Rightarrow> quota_period \<Rightarrow> int \<Rightarrow> quota_table \<Rightarrow> (app_error + client_quota) \<times> quota_table" where
  "upsert_client_quota fault date client p max_requests db =
     (let start = current_period_start date p;
          k = (client, period_as_str p, start);
          row = (case db k of
                   None \<Rightarrow> \<lparr>cq_client_id = client, cq_period = period_as_str p, cq_max_requests = max_requests,
                            cq_used_requests = 0, cq_period_start = start, cq_enabled = True\<rparr>
                 | Some c \<Rightarrow> c\<lparr>cq_max_requests := max_requests\<rparr>)
      in case fault of Some e \<Rightarrow> (Err (app_error_from_sqlx e), db) | None \<Rightarrow> (Ok row, db(k \<mapsto> row)))"

definition client_id_from_identity :: "http_req \<Rightarrow> string" where
  "client_id_from_identity r =
     (case hq_identity r of
        Some (Jwt subject role c) \<Rightarrow> ''jwt:'' @ subject
      | Some (ApiKey key_id key name permissions) \<Rightarrow> ''apikey:'' @ take 16 key
      | _ \<Rightarrow> (case hq_peer r of Some ip \<Rightarrow> ''ip:'' @ ip | None \<Rightarrow> ''ip:unknown''))"

definition quota_tier :: "gateway_identity option \<Rightarrow> string" where
  "quota_tier identity =
     (case identity of
        Some (Jwt subject role c) \<Rightarrow>
          if role = ''admin'' \<or> role = ''superadmin'' then ''admin'' else if role = ''premium'' then ''premium'' else ''free''
      | Some (ApiKey key_id key name permissions) \<Rightarrow>
          if has_any [''*'', ''admin''] permissions then ''admin'' else if has_any [''premium''] permissions then ''premium'' else ''free''
      | _ \<Rightarrow> ''anonymous'')"

definition quota_too_many_requests :: "string option \<Rightarrow> string \<Rightarrow> quota_period \<Rightarrow> int \<Rightarrow> int \<Rightarrow> response" where
  "quota_too_many_requests request_id client p used limit =
     set_header ''X-Quota-Period'' (period_as_str p) (set_header ''X-Quota-Remaining'' ''0'' (set_header ''X-Quota-Limit'' (show_int limit)
       (json_response 429 (JObj [(''error'', JStr ''API quota exhausted''), (''code'', JStr ''QUOTA_EXCEEDED''), (''status'', JNum 429),
          (''details'', JObj [(''client_id'', JStr client), (''period'', JStr (period_as_str p)), (''used'', JNum used), (''limit'', JNum limit),
             (''resets'', JStr (case p of Daily \<Rightarrow> ''at midnight UTC'' | Monthly \<Rightarrow> ''at the start of next month''))]),
          (''request_id'', opt_json request_id)]))))"

definition inject_quota_headers :: "client_quota \<Rightarrow> response \<Rightarrow> response" where
  "inject_quota_headers c r =
     set_header ''X-Quota-Period'' (cq_period c) (set_header ''X-Quota-Remaining'' (show_int (quota_remaining c))
       (set_header ''X-Quota-Limit'' (show_int (cq_max_requests c)) r))"

section \<open>The world behind the gateway\<close>

record ('s, 'r, 'c) gw_ops =
  go_jwt :: jwt_ops
  go_limits :: "(int, 's) redis_ops"
  go_denied :: "(string, 'r) redis_ops"
  go_epochs :: "'c counter_ops"
  go_column :: column_decoder
  go_parse_ip :: "string \<Rightarrow> string option"
  go_from_json :: "string \<Rightarrow> json option"
  go_to_json :: "json \<Rightarrow> string option"

record gw_env =
  ge_vars :: env
  ge_now_ms :: int
  ge_redis_ms :: int
  ge_has_redis :: bool
  ge_limiter_up :: bool
  ge_revocation_fault :: bool
  ge_key_fault :: "nat \<Rightarrow> sqlx_error option"
  ge_quota_fetch_fault :: bool
  ge_quota_incr_fault :: bool
  ge_date :: "nat \<times> nat \<times> nat"
  ge_latency_ms :: nat
  ge_request_id :: "string option"
  ge_version_keys :: string

record ('s, 'r, 'c, 'w) gw_world =
  gw_limits :: 's
  gw_quotas :: quota_table
  gw_keys :: api_key_table
  gw_revoked :: "('r, 'c) revocations"
  gw_inner :: 'w

text \<open>The increment is spawned after the response; here it runs before the next request of the client.\<close>

definition quota_enforcement :: "gw_env \<Rightarrow> ('s, 'r, 'c, 'w) gw_world service \<Rightarrow> ('s, 'r, 'c, 'w) gw_world service" where
  "quota_enforcement q next r w =
     (let enabled = (case ge_vars q ''QUOTA_ENFORCEMENT_ENABLED'' of Some v \<Rightarrow> to_lowercase v \<noteq> ''false'' | None \<Rightarrow> True) in
      if \<not> enabled then next r w
      else
        (let client = client_id_from_identity r;
             tier = quota_tier (hq_identity r);
             admit = (let (resp, w') = next r w in
               (inject_quota_headers \<lparr>cq_client_id = client, cq_period = period_as_str Daily,
                  cq_max_requests = tier_daily_quota (ge_vars q) tier, cq_used_requests = 0,
                  cq_period_start = current_period_start (ge_date q) Daily, cq_enabled = True\<rparr> resp,
                w'\<lparr>gw_quotas := increment_quota (ge_vars q) (ge_quota_incr_fault q) (ge_date q) client Daily tier (gw_quotas w')\<rparr>))
         in case fetch_quota (ge_quota_fetch_fault q) (ge_date q) client Daily (gw_quotas w) of
              Some c \<Rightarrow>
                if is_exhausted c
                then (quota_too_many_requests (ge_request_id q) client Daily (cq_used_requests c) (cq_max_requests c), w)
                else admit
            | None \<Rightarrow> admit))"

section \<open>Versions\<close>

record api_version =
  av_version :: string
  av_deprecated :: bool
  av_sunset_date :: "string option"
  av_migration_url :: "string option"

record version_manager =
  vm_versions :: "string \<rightharpoonup> api_version"
  vm_current :: string

definition register_version :: "string \<Rightarrow> bool \<Rightarrow> string option \<Rightarrow> string option \<Rightarrow> version_manager \<Rightarrow> version_manager" where
  "register_version v deprecated sunset url m =
     m\<lparr>vm_versions := (vm_versions m)(v \<mapsto> \<lparr>av_version = v, av_deprecated = deprecated, av_sunset_date = sunset, av_migration_url = url\<rparr>)\<rparr>"

definition default_version_manager :: version_manager where
  "default_version_manager =
     register_version ''v2'' False None None
       (register_version ''v1'' True (Some ''Sat, 01 Jan 2027 00:00:00 GMT'') (Some ''https://docs.example.com/migration/v1-to-v2'')
          \<lparr>vm_versions = Map.empty, vm_current = ''v2''\<rparr>)"

datatype version_source = PathSource | HeaderSource | AcceptSource | DefaultSource

definition detect_version :: "string \<Rightarrow> string option" where
  "detect_version path =
     (if contains path ''/v1/'' \<or> ends_with path ''/v1'' then Some ''v1''
      else if contains path ''/v2/'' \<or> ends_with path ''/v2'' then Some ''v2'' else None)"

definition detect_version_from_accept :: "string \<Rightarrow> string option" where
  "detect_version_from_accept accept =
     (if contains accept ''version=v1'' \<or> contains accept ''vnd.api.v1'' then Some ''v1''
      else if contains accept ''version=v2'' \<or> contains accept ''vnd.api.v2'' then Some ''v2'' else None)"

definition known_version :: "string option \<Rightarrow> string option" where
  "known_version v = (if v = Some ''v1'' \<or> v = Some ''v2'' then v else None)"

definition detect_version_from_header :: "headers \<Rightarrow> string option" where
  "detect_version_from_header hs =
     (case known_version (header_get hs ''X-API-Version'') of
        Some v \<Rightarrow> Some v
      | None \<Rightarrow> known_version (header_get hs ''API-Version''))"

definition resolve_api_version :: "http_req \<Rightarrow> (string \<times> version_source) option" where
  "resolve_api_version r =
     (case detect_version (hq_path r) of
        Some v \<Rightarrow> Some (v, PathSource)
      | None \<Rightarrow>
          (case detect_version_from_header (hq_headers r) of
             Some v \<Rightarrow> Some (v, HeaderSource)
           | None \<Rightarrow>
               (case Option.bind (header_get (hq_headers r) ''accept'') detect_version_from_accept of
                  Some v \<Rightarrow> Some (v, AcceptSource)
                | None \<Rightarrow> None)))"

fun source_str :: "version_source \<Rightarrow> string" where
  "source_str PathSource = ''path''"
| "source_str HeaderSource = ''header''"
| "source_str AcceptSource = ''accept''"
| "source_str DefaultSource = ''default''"

definition quote_char :: string where "quote_char = [CHR 0x22]"

definition deprecation_headers :: "api_version \<Rightarrow> response \<Rightarrow> response" where
  "deprecation_headers meta r =
     (if \<not> av_deprecated meta then r
      else (let r = set_header ''Deprecation'' ''true'' r;
                r = (case av_sunset_date meta of Some d \<Rightarrow> set_header ''Sunset'' d r | None \<Rightarrow> r);
                r = (case av_migration_url meta of
                       Some url \<Rightarrow> set_header ''Link'' (''<'' @ url @ ''>; rel='' @ quote_char @ ''successor-version'' @ quote_char) r
                     | None \<Rightarrow> r)
            in set_header ''X-Deprecation-Warning'' ''This API version is deprecated. Please migrate to /api/v2'' r))"

definition version_headers :: "version_manager \<Rightarrow> string \<Rightarrow> version_source option \<Rightarrow> response \<Rightarrow> response" where
  "version_headers mgr v source r =
     (let r = set_header ''X-API-Version'' v r;
          r = (case source of Some s \<Rightarrow> set_header ''X-Version-Detection-Method'' (source_str s) r | None \<Rightarrow> r);
          r = set_header ''Vary'' ''Accept, X-API-Version, API-Version'' r;
          r = (case vm_versions mgr v of Some meta \<Rightarrow> deprecation_headers meta r | None \<Rightarrow> r)
      in set_header ''Link'' (''<https://docs.example.com/api/'' @ v @ ''>; rel='' @ quote_char @ ''api-documentation'' @ quote_char) r)"

definition unsupported_version :: "gw_env \<Rightarrow> string \<Rightarrow> response" where
  "unsupported_version q v =
     set_header ''X-API-Versions'' (ge_version_keys q)
       \<lparr>status = 400, rheaders = [''content-type'' \<mapsto> ''application/json''],
        rbody = Bytes (''{'' @ quote_char @ ''error'' @ quote_char @ '': '' @ quote_char @ ''Unsupported API version '' @ [CHR 0x27] @ v @ [CHR 0x27]
          @ '', supported versions: '' @ ge_version_keys q)\<rparr>"

definition version_negotiation :: "gw_env \<Rightarrow> 'w service \<Rightarrow> 'w service" where
  "version_negotiation q next r w =
     (let mgr = default_version_manager;
          resolution = resolve_api_version r in
      if resolution = None \<and> \<not> starts_with (hq_path r) ''/api/'' then next r w
      else (let v = (case resolution of Some (v, s) \<Rightarrow> v | None \<Rightarrow> vm_current mgr) in
            if vm_versions mgr v = None then (unsupported_version q v, w)
            else (let (resp, w') = next r w in (version_headers mgr v (map_option snd resolution) resp, w'))))"

section \<open>Transformations\<close>

record transformation_rule =
  tr_path_prefix :: string
  tr_add_headers :: "(string \<times> string) list"
  tr_remove_headers :: "string list"
  tr_body_transform :: "string option"

definition default_transformer :: "transformation_rule list" where
  "default_transformer =
     map (\<lambda>(prefix, name). \<lparr>tr_path_prefix = prefix, tr_add_headers = [], tr_remove_headers = [], tr_body_transform = Some name\<rparr>)
       [(''/api/v1/tips'', ''normalize_amount''), (''/api/v2/tips'', ''normalize_amount''),
        (''/api/v1/creators'', ''lowercase_username''), (''/api/v2/creators'', ''lowercase_username'')]"

definition find_rule :: "transformation_rule list \<Rightarrow> string \<Rightarrow> transformation_rule option" where
  "find_rule rules path = List.find (\<lambda>t. starts_with path (tr_path_prefix t)) rules"

text \<open>Rewrite a field that is a string; other values and values without the field stay.\<close>

definition map_field :: "string \<Rightarrow> (string \<Rightarrow> string) \<Rightarrow> json \<Rightarrow> json" where
  "map_field name f j =
     (case j of
        JObj kvs \<Rightarrow>
          (case map_of kvs name of
             Some (JStr s) \<Rightarrow> JObj (map (\<lambda>(k, v). if k = name then (k, JStr (f s)) else (k, v)) kvs)
           | _ \<Rightarrow> j)
      | _ \<Rightarrow> j)"

definition apply_body_transform :: "string \<Rightarrow> json \<Rightarrow> json" where
  "apply_body_transform name j =
     (if name = ''normalize_amount'' then map_field ''amount'' trim j
      else if name = ''lowercase_username'' then map_field ''username'' to_lowercase j
      else j)"

definition BODY_LIMIT :: nat where "BODY_LIMIT = 1048576"

definition transform_headers :: "transformation_rule \<Rightarrow> headers \<Rightarrow> headers" where
  "transform_headers t hs =
     fold (\<lambda>(n, v) h. header_insert n v h) (tr_add_headers t) (fold (\<lambda>n h. h(to_lowercase n := None)) (tr_remove_headers t) hs)"

text \<open>The request that is forwarded.\<close>

definition transformed :: "('s, 'r, 'c) gw_ops \<Rightarrow> http_req \<Rightarrow> http_req" where
  "transformed ops r =
     (case find_rule default_transformer (hq_path r) of
        None \<Rightarrow> r
      | Some t \<Rightarrow>
          (let r = r\<lparr>hq_headers := transform_headers t (hq_headers r)\<rparr> in
           case tr_body_transform t of
             None \<Rightarrow> r
           | Some name \<Rightarrow>
               if hq_method r \<notin> {''POST'', ''PUT'', ''PATCH''} then r
               else if length (hq_body r) > BODY_LIMIT then r\<lparr>hq_body := []\<rparr>
               else (case go_from_json ops (hq_body r) of
                       None \<Rightarrow> r
                     | Some j \<Rightarrow>
                         (case go_to_json ops (apply_body_transform name j) of
                            None \<Rightarrow> r
                          | Some new_body \<Rightarrow>
                              r\<lparr>hq_headers := header_insert ''content-length'' (show_nat (length new_body)) (hq_headers r),
                                hq_body := new_body\<rparr>))))"

definition transform_request :: "('s, 'r, 'c) gw_ops \<Rightarrow> 'w service \<Rightarrow> 'w service" where
  "transform_request ops next r w = next (transformed ops r) w"

section \<open>Header layers\<close>

definition identity_display :: "gateway_identity \<Rightarrow> string" where
  "identity_display i =
     (case i of
        Jwt subject role c \<Rightarrow> ''jwt:'' @ role @ '':'' @ subject
      | ApiKey key_id key name permissions \<Rightarrow> ''apikey:'' @ name @ '':'' @ take 8 key
      | Anonymous \<Rightarrow> ''anonymous'')"

definition has_permission :: "gateway_identity \<Rightarrow> string \<Rightarrow> bool" where
  "has_permission i permission =
     (case i of
        Jwt subject role c \<Rightarrow> True
      | ApiKey key_id key name permissions \<Rightarrow> has_any [permission, ''*''] permissions
      | Anonymous \<Rightarrow> False)"

definition require_scope :: "string option \<Rightarrow> string \<Rightarrow> 'w service \<Rightarrow> 'w service" where
  "require_scope request_id scope next r w =
     (case hq_identity r of
        Some (Jwt subject role c) \<Rightarrow> next r w
      | Some (ApiKey key_id key name permissions) \<Rightarrow>
          if has_any [scope, ''*''] permissions then next r w
          else (into_response request_id (Forbidden (''API key does not have the '' @ [CHR 0x27] @ scope @ [CHR 0x27] @ '' permission'')), w)
      | _ \<Rightarrow> (into_response request_id (Unauthorized ''Authentication required''), w))"

text \<open>\<open>HeaderValue::from_str\<close> takes printable ASCII and tabs.\<close>

definition header_text :: "string \<Rightarrow> bool" where
  "header_text s \<longleftrightarrow> list_all (\<lambda>c. 32 \<le> byte c \<and> byte c < 127 \<or> byte c = 9) s"

definition gateway_metrics :: "gw_env \<Rightarrow> 'w service \<Rightarrow> 'w service" where
  "gateway_metrics q next r w =
     (let (resp, w') = next r w in (set_header ''x-gateway-latency-ms'' (show_nat (ge_latency_ms q)) resp, w'))"

definition propagate_request_id_to_response :: "'w service \<Rightarrow> 'w service" where
  "propagate_request_id_to_response next r w =
     (let (resp, w') = next r w in
      (case header_get (hq_headers r) ''x-request-id'' of Some i \<Rightarrow> set_header ''x-request-id'' i resp | None \<Rightarrow> resp, w'))"

definition inject_identity_header :: "gw_env \<Rightarrow> 'w service \<Rightarrow> 'w service" where
  "inject_identity_header q next r w =
     (let is_dev = (case ge_vars q ''DEPLOYMENT_ENVIRONMENT'' of Some e \<Rightarrow> e = ''development'' \<or> e = ''staging'' | None \<Rightarrow> True);
          (resp, w') = next r w in
      (case hq_identity r of
         Some i \<Rightarrow> if is_dev \<and> header_text (identity_display i) then set_header ''x-authenticated-as'' (identity_display i) resp else resp
       | None \<Rightarrow> resp, w'))"

section \<open>Authentication and the stack\<close>

definition public_paths :: "string list" where
  "public_paths =
     [''/api/v1/creators'', ''/api/v2/creators'', ''/api/v1/tips'', ''/api/v2/tips'', ''/api/v1/health'', ''/api/v2/health'',
      ''/api/v1/leaderboard'', ''/api/v2/leaderboard'', ''/api/v1/stats'', ''/api/v2/stats'', ''/api/v1/auth/login'', ''/api/v2/auth/login'',
      ''/api/v1/auth/register'', ''/api/v2/auth/register'', ''/api/v1/auth/refresh'', ''/api/v2/auth/refresh'', ''/metrics'', ''/swagger-ui'',
      ''/api-docs'', ''/ws'', ''/graphql'']"

definition public_prefixes :: "string list" where
  "public_prefixes =
     [''/api/v1/creators/'', ''/api/v2/creators/'', ''/api/v1/health'', ''/api/v2/health'', ''/api/v1/leaderboard'', ''/api/v2/leaderboard'',
      ''/api/v1/stats'', ''/api/v2/stats'', ''/api/v1/search'', ''/api/v2/search'', ''/metrics'', ''/swagger-ui'', ''/api-docs'']"

definition is_public :: "string \<Rightarrow> bool" where
  "is_public path \<longleftrightarrow> path \<in> set public_paths \<or> list_ex (starts_with path) public_prefixes"

definition gateway_auth ::
  "('s, 'r, 'c) gw_ops \<Rightarrow> gw_env \<Rightarrow> ('s, 'r, 'c, 'w) gw_world service \<Rightarrow> http_req \<Rightarrow> ('s, 'r, 'c, 'w) gw_world \<Rightarrow>
     (response \<times> ('s, 'r, 'c, 'w) gw_world) option" where
  "gateway_auth ops q next r w =
     (let refuse = (\<lambda>e. Some (into_response (ge_request_id q) e, w)) in
      if is_public (hq_path r) then Some (next (r\<lparr>hq_identity := Some Anonymous\<rparr>) w)
      else
        (case Option.bind (header_get (hq_headers r) ''authorization'') (strip_prefix ''Bearer '') of
           Some token \<Rightarrow>
             (case validate_token (go_jwt ops) (ge_vars q) (nat (ge_now_ms q div 1000)) token ''access'' of
                None \<Rightarrow> None
              | Some (Inl e) \<Rightarrow> refuse (Unauthorized ''Invalid or expired token'')
              | Some (Inr c) \<Rightarrow>
                  (case (if ge_has_redis q
                         then check_not_revoked (go_denied ops) (go_epochs ops) (ge_revocation_fault q) (ge_now_ms q) (cl_jti c) (cl_sub c)
                                (cl_tv c) (gw_revoked w)
                         else Ok ()) of
                     Inl e \<Rightarrow> refuse e
                   | Inr _ \<Rightarrow> Some (next (r\<lparr>hq_identity := Some (Jwt (cl_sub c) (cl_role c) c)\<rparr>) w)))
         | None \<Rightarrow>
             (case (header_get (hq_headers r) ''x-api-key'', header_get (hq_headers r) ''x-api-secret'') of
                (Some key, Some secret) \<Rightarrow>
                  (case verify_key (go_column ops) (ge_key_fault q 0) key secret (gw_keys w) of
                     None \<Rightarrow> None
                   | Some (Inl e) \<Rightarrow> refuse (Unauthorized ''Invalid or revoked API key'')
                   | Some (Inr k) \<Rightarrow>
                       Some (next (r\<lparr>hq_identity := Some (ApiKey (ak_id k) (ak_key k) (ak_name k) (ak_permissions k))\<rparr>)
                         (w\<lparr>gw_keys := record_usage (ge_key_fault q 1) (ak_key k) (gw_keys w)\<rparr>)))
              | _ \<Rightarrow> refuse (Unauthorized
                  ''Authentication required. Provide a Bearer token or X-API-Key / X-API-Secret headers.''))))"

definition limiter_view :: "http_req \<Rightarrow> request" where
  "limiter_view r = \<lparr>req_path = hq_path r, req_identity = hq_identity r,
     req_xff = header_get (hq_headers r) ''x-forwarded-for'', req_peer = hq_peer r\<rparr>"

definition rate_limit_layer ::
  "('s, 'r, 'c) gw_ops \<Rightarrow> gw_env \<Rightarrow> ('s, 'r, 'c, 'w) gw_world service \<Rightarrow> ('s, 'r, 'c, 'w) gw_world service" where
  "rate_limit_layer ops q next r w =
     (let (resp, s', w') = gateway_rate_limit (go_limits ops) (go_parse_ip ops) (ge_vars q) (ge_has_redis q) (ge_limiter_up q)
            (ge_redis_ms q) (ge_now_ms q) (ge_request_id q) (next r) (limiter_view r) (gw_limits w) w
      in (resp, w'\<lparr>gw_limits := s'\<rparr>))"

text \<open>The layers of \<open>/api/v1\<close> and \<open>/api/v2\<close>; the last \<open>.layer\<close> of the router is the first a request meets.\<close>

definition api_gateway ::
  "('s, 'r, 'c) gw_ops \<Rightarrow> gw_env \<Rightarrow> ('s, 'r, 'c, 'w) gw_world service \<Rightarrow> http_req \<Rightarrow> ('s, 'r, 'c, 'w) gw_world \<Rightarrow>
     (response \<times> ('s, 'r, 'c, 'w) gw_world) option" where
  "api_gateway ops q routes =
     gateway_auth ops q (rate_limit_layer ops q (quota_enforcement q (version_negotiation q (transform_request ops
       (propagate_request_id_to_response (gateway_metrics q (inject_identity_header q routes)))))))"

section \<open>What a layer may do\<close>

text \<open>The request a service sees instead of \<open>r\<close>: its headers and its body may differ.\<close>

definition seen_as :: "http_req \<Rightarrow> http_req \<Rightarrow> bool" where
  "seen_as r r' \<longleftrightarrow> hq_method r' = hq_method r \<and> hq_path r' = hq_path r \<and> hq_peer r' = hq_peer r \<and> hq_identity r' = hq_identity r"

lemma seen_as_refl [simp]: "seen_as r r"
  by (simp add: seen_as_def)

lemma seen_as_trans: "seen_as r r' \<Longrightarrow> seen_as r' r'' \<Longrightarrow> seen_as r r''"
  by (simp add: seen_as_def)

text \<open>A layer answers by itself, or runs the service behind it exactly once on such a request; it does not touch what is
  behind that service.\<close>

locale service_layer =
  fixes L :: "('s, 'r, 'c, 'w) gw_world service \<Rightarrow> ('s, 'r, 'c, 'w) gw_world service"
  assumes stops_or_runs:
    "(\<exists>resp w1. gw_inner w1 = gw_inner w \<and> (\<forall>next. L next r w = (resp, w1)))
     \<or> (\<exists>r' w1 f g. seen_as r r' \<and> gw_inner w1 = gw_inner w \<and> (\<forall>x. gw_inner (g x) = gw_inner x)
          \<and> (\<forall>next. L next r w = (f (fst (next r' w1)), g (snd (next r' w1)))))"
begin

lemma inner_cases:
  obtains "\<And>next. gw_inner (snd (L next r w)) = gw_inner w"
  | r' w1 where "seen_as r r'" "gw_inner w1 = gw_inner w"
      "\<And>next. gw_inner (snd (L next r w)) = gw_inner (snd (next r' w1))"
  using stops_or_runs [of w r] by (elim disjE exE conjE) (auto intro: that)

end

lemma layer_runsI:
  assumes "seen_as r r'" "gw_inner w1 = gw_inner w" "\<And>x. gw_inner (g x) = gw_inner x"
    and "\<And>next. L next r w = (f (fst (next r' w1)), g (snd (next r' w1)))"
  shows "(\<exists>resp w1. gw_inner w1 = gw_inner w \<and> (\<forall>next. L next r w = (resp, w1)))
     \<or> (\<exists>r' w1 f g. seen_as r r' \<and> gw_inner w1 = gw_inner w \<and> (\<forall>x. gw_inner (g x) = gw_inner x)
          \<and> (\<forall>next. L next r w = (f (fst (next r' w1)), g (snd (next r' w1)))))"
  using assms by blast

lemma layer_stopsI:
  assumes "gw_inner w1 = gw_inner w" and "\<And>next. L next r w = (resp, w1)"
  shows "(\<exists>resp w1. gw_inner w1 = gw_inner w \<and> (\<forall>next. L next r w = (resp, w1)))
     \<or> (\<exists>r' w1 f g. seen_as r r' \<and> gw_inner w1 = gw_inner w \<and> (\<forall>x. gw_inner (g x) = gw_inner x)
          \<and> (\<forall>next. L next r w = (f (fst (next r' w1)), g (snd (next r' w1)))))"
  using assms by blast

text \<open>Layers compose.\<close>

lemma layer_comp:
  assumes "service_layer L" "service_layer M"
  shows "service_layer (\<lambda>next. L (M next))"
proof
  fix w r
  show "(\<exists>resp w1. gw_inner w1 = gw_inner w \<and> (\<forall>next. L (M next) r w = (resp, w1)))
     \<or> (\<exists>r' w1 f g. seen_as r r' \<and> gw_inner w1 = gw_inner w \<and> (\<forall>x. gw_inner (g x) = gw_inner x)
          \<and> (\<forall>next. L (M next) r w = (f (fst (next r' w1)), g (snd (next r' w1)))))"
    using service_layer.stops_or_runs [OF assms(1), of w r]
  proof (elim disjE exE conjE)
    fix resp w1
    assume "gw_inner w1 = gw_inner w" "\<forall>next. L next r w = (resp, w1)"
    then show ?thesis by (intro layer_stopsI [where L = "\<lambda>next. L (M next)"]) auto
  next
    fix r1 w1 f g
    assume l: "seen_as r r1" "gw_inner w1 = gw_inner w" "\<forall>x. gw_inner (g x) = gw_inner x"
      "\<forall>next. L next r w = (f (fst (next r1 w1)), g (snd (next r1 w1)))"
    show ?thesis using service_layer.stops_or_runs [OF assms(2), of w1 r1]
    proof (elim disjE exE conjE)
      fix resp w2
      assume "gw_inner w2 = gw_inner w1" "\<forall>next. M next r1 w1 = (resp, w2)"
      then show ?thesis using l by (intro layer_stopsI [where ?w1.0 = "g w2" and L = "\<lambda>next. L (M next)"]) auto
    next
      fix r2 w2 f' g'
      assume m: "seen_as r1 r2" "gw_inner w2 = gw_inner w1" "\<forall>x. gw_inner (g' x) = gw_inner x"
        "\<forall>next. M next r1 w1 = (f' (fst (next r2 w2)), g' (snd (next r2 w2)))"
      show ?thesis
        by (rule layer_runsI [where L = "\<lambda>next. L (M next)" and f = "f \<circ> f'" and g = "g \<circ> g'" and r' = r2 and ?w1.0 = w2])
          (use l m seen_as_trans in auto)
    qed
  qed
qed

section \<open>Every layer of the stack is one\<close>

text \<open>A layer that runs the next service on the same request and edits the response.\<close>

lemma header_layer:
  assumes "\<And>next r w. L next r w = (f r (fst (next r w)), snd (next r w))"
  shows "service_layer L"
proof
  fix w r
  show "(\<exists>resp w1. gw_inner w1 = gw_inner w \<and> (\<forall>next. L next r w = (resp, w1)))
     \<or> (\<exists>r' w1 f g. seen_as r r' \<and> gw_inner w1 = gw_inner w \<and> (\<forall>x. gw_inner (g x) = gw_inner x)
          \<and> (\<forall>next. L next r w = (f (fst (next r' w1)), g (snd (next r' w1)))))"
    by (rule layer_runsI [where f = "f r" and g = id and r' = r and ?w1.0 = w]) (simp_all add: assms)
qed

interpretation metrics: service_layer "gateway_metrics q" for q
  by (rule header_layer [where f = "\<lambda>_. set_header ''x-gateway-latency-ms'' (show_nat (ge_latency_ms q))"])
    (simp add: gateway_metrics_def split_beta)

interpretation request_id: service_layer propagate_request_id_to_response
  by (rule header_layer [where f = "\<lambda>r resp. case header_get (hq_headers r) ''x-request-id'' of
        Some i \<Rightarrow> set_header ''x-request-id'' i resp | None \<Rightarrow> resp"])
    (simp add: propagate_request_id_to_response_def split_beta)

definition identity_edit :: "gw_env \<Rightarrow> http_req \<Rightarrow> response \<Rightarrow> response" where
  "identity_edit q r resp =
     (case hq_identity r of
        Some i \<Rightarrow> if (case ge_vars q ''DEPLOYMENT_ENVIRONMENT'' of Some e \<Rightarrow> e = ''development'' \<or> e = ''staging'' | None \<Rightarrow> True)
                      \<and> header_text (identity_display i) then set_header ''x-authenticated-as'' (identity_display i) resp else resp
      | None \<Rightarrow> resp)"

interpretation identity_header: service_layer "inject_identity_header q" for q
  by (rule header_layer [where f = "identity_edit q"]) (simp add: inject_identity_header_def identity_edit_def split_beta Let_def)

lemma transformed_seen: "seen_as r (transformed ops r)"
  by (simp add: transformed_def seen_as_def Let_def split: option.split)

interpretation transform: service_layer "transform_request ops" for ops
proof (unfold_locales, goal_cases)
  case (1 w r)
  show ?case
    by (rule layer_runsI [where f = id and g = id and r' = "transformed ops r" and ?w1.0 = w])
      (simp_all add: transformed_seen transform_request_def)
qed

interpretation version: service_layer "version_negotiation q" for q
proof (unfold_locales, goal_cases)
  case (1 w r)
  let ?mgr = default_version_manager and ?res = "resolve_api_version r"
  let ?v = "case ?res of Some (v, s) \<Rightarrow> v | None \<Rightarrow> vm_current ?mgr"
  consider "?res = None" "\<not> starts_with (hq_path r) ''/api/''" | "vm_versions ?mgr ?v = None" "?res \<noteq> None \<or> starts_with (hq_path r) ''/api/''"
    | "vm_versions ?mgr ?v \<noteq> None" "?res \<noteq> None \<or> starts_with (hq_path r) ''/api/''" by blast
  then show ?case
  proof cases
    case 1
    then show ?thesis
      by (intro layer_runsI [where f = id and g = id and r' = r and ?w1.0 = w]) (simp_all add: version_negotiation_def Let_def)
  next
    case 2
    then show ?thesis
      by (intro layer_stopsI [where resp = "unsupported_version q ?v" and ?w1.0 = w]) (auto simp: version_negotiation_def Let_def)
  next
    case 3
    then show ?thesis
      by (intro layer_runsI [where f = "version_headers ?mgr ?v (map_option snd ?res)" and g = id and r' = r and ?w1.0 = w])
        (auto simp: version_negotiation_def Let_def split_beta)
  qed
qed

interpretation quota: service_layer "quota_enforcement q" for q
proof (unfold_locales, goal_cases)
  case (1 w r)
  let ?on = "case ge_vars q ''QUOTA_ENFORCEMENT_ENABLED'' of Some v \<Rightarrow> to_lowercase v \<noteq> ''false'' | None \<Rightarrow> True"
  let ?c = "client_id_from_identity r" and ?t = "quota_tier (hq_identity r)"
  let ?row = "fetch_quota (ge_quota_fetch_fault q) (ge_date q) ?c Daily (gw_quotas w)"
  let ?f = "inject_quota_headers \<lparr>cq_client_id = ?c, cq_period = period_as_str Daily,
                  cq_max_requests = tier_daily_quota (ge_vars q) ?t, cq_used_requests = 0,
                  cq_period_start = current_period_start (ge_date q) Daily, cq_enabled = True\<rparr>"
  let ?g = "\<lambda>w. w\<lparr>gw_quotas := increment_quota (ge_vars q) (ge_quota_incr_fault q) (ge_date q) ?c Daily ?t (gw_quotas w)\<rparr>"
  consider "\<not> ?on" | c where "?on" "?row = Some c" "is_exhausted c" | "?on" "\<forall>c. ?row = Some c \<longrightarrow> \<not> is_exhausted c" by blast
  then show ?case
  proof cases
    case 1
    then show ?thesis
      by (intro layer_runsI [where f = id and g = id and r' = r and ?w1.0 = w]) (simp_all add: quota_enforcement_def Let_def)
  next
    case (2 c)
    then show ?thesis
      by (intro layer_stopsI [where resp = "quota_too_many_requests (ge_request_id q) ?c Daily (cq_used_requests c) (cq_max_requests c)" and ?w1.0 = w])
        (simp_all add: quota_enforcement_def Let_def)
  next
    case 3
    then show ?thesis
      by (intro layer_runsI [where f = ?f and g = ?g and r' = r and ?w1.0 = w])
        (auto simp: quota_enforcement_def Let_def split_beta split: option.split)
  qed
qed

lemma rate_limit_shape:
  "(\<exists>resp s'. \<forall>h. gateway_rate_limit R parse_ip env configured up rt now_ms rid h req s w = (resp, s', w))
   \<or> (\<exists>f s'. \<forall>h. gateway_rate_limit R parse_ip env configured up rt now_ms rid h req s w = (f (fst (h w)), s', snd (h w)))"
proof -
  obtain rpm burst where lim: "(case route_override env (req_path req) of Some ov \<Rightarrow> (ov_rpm ov, ov_burst ov)
      | None \<Rightarrow> tier_limits env (tier_from_identity (req_identity req))) = (rpm, burst)" by fastforce
  obtain result s' where res: "(if configured then gcra_check R up rt (client_key parse_ip env req @ '':gcra'') rpm burst 60 now_ms s
      else (None, s)) = (result, s')" by fastforce
  show ?thesis
  proof (cases result)
    case None
    show ?thesis
      unfolding gateway_rate_limit_def Let_def lim prod.case res None option.case
      by (cases "resolve_policy env (req_path req)") (auto simp: split_beta)
  next
    case (Some d)
    show ?thesis
      unfolding gateway_rate_limit_def Let_def lim prod.case res Some option.case
      by (cases "allowed d") (auto simp: split_beta)
  qed
qed

interpretation limiter: service_layer "rate_limit_layer ops q" for ops q
proof (unfold_locales, goal_cases)
  case (1 w r)
  let ?run = "\<lambda>h. gateway_rate_limit (go_limits ops) (go_parse_ip ops) (ge_vars q) (ge_has_redis q) (ge_limiter_up q)
    (ge_redis_ms q) (ge_now_ms q) (ge_request_id q) h (limiter_view r) (gw_limits w) w"
  consider resp s' where "\<forall>h. ?run h = (resp, s', w)" | f s' where "\<forall>h. ?run h = (f (fst (h w)), s', snd (h w))"
    using rate_limit_shape [of "go_limits ops" "go_parse_ip ops" "ge_vars q" "ge_has_redis q" "ge_limiter_up q"
      "ge_redis_ms q" "ge_now_ms q" "ge_request_id q" "limiter_view r" "gw_limits w" w] by blast
  then show ?case
  proof cases
    case (1 resp s')
    then show ?thesis
      by (intro layer_stopsI [where resp = resp and ?w1.0 = "w\<lparr>gw_limits := s'\<rparr>"]) (simp_all add: rate_limit_layer_def)
  next
    case (2 f s')
    then show ?thesis
      by (intro layer_runsI [where f = f and g = "\<lambda>w. w\<lparr>gw_limits := s'\<rparr>" and r' = r and ?w1.0 = w])
        (simp_all add: rate_limit_layer_def)
  qed
qed

section \<open>What reaches the routes\<close>

text \<open>The layers behind the authentication.\<close>

definition gateway_layers ::
  "('s, 'r, 'c) gw_ops \<Rightarrow> gw_env \<Rightarrow> ('s, 'r, 'c, 'w) gw_world service \<Rightarrow> ('s, 'r, 'c, 'w) gw_world service" where
  "gateway_layers ops q = (\<lambda>routes.
     rate_limit_layer ops q (quota_enforcement q (version_negotiation q (transform_request ops
       (propagate_request_id_to_response (gateway_metrics q (inject_identity_header q routes)))))))"

interpretation stack: service_layer "gateway_layers ops q" for ops q
proof -
  note layer_comp [OF metrics.service_layer_axioms identity_header.service_layer_axioms]
  note layer_comp [OF request_id.service_layer_axioms this]
  note layer_comp [OF transform.service_layer_axioms this]
  note layer_comp [OF version.service_layer_axioms this]
  note layer_comp [OF quota.service_layer_axioms this]
  note layer_comp [OF limiter.service_layer_axioms this]
  then show "service_layer (gateway_layers ops q)" unfolding gateway_layers_def .
qed

text \<open>How an identity was established.\<close>

definition verified :: "('s, 'r, 'c) gw_ops \<Rightarrow> gw_env \<Rightarrow> http_req \<Rightarrow> ('s, 'r, 'c, 'w) gw_world \<Rightarrow> gateway_identity option \<Rightarrow> bool" where
  "verified ops q r w i \<longleftrightarrow>
     (case i of
        None \<Rightarrow> False
      | Some Anonymous \<Rightarrow> is_public (hq_path r)
      | Some (Jwt subject role c) \<Rightarrow>
          (\<exists>token. header_get (hq_headers r) ''authorization'' = Some (''Bearer '' @ token)
            \<and> validate_token (go_jwt ops) (ge_vars q) (nat (ge_now_ms q div 1000)) token ''access'' = Some (Ok c)
            \<and> subject = cl_sub c \<and> role = cl_role c
            \<and> (ge_has_redis q \<longrightarrow> check_not_revoked (go_denied ops) (go_epochs ops) (ge_revocation_fault q) (ge_now_ms q) (cl_jti c)
                 (cl_sub c) (cl_tv c) (gw_revoked w) = Ok ()))
      | Some (ApiKey key_id key name permissions) \<Rightarrow>
          (\<exists>row \<in> set (gw_keys w). header_get (hq_headers r) ''x-api-key'' = Some key
            \<and> header_get (hq_headers r) ''x-api-secret'' = Some (ak_secret row) \<and> live key row
            \<and> key_id = ak_id row \<and> name = ak_name row \<and> permissions = ak_permissions row))"

lemma strip_prefix_Some: "strip_prefix p s = Some r \<Longrightarrow> s = p @ r"
  by (induction p s rule: strip_prefix.induct) (auto split: if_splits)

lemma verify_key_row:
  assumes "verify_key column fault key secret rows = Some (Ok k)"
  shows "\<exists>row \<in> set rows. live key row \<and> ak_secret row = secret \<and> ak_id k = ak_id row \<and> ak_key k = key \<and> ak_name k = ak_name row
    \<and> ak_permissions k = ak_permissions row"
proof -
  obtain row where find: "List.find (\<lambda>r. live key r \<and> ak_secret r = secret) rows = Some row" and dec: "decode_api_key column row = Some (Ok k)"
    using assms by (auto simp: verify_key_def split: option.splits)
  obtain s where k: "k = row\<lparr>ak_secret := s\<rparr>"
    using dec by (cases "column (ak_secret row)"; cases "the (column (ak_secret row))") (auto simp: decode_api_key_def)
  have "row \<in> set rows" "live key row" "ak_secret row = secret" using find by (auto simp: find_Some_iff)
  then show ?thesis using k by (auto simp: live_def)
qed

lemma gateway_auth_bearer:
  assumes "\<not> is_public (hq_path r)" and "Option.bind (header_get (hq_headers r) ''authorization'') (strip_prefix ''Bearer '') = Some token"
    and "gateway_auth ops q next r w = Some (resp, w')"
  shows "(w' = w \<and> (\<exists>e. resp = into_response (ge_request_id q) e))
    \<or> (\<exists>i. verified ops q r w (Some i) \<and> (resp, w') = next (r\<lparr>hq_identity := Some i\<rparr>) w)"
proof -
  have tok: "header_get (hq_headers r) ''authorization'' = Some (''Bearer '' @ token)"
    using assms(2) by (auto simp: bind_eq_Some_conv dest!: strip_prefix_Some)
  let ?v = "validate_token (go_jwt ops) (ge_vars q) (nat (ge_now_ms q div 1000)) token ''access''"
  obtain res where v: "?v = Some res" using assms by (cases ?v) (auto simp: gateway_auth_def Let_def)
  show ?thesis
  proof (cases res)
    case (Inr c)
    let ?check = "if ge_has_redis q then check_not_revoked (go_denied ops) (go_epochs ops) (ge_revocation_fault q) (ge_now_ms q) (cl_jti c)
      (cl_sub c) (cl_tv c) (gw_revoked w) else Ok ()"
    show ?thesis
    proof (cases ?check)
      case (Inl e)
      then show ?thesis using assms v Inr by (simp add: gateway_auth_def Let_def) blast
    next
      case ok: (Inr u)
      have "verified ops q r w (Some (Jwt (cl_sub c) (cl_role c) c))"
        using tok v Inr ok by (auto simp: verified_def split: if_splits)
      moreover have "(resp, w') = next (r\<lparr>hq_identity := Some (Jwt (cl_sub c) (cl_role c) c)\<rparr>) w"
        using assms v Inr ok by (simp add: gateway_auth_def Let_def)
      ultimately show ?thesis by blast
    qed
  qed (use assms v in \<open>auto simp: gateway_auth_def Let_def\<close>)
qed

lemma gateway_auth_key:
  assumes "\<not> is_public (hq_path r)" and "Option.bind (header_get (hq_headers r) ''authorization'') (strip_prefix ''Bearer '') = None"
    and "gateway_auth ops q next r w = Some (resp, w')"
  shows "(w' = w \<and> (\<exists>e. resp = into_response (ge_request_id q) e))
    \<or> (\<exists>i w1. verified ops q r w (Some i) \<and> (resp, w') = next (r\<lparr>hq_identity := Some i\<rparr>) w1 \<and> gw_inner w1 = gw_inner w)"
proof (cases "\<exists>key secret. header_get (hq_headers r) ''x-api-key'' = Some key \<and> header_get (hq_headers r) ''x-api-secret'' = Some secret")
  case True
  then obtain key secret where hs: "header_get (hq_headers r) ''x-api-key'' = Some key" "header_get (hq_headers r) ''x-api-secret'' = Some secret"
    by blast
  let ?v = "verify_key (go_column ops) (ge_key_fault q 0) key secret (gw_keys w)"
  obtain res where v: "?v = Some res" using assms hs by (cases ?v) (auto simp: gateway_auth_def Let_def)
  show ?thesis
  proof (cases res)
    case (Inr k)
    let ?i = "ApiKey (ak_id k) (ak_key k) (ak_name k) (ak_permissions k)"
    let ?w = "w\<lparr>gw_keys := record_usage (ge_key_fault q 1) (ak_key k) (gw_keys w)\<rparr>"
    have "verified ops q r w (Some ?i)"
      using verify_key_row [of "go_column ops" "ge_key_fault q 0" key secret "gw_keys w" k] v Inr hs by (auto simp: verified_def)
    moreover have "(resp, w') = next (r\<lparr>hq_identity := Some ?i\<rparr>) ?w"
      using assms v Inr hs by (simp add: gateway_auth_def Let_def)
    ultimately show ?thesis by (intro disjI2 exI [of _ ?i] exI [of _ ?w]) simp
  qed (use assms v hs in \<open>auto simp: gateway_auth_def Let_def\<close>)
next
  case False
  then show ?thesis
    using assms by (cases "header_get (hq_headers r) ''x-api-key''"; cases "header_get (hq_headers r) ''x-api-secret''")
      (auto simp: gateway_auth_def Let_def)
qed

lemma gateway_auth_cases:
  assumes "gateway_auth ops q next r w = Some (resp, w')"
  shows "(w' = w \<and> (\<exists>e. resp = into_response (ge_request_id q) e))
    \<or> (\<exists>i w1. verified ops q r w (Some i) \<and> (resp, w') = next (r\<lparr>hq_identity := Some i\<rparr>) w1 \<and> gw_inner w1 = gw_inner w)"
proof (cases "is_public (hq_path r)")
  case True
  then have "verified ops q r w (Some Anonymous)" "(resp, w') = next (r\<lparr>hq_identity := Some Anonymous\<rparr>) w"
    using assms by (simp_all add: gateway_auth_def verified_def)
  then show ?thesis by blast
next
  case False
  show ?thesis
  proof (cases "Option.bind (header_get (hq_headers r) ''authorization'') (strip_prefix ''Bearer '')")
    case None
    from gateway_auth_key [OF False None assms] show ?thesis .
  next
    case (Some token)
    from gateway_auth_bearer [OF False Some assms] show ?thesis by blast
  qed
qed

text \<open>\<^bold>\<open>C18.\<close> Only verified callers reach the routes: whatever a request carries, the gateway either answers by itself, or runs
  the routes exactly once, on the same method and path, with an identity it established itself: anonymous only on a public path, a
  user only from a bearer token that validates and, where Redis is configured, is not revoked, and an API key only from a row of that key
  and secret that is active and not revoked. An identity the request came with is never used.\<close>

theorem routes_see_verified_callers:
  assumes "api_gateway ops q (\<lambda>r w. (f r, w\<lparr>gw_inner := gw_inner w @ [r]\<rparr>)) r w = Some (resp, w')"
  shows "gw_inner w' = gw_inner w
    \<or> (\<exists>r'. gw_inner w' = gw_inner w @ [r'] \<and> hq_method r' = hq_method r \<and> hq_path r' = hq_path r
         \<and> verified ops q r w (hq_identity r'))"
proof -
  let ?routes = "\<lambda>r w. (f r, w\<lparr>gw_inner := gw_inner w @ [r]\<rparr>)"
  have "gateway_auth ops q (gateway_layers ops q ?routes) r w = Some (resp, w')"
    using assms by (simp add: api_gateway_def gateway_layers_def)
  from gateway_auth_cases [OF this] show ?thesis
  proof (elim disjE exE conjE)
    fix i w1
    assume i: "verified ops q r w (Some i)" "(resp, w') = gateway_layers ops q ?routes (r\<lparr>hq_identity := Some i\<rparr>) w1" "gw_inner w1 = gw_inner w"
    then have w': "w' = snd (gateway_layers ops q ?routes (r\<lparr>hq_identity := Some i\<rparr>) w1)" by (metis snd_conv)
    show ?thesis
    proof (rule stack.inner_cases [of ops q "r\<lparr>hq_identity := Some i\<rparr>" w1])
      assume "\<And>next. gw_inner (snd (gateway_layers ops q next (r\<lparr>hq_identity := Some i\<rparr>) w1)) = gw_inner w1"
      then show ?thesis using w' i(3) by simp
    next
      fix r' w2
      assume "seen_as (r\<lparr>hq_identity := Some i\<rparr>) r'" "gw_inner w2 = gw_inner w1"
        "\<And>next. gw_inner (snd (gateway_layers ops q next (r\<lparr>hq_identity := Some i\<rparr>) w1)) = gw_inner (snd (next r' w2))"
      then show ?thesis using w' i(1,3) by (intro disjI2 exI [of _ r']) (simp add: seen_as_def)
    qed
  qed simp
qed

definition demo_gw_ops :: "(int keyspace, string keyspace, string \<rightharpoonup> int) gw_ops" where
  "demo_gw_ops = \<lparr>go_jwt = table_jwt demo_tokens, go_limits = keyspace_ops, go_denied = keyspace_ops, go_epochs = map_counter,
     go_column = (\<lambda>c. Some (Ok c)), go_parse_ip = Some, go_from_json = (\<lambda>_. None), go_to_json = (\<lambda>_. None)\<rparr>"

definition demo_gw_env :: gw_env where
  "demo_gw_env = \<lparr>ge_vars = demo_vars, ge_now_ms = 1000000, ge_redis_ms = 1000000, ge_has_redis = False, ge_limiter_up = False,
     ge_revocation_fault = False, ge_key_fault = (\<lambda>_. None), ge_quota_fetch_fault = False, ge_quota_incr_fault = False,
     ge_date = (2026, 1, 2), ge_latency_ms = 3, ge_request_id = None, ge_version_keys = ''v1, v2''\<rparr>"

definition demo_req :: "string \<Rightarrow> headers \<Rightarrow> http_req" where
  "demo_req path hs = \<lparr>hq_method = ''GET'', hq_path = path, hq_headers = hs, hq_body = [], hq_peer = Some ''10.0.0.1'', hq_identity = None\<rparr>"

definition demo_gw_world :: "(int keyspace, string keyspace, string \<rightharpoonup> int, http_req list) gw_world" where
  "demo_gw_world = \<lparr>gw_limits = Map.empty, gw_quotas = Map.empty, gw_keys = [demo_key_row], gw_revoked = no_revocations, gw_inner = []\<rparr>"

lemma demo_gateway_run:
  "\<exists>resp w' r'. api_gateway demo_gw_ops demo_gw_env (\<lambda>r w. (json_response 200 JNull, w\<lparr>gw_inner := gw_inner w @ [r]\<rparr>))
     (demo_req ''/api/v1/teams'' demo_key_headers) demo_gw_world = Some (resp, w') \<and> gw_inner w' = [r']"
proof -
  let ?r = "demo_req ''/api/v1/teams'' demo_key_headers"
  have pub: "\<not> is_public (hq_path ?r)"
    by (simp add: is_public_def public_paths_def public_prefixes_def demo_req_def rust_std)
  have hs: "header_get demo_key_headers ''authorization'' = None" "header_get demo_key_headers ''x-api-key'' = Some ''k''"
    "header_get demo_key_headers ''x-api-secret'' = Some ''s''"
    by (simp_all add: demo_key_headers_def header_get_def rust_std)
  have key: "verify_key (go_column demo_gw_ops) None ''k'' ''s'' (gw_keys demo_gw_world) = Some (Ok demo_key_row)"
    by (simp add: verify_key_def demo_gw_ops_def demo_gw_world_def live_def demo_key_row_def decode_api_key_def)
  have open_policy: "resolve_policy demo_vars ''/api/v1/teams'' = FailOpen" by code_simp
  have rule: "find_rule default_transformer ''/api/v1/teams'' = None" by code_simp
  have version: "detect_version ''/api/v1/teams'' = Some ''v1''" by code_simp
  have v1: "vm_versions default_version_manager ''v1'' \<noteq> None" by (simp add: default_version_manager_def register_version_def)
  let ?i = "ApiKey (ak_id demo_key_row) (ak_key demo_key_row) (ak_name demo_key_row) (ak_permissions demo_key_row)"
  let ?w = "demo_gw_world\<lparr>gw_keys := record_usage None (ak_key demo_key_row) (gw_keys demo_gw_world)\<rparr>"
  have "gw_inner ?w = []" "gw_quotas ?w = Map.empty" by (simp_all add: demo_gw_world_def)
  then have "\<exists>resp w' r'. gateway_layers demo_gw_ops demo_gw_env (\<lambda>r w. (json_response 200 JNull, w\<lparr>gw_inner := gw_inner w @ [r]\<rparr>))
      (?r\<lparr>hq_identity := Some ?i\<rparr>) ?w = (resp, w') \<and> gw_inner w' = [r']"
    using open_policy rule version v1
    by (simp add: gateway_layers_def rate_limit_layer_def gateway_rate_limit_def limiter_view_def quota_enforcement_def fetch_quota_def
        version_negotiation_def resolve_api_version_def transform_request_def transformed_def propagate_request_id_to_response_def
        gateway_metrics_def inject_identity_header_def demo_gw_env_def demo_req_def demo_vars_def Let_def split_beta)
  moreover have "api_gateway demo_gw_ops demo_gw_env routes ?r demo_gw_world =
      Some (gateway_layers demo_gw_ops demo_gw_env routes (?r\<lparr>hq_identity := Some ?i\<rparr>) ?w)" for routes
  proof -
    have env: "ge_key_fault demo_gw_env 0 = None" "ge_key_fault demo_gw_env 1 = None" "hq_headers ?r = demo_key_headers"
      by (simp_all add: demo_gw_env_def demo_req_def)
    show ?thesis
      using pub hs key env by (simp add: api_gateway_def gateway_layers_def gateway_auth_def)
  qed
  ultimately show ?thesis by auto
qed

theorem routes_see_verified_callers_witness:
  "\<exists>resp w' r'. api_gateway demo_gw_ops demo_gw_env (\<lambda>r w. (json_response 200 JNull, w\<lparr>gw_inner := gw_inner w @ [r]\<rparr>))
       (demo_req ''/api/v1/teams'' demo_key_headers) demo_gw_world = Some (resp, w')
     \<and> gw_inner w' = [r'] \<and> hq_path r' = ''/api/v1/teams''
     \<and> verified demo_gw_ops demo_gw_env (demo_req ''/api/v1/teams'' demo_key_headers) demo_gw_world (hq_identity r')"
proof -
  obtain resp w' r' where run: "api_gateway demo_gw_ops demo_gw_env (\<lambda>r w. (json_response 200 JNull, w\<lparr>gw_inner := gw_inner w @ [r]\<rparr>))
       (demo_req ''/api/v1/teams'' demo_key_headers) demo_gw_world = Some (resp, w')" "gw_inner w' = [r']"
    using demo_gateway_run by blast
  have "gw_inner demo_gw_world = []" "hq_path (demo_req ''/api/v1/teams'' demo_key_headers) = ''/api/v1/teams''"
    by (simp_all add: demo_gw_world_def demo_req_def)
  with routes_see_verified_callers [OF run(1)] run show ?thesis by auto
qed

section \<open>Quotas\<close>

text \<open>The requests of one client on one day, one after the other; the service behind counts.\<close>

definition quota_run :: "gw_env \<Rightarrow> (http_req \<Rightarrow> response) \<Rightarrow> http_req list \<Rightarrow> ('s, 'r, 'c, nat) gw_world \<Rightarrow> ('s, 'r, 'c, nat) gw_world" where
  "quota_run q f = fold (\<lambda>r w. snd (quota_enforcement q (\<lambda>r w. (f r, w\<lparr>gw_inner := Suc (gw_inner w)\<rparr>)) r w))"

definition quota_key :: "gw_env \<Rightarrow> string \<Rightarrow> string \<times> string \<times> string" where
  "quota_key q client = (client, period_as_str Daily, current_period_start (ge_date q) Daily)"

definition quota_on :: "gw_env \<Rightarrow> bool" where
  "quota_on q \<longleftrightarrow> (case ge_vars q ''QUOTA_ENFORCEMENT_ENABLED'' of Some v \<Rightarrow> to_lowercase v \<noteq> ''false'' | None \<Rightarrow> True)
     \<and> \<not> ge_quota_fetch_fault q \<and> \<not> ge_quota_incr_fault q"

lemma quota_step:
  assumes "quota_on q" and "gw_quotas w (quota_key q (client_id_from_identity r)) = Some c" and "cq_enabled c" and "cq_max_requests c \<le> i64_max"
  shows "snd (quota_enforcement q (\<lambda>r w. (f r, w\<lparr>gw_inner := Suc (gw_inner w)\<rparr>)) r w) =
    (if cq_used_requests c < cq_max_requests c
     then w\<lparr>gw_inner := Suc (gw_inner w), gw_quotas := (gw_quotas w)(quota_key q (client_id_from_identity r) \<mapsto>
            c\<lparr>cq_used_requests := cq_used_requests c + 1\<rparr>)\<rparr>
     else w)"
  using assms
  by (auto simp: quota_enforcement_def quota_on_def fetch_quota_def increment_quota_def quota_key_def is_exhausted_def Let_def)


definition demo_quota :: client_quota where
  "demo_quota = \<lparr>cq_client_id = ''ip:10.0.0.1'', cq_period = ''daily'', cq_max_requests = 5, cq_used_requests = 3,
     cq_period_start = current_period_start (2026, 1, 2) Daily, cq_enabled = True\<rparr>"

definition demo_quota_world :: "(unit, unit, unit, nat) gw_world" where
  "demo_quota_world = \<lparr>gw_limits = (), gw_quotas = [quota_key demo_gw_env ''ip:10.0.0.1'' \<mapsto> demo_quota], gw_keys = [],
     gw_revoked = \<lparr>rv_denied = (), rv_epochs = ()\<rparr>, gw_inner = 0\<rparr>"


text \<open>The headers on an admitted response always report the whole quota of the tier as left, whatever was used.\<close>

theorem quota_headers_are_static:
  assumes "quota_on q" and "gw_quotas w (quota_key q (client_id_from_identity r)) = Some c" and "cq_enabled c"
    and "cq_used_requests c < cq_max_requests c"
    and "0 \<le> tier_daily_quota (ge_vars q) (quota_tier (hq_identity r))" "tier_daily_quota (ge_vars q) (quota_tier (hq_identity r)) \<le> i64_max"
  shows "header_get (rheaders (fst (quota_enforcement q next r w))) ''X-Quota-Remaining'' =
    Some (show_int (tier_daily_quota (ge_vars q) (quota_tier (hq_identity r))))"
  using assms
  by (auto simp: quota_enforcement_def quota_on_def fetch_quota_def quota_key_def is_exhausted_def Let_def split_beta
      inject_quota_headers_def quota_remaining_def wrap_i64_def int_ranges)

section \<open>Versions\<close>

lemma resolve_known: "resolve_api_version r = Some (v, s) \<Longrightarrow> v = ''v1'' \<or> v = ''v2''"
  by (auto simp: resolve_api_version_def detect_version_def detect_version_from_header_def known_version_def
      detect_version_from_accept_def bind_eq_Some_conv split: option.splits if_splits)

lemma version_names [simp]:
  "to_lowercase ''X-API-Version'' = ''x-api-version''" "to_lowercase ''Deprecation'' = ''deprecation''" "to_lowercase ''Link'' = ''link''"
  "to_lowercase ''Sunset'' = ''sunset''" "to_lowercase ''Vary'' = ''vary''"
  "to_lowercase ''X-Version-Detection-Method'' = ''x-version-detection-method''"
  "to_lowercase ''X-Deprecation-Warning'' = ''x-deprecation-warning''"
  by code_simp+

definition docs_link :: "string \<Rightarrow> string" where
  "docs_link v = ''<https://docs.example.com/api/'' @ v @ ''>; rel='' @ quote_char @ ''api-documentation'' @ quote_char"

definition requested_version :: "http_req \<Rightarrow> string" where
  "requested_version r = (case resolve_api_version r of Some (v, s) \<Rightarrow> v | None \<Rightarrow> ''v2'')"

text \<open>Version negotiation never refuses an API request: the version of every request under \<open>/api/\<close> is \<open>v1\<close> or \<open>v2\<close>, the
  service behind runs once and keeps its status and body, and the response names the version and is marked deprecated when it
  is \<open>v1\<close>. The \<open>Link\<close> header is the one of the documentation in every case: the link to the migration guide that a deprecated
  version should carry is overwritten.\<close>

theorem version_negotiation_total:
  assumes "starts_with (hq_path r) ''/api/''" and "version_negotiation q next r w = (resp, w')"
  shows "(requested_version r = ''v1'' \<or> requested_version r = ''v2'') \<and> w' = snd (next r w)
    \<and> status resp = status (fst (next r w)) \<and> rbody resp = rbody (fst (next r w))
    \<and> header_get (rheaders resp) ''X-API-Version'' = Some (requested_version r)
    \<and> (requested_version r = ''v1'' \<longrightarrow> header_get (rheaders resp) ''Deprecation'' = Some ''true'')
    \<and> header_get (rheaders resp) ''Link'' = Some (docs_link (requested_version r))"
proof -
  let ?v = "requested_version r"
  have v: "?v = ''v1'' \<or> ?v = ''v2''"
    using resolve_known [of r] by (auto simp: requested_version_def split: option.split)
  have mgr: "vm_current default_version_manager = ''v2''"
    "vm_versions default_version_manager ''v2'' = Some \<lparr>av_version = ''v2'', av_deprecated = False, av_sunset_date = None, av_migration_url = None\<rparr>"
    "vm_versions default_version_manager ''v1'' = Some \<lparr>av_version = ''v1'', av_deprecated = True,
       av_sunset_date = Some ''Sat, 01 Jan 2027 00:00:00 GMT'', av_migration_url = Some ''https://docs.example.com/migration/v1-to-v2''\<rparr>"
    by (simp_all add: default_version_manager_def register_version_def)
  have "(case resolve_api_version r of Some (v, s) \<Rightarrow> v | None \<Rightarrow> vm_current default_version_manager) = ?v"
    by (simp add: requested_version_def mgr split: option.split)
  then have "resp = version_headers default_version_manager ?v (map_option snd (resolve_api_version r)) (fst (next r w))" "w' = snd (next r w)"
    using assms v mgr by (auto simp: version_negotiation_def Let_def split_beta)
  then show ?thesis
    using v mgr by (auto simp: version_headers_def deprecation_headers_def docs_link_def Let_def split: option.split)
qed

theorem version_negotiation_total_witness:
  "\<exists>resp w'. version_negotiation demo_gw_env (\<lambda>r w. (json_response 200 JNull, Suc w)) (demo_req ''/api/v1/teams'' Map.empty) 0 = (resp, w')
     \<and> w' = 1 \<and> status resp = 200 \<and> header_get (rheaders resp) ''Deprecation'' = Some ''true''
     \<and> header_get (rheaders resp) ''Link'' = Some (docs_link ''v1'')"
proof -
  let ?r = "demo_req ''/api/v1/teams'' Map.empty"
  obtain resp w' where run: "version_negotiation demo_gw_env (\<lambda>r w. (json_response 200 JNull, Suc w)) ?r 0 = (resp, w')" by fastforce
  have "detect_version ''/api/v1/teams'' = Some ''v1''" by code_simp
  then have "requested_version ?r = ''v1''" by (simp add: requested_version_def resolve_api_version_def demo_req_def)
  moreover have "starts_with (hq_path ?r) ''/api/''" by (simp add: demo_req_def rust_std)
  ultimately show ?thesis using version_negotiation_total [OF _ run] run by simp
qed

end
