(* ===== verification/Collaboration.thy ===== *)
theory Collaboration
  imports Sql "HOL-Library.AList" "HOL-Library.Sublist"
begin

text \<open>
  Collaborative documents (\<open>src/collaboration/crdt.rs\<close>, \<open>history.rs\<close>, \<open>presence.rs\<close>, \<open>src/routes/collaboration.rs\<close>):
  operations on a shared text with the transformation against concurrent ones, the sessions and their registry, the
  history table and the presence of users. A session is shared by reference (\<open>Arc\<close>): the sessions that
  were ever created form a heap, and the registry maps a document to an index of it. A panic is \<open>None\<close>; strings are
  their UTF-8 bytes, times are nanoseconds. \<open>usize\<close> and \<open>u64\<close> sums wrap, as in a release build.
\<close>

section \<open>Operations and documents\<close>

datatype operation_type = Insert | Delete | Update

record collab_op =
  co_id :: string
  co_session_id :: string
  co_user_id :: string
  co_type :: operation_type
  co_position :: nat
  co_content :: string
  co_length :: nat
  co_clock :: nat
  co_timestamp :: int

definition add_u64 :: "nat \<Rightarrow> nat \<Rightarrow> nat" where
  "add_u64 a b = (a + b) mod 2 ^ 64"

definition transform_against :: "collab_op \<Rightarrow> collab_op \<Rightarrow> collab_op" where
  "transform_against self other =
     (if co_timestamp other \<ge> co_timestamp self then self
      else
        (case (co_type self, co_type other) of
           (Insert, Insert) \<Rightarrow>
             if co_position other \<le> co_position self
             then self\<lparr>co_position := add_u64 (co_position self) (length (co_content other))\<rparr> else self
         | (Insert, Delete) \<Rightarrow>
             if co_position other < co_position self then self\<lparr>co_position := co_position self - co_length other\<rparr> else self
         | (Delete, Insert) \<Rightarrow>
             if co_position other \<le> co_position self
             then self\<lparr>co_position := add_u64 (co_position self) (length (co_content other))\<rparr> else self
         | (Delete, Delete) \<Rightarrow>
             if co_position other < co_position self then self\<lparr>co_position := co_position self - co_length other\<rparr> else self
         | _ \<Rightarrow> self))"

record document_state =
  doc_content :: string
  doc_version :: nat
  doc_last_modified :: int

definition default_document :: "int \<Rightarrow> document_state" where
  "default_document now = \<lparr>doc_content = [], doc_version = 0, doc_last_modified = now\<rparr>"

text \<open>\<open>String::insert_str\<close> and \<open>String::drain\<close> panic on an index inside a character, and \<open>drain\<close> also on a range that is
  reversed or ends behind the text.\<close>

definition is_char_boundary :: "string \<Rightarrow> nat \<Rightarrow> bool" where
  "is_char_boundary s i \<longleftrightarrow> i = 0 \<or> i = length s \<or> (i < length s \<and> \<not> (128 \<le> byte (s ! i) \<and> byte (s ! i) < 192))"

definition insert_str :: "nat \<Rightarrow> string \<Rightarrow> string \<Rightarrow> string option" where
  "insert_str i t s = (if is_char_boundary s i then Some (take i s @ t @ drop i s) else None)"

definition drain :: "nat \<Rightarrow> nat \<Rightarrow> string \<Rightarrow> string option" where
  "drain a b s =
     (if a \<le> b \<and> b \<le> length s \<and> is_char_boundary s a \<and> is_char_boundary s b then Some (take a s @ drop b s) else None)"

definition edit :: "collab_op \<Rightarrow> string \<Rightarrow> string option" where
  "edit p s =
     (case co_type p of
        Insert \<Rightarrow> insert_str (min (co_position p) (length s)) (co_content p) s
      | Delete \<Rightarrow> drain (min (co_position p) (length s)) (min (add_u64 (co_position p) (co_length p)) (length s)) s
      | Update \<Rightarrow>
          (let start = min (co_position p) (length s); finish = min (add_u64 (co_position p) (co_length p)) (length s) in
           Option.bind (drain start finish s) (insert_str start (co_content p))))"

definition apply_op :: "int \<Rightarrow> collab_op \<Rightarrow> document_state \<Rightarrow> document_state option" where
  "apply_op now p d =
     map_option (\<lambda>s. d\<lparr>doc_content := s, doc_version := add_u64 (doc_version d) 1, doc_last_modified := now\<rparr>) (edit p (doc_content d))"

section \<open>Sessions\<close>

record collab_session =
  se_session_id :: string
  se_document_id :: string
  se_document :: document_state
  se_operations :: "collab_op list"
  se_clocks :: "string \<rightharpoonup> nat"

definition new_session :: "string \<Rightarrow> int \<Rightarrow> string \<Rightarrow> collab_session" where
  "new_session sid now doc =
     \<lparr>se_session_id = sid, se_document_id = doc, se_document = default_document now, se_operations = [], se_clocks = Map.empty\<rparr>"

definition concurrent_ops :: "collab_op \<Rightarrow> collab_op list \<Rightarrow> collab_op list" where
  "concurrent_ops p ops = filter (\<lambda>q. co_user_id q \<noteq> co_user_id p \<and> co_timestamp q > co_timestamp p) ops"

text \<open>The clock is advanced before the operation is applied, and stays so when applying it panics.\<close>

definition submit :: "int \<Rightarrow> collab_op \<Rightarrow> collab_session \<Rightarrow> collab_op option \<times> collab_session" where
  "submit now p s =
     (let clock = add_u64 (case se_clocks s (co_user_id p) of Some c \<Rightarrow> c | None \<Rightarrow> 0) 1;
          s = s\<lparr>se_clocks := (se_clocks s)(co_user_id p \<mapsto> clock)\<rparr>;
          p = p\<lparr>co_clock := clock\<rparr>;
          p = foldl transform_against p (concurrent_ops p (se_operations s))
      in case apply_op now p (se_document s) of
           None \<Rightarrow> (None, s)
         | Some d \<Rightarrow> (Some p, s\<lparr>se_document := d, se_operations := se_operations s @ [p]\<rparr>))"

definition operations_since :: "nat \<Rightarrow> collab_session \<Rightarrow> collab_op list" where
  "operations_since version s = drop version (se_operations s)"

section \<open>Presence\<close>

definition PRESENCE_TTL_SECS :: int where "PRESENCE_TTL_SECS = 30"

record user_presence =
  up_user_id :: string
  up_username :: string
  up_document_id :: string
  up_cursor_position :: "nat option"
  up_last_seen :: int
  up_is_active :: bool

definition is_stale :: "int \<Rightarrow> user_presence \<Rightarrow> bool" where
  "is_stale now p \<longleftrightarrow> (now - up_last_seen p) div 10 ^ 9 > PRESENCE_TTL_SECS"

type_synonym presence_table = "(string \<times> (string \<times> user_presence) list) list"

definition presence_of :: "string \<Rightarrow> presence_table \<Rightarrow> (string \<times> user_presence) list" where
  "presence_of doc P = (case map_of P doc of Some m \<Rightarrow> m | None \<Rightarrow> [])"

definition heartbeat :: "int \<Rightarrow> string \<Rightarrow> string \<Rightarrow> string \<Rightarrow> nat option \<Rightarrow> presence_table \<Rightarrow> presence_table" where
  "heartbeat now doc user name cursor P =
     AList.update doc (AList.update user
       \<lparr>up_user_id = user, up_username = name, up_document_id = doc, up_cursor_position = cursor, up_last_seen = now, up_is_active = True\<rparr>
       (presence_of doc P)) P"

definition leave :: "string \<Rightarrow> string \<Rightarrow> presence_table \<Rightarrow> presence_table" where
  "leave doc user P = (case map_of P doc of None \<Rightarrow> P | Some m \<Rightarrow> AList.update doc (AList.delete user m) P)"

definition active_users :: "int \<Rightarrow> string \<Rightarrow> presence_table \<Rightarrow> user_presence list" where
  "active_users now doc P = filter (\<lambda>p. \<not> is_stale now p) (map snd (presence_of doc P))"

definition cleanup_stale :: "int \<Rightarrow> presence_table \<Rightarrow> presence_table" where
  "cleanup_stale now P = filter (\<lambda>(doc, m). m \<noteq> []) (map (\<lambda>(doc, m). (doc, filter (\<lambda>(u, p). \<not> is_stale now p) m)) P)"

section \<open>The history table\<close>

record history_entry =
  he_id :: string
  he_document_id :: string
  he_user_id :: string
  he_op_type :: string
  he_position :: int
  he_content :: string
  he_length :: int
  he_clock :: int
  he_created_at :: int

definition op_type_text :: "operation_type \<Rightarrow> string" where
  "op_type_text t = (case t of Insert \<Rightarrow> ''insert'' | Delete \<Rightarrow> ''delete'' | Update \<Rightarrow> ''update'')"

definition history_record :: "sqlx_error option \<Rightarrow> collab_op \<Rightarrow> history_entry list \<Rightarrow> (stmt_error + unit) \<times> history_entry list" where
  "history_record fault p rows =
     stmt fault rows
       (if co_id p \<in> he_id ` set rows then (Err (unique_violation ''collaboration_history_pkey''), rows)
        else (Ok (), rows @ [\<lparr>he_id = co_id p, he_document_id = co_session_id p, he_user_id = co_user_id p,
                              he_op_type = op_type_text (co_type p), he_position = wrap_i64 (int (co_position p)),
                              he_content = co_content p, he_length = wrap_i64 (int (co_length p)),
                              he_clock = wrap_i64 (int (co_clock p)), he_created_at = co_timestamp p\<rparr>]))"

text \<open>PostgreSQL refuses a negative \<open>LIMIT\<close> with error 2201W.\<close>

definition history_list :: "sqlx_error option \<Rightarrow> string \<Rightarrow> int option \<Rightarrow> int \<Rightarrow> history_entry list \<Rightarrow> stmt_error + history_entry list" where
  "history_list fault doc since limit rows =
     (case fault of
        Some e \<Rightarrow> Err (StmtError e)
      | None \<Rightarrow>
          if limit < 0 then Err (StmtError (SqlxDatabase (Some ''2201W'') None))
          else Ok (take (nat limit) (sort_key he_clock
                 (filter (\<lambda>r. he_document_id r = doc \<and> he_created_at r \<ge> (case since of Some t \<Rightarrow> t | None \<Rightarrow> 0)) rows))))"

section \<open>The registry and the routes\<close>

record collab_state =
  cs_heap :: "collab_session list"
  cs_sessions :: "string \<rightharpoonup> nat"
  cs_presence :: presence_table
  cs_history :: "history_entry list"

definition create_session :: "string \<Rightarrow> int \<Rightarrow> string \<Rightarrow> collab_state \<Rightarrow> nat \<times> collab_state" where
  "create_session sid now doc st =
     (let h = length (cs_heap st) in
      (h, st\<lparr>cs_heap := cs_heap st @ [new_session sid now doc], cs_sessions := (cs_sessions st)(doc \<mapsto> h)\<rparr>))"

definition get_or_create :: "string \<Rightarrow> int \<Rightarrow> string \<Rightarrow> collab_state \<Rightarrow> nat \<times> collab_state" where
  "get_or_create sid now doc st =
     (case cs_sessions st doc of Some h \<Rightarrow> (h, st) | None \<Rightarrow> create_session sid now doc st)"

definition submit_at :: "int \<Rightarrow> nat \<Rightarrow> collab_op \<Rightarrow> collab_state \<Rightarrow> collab_op option \<times> collab_state" where
  "submit_at now h p st =
     (if h < length (cs_heap st)
      then let (r, s) = submit now p (cs_heap st ! h) in (r, st\<lparr>cs_heap := (cs_heap st)[h := s]\<rparr>)
      else (None, st))"

definition submit_op :: "sqlx_error option \<Rightarrow> string \<Rightarrow> int \<Rightarrow> string \<Rightarrow> collab_op \<Rightarrow> collab_state \<Rightarrow> collab_op option \<times> collab_state" where
  "submit_op fault sid now doc p st =
     (let (h, st) = get_or_create sid now doc st; (r, st) = submit_at now h p st in
      case r of
        None \<Rightarrow> (None, st)
      | Some applied \<Rightarrow> (Some applied, st\<lparr>cs_history := snd (history_record fault applied (cs_history st))\<rparr>))"

text \<open>\<open>None\<close> is the answer 404 of \<open>get_state\<close> and \<open>get_ops\<close>.\<close>

definition session_of :: "string \<Rightarrow> collab_state \<Rightarrow> collab_session option" where
  "session_of doc st = map_option ((!) (cs_heap st)) (cs_sessions st doc)"

definition get_state :: "string \<Rightarrow> collab_state \<Rightarrow> document_state option" where
  "get_state doc st = map_option se_document (session_of doc st)"

definition get_ops :: "string \<Rightarrow> nat option \<Rightarrow> collab_state \<Rightarrow> collab_op list option" where
  "get_ops doc since st = map_option (operations_since (case since of Some v \<Rightarrow> v | None \<Rightarrow> 0)) (session_of doc st)"

definition update_presence :: "int \<Rightarrow> string \<Rightarrow> string \<Rightarrow> string \<Rightarrow> nat option \<Rightarrow> collab_state \<Rightarrow> collab_state" where
  "update_presence now doc user name cursor st = st\<lparr>cs_presence := heartbeat now doc user name cursor (cs_presence st)\<rparr>"

definition get_presence :: "int \<Rightarrow> string \<Rightarrow> collab_state \<Rightarrow> user_presence list" where
  "get_presence now doc st = active_users now doc (cs_presence st)"

definition leave_presence :: "string \<Rightarrow> string \<Rightarrow> collab_state \<Rightarrow> collab_state" where
  "leave_presence doc user st = st\<lparr>cs_presence := leave doc user (cs_presence st)\<rparr>"

definition get_history :: "sqlx_error option \<Rightarrow> string \<Rightarrow> int option \<Rightarrow> collab_state \<Rightarrow> stmt_error + history_entry list" where
  "get_history fault doc limit st =
     history_list fault doc None (case limit of Some n \<Rightarrow> n | None \<Rightarrow> 100) (cs_history st)"

section \<open>Interleaved requests\<close>

text \<open>A request holds a lock for each of the following events and none between them, so requests that run at the same time
  are one sequence of events; \<open>get_or_create\<close> looks the document up and creates the session under two different locks.\<close>

datatype collab_event =
    CreateSession string int string
  | SubmitAt int nat collab_op
  | RecordOp "sqlx_error option" collab_op
  | Heartbeat int string string string "nat option"
  | Leave string string
  | Cleanup int

fun collab_step :: "collab_event \<Rightarrow> collab_state \<Rightarrow> collab_state" where
  "collab_step (CreateSession sid now doc) st = snd (create_session sid now doc st)"
| "collab_step (SubmitAt now h p) st = snd (submit_at now h p st)"
| "collab_step (RecordOp fault p) st = st\<lparr>cs_history := snd (history_record fault p (cs_history st))\<rparr>"
| "collab_step (Heartbeat now doc user name cursor) st = update_presence now doc user name cursor st"
| "collab_step (Leave doc user) st = leave_presence doc user st"
| "collab_step (Cleanup now) st = st\<lparr>cs_presence := cleanup_stale now (cs_presence st)\<rparr>"

definition collab_run :: "collab_event list \<Rightarrow> collab_state \<Rightarrow> collab_state" where
  "collab_run evs st = fold collab_step evs st"

definition fresh_state :: "history_entry list \<Rightarrow> collab_state" where
  "fresh_state rows = \<lparr>cs_heap = [], cs_sessions = Map.empty, cs_presence = [], cs_history = rows\<rparr>"

lemma submit_op_is_run:
  "\<exists>evs. length evs \<le> 3 \<and> snd (submit_op fault sid now doc p st) = collab_run evs st"
proof -
  obtain h st1 where c: "get_or_create sid now doc st = (h, st1)" by fastforce
  obtain r st2 where s: "submit_at now h p st1 = (r, st2)" by fastforce
  let ?create = "if cs_sessions st doc = None then [CreateSession sid now doc] else []"
  let ?log = "case r of None \<Rightarrow> [] | Some a \<Rightarrow> [RecordOp fault a]"
  have "st1 = collab_run ?create st"
    using c by (auto simp: get_or_create_def collab_run_def split: option.splits)
  then have "snd (submit_op fault sid now doc p st) = collab_run (?create @ [SubmitAt now h p] @ ?log) st"
    using c s by (auto simp: submit_op_def collab_run_def split: option.split)
  moreover have "length (?create @ [SubmitAt now h p] @ ?log) \<le> 3" by (simp split: option.split)
  ultimately show ?thesis by blast
qed

section \<open>What a replica sees\<close>

lemma boundary_after_drain:
  assumes "drain a b s = Some s'"
  shows "is_char_boundary s' a"
proof -
  have ab: "a \<le> b" "b \<le> length s" "is_char_boundary s b" and s': "s' = take a s @ drop b s"
    using assms by (auto simp: drain_def split: if_splits)
  show ?thesis
  proof (cases "a = 0 \<or> b = length s")
    case True
    then show ?thesis using ab s' by (auto simp: is_char_boundary_def)
  next
    case False
    then have "b < length s" "b \<noteq> 0" using ab by auto
    then have "s' ! a = s ! b" using ab s' by (simp add: nth_append)
    then show ?thesis using ab \<open>b < length s\<close> \<open>b \<noteq> 0\<close> s' by (auto simp: is_char_boundary_def)
  qed
qed

text \<open>An update that removes its range also inserts its text: a panic never leaves a document half edited.\<close>

lemma update_is_atomic:
  "drain a b s = Some s' \<Longrightarrow> Option.bind (drain a b s) (insert_str a t) \<noteq> None"
  by (simp add: insert_str_def boundary_after_drain)

lemma transform_older: "co_timestamp q \<ge> co_timestamp p \<Longrightarrow> transform_against p q = p"
  by (simp add: transform_against_def)

lemma foldl_transform_older: "\<forall>q \<in> set qs. co_timestamp q \<ge> co_timestamp p \<Longrightarrow> foldl transform_against p qs = p"
  by (induction qs) (simp_all add: transform_older)

lemma transform_concurrent: "foldl transform_against p (concurrent_ops p ops) = p"
  by (rule foldl_transform_older) (auto simp: concurrent_ops_def)

lemma submit_eq:
  "submit now p s =
     (let clock = add_u64 (case se_clocks s (co_user_id p) of Some c \<Rightarrow> c | None \<Rightarrow> 0) 1;
          s = s\<lparr>se_clocks := (se_clocks s)(co_user_id p \<mapsto> clock)\<rparr>;
          p = p\<lparr>co_clock := clock\<rparr>
      in case apply_op now p (se_document s) of
           None \<Rightarrow> (None, s)
         | Some d \<Rightarrow> (Some p, s\<lparr>se_document := d, se_operations := se_operations s @ [p]\<rparr>))"
  by (simp add: submit_def Let_def transform_concurrent)

definition replay :: "string \<Rightarrow> collab_op list \<Rightarrow> string option" where
  "replay s ops = foldl (\<lambda>r p. Option.bind r (edit p)) (Some s) ops"

lemma replay_snoc: "replay s (ops @ [p]) = Option.bind (replay s ops) (edit p)"
  by (simp add: replay_def)

lemma bind_foldl: "foldl (\<lambda>r p. Option.bind r (edit p)) None ops = None"
  by (induction ops) simp_all

lemma replay_append: "replay s (xs @ ys) = Option.bind (replay s xs) (\<lambda>c. replay c ys)"
  by (cases "replay s xs") (simp_all add: replay_def bind_foldl)

lemma replay_split: "replay s ops = Some t \<Longrightarrow> \<exists>c. replay s (take v ops) = Some c \<and> replay c (drop v ops) = Some t"
  using replay_append [of s "take v ops" "drop v ops"] by (cases "replay s (take v ops)") auto

abbreviation ops_of :: "string \<Rightarrow> collab_op list \<Rightarrow> collab_op list" where
  "ops_of u ops \<equiv> filter (\<lambda>p. co_user_id p = u) ops"

definition clock_ok :: "nat \<Rightarrow> collab_op list \<Rightarrow> nat option \<Rightarrow> bool" where
  "clock_ok n ops clock \<longleftrightarrow>
     (case clock of None \<Rightarrow> ops = [] | Some c \<Rightarrow> c \<le> n \<and> (\<forall>p \<in> set ops. co_clock p \<le> c)) \<and> sorted_wrt (<) (map co_clock ops)"

definition session_ok :: "nat \<Rightarrow> collab_session \<Rightarrow> bool" where
  "session_ok n s \<longleftrightarrow>
     replay [] (se_operations s) = Some (doc_content (se_document s))
     \<and> doc_version (se_document s) = length (se_operations s) \<and> length (se_operations s) \<le> n
     \<and> (\<forall>u. clock_ok n (ops_of u (se_operations s)) (se_clocks s u))"

lemma clock_ok_mono: "clock_ok n ops c \<Longrightarrow> n \<le> m \<Longrightarrow> clock_ok m ops c"
  by (auto simp: clock_ok_def split: option.splits)

lemma clock_ok_snoc:
  assumes "clock_ok n ops clock" and "c = (case clock of Some c \<Rightarrow> c | None \<Rightarrow> 0)"
  shows "clock_ok (Suc n) ops (Some (Suc c))" and "co_clock p = Suc c \<Longrightarrow> clock_ok (Suc n) (ops @ [p]) (Some (Suc c))"
  using assms by (auto simp: clock_ok_def sorted_wrt_append le_Suc_eq less_Suc_eq_le split: option.splits)

lemma session_ok_mono: "session_ok n s \<Longrightarrow> n \<le> m \<Longrightarrow> session_ok m s"
  unfolding session_ok_def by (meson clock_ok_mono le_trans)

lemma session_ok_new: "session_ok n (new_session sid now doc)"
  by (simp add: session_ok_def new_session_def default_document_def replay_def clock_ok_def)

lemma session_ok_submit:
  assumes "session_ok n s" and "Suc n < 2 ^ 64"
  shows "session_ok (Suc n) (snd (submit now p s))"
proof -
  define c where "c = (case se_clocks s (co_user_id p) of Some c \<Rightarrow> c | None \<Rightarrow> 0)"
  define p' where "p' = p\<lparr>co_clock := Suc c\<rparr>"
  have p': "co_user_id p' = co_user_id p" "co_clock p' = Suc c" by (simp_all add: p'_def)
  have content: "replay [] (se_operations s) = Some (doc_content (se_document s))"
    and len: "doc_version (se_document s) = length (se_operations s)" "length (se_operations s) \<le> n"
    and clocks: "\<And>u. clock_ok n (ops_of u (se_operations s)) (se_clocks s u)"
    using assms(1) by (auto simp: session_ok_def)
  have "c \<le> n" using clocks [of "co_user_id p"] by (auto simp: clock_ok_def c_def split: option.splits)
  then have sums: "add_u64 c 1 = Suc c" "add_u64 (length (se_operations s)) 1 = Suc (length (se_operations s))"
    using len assms(2) by (simp_all add: add_u64_def)
  note submit' = submit_eq [of now p s, unfolded Let_def, folded c_def, unfolded sums, folded p'_def]
  note snoc = clock_ok_snoc [OF clocks [of "co_user_id p"] c_def]
  have others: "clock_ok (Suc n) (ops_of u (se_operations s)) (se_clocks s u)" for u
    using clock_ok_mono [OF clocks] by simp
  show ?thesis
  proof (cases "edit p' (doc_content (se_document s))")
    case None
    then have "snd (submit now p s) = s\<lparr>se_clocks := (se_clocks s)(co_user_id p \<mapsto> Suc c)\<rparr>"
      by (simp add: submit' apply_op_def)
    then show ?thesis using content len others snoc(1) by (simp add: session_ok_def)
  next
    case (Some t)
    then have "snd (submit now p s) = s\<lparr>se_clocks := (se_clocks s)(co_user_id p \<mapsto> Suc c),
        se_document := (se_document s)\<lparr>doc_content := t, doc_version := Suc (length (se_operations s)), doc_last_modified := now\<rparr>,
        se_operations := se_operations s @ [p']\<rparr>"
      using sums(2) by (simp add: submit' apply_op_def len(1))
    then show ?thesis using content len others snoc(2) [OF p'(2)] p' Some by (auto simp: session_ok_def replay_snoc)
  qed
qed


text \<open>The registry points into the heap, to a session of the document.\<close>

definition collab_ok :: "nat \<Rightarrow> collab_state \<Rightarrow> bool" where
  "collab_ok n st \<longleftrightarrow> (\<forall>s \<in> set (cs_heap st). session_ok n s)
     \<and> (\<forall>doc h. cs_sessions st doc = Some h \<longrightarrow> h < length (cs_heap st) \<and> se_document_id (cs_heap st ! h) = doc)"

lemma submit_document_id [simp]: "se_document_id (snd (submit now p s)) = se_document_id s"
  by (simp add: submit_eq Let_def split: option.split)

lemma collab_ok_submit_at:
  assumes "collab_ok n st" and "Suc n < 2 ^ 64"
  shows "collab_ok (Suc n) (snd (submit_at now h p st))"
proof (cases "h < length (cs_heap st)")
  case True
  have "session_ok (Suc n) s" if "s \<in> set ((cs_heap st)[h := snd (submit now p (cs_heap st ! h))])" for s
  proof -
    have "s \<in> set (cs_heap st) \<or> s = snd (submit now p (cs_heap st ! h))"
      using that set_update_subset_insert by fastforce
    then show ?thesis
      using assms True session_ok_mono [of n _ "Suc n"] session_ok_submit [OF _ assms(2)] by (auto simp: collab_ok_def)
  qed
  then show ?thesis
    using True assms(1) by (auto simp: collab_ok_def submit_at_def nth_list_update case_prod_beta)
next
  case False
  then show ?thesis using assms session_ok_mono [of n _ "Suc n"] by (auto simp: collab_ok_def submit_at_def)
qed

lemma collab_ok_step:
  assumes "collab_ok n st" and "Suc n < 2 ^ 64"
  shows "collab_ok (Suc n) (collab_step ev st)"
proof (cases ev)
  case (SubmitAt now h p)
  then show ?thesis using collab_ok_submit_at [OF assms] by simp
next
  case (CreateSession sid now doc)
  have "se_document_id (new_session sid now doc) = doc" by (simp add: new_session_def)
  then show ?thesis
    using CreateSession assms session_ok_mono [of n _ "Suc n"] session_ok_new
    by (auto simp: collab_ok_def create_session_def Let_def nth_append intro: less_SucI)
qed (use assms session_ok_mono [of n _ "Suc n"] in \<open>auto simp: collab_ok_def update_presence_def leave_presence_def\<close>)

lemma collab_ok_run:
  "collab_ok n st \<Longrightarrow> n + length evs < 2 ^ 64 \<Longrightarrow> collab_ok (n + length evs) (collab_run evs st)"
proof (induction evs arbitrary: n st)
  case (Cons ev evs)
  then show ?case using Cons.IH [of "Suc n" "collab_step ev st"] collab_ok_step [of n st ev] by (simp add: collab_run_def)
qed (simp add: collab_run_def)



definition demo_edit :: "string \<Rightarrow> string \<Rightarrow> operation_type \<Rightarrow> nat \<Rightarrow> string \<Rightarrow> int \<Rightarrow> collab_op" where
  "demo_edit i user t pos text time = \<lparr>co_id = i, co_session_id = ''s'', co_user_id = user, co_type = t, co_position = pos, co_content = text,
     co_length = 1, co_clock = 0, co_timestamp = time\<rparr>"

lemmas demo_eval = demo_edit_def submit_eq Let_def apply_op_def edit_def insert_str_def drain_def is_char_boundary_def add_u64_def

definition demo_events :: "collab_event list" where
  "demo_events = [CreateSession ''s'' 0 ''d'', SubmitAt 1 0 (demo_edit ''1'' ''ann'' Insert 0 ''ac'' 1), SubmitAt 3 0 (demo_edit ''2'' ''bob'' Insert 1 ''b'' 3)]"

lemma demo_document:
  "map_option doc_content (get_state ''d'' (collab_run demo_events (fresh_state []))) = Some ''abc''"
  by (simp add: get_state_def session_of_def collab_run_def demo_events_def fresh_state_def create_session_def submit_at_def
      new_session_def default_document_def demo_eval)


section \<open>Transformation\<close>

text \<open>\<^bold>\<open>C39.\<close> Concurrent operations are never transformed: \<open>submit\<close> selects the operations with a later time stamp, and
  \<open>transform_against\<close> leaves the operation alone for exactly those. Whatever other users have submitted, an accepted operation
  acts at the position its author sent, on a text that has moved on.\<close>

theorem submit_never_transforms:
  assumes "submit now p s = (Some applied, s')"
  shows "\<exists>c. applied = p\<lparr>co_clock := c\<rparr> \<and> edit p (doc_content (se_document s)) = Some (doc_content (se_document s'))"
proof -
  have "edit (p\<lparr>co_clock := c\<rparr>) t = edit p t" for c t by (cases "co_type p") (simp_all add: edit_def Let_def)
  then show ?thesis
    using assms by (auto simp: submit_eq Let_def apply_op_def split: option.splits)
qed

definition two_insertions :: collab_session where
  "two_insertions = snd (submit 5 (demo_edit ''2'' ''bob'' Insert 0 ''x'' 5) (snd (submit 1 (demo_edit ''1'' ''ann'' Insert 0 ''ac'' 1) (new_session ''s'' 0 ''d''))))"

text \<open>Ann wants to delete the \<open>c\<close> of the text \<open>ac\<close> she sees; Bob has put an \<open>x\<close> in front of it, and the \<open>a\<close> is deleted.\<close>

theorem submit_never_transforms_witness:
  "\<exists>c s'. submit 6 (demo_edit ''3'' ''ann'' Delete 1 [] 4) two_insertions = (Some ((demo_edit ''3'' ''ann'' Delete 1 [] 4)\<lparr>co_clock := c\<rparr>), s')
    \<and> doc_content (se_document s') = ''xc''"
proof -
  let ?p = "demo_edit ''3'' ''ann'' Delete 1 [] 4"
  have e: "edit ?p (doc_content (se_document two_insertions)) = Some ''xc''"
    by (simp add: two_insertions_def new_session_def default_document_def demo_eval)
  obtain applied s' where s': "submit 6 ?p two_insertions = (Some applied, s')"
    by (simp add: two_insertions_def new_session_def default_document_def demo_eval)
  from submit_never_transforms [OF s'] e show ?thesis using s' by auto
qed

section \<open>Sessions that get lost, and the history\<close>

text \<open>Two first requests for a document may both find no session: the second one to create it replaces the session of the first,
  whose accepted operation is no longer part of the document.\<close>

theorem concurrent_creation_loses_operation:
  assumes "cs_sessions st doc = None" and "submit t p (new_session sid now doc) = (Some applied, s)"
  shows "\<exists>h st'. create_session sid now doc st = (h, st') \<and> fst (submit_at t h p st') = Some applied
    \<and> map_option doc_content (get_state doc (collab_run [CreateSession sid now doc, SubmitAt t h p, CreateSession sid2 now2 doc] st)) = Some []"
  using assms(2)
  by (simp add: create_session_def submit_at_def Let_def collab_run_def get_state_def session_of_def new_session_def default_document_def nth_append)

text \<open>The history files an operation under the session id its author sent: an operation on one document is not in the history of that
  document unless the author names the document as the session.\<close>

theorem history_filed_by_sent_session:
  assumes "co_session_id p \<noteq> doc"
  shows "get_history fault doc limit (snd (submit_op f sid now doc p st)) = get_history fault doc limit st"
proof -
  obtain h st1 where c: "get_or_create sid now doc st = (h, st1)" by fastforce
  obtain r st2 where s: "submit_at now h p st1 = (r, st2)" by fastforce
  have h: "cs_history st1 = cs_history st" "cs_history st2 = cs_history st1"
    using c s by (auto simp: get_or_create_def create_session_def submit_at_def Let_def split: option.splits if_splits prod.splits)
  have id: "co_session_id a = co_session_id p" if "r = Some a" for a
    using s that by (auto simp: submit_at_def submit_eq Let_def split: option.splits if_splits)
  show ?thesis
    using c s assms h id
    by (auto simp: submit_op_def get_history_def history_list_def history_record_def stmt_def split: option.split)
qed

section \<open>Presence\<close>

definition presence_ok :: "presence_table \<Rightarrow> bool" where
  "presence_ok P \<longleftrightarrow> distinct (map fst P)"

lemma map_of_filter_key: "distinct (map fst P) \<Longrightarrow> map_of (filter (\<lambda>(k, m). Q m) P) k = (case map_of P k of Some m \<Rightarrow> if Q m then Some m else None | None \<Rightarrow> None)"
proof (induction P)
  case (Cons a P)
  have "map_of P (fst a) = None" using Cons.prems by (simp add: map_of_eq_None_iff)
  then show ?case using Cons by (auto split: option.splits)
qed simp

lemma presence_of_cleanup:
  assumes "presence_ok P"
  shows "presence_of doc (cleanup_stale now P) = filter (\<lambda>(u, p). \<not> is_stale now p) (presence_of doc P)"
proof -
  let ?P = "map (\<lambda>(doc, m). (doc, filter (\<lambda>(u, p). \<not> is_stale now p) m)) P"
  have "distinct (map fst ?P)" using assms by (simp add: presence_ok_def case_prod_beta comp_def)
  from map_of_filter_key [OF this, of "\<lambda>m. m \<noteq> []"]
  show ?thesis by (auto simp: cleanup_stale_def presence_of_def map_of_map split: option.split)
qed

lemma presence_ok_step: "presence_ok (cs_presence st) \<Longrightarrow> presence_ok (cs_presence (collab_step ev st))"
proof (cases ev)
  case (Cleanup now)
  assume "presence_ok (cs_presence st)"
  then have "distinct (map fst (map (\<lambda>(doc, m). (doc, filter (\<lambda>(u, p). \<not> is_stale now p) m)) (cs_presence st)))"
    by (simp add: presence_ok_def case_prod_beta comp_def)
  then show ?thesis using Cleanup by (simp add: presence_ok_def cleanup_stale_def distinct_map_filter)
qed (auto simp: presence_ok_def update_presence_def heartbeat_def leave_presence_def leave_def distinct_update create_session_def
    submit_at_def Let_def case_prod_beta split: option.splits)

lemma presence_ok_run: "presence_ok (cs_presence st) \<Longrightarrow> presence_ok (cs_presence (collab_run evs st))"
  unfolding collab_run_def by (induction evs arbitrary: st) (simp_all add: presence_ok_step)

lemma stale_mono: "is_stale now p \<Longrightarrow> now \<le> later \<Longrightarrow> is_stale later p"
  unfolding is_stale_def using zdiv_mono1 [of "now - up_last_seen p" "later - up_last_seen p" "10 ^ 9"] by simp

text \<open>The clean-up of stale presences cannot be observed: after any requests, a clean-up changes the answer of no later listing of the
  active users.\<close>

theorem cleanup_is_invisible:
  assumes "now \<le> later"
  shows "get_presence later doc (collab_run (evs @ [Cleanup now]) (fresh_state rows)) = get_presence later doc (collab_run evs (fresh_state rows))"
proof -
  let ?st = "collab_run evs (fresh_state rows)"
  have "presence_ok (cs_presence ?st)" by (rule presence_ok_run) (simp add: presence_ok_def fresh_state_def)
  moreover have "(\<not> is_stale now p \<and> \<not> is_stale later p) = (\<not> is_stale later p)" for p using stale_mono assms by blast
  ultimately show ?thesis
    by (simp add: collab_run_def get_presence_def active_users_def presence_of_cleanup filter_map comp_def case_prod_beta)
qed

end
