(* ===== verification/Moderation.thy ===== *)
theory Moderation
  imports Sql Complex_Main
begin

text \<open>
  Content moderation (\<open>src/moderation/\<close>), the administrator check (\<open>src/middleware/admin_auth.rs\<close>) and the moderation routes
  of \<open>src/routes/admin.rs\<close>: the rules engine, the combination with the verdict of the external detector, and the
  review queue with its history. The regular expressions, the JSON decoding of the detector's answer, SHA-256
  and the detector's answer itself are parameters. A confidence is the exact value of an \<open>f32\<close>; the literals of the source, all of them
  in the interval from 1/2 to 1, are multiples of \<open>2 ^ -24\<close>.
\<close>

section \<open>Verdicts\<close>

datatype violation_type = InappropriateContent | Spam | HateSpeech | PersonalInformation | PolicyViolation

record violation =
  vi_type :: violation_type
  vi_description :: string
  vi_confidence :: rat

datatype content_type = Username | TipMessage | CreatorBio

definition content_type_str :: "content_type \<Rightarrow> string" where
  "content_type_str t = (case t of Username \<Rightarrow> ''username'' | TipMessage \<Rightarrow> ''tip_message'' | CreatorBio \<Rightarrow> ''creator_bio'')"

record moderation_result =
  mr_is_flagged :: bool
  mr_violations :: "violation list"
  mr_ai_score :: "rat option"
  mr_ai_reasoning :: "string option"

definition has_high_confidence_violation :: "rat \<Rightarrow> moderation_result \<Rightarrow> bool" where
  "has_high_confidence_violation threshold r \<longleftrightarrow>
     (\<exists>v \<in> set (mr_violations r). vi_confidence v \<ge> threshold)
     \<or> (case mr_ai_score r of Some s \<Rightarrow> s \<ge> threshold | None \<Rightarrow> False)"

text \<open>The \<open>f32\<close> values of \<open>0.65\<close>, \<open>0.70\<close>, \<open>0.75\<close>, \<open>0.85\<close>, \<open>0.90\<close> and \<open>0.95\<close>.\<close>

definition f32 :: "int \<Rightarrow> rat" where "f32 m = of_int m / 2 ^ 24"
definition f32_65 :: rat where "f32_65 = f32 10905190"
definition f32_70 :: rat where "f32_70 = f32 11744051"
definition f32_75 :: rat where "f32_75 = f32 12582912"
definition f32_85 :: rat where "f32_85 = f32 14260634"
definition f32_90 :: rat where "f32_90 = f32 15099494"
definition f32_95 :: rat where "f32_95 = f32 15938355"

lemmas f32_values = f32_def f32_65_def f32_70_def f32_75_def f32_85_def f32_90_def f32_95_def

section \<open>The rules engine\<close>

record patterns =
  pt_urls :: "string \<Rightarrow> nat"
  pt_spam :: "string \<Rightarrow> bool"
  pt_email :: "string \<Rightarrow> bool"
  pt_phone :: "string \<Rightarrow> bool"
  pt_hate :: "string \<Rightarrow> bool"

definition RESERVED_USERNAMES :: "string list" where
  "RESERVED_USERNAMES = [''admin'', ''administrator'', ''root'', ''system'', ''support'', ''help'', ''api'', ''null'', ''undefined'',
     ''moderator'', ''mod'', ''staff'', ''official'', ''tipjar'', ''stellar'']"

text \<open>\<open>str::chars\<close>: a character is a byte with the bytes that continue it.\<close>

fun utf8_chars :: "string \<Rightarrow> string list" where
  "utf8_chars [] = []"
| "utf8_chars (c # s) =
     (case utf8_chars s of
        [] \<Rightarrow> [[c]]
      | ch # chs \<Rightarrow> if byte (hd ch) div 64 = 2 then (c # ch) # chs else [c] # ch # chs)"

fun repeated_scan :: "'c \<Rightarrow> nat \<Rightarrow> 'c list \<Rightarrow> bool" where
  "repeated_scan prev run [] = False"
| "repeated_scan prev run (c # cs) =
     (if c = prev then run + 1 \<ge> 7 \<or> repeated_scan prev (run + 1) cs else repeated_scan c 1 cs)"

definition has_repeated_chars :: "string \<Rightarrow> bool" where
  "has_repeated_chars text = (case utf8_chars text of [] \<Rightarrow> False | prev # cs \<Rightarrow> repeated_scan prev 1 cs)"

text \<open>No reserved name has a letter that a character outside ASCII is lowered to.\<close>

definition check_reserved_username :: "string \<Rightarrow> violation list" where
  "check_reserved_username username =
     (if to_lowercase username \<in> set RESERVED_USERNAMES
      then [\<lparr>vi_type = PolicyViolation, vi_description = [CHR 0x27] @ username @ [CHR 0x27] @ '' is a reserved username'', vi_confidence = 1\<rparr>]
      else [])"

definition check_spam_in_text :: "patterns \<Rightarrow> string \<Rightarrow> violation list" where
  "check_spam_in_text P text =
     (if pt_urls P text > 0
      then [\<lparr>vi_type = Spam, vi_description = ''Content contains '' @ show_nat (pt_urls P text) @ '' URL(s)'', vi_confidence = f32_75\<rparr>] else [])
     @ (if pt_spam P text
        then [\<lparr>vi_type = Spam, vi_description = ''Content matches known spam/scam phrasing'', vi_confidence = f32_90\<rparr>] else [])
     @ (if has_repeated_chars text
        then [\<lparr>vi_type = Spam, vi_description = ''Content contains excessive repeated characters'', vi_confidence = f32_65\<rparr>] else [])"

definition check_personal_information :: "patterns \<Rightarrow> string \<Rightarrow> violation list" where
  "check_personal_information P text =
     (if pt_email P text
      then [\<lparr>vi_type = PersonalInformation, vi_description = ''Content may contain an email address'', vi_confidence = f32_85\<rparr>] else [])
     @ (if pt_phone P text
        then [\<lparr>vi_type = PersonalInformation, vi_description = ''Content may contain a phone number'', vi_confidence = f32_70\<rparr>] else [])"

definition check_hate_speech :: "patterns \<Rightarrow> string \<Rightarrow> violation list" where
  "check_hate_speech P text =
     (if pt_hate P text
      then [\<lparr>vi_type = HateSpeech, vi_description = ''Content matches hate speech / self-harm pattern'', vi_confidence = f32_95\<rparr>] else [])"

definition rules_check :: "patterns \<Rightarrow> string \<Rightarrow> content_type \<Rightarrow> violation list" where
  "rules_check P content t =
     (case t of
        Username \<Rightarrow> check_reserved_username content @ check_spam_in_text P content
      | _ \<Rightarrow> check_spam_in_text P content @ check_personal_information P content @ check_hate_speech P content)"

section \<open>The external detector\<close>

record ai_violation =
  av_type :: string
  av_description :: string
  av_confidence :: rat

record ai_answer =
  aa_is_flagged :: bool
  aa_score :: rat
  aa_reasoning :: string
  aa_violations :: "ai_violation list"

record ai_result =
  ar_score :: rat
  ar_reasoning :: string
  ar_violations :: "violation list"

definition clamp01 :: "rat \<Rightarrow> rat" where
  "clamp01 x = (if x < 0 then 0 else if x > 1 then 1 else x)"

definition into_violation :: "ai_violation \<Rightarrow> violation" where
  "into_violation v =
     \<lparr>vi_type = (if av_type v = ''spam'' then Spam else if av_type v = ''hate_speech'' then HateSpeech
                 else if av_type v = ''personal_information'' then PersonalInformation
                 else if av_type v = ''policy_violation'' then PolicyViolation else InappropriateContent),
      vi_description = av_description v, vi_confidence = clamp01 (av_confidence v)\<rparr>"

definition fence :: string where "fence = replicate 3 (CHR 0x60)"

definition strip_fences :: "string \<Rightarrow> string" where
  "strip_fences text = trim (rev (strip_all [rev fence] (rev (strip_all [fence] (strip_all [fence @ ''json''] (trim text))))))"

definition parse_moderation_response :: "(string \<Rightarrow> ai_answer option) \<Rightarrow> string \<Rightarrow> ai_result option" where
  "parse_moderation_response decode text =
     map_option (\<lambda>a. \<lparr>ar_score = clamp01 (aa_score a), ar_reasoning = aa_reasoning a, ar_violations = map into_violation (aa_violations a)\<rparr>)
       (decode (strip_fences text))"

text \<open>The request fails or is answered; the answer is a status and the texts of its blocks, when its body decodes.\<close>

datatype ai_reply = SendFailed | Answered nat "string list option"

definition analyze :: "(string \<Rightarrow> ai_answer option) \<Rightarrow> ai_reply \<Rightarrow> ai_result option" where
  "analyze decode reply =
     (case reply of
        SendFailed \<Rightarrow> None
      | Answered code blocks \<Rightarrow>
          if \<not> is_success code then None
          else Option.bind blocks (\<lambda>bs. parse_moderation_response decode (case bs of [] \<Rightarrow> [] | b # _ \<Rightarrow> b)))"

section \<open>The review queue\<close>

datatype review_status = ReviewPending | ReviewApproved | ReviewRejected
datatype review_action = Approve | Reject | Dismiss | Warn | Ban

record queue_item =
  mq_id :: string
  mq_content_type :: string
  mq_content_id :: "string option"
  mq_content_text :: string
  mq_flags :: "violation list"
  mq_status :: review_status
  mq_action :: "review_action option"
  mq_flagged_by :: "string option"
  mq_flag_reason :: "string option"
  mq_ai_score :: "rat option"
  mq_ai_reasoning :: "string option"
  mq_reviewed_by :: "string option"
  mq_reviewed_at :: "int option"
  mq_created_at :: int

record moderation_flag =
  mf_content_type :: string
  mf_content_id :: string
  mf_content_text :: string
  mf_reason :: string
  mf_flagged_by :: string
  mf_created_at :: int

record moderation_entry =
  mh_queue_item_id :: string
  mh_action :: review_action
  mh_performed_by :: string
  mh_note :: "string option"
  mh_created_at :: int

record moderation_db =
  md_queue :: "queue_item list"
  md_flags :: "moderation_flag list"
  md_history :: "moderation_entry list"

text \<open>The constraints of \<open>moderation_queue\<close>: the primary key and the known content types.\<close>

definition known_content_type :: "string \<Rightarrow> bool" where
  "known_content_type t \<longleftrightarrow> t \<in> {''username'', ''tip_message'', ''creator_bio''}"

definition check_violation :: stmt_error where
  "check_violation = StmtError (SqlxDatabase (Some ''23514'') (Some ''moderation_queue_content_type_check''))"

definition enqueue_item ::
  "sqlx_error option \<Rightarrow> string \<Rightarrow> int \<Rightarrow> string \<Rightarrow> content_type \<Rightarrow> string option \<Rightarrow> moderation_result \<Rightarrow> moderation_db \<Rightarrow>
     (stmt_error + string) \<times> moderation_db" where
  "enqueue_item fault i now content t content_id r db =
     stmt fault db
       (if i \<in> mq_id ` set (md_queue db) then (Err (unique_violation ''moderation_queue_pkey''), db)
        else (Ok i, db\<lparr>md_queue := md_queue db @
          [\<lparr>mq_id = i, mq_content_type = content_type_str t, mq_content_id = content_id, mq_content_text = content,
            mq_flags = mr_violations r, mq_status = ReviewPending, mq_action = None, mq_flagged_by = None, mq_flag_reason = None,
            mq_ai_score = mr_ai_score r, mq_ai_reasoning = mr_ai_reasoning r, mq_reviewed_by = None, mq_reviewed_at = None,
            mq_created_at = now\<rparr>]\<rparr>))"

text \<open>Two statements without a transaction; \<open>spare\<close> is the id that is made up when the insert met a conflict.\<close>

definition flag_content ::
  "stmt_faults \<Rightarrow> string \<Rightarrow> string \<Rightarrow> int \<Rightarrow> string \<Rightarrow> string \<Rightarrow> string \<Rightarrow> string \<Rightarrow> string \<Rightarrow> moderation_db \<Rightarrow>
     (stmt_error + string) \<times> moderation_db" where
  "flag_content fault i spare now t content_id text reason by db =
     stmt (fault 0) db
       (let db = db\<lparr>md_flags := md_flags db @ [\<lparr>mf_content_type = t, mf_content_id = content_id, mf_content_text = text, mf_reason = reason,
              mf_flagged_by = by, mf_created_at = now\<rparr>]\<rparr>
        in stmt (fault 1) db
             (if \<not> known_content_type t then (Err check_violation, db)
              else if i \<in> mq_id ` set (md_queue db) then (Ok spare, db)
              else (Ok i, db\<lparr>md_queue := md_queue db @
                [\<lparr>mq_id = i, mq_content_type = t, mq_content_id = Some content_id, mq_content_text = text, mq_flags = [],
                  mq_status = ReviewPending, mq_action = None, mq_flagged_by = Some by, mq_flag_reason = Some reason, mq_ai_score = None,
                  mq_ai_reasoning = None, mq_reviewed_by = None, mq_reviewed_at = None, mq_created_at = now\<rparr>]\<rparr>)))"

definition list_queue :: "review_status option \<Rightarrow> int \<Rightarrow> moderation_db \<Rightarrow> queue_item list" where
  "list_queue st limit db =
     take (nat limit) (rev (sort_key mq_created_at (filter (\<lambda>q. st = None \<or> st = Some (mq_status q)) (md_queue db))))"

text \<open>The update and the entry of the history are one transaction: \<open>fault 0\<close> is its begin, \<open>fault 1\<close> the update, \<open>fault 2\<close> the insert,
  \<open>fault 3\<close> the commit.\<close>

definition apply_action ::
  "stmt_faults \<Rightarrow> int \<Rightarrow> string \<Rightarrow> review_status \<Rightarrow> review_action \<Rightarrow> string \<Rightarrow> string option \<Rightarrow> moderation_db \<Rightarrow>
     (stmt_error + bool) \<times> moderation_db" where
  "apply_action fault now i st action by note db =
     stmt (fault 0) db (stmt (fault 1) db
       (let hit = (\<lambda>q. mq_id q = i \<and> mq_status q = ReviewPending);
            found = (\<exists>q \<in> set (md_queue db). hit q);
            db' = db\<lparr>md_queue := map (\<lambda>q. if hit q then q\<lparr>mq_status := st, mq_action := Some action, mq_reviewed_by := Some by,
                                  mq_reviewed_at := Some now\<rparr> else q) (md_queue db)\<rparr>
        in if found
           then stmt (fault 2) db (stmt (fault 3) db
             (Ok True, db'\<lparr>md_history := md_history db' @
                [\<lparr>mh_queue_item_id = i, mh_action = action, mh_performed_by = by, mh_note = note, mh_created_at = now\<rparr>]\<rparr>))
           else stmt (fault 3) db (Ok False, db')))"

definition approve :: "stmt_faults \<Rightarrow> int \<Rightarrow> string \<Rightarrow> string \<Rightarrow> moderation_db \<Rightarrow> (stmt_error + bool) \<times> moderation_db" where
  "approve fault now i by = apply_action fault now i ReviewApproved Approve by None"

definition reject :: "stmt_faults \<Rightarrow> int \<Rightarrow> string \<Rightarrow> string \<Rightarrow> moderation_db \<Rightarrow> (stmt_error + bool) \<times> moderation_db" where
  "reject fault now i by = apply_action fault now i ReviewRejected Reject by None"

definition dismiss :: "stmt_faults \<Rightarrow> int \<Rightarrow> string \<Rightarrow> string \<Rightarrow> string option \<Rightarrow> moderation_db \<Rightarrow> (stmt_error + bool) \<times> moderation_db" where
  "dismiss fault now i by note = apply_action fault now i ReviewApproved Dismiss by note"

definition warn :: "stmt_faults \<Rightarrow> int \<Rightarrow> string \<Rightarrow> string \<Rightarrow> string option \<Rightarrow> moderation_db \<Rightarrow> (stmt_error + bool) \<times> moderation_db" where
  "warn fault now i by note = apply_action fault now i ReviewRejected Warn by note"

definition ban :: "stmt_faults \<Rightarrow> int \<Rightarrow> string \<Rightarrow> string \<Rightarrow> string option \<Rightarrow> moderation_db \<Rightarrow> (stmt_error + bool) \<times> moderation_db" where
  "ban fault now i by note = apply_action fault now i ReviewRejected Ban by note"

definition item_history :: "string \<Rightarrow> moderation_db \<Rightarrow> moderation_entry list" where
  "item_history i db = sort_key mh_created_at (filter (\<lambda>h. mh_queue_item_id h = i) (md_history db))"

record moderation_stats =
  ms_pending :: nat
  ms_approved :: nat
  ms_rejected :: nat
  ms_total :: nat

definition moderation_stats_of :: "moderation_db \<Rightarrow> moderation_stats" where
  "moderation_stats_of db =
     (let n = (\<lambda>st. length (filter (\<lambda>q. mq_status q = st) (md_queue db))) in
      \<lparr>ms_pending = n ReviewPending, ms_approved = n ReviewApproved, ms_rejected = n ReviewRejected,
       ms_total = n ReviewPending + n ReviewApproved + n ReviewRejected\<rparr>)"

section \<open>The service\<close>

record moderation_env =
  me_patterns :: patterns
  me_enabled :: bool
  me_decode :: "string \<Rightarrow> ai_answer option"
  me_reply :: ai_reply
  me_id :: string
  me_now :: int
  me_fault :: "sqlx_error option"

definition check_content ::
  "moderation_env \<Rightarrow> string \<Rightarrow> content_type \<Rightarrow> string option \<Rightarrow> moderation_db \<Rightarrow> moderation_result \<times> moderation_db" where
  "check_content e content t content_id db =
     (let rules = rules_check (me_patterns e) content t;
          ai = (if me_enabled e then analyze (me_decode e) (me_reply e) else None);
          violations = rules @ (case ai of Some a \<Rightarrow> ar_violations a | None \<Rightarrow> []);
          score = map_option ar_score ai;
          is_flagged = (violations \<noteq> [] \<or> (case score of Some s \<Rightarrow> s > f32_70 | None \<Rightarrow> False));
          result = \<lparr>mr_is_flagged = is_flagged, mr_violations = violations, mr_ai_score = score, mr_ai_reasoning = map_option ar_reasoning ai\<rparr>
      in (result, if is_flagged then snd (enqueue_item (me_fault e) (me_id e) (me_now e) content t content_id result db) else db))"

section \<open>Administrators\<close>

record admin_env =
  ad_sha256_hex :: "string \<Rightarrow> string"
  ad_users :: "string \<rightharpoonup> string"
  ad_fault :: stmt_faults
  ad_request_id :: "string option"

text \<open>\<open>ad_users\<close> is the table of administrators: the user name of a key hash. The middleware is statement 0, the look-up of the
  name statement 1.\<close>

definition require_admin :: "admin_env \<Rightarrow> (headers \<Rightarrow> 's \<Rightarrow> response \<times> 's) \<Rightarrow> headers \<Rightarrow> 's \<Rightarrow> response \<times> 's" where
  "require_admin a next hs s =
     (case header_get hs ''X-Admin-Key'' of
        None \<Rightarrow> (into_response (ad_request_id a) (Unauthorized ''Missing X-Admin-Key header''), s)
      | Some key \<Rightarrow>
          (case ad_fault a 0 of
             Some e \<Rightarrow> (into_response (ad_request_id a) (app_error_from_sqlx e), s)
           | None \<Rightarrow>
               if ad_users a (ad_sha256_hex a key) = None then (into_response (ad_request_id a) (Unauthorized ''Invalid admin key''), s)
               else next hs s))"

definition resolve_admin_from_headers :: "admin_env \<Rightarrow> headers \<Rightarrow> string" where
  "resolve_admin_from_headers a hs =
     (case header_get hs ''X-Admin-Key'' of
        None \<Rightarrow> ''unknown''
      | Some key \<Rightarrow>
          (case (if ad_fault a 1 = None then ad_users a (ad_sha256_hex a key) else None) of Some u \<Rightarrow> u | None \<Rightarrow> ''unknown''))"

definition action_text :: "review_action \<Rightarrow> string" where
  "action_text action = (case action of Approve \<Rightarrow> ''approve'' | Reject \<Rightarrow> ''reject'' | Dismiss \<Rightarrow> ''dismiss'' | Warn \<Rightarrow> ''warn'' | Ban \<Rightarrow> ''ban'')"

definition dispatch_moderation_action :: "(stmt_error + bool) \<Rightarrow> string \<Rightarrow> response" where
  "dispatch_moderation_action r action =
     (let quoted = [CHR 0x27] @ action @ [CHR 0x27] in
      case r of
        Inr True \<Rightarrow> json_response 200 (JObj [(''message'', JStr (''Action '' @ quoted @ '' applied''))])
      | Inr False \<Rightarrow> json_response 404 (JObj [(''error'', JStr ''Item not found or already reviewed'')])
      | Inl _ \<Rightarrow> json_response 500 (JObj [(''error'', JStr (''Failed to apply action '' @ quoted))]))"

definition review_item ::
  "review_action \<Rightarrow> stmt_faults \<Rightarrow> int \<Rightarrow> string \<Rightarrow> string \<Rightarrow> string option \<Rightarrow> moderation_db \<Rightarrow> (stmt_error + bool) \<times> moderation_db" where
  "review_item action fault now i by note db =
     (case action of
        Approve \<Rightarrow> approve fault now i by db
      | Reject \<Rightarrow> reject fault now i by db
      | Dismiss \<Rightarrow> dismiss fault now i by note db
      | Warn \<Rightarrow> warn fault now i by note db
      | Ban \<Rightarrow> ban fault now i by note db)"

definition moderation_review ::
  "admin_env \<Rightarrow> review_action \<Rightarrow> stmt_faults \<Rightarrow> int \<Rightarrow> string \<Rightarrow> string option \<Rightarrow> headers \<Rightarrow> moderation_db \<Rightarrow> response \<times> moderation_db" where
  "moderation_review a action fault now i note hs db =
     (let (r, db') = review_item action fault now i (resolve_admin_from_headers a hs) note db
      in (dispatch_moderation_action r (action_text action), db'))"

definition moderation_flag_route ::
  "admin_env \<Rightarrow> stmt_faults \<Rightarrow> string \<Rightarrow> string \<Rightarrow> int \<Rightarrow> string \<Rightarrow> string \<Rightarrow> string \<Rightarrow> string \<Rightarrow> headers \<Rightarrow> moderation_db \<Rightarrow>
     response \<times> moderation_db" where
  "moderation_flag_route a fault i spare now t content_id text reason hs db =
     (let (r, db') = flag_content fault i spare now t content_id text reason (resolve_admin_from_headers a hs) db
      in (case r of
            Inr q \<Rightarrow> json_response 201 (JObj [(''queue_item_id'', JStr q)])
          | Inl _ \<Rightarrow> json_response 500 (JObj [(''error'', JStr ''Failed to flag content'')]), db'))"


section \<open>The scan for repeated characters\<close>

definition has_run :: "'c list \<Rightarrow> bool" where
  "has_run cs \<longleftrightarrow> (\<exists>pre c post. cs = pre @ replicate 7 c @ post)"

lemma has_run_Cons: "has_run (c # cs) \<longleftrightarrow> (\<exists>post. c # cs = replicate 7 c @ post) \<or> has_run cs"
proof
  assume "has_run (c # cs)"
  then obtain pre d post where e: "c # cs = pre @ replicate 7 d @ post" by (auto simp: has_run_def)
  show "(\<exists>post. c # cs = replicate 7 c @ post) \<or> has_run cs"
  proof (cases pre)
    case Nil
    then have "c = d" using e by (simp add: numeral_eq_Suc)
    then show ?thesis using e Nil by auto
  next
    case (Cons x pre')
    then have "cs = pre' @ replicate 7 d @ post" using e by simp
    then show ?thesis by (auto simp: has_run_def)
  qed
next
  assume "(\<exists>post. c # cs = replicate 7 c @ post) \<or> has_run cs"
  then show "has_run (c # cs)"
    unfolding has_run_def by (metis append_Cons append_Nil)
qed

text \<open>With a run of \<open>n\<close> characters behind it, the scan finds a run that starts in this one or later.\<close>

lemma run_prefix_step:
  assumes "n < 7"
  shows "(\<exists>post. replicate n c @ d # cs = replicate 7 c @ post) \<longleftrightarrow> d = c \<and> (\<exists>post. replicate (Suc n) c @ cs = replicate 7 c @ post)"
proof -
  have split: "replicate 7 c = replicate n c @ c # replicate (6 - n) c"
  proof -
    have "(7::nat) = n + Suc (6 - n)" using assms by simp
    then show ?thesis by (metis replicate_add replicate_Suc)
  qed
  have "replicate (Suc n) c @ cs = replicate n c @ c # cs" by (simp add: replicate_app_Cons_same)
  then show ?thesis by (auto simp: split)
qed

lemma has_run_replicate_other: "d \<noteq> c \<Longrightarrow> n < 7 \<Longrightarrow> has_run (replicate n c @ d # cs) \<longleftrightarrow> has_run (d # cs)"
proof (induction n)
  case (Suc n)
  have "\<not> (\<exists>post. replicate (Suc n) c @ d # cs = replicate 7 c @ post)"
    using run_prefix_step [of "Suc n" c d cs] Suc.prems by simp
  then show ?case using Suc has_run_Cons [of c "replicate n c @ d # cs"] by simp
qed simp

lemma repeated_scan_exact: "0 < n \<Longrightarrow> n < 7 \<Longrightarrow> repeated_scan c n cs \<longleftrightarrow> has_run (replicate n c @ cs)"
proof (induction cs arbitrary: c n)
  case Nil
  have "length (replicate n c) < 7" using Nil by simp
  then show ?case by (auto simp: has_run_def dest: arg_cong [of _ _ length])
next
  case (Cons d cs)
  show ?case
  proof (cases "d = c")
    case True
    then have e: "replicate n c @ d # cs = replicate (Suc n) c @ cs" by (simp add: replicate_app_Cons_same)
    show ?thesis
    proof (cases "n = 6")
      case n: True
      have "replicate (Suc n) c @ cs = [] @ replicate 7 c @ cs" using n by simp
      then have "has_run (replicate n c @ d # cs)" unfolding e has_run_def by blast
      then show ?thesis using True n by simp
    next
      case False
      then show ?thesis unfolding e using True Cons by simp
    qed
  next
    case False
    have "repeated_scan d 1 cs \<longleftrightarrow> has_run (replicate 1 d @ cs)" by (rule Cons.IH) simp_all
    then show ?thesis using False Cons.prems has_run_replicate_other [OF False Cons.prems(2)] by simp
  qed
qed

text \<open>\<^bold>\<open>C28.\<close> The hand-written scan is the regular expression it stands for: it reports a text exactly when seven equal characters stand
  in a row somewhere in it.\<close>

theorem has_repeated_chars_exact:
  "has_repeated_chars text \<longleftrightarrow> (\<exists>pre c post. utf8_chars text = pre @ replicate 7 c @ post)"
proof (cases "utf8_chars text")
  case (Cons c cs)
  then show ?thesis using repeated_scan_exact [of 1 c cs] by (simp add: has_repeated_chars_def has_run_def)
qed (simp add: has_repeated_chars_def)


section \<open>Verdicts and the queue\<close>

definition blocked :: "moderation_result \<Rightarrow> bool" where
  "blocked r \<longleftrightarrow> has_high_confidence_violation f32_90 r"

definition rules_block :: "patterns \<Rightarrow> string \<Rightarrow> content_type \<Rightarrow> bool" where
  "rules_block P content t \<longleftrightarrow>
     pt_spam P content \<or> (if t = Username then to_lowercase content \<in> set RESERVED_USERNAMES else pt_hate P content)"

lemma rules_check_blocks:
  "(\<exists>v \<in> set (rules_check P content t). vi_confidence v \<ge> f32_90) \<longleftrightarrow> rules_block P content t"
proof -
  have "f32_65 < f32_90" "f32_70 < f32_90" "f32_75 < f32_90" "f32_85 < f32_90" "f32_90 < f32_95" "f32_90 < 1"
    by (simp_all add: f32_values)
  then show ?thesis
    by (cases t) (auto simp: rules_check_def rules_block_def check_reserved_username_def check_spam_in_text_def
        check_personal_information_def check_hate_speech_def)
qed

text \<open>What is blocked is also queued for review: a text that a caller refuses at the threshold 0.90 is flagged, and its item
  is added to the queue unless the insert fails. The rules alone block reserved user names, scam phrases and threats, whether the
  detector answers or not, and without an answer they block nothing else.\<close>

theorem blocked_content_is_queued:
  assumes "check_content e content t cid db = (r, db')"
  shows "(rules_block (me_patterns e) content t \<longrightarrow> blocked r)
    \<and> (\<not> me_enabled e \<or> analyze (me_decode e) (me_reply e) = None \<longrightarrow> (blocked r \<longleftrightarrow> rules_block (me_patterns e) content t))
    \<and> (blocked r \<and> me_fault e = None \<and> me_id e \<notin> mq_id ` set (md_queue db) \<longrightarrow>
        (\<exists>q. md_queue db' = md_queue db @ [q] \<and> mq_content_text q = content \<and> mq_status q = ReviewPending
           \<and> mq_flags q = mr_violations r))"
proof -
  define ai where "ai = (if me_enabled e then analyze (me_decode e) (me_reply e) else None)"
  have r: "mr_violations r = rules_check (me_patterns e) content t @ (case ai of Some a \<Rightarrow> ar_violations a | None \<Rightarrow> [])"
    "mr_ai_score r = map_option ar_score ai"
    "mr_is_flagged r = (mr_violations r \<noteq> [] \<or> (case mr_ai_score r of Some s \<Rightarrow> s > f32_70 | None \<Rightarrow> False))"
    "db' = (if mr_is_flagged r then snd (enqueue_item (me_fault e) (me_id e) (me_now e) content t cid r db) else db)"
    using assms by (auto simp: check_content_def Let_def ai_def)
  have "f32_70 < f32_90" by (simp add: f32_values)
  then have flagged: "blocked r \<Longrightarrow> mr_is_flagged r"
    by (auto simp: blocked_def has_high_confidence_violation_def r(3) split: option.splits)
  have 1: "rules_block (me_patterns e) content t \<Longrightarrow> blocked r"
    by (auto simp: blocked_def has_high_confidence_violation_def r(1) rules_check_blocks [symmetric])
  have 2: "blocked r \<longleftrightarrow> rules_block (me_patterns e) content t" if "ai = None"
    using rules_check_blocks that by (simp add: blocked_def has_high_confidence_violation_def r(1,2))
  show ?thesis
    using 1 2 flagged r(4) by (auto simp: ai_def enqueue_item_def)
qed

definition demo_moderation :: moderation_env where
  "demo_moderation = \<lparr>me_patterns = \<lparr>pt_urls = (\<lambda>_. 0), pt_spam = (\<lambda>_. False), pt_email = (\<lambda>_. False), pt_phone = (\<lambda>_. False),
       pt_hate = (\<lambda>_. False)\<rparr>, me_enabled = True, me_decode = (\<lambda>_. None), me_reply = SendFailed, me_id = ''q1'', me_now = 0, me_fault = None\<rparr>"

definition empty_db :: moderation_db where "empty_db = \<lparr>md_queue = [], md_flags = [], md_history = []\<rparr>"

theorem blocked_content_is_queued_witness:
  "\<exists>q. md_queue (snd (check_content demo_moderation ''Admin'' Username None empty_db)) = [q] \<and> mq_content_text q = ''Admin''
     \<and> blocked (fst (check_content demo_moderation ''Admin'' Username None empty_db))"
proof -
  obtain r db' where c: "check_content demo_moderation ''Admin'' Username None empty_db = (r, db')" by fastforce
  have "to_lowercase ''Admin'' = ''admin''" by code_simp
  then have "rules_block (me_patterns demo_moderation) ''Admin'' Username" by (simp add: rules_block_def RESERVED_USERNAMES_def)
  then show ?thesis
    using blocked_content_is_queued [OF c] c by (auto simp: demo_moderation_def empty_db_def)
qed


section \<open>Reviews\<close>

datatype mod_request =
    CheckReq moderation_env string content_type "string option"
  | ReportReq stmt_faults string string int string string string string string
  | FlagReq admin_env stmt_faults string string int string string string string headers
  | ReviewReq admin_env review_action stmt_faults int string "string option" headers

fun mod_serve :: "mod_request \<Rightarrow> moderation_db \<Rightarrow> moderation_db" where
  "mod_serve (CheckReq e content t cid) db = snd (check_content e content t cid db)"
| "mod_serve (ReportReq fault i spare now t cid text reason by) db = snd (flag_content fault i spare now t cid text reason by db)"
| "mod_serve (FlagReq a fault i spare now t cid text reason hs) db =
     snd (require_admin a (moderation_flag_route a fault i spare now t cid text reason) hs db)"
| "mod_serve (ReviewReq a action fault now i note hs) db =
     snd (require_admin a (moderation_review a action fault now i note) hs db)"

definition mod_run :: "mod_request list \<Rightarrow> moderation_db \<Rightarrow> moderation_db" where
  "mod_run reqs db = fold mod_serve reqs db"

definition review_outcome :: "review_action \<Rightarrow> review_status" where
  "review_outcome action = (case action of Approve \<Rightarrow> ReviewApproved | Dismiss \<Rightarrow> ReviewApproved | _ \<Rightarrow> ReviewRejected)"

text \<open>What a request may do to the tables: add a pending item, change nothing that counts, or decide one pending item.\<close>

definition entries_of :: "string \<Rightarrow> moderation_db \<Rightarrow> moderation_entry list" where
  "entries_of i db = filter (\<lambda>h. mh_queue_item_id h = i) (md_history db)"

definition item_ok :: "moderation_db \<Rightarrow> queue_item \<Rightarrow> bool" where
  "item_ok db q \<longleftrightarrow>
     (if mq_status q = ReviewPending then entries_of (mq_id q) db = []
      else \<exists>h. entries_of (mq_id q) db = [h] \<and> mq_action q = Some (mh_action h) \<and> mq_reviewed_by q = Some (mh_performed_by h)
             \<and> mq_status q = review_outcome (mh_action h))"

definition moderation_ok :: "moderation_db \<Rightarrow> bool" where
  "moderation_ok db \<longleftrightarrow> distinct (map mq_id (md_queue db)) \<and> (\<forall>q \<in> set (md_queue db). item_ok db q)
     \<and> (\<forall>h \<in> set (md_history db). mh_queue_item_id h \<in> mq_id ` set (md_queue db))"

definition decided :: "string \<Rightarrow> review_action \<Rightarrow> string \<Rightarrow> moderation_db \<Rightarrow> moderation_db \<Rightarrow> bool" where
  "decided i action by db db' \<longleftrightarrow>
     (\<exists>now note. (\<exists>q \<in> set (md_queue db). mq_id q = i \<and> mq_status q = ReviewPending)
        \<and> md_queue db' = map (\<lambda>q. if mq_id q = i \<and> mq_status q = ReviewPending
              then q\<lparr>mq_status := review_outcome action, mq_action := Some action, mq_reviewed_by := Some by, mq_reviewed_at := Some now\<rparr> else q) (md_queue db)
        \<and> md_history db' = md_history db @ [\<lparr>mh_queue_item_id = i, mh_action = action, mh_performed_by = by, mh_note = note, mh_created_at = now\<rparr>])"

definition queued :: "moderation_db \<Rightarrow> moderation_db \<Rightarrow> bool" where
  "queued db db' \<longleftrightarrow> md_history db' = md_history db
     \<and> (md_queue db' = md_queue db
        \<or> (\<exists>q. md_queue db' = md_queue db @ [q] \<and> mq_status q = ReviewPending \<and> mq_id q \<notin> mq_id ` set (md_queue db)))"

lemma check_content_queued: "queued db (snd (check_content e content t cid db))"
  by (auto simp: queued_def check_content_def enqueue_item_def stmt_def Let_def split: option.split)

lemma flag_content_queued: "queued db (snd (flag_content fault i spare now t cid text reason by db))"
  by (auto simp: queued_def flag_content_def stmt_def Let_def split: option.split)

lemma review_item_decides:
  "snd (review_item action fault now i by note db) = db \<or> decided i action by db (snd (review_item action fault now i by note db))"
proof -
  have none: "map (\<lambda>q. if mq_id q = i \<and> mq_status q = ReviewPending then f q else q) qs = qs"
    if "\<not> (\<exists>q \<in> set qs. mq_id q = i \<and> mq_status q = ReviewPending)" for f qs
    using that by (intro map_idI) auto
  have "snd (apply_action fault now i (review_outcome action) action by note' db) = db
      \<or> decided i action by db (snd (apply_action fault now i (review_outcome action) action by note' db))" for note'
    unfolding apply_action_def stmt_def Let_def decided_def using none [of "md_queue db"]
    by (auto split: option.split)
  then show ?thesis
    by (cases action) (simp_all add: review_item_def approve_def reject_def dismiss_def warn_def ban_def review_outcome_def)
qed

definition review_by :: "string \<Rightarrow> review_action \<Rightarrow> string \<Rightarrow> mod_request \<Rightarrow> bool" where
  "review_by i action by req \<longleftrightarrow>
     (\<exists>a fault now note hs key. req = ReviewReq a action fault now i note hs \<and> header_get hs ''X-Admin-Key'' = Some key
        \<and> ad_users a (ad_sha256_hex a key) \<noteq> None \<and> by = resolve_admin_from_headers a hs)"

lemma mod_serve_cases:
  "queued db (mod_serve req db) \<or> (\<exists>i action by. review_by i action by req \<and> decided i action by db (mod_serve req db))"
proof (cases req)
  case (ReviewReq a action fault now i nt hs)
  have "queued db db" by (simp add: queued_def)
  then show ?thesis
    using ReviewReq review_item_decides [of action fault now i "resolve_admin_from_headers a hs" nt db]
    by (auto simp: require_admin_def moderation_review_def review_by_def case_prod_beta Let_def split: option.split)
next
  case (FlagReq a fault i spare now t cid body reason hs)
  have "queued db db" by (simp add: queued_def)
  then show ?thesis using FlagReq flag_content_queued
    by (auto simp: require_admin_def moderation_flag_route_def case_prod_beta Let_def split: option.split)
qed (simp_all add: check_content_queued flag_content_queued)


lemma distinct_ids_eq: "distinct (map mq_id qs) \<Longrightarrow> q \<in> set qs \<Longrightarrow> q' \<in> set qs \<Longrightarrow> mq_id q = mq_id q' \<Longrightarrow> q = q'"
  by (simp add: distinct_map inj_on_def)

lemma moderation_ok_queued:
  assumes "moderation_ok db" and "queued db db'"
  shows "moderation_ok db'"
proof -
  have h: "md_history db' = md_history db" and ent: "\<And>i. entries_of i db' = entries_of i db"
    using assms(2) by (auto simp: queued_def entries_of_def)
  from assms(2) consider "md_queue db' = md_queue db"
    | q where "md_queue db' = md_queue db @ [q]" "mq_status q = ReviewPending" "mq_id q \<notin> mq_id ` set (md_queue db)"
    by (auto simp: queued_def)
  then show ?thesis
  proof cases
    case 1
    then show ?thesis using assms(1) h ent by (simp add: moderation_ok_def item_ok_def)
  next
    case (2 q)
    have "entries_of (mq_id q) db = []"
      using assms(1) 2(3) unfolding moderation_ok_def entries_of_def filter_empty_conv by metis
    then show ?thesis using assms(1) h ent 2 by (auto simp: moderation_ok_def item_ok_def)
  qed
qed

lemma moderation_ok_decided:
  assumes "moderation_ok db" and "decided i action by db db'"
  shows "moderation_ok db'"
proof -
  obtain now nt q where q: "q \<in> set (md_queue db)" "mq_id q = i" "mq_status q = ReviewPending"
    and queue: "md_queue db' = map (\<lambda>q. if mq_id q = i \<and> mq_status q = ReviewPending
        then q\<lparr>mq_status := review_outcome action, mq_action := Some action, mq_reviewed_by := Some by, mq_reviewed_at := Some now\<rparr> else q) (md_queue db)"
    and hist: "md_history db' = md_history db @ [\<lparr>mh_queue_item_id = i, mh_action = action, mh_performed_by = by, mh_note = nt, mh_created_at = now\<rparr>]"
    using assms(2) by (auto simp: decided_def)
  have dist: "distinct (map mq_id (md_queue db))" and ok: "\<And>q. q \<in> set (md_queue db) \<Longrightarrow> item_ok db q"
    and refs: "\<And>h. h \<in> set (md_history db) \<Longrightarrow> mh_queue_item_id h \<in> mq_id ` set (md_queue db)"
    using assms(1) by (auto simp: moderation_ok_def)
  have ids: "map mq_id (md_queue db') = map mq_id (md_queue db)" by (simp add: queue)
  have idset: "mq_id ` set (md_queue db') = mq_id ` set (md_queue db)" using ids by (metis image_set)
  have none: "entries_of i db = []" using ok [OF q(1)] q by (simp add: item_ok_def)
  have "review_outcome action \<noteq> ReviewPending" by (simp add: review_outcome_def split: review_action.split)
  have "item_ok db' x'" if x': "x' \<in> set (md_queue db')" for x'
  proof -
    obtain x where x: "x \<in> set (md_queue db)" and x'_eq: "x' = (if mq_id x = i \<and> mq_status x = ReviewPending
        then x\<lparr>mq_status := review_outcome action, mq_action := Some action, mq_reviewed_by := Some by, mq_reviewed_at := Some now\<rparr> else x)"
      using x' by (auto simp: queue)
    show ?thesis
    proof (cases "mq_id x = i")
      case True
      then have "x = q" using distinct_ids_eq [OF dist x q(1)] q(2) by simp
      then show ?thesis
        using x'_eq q none \<open>review_outcome action \<noteq> ReviewPending\<close> by (simp add: item_ok_def entries_of_def hist)
    next
      case False
      then have "entries_of (mq_id x) db' = entries_of (mq_id x) db" by (simp add: entries_of_def hist)
      then show ?thesis using False x'_eq ok [OF x] by (simp add: item_ok_def)
    qed
  qed
  moreover have "mh_queue_item_id h \<in> mq_id ` set (md_queue db')" if "h \<in> set (md_history db')" for h
    using that refs q by (auto simp: hist idset)
  ultimately show ?thesis using dist ids by (simp add: moderation_ok_def)
qed

lemma moderation_ok_serve: "moderation_ok db \<Longrightarrow> moderation_ok (mod_serve req db)"
  using mod_serve_cases moderation_ok_queued moderation_ok_decided by metis

lemma moderation_ok_run: "moderation_ok db \<Longrightarrow> moderation_ok (mod_run reqs db)"
  unfolding mod_run_def by (induction reqs arbitrary: db) (simp_all add: moderation_ok_serve)

lemma moderation_ok_empty: "moderation_ok empty_db"
  by (simp add: moderation_ok_def empty_db_def)

lemma decided_item_stays:
  assumes "q \<in> set (md_queue db)" and "mq_status q \<noteq> ReviewPending"
  shows "q \<in> set (md_queue (mod_run reqs db))"
  using assms(1)
proof (induction reqs arbitrary: db)
  case (Cons req reqs)
  have "q \<in> set (md_queue (mod_serve req db))"
    using mod_serve_cases [of db req] Cons.prems assms(2) by (auto simp: queued_def decided_def image_iff)
  from Cons.IH [OF this] show ?case by (simp add: mod_run_def)
qed (simp add: mod_run_def)

lemma entries_have_reviews:
  "h \<in> set (md_history (mod_run reqs db)) \<Longrightarrow> h \<in> set (md_history db)
    \<or> (\<exists>req \<in> set reqs. review_by (mh_queue_item_id h) (mh_action h) (mh_performed_by h) req)"
proof (induction reqs arbitrary: db)
  case (Cons req reqs)
  from Cons.IH [of "mod_serve req db"] Cons.prems mod_serve_cases [of db req]
  show ?case by (auto simp: mod_run_def queued_def decided_def)
qed (simp add: mod_run_def)

text \<open>\<^bold>\<open>C26.\<close> A review is final, audited and made by an administrator: whatever requests are served, an item that is no longer pending
  never changes again, its history is a single entry with its action and its reviewer and the status that belongs to the action, and one of
  the requests was that review, under a key registered for an administrator.\<close>

theorem reviews_final_and_audited:
  assumes "q \<in> set (md_queue (mod_run reqs empty_db))" and "mq_status q \<noteq> ReviewPending"
  shows "q \<in> set (md_queue (mod_run (reqs @ later) empty_db))
    \<and> (\<exists>h. item_history (mq_id q) (mod_run (reqs @ later) empty_db) = [h] \<and> mq_action q = Some (mh_action h)
          \<and> mq_reviewed_by q = Some (mh_performed_by h) \<and> mq_status q = review_outcome (mh_action h)
          \<and> (\<exists>req \<in> set (reqs @ later). review_by (mq_id q) (mh_action h) (mh_performed_by h) req))"
proof -
  let ?db = "mod_run (reqs @ later) empty_db"
  have "?db = mod_run later (mod_run reqs empty_db)" by (simp add: mod_run_def)
  then have q: "q \<in> set (md_queue ?db)" using decided_item_stays assms by simp
  then have "item_ok ?db q" using moderation_ok_run [OF moderation_ok_empty] by (simp add: moderation_ok_def)
  then obtain h where h: "entries_of (mq_id q) ?db = [h]" "mq_action q = Some (mh_action h)" "mq_reviewed_by q = Some (mh_performed_by h)"
    "mq_status q = review_outcome (mh_action h)" using assms(2) by (auto simp: item_ok_def)
  have "h \<in> set (md_history ?db)" "mh_queue_item_id h = mq_id q"
    using h(1) by (auto simp: entries_of_def filter_eq_Cons_iff)
  with entries_have_reviews [of h "reqs @ later" empty_db]
  have "\<exists>req \<in> set (reqs @ later). review_by (mq_id q) (mh_action h) (mh_performed_by h) req" by (auto simp: empty_db_def)
  then show ?thesis using q h by (auto simp: item_history_def entries_of_def)
qed


definition demo_admin :: admin_env where
  "demo_admin = \<lparr>ad_sha256_hex = id, ad_users = [''k'' \<mapsto> ''root''], ad_fault = (\<lambda>_. None), ad_request_id = None\<rparr>"

definition demo_reviews :: "mod_request list" where
  "demo_reviews = [ReportReq (\<lambda>_. None) ''q1'' ''x'' 1 ''tip_message'' ''t1'' ''rude'' ''abuse'' ''ann'',
     ReviewReq demo_admin Ban (\<lambda>_. None) 2 ''q1'' None [''x-admin-key'' \<mapsto> ''k'']]"

lemma demo_reviewed:
  "\<exists>q. md_queue (mod_run demo_reviews empty_db) = [q] \<and> mq_id q = ''q1'' \<and> mq_status q = ReviewRejected"
proof -
  have key: "to_lowercase ''X-Admin-Key'' = ''x-admin-key''" by code_simp
  show ?thesis
    by (simp add: mod_run_def demo_reviews_def demo_admin_def empty_db_def flag_content_def known_content_type_def require_admin_def
        header_get_def key moderation_review_def review_item_def ban_def apply_action_def)
qed

theorem reviews_final_and_audited_witness:
  "\<exists>h. item_history ''q1'' (mod_run (demo_reviews @ [ReviewReq demo_admin Approve (\<lambda>_. None) 3 ''q1'' None [''x-admin-key'' \<mapsto> ''k'']]) empty_db) = [h]
     \<and> review_outcome (mh_action h) = ReviewRejected"
proof -
  obtain q where "q \<in> set (md_queue (mod_run demo_reviews empty_db))" "mq_id q = ''q1''" "mq_status q = ReviewRejected"
    using demo_reviewed by auto
  with reviews_final_and_audited [of q demo_reviews] show ?thesis by fastforce
qed

section \<open>Where the queue differs from its comments\<close>

text \<open>The insert of \<open>flag_content\<close> is meant to skip content that is already pending, but the table has no such constraint: reporting the same
  content again adds another pending item.\<close>

theorem repeated_flags_pile_up:
  assumes "known_content_type t" and "i \<notin> mq_id ` set (md_queue db)" and "i' \<notin> mq_id ` set (md_queue db)" and "i \<noteq> i'"
    and "db' = mod_run [ReportReq (\<lambda>_. None) i spare now t cid body reason by, ReportReq (\<lambda>_. None) i' spare now t cid body reason by] db"
  shows "length (filter (\<lambda>q. mq_status q = ReviewPending \<and> mq_content_id q = Some cid) (md_queue db'))
    = length (filter (\<lambda>q. mq_status q = ReviewPending \<and> mq_content_id q = Some cid) (md_queue db)) + 2"
  using assms by (simp add: mod_run_def flag_content_def)

text \<open>A flag on content of another kind fails on the constraint of the queue, after the flag itself was stored.\<close>

theorem flag_stored_although_refused:
  assumes "\<not> known_content_type t"
  shows "\<exists>f. flag_content (\<lambda>_. None) i spare now t cid body reason by db = (Err check_violation, db\<lparr>md_flags := md_flags db @ [f]\<rparr>)"
  using assms by (auto simp: flag_content_def)

end
