(* ===== verification/Message_Broker.thy ===== *)
theory Message_Broker
  imports Stellar_Verify
begin

text \<open>
  The message queue over RabbitMQ (\<open>src/queue/connection.rs\<close>, \<open>publisher.rs\<close>, \<open>consumer.rs\<close>, \<open>handlers.rs\<close>, \<open>system.rs\<close>): the
  declared topology, the message envelope, publishing, and the consumer with its retries and dead letters. What the service
  does on a channel is a list of actions, each with whether it succeeded; the routing of the broker is the parameter of
  the locale \<open>amqp_broker\<close>, with the documented laws of direct exchanges, of the default exchange and of dead-lettering.
  Left out: trace propagation and the endless reconnection loop around the consumer.
\<close>

section \<open>Topology\<close>

record queue_args =
  qa_dead_letter_exchange :: "string option"
  qa_dead_letter_routing_key :: "string option"

definition no_args :: queue_args where
  "no_args = \<lparr>qa_dead_letter_exchange = None, qa_dead_letter_routing_key = None\<rparr>"

datatype broker_decl =
    DeclareExchange string
  | DeclareQueue string queue_args
  | BindQueue string string string

record topology =
  tp_exchanges :: "string set"
  tp_queues :: "string \<rightharpoonup> queue_args"
  tp_bindings :: "(string \<times> string \<times> string) list"

definition empty_topology :: topology where
  "empty_topology = \<lparr>tp_exchanges = {}, tp_queues = Map.empty, tp_bindings = []\<rparr>"

fun declare_one :: "broker_decl \<Rightarrow> topology \<Rightarrow> topology" where
  "declare_one (DeclareExchange x) T = T\<lparr>tp_exchanges := tp_exchanges T \<union> {x}\<rparr>"
| "declare_one (DeclareQueue q args) T = T\<lparr>tp_queues := (tp_queues T)(q \<mapsto> args)\<rparr>"
| "declare_one (BindQueue q x key) T = T\<lparr>tp_bindings := (x, key, q) # tp_bindings T\<rparr>"

text \<open>A failing declaration ends the set-up.\<close>

fun declare_all :: "(broker_decl \<Rightarrow> bool) \<Rightarrow> broker_decl list \<Rightarrow> topology \<Rightarrow> bool \<times> topology" where
  "declare_all ok [] T = (True, T)"
| "declare_all ok (d # ds) T = (if ok d then declare_all ok ds (declare_one d T) else (False, T))"

definition dlq_name :: "string \<Rightarrow> string" where "dlq_name queue = queue @ ''.dlq''"
definition dlx_name :: "string \<Rightarrow> string" where "dlx_name exchange = exchange @ ''.dlx''"

definition setup_topology :: "(broker_decl \<Rightarrow> bool) \<Rightarrow> string \<Rightarrow> string \<Rightarrow> string \<Rightarrow> topology \<Rightarrow> bool \<times> topology" where
  "setup_topology ok queue exchange key =
     declare_all ok
       [DeclareExchange (dlx_name exchange),
        DeclareQueue (dlq_name queue) no_args,
        BindQueue (dlq_name queue) (dlx_name exchange) queue,
        DeclareExchange exchange,
        DeclareQueue queue \<lparr>qa_dead_letter_exchange = Some (dlx_name exchange), qa_dead_letter_routing_key = Some queue\<rparr>,
        BindQueue queue exchange key]"

definition queue_table :: "(string \<times> string \<times> string) list" where
  "queue_table =
     [(''tipjar.tips'', ''tipjar.tips.exchange'', ''tipjar.tips''),
      (''tipjar.notifications'', ''tipjar.notifications.exchange'', ''tipjar.notifications''),
      (''tipjar.analytics'', ''tipjar.analytics.exchange'', ''tipjar.analytics''),
      (''tipjar.webhooks'', ''tipjar.webhooks.exchange'', ''tipjar.webhooks'')]"

fun setup_queues :: "(broker_decl \<Rightarrow> bool) \<Rightarrow> (string \<times> string \<times> string) list \<Rightarrow> topology \<Rightarrow> bool \<times> topology" where
  "setup_queues ok [] T = (True, T)"
| "setup_queues ok ((queue, exchange, key) # rest) T =
     (let (done, T') = setup_topology ok queue exchange key T in if done then setup_queues ok rest T' else (False, T'))"

section \<open>Messages\<close>

record message =
  mg_id :: string
  mg_message_type :: string
  mg_payload :: json
  mg_created_at :: int
  mg_retry_count :: nat
  mg_trace_context :: "(string \<times> string) list"

definition new_message :: "string \<Rightarrow> int \<Rightarrow> (string \<times> string) list \<Rightarrow> string \<Rightarrow> json \<Rightarrow> message" where
  "new_message i now trace t payload =
     \<lparr>mg_id = i, mg_message_type = t, mg_payload = payload, mg_created_at = now, mg_retry_count = 0, mg_trace_context = trace\<rparr>"

text \<open>\<open>retry_count\<close> is a \<open>u32\<close>, whose sum wraps in a release build.\<close>

definition increment_retry :: "message \<Rightarrow> message" where
  "increment_retry m = m\<lparr>mg_retry_count := (mg_retry_count m + 1) mod 2 ^ 32\<rparr>"

definition should_retry :: "nat \<Rightarrow> message \<Rightarrow> bool" where
  "should_retry n m \<longleftrightarrow> mg_retry_count m < n"

record dead_letter_message =
  dl_id :: string
  dl_original_message :: message
  dl_error :: string
  dl_failed_at :: int

datatype envelope = MessageEnvelope message | DeadLetterEnvelope dead_letter_message

record publication =
  pb_exchange :: string
  pb_routing_key :: string
  pb_envelope :: envelope
  pb_message_id :: "string option"
  pb_expiration_ms :: "nat option"

definition persistent :: "string \<Rightarrow> string \<Rightarrow> message \<Rightarrow> publication" where
  "persistent exchange key m =
     \<lparr>pb_exchange = exchange, pb_routing_key = key, pb_envelope = MessageEnvelope m, pb_message_id = Some (mg_id m), pb_expiration_ms = None\<rparr>"

text \<open>\<open>publish\<close> opens a channel and publishes; either may fail, with the text of the error. The publications that reached the
  broker are collected.\<close>

definition publish :: "(message \<Rightarrow> string option) \<Rightarrow> string \<Rightarrow> string \<Rightarrow> message \<Rightarrow> publication list \<Rightarrow> (string + unit) \<times> publication list" where
  "publish fault exchange key m out =
     (case fault m of Some e \<Rightarrow> (Err e, out) | None \<Rightarrow> (Ok (), out @ [persistent exchange key m]))"

fun publish_each :: "(message \<Rightarrow> string option) \<Rightarrow> string \<Rightarrow> string \<Rightarrow> message list \<Rightarrow> string list \<Rightarrow> publication list \<Rightarrow> string list \<times> publication list" where
  "publish_each fault exchange key [] errors out = (errors, out)"
| "publish_each fault exchange key (m # ms) errors out =
     (case publish fault exchange key m out of
        (Inl e, out') \<Rightarrow> publish_each fault exchange key ms (errors @ [mg_id m @ '': '' @ e]) out'
      | (Inr _, out') \<Rightarrow> publish_each fault exchange key ms errors out')"

definition publish_batch :: "(message \<Rightarrow> string option) \<Rightarrow> string \<Rightarrow> string \<Rightarrow> message list \<Rightarrow> publication list \<Rightarrow> (string + unit) \<times> publication list" where
  "publish_batch fault exchange key ms out =
     (let (errors, out') = publish_each fault exchange key ms [] out in
      (if errors = [] then Ok ()
       else Err (''Batch publish had '' @ show_nat (length errors) @ '' error(s): '' @ join ''; '' errors), out'))"

section \<open>Handlers\<close>

type_synonym 'w message_handler = "message \<Rightarrow> 'w \<Rightarrow> (string + unit) \<times> 'w"
type_synonym 'w registry = "string \<rightharpoonup> 'w message_handler"

definition register_handler :: "string \<Rightarrow> 'w message_handler \<Rightarrow> 'w registry \<Rightarrow> 'w registry" where
  "register_handler t h reg = reg(t \<mapsto> h)"

text \<open>A message of an unknown type counts as handled.\<close>

definition dispatch :: "'w registry \<Rightarrow> 'w message_handler" where
  "dispatch reg m w = (case reg (mg_message_type m) of Some h \<Rightarrow> h m w | None \<Rightarrow> (Ok (), w))"

text \<open>A payload is decoded into a struct from an object, where an absent \<open>Option\<close> is \<open>None\<close>, or from an array of all its fields.\<close>

datatype field_kind = UuidField | StringField | OptionField

definition field_ok :: "(string \<Rightarrow> bool) \<Rightarrow> field_kind \<Rightarrow> json \<Rightarrow> bool" where
  "field_ok is_uuid k v =
     (case k of
        UuidField \<Rightarrow> (case v of JStr s \<Rightarrow> is_uuid s | _ \<Rightarrow> False)
      | StringField \<Rightarrow> (case v of JStr s \<Rightarrow> True | _ \<Rightarrow> False)
      | OptionField \<Rightarrow> (case v of JStr s \<Rightarrow> True | JNull \<Rightarrow> True | _ \<Rightarrow> False))"

definition payload_ok :: "(string \<Rightarrow> bool) \<Rightarrow> (string \<times> field_kind) list \<Rightarrow> json \<Rightarrow> bool" where
  "payload_ok is_uuid spec payload =
     (case payload of
        JObj kvs \<Rightarrow> list_all (\<lambda>(name, k). case map_of kvs name of Some v \<Rightarrow> field_ok is_uuid k v | None \<Rightarrow> k = OptionField) spec
      | JArr vs \<Rightarrow> length vs = length spec \<and> list_all2 (\<lambda>(name, k) v. field_ok is_uuid k v) spec vs
      | _ \<Rightarrow> False)"

definition string_field :: "json \<Rightarrow> string \<Rightarrow> nat \<Rightarrow> string" where
  "string_field payload name i =
     (case (case payload of JObj kvs \<Rightarrow> map_of kvs name | JArr vs \<Rightarrow> (if i < length vs then Some (vs ! i) else None) | _ \<Rightarrow> None) of
        Some (JStr s) \<Rightarrow> s | _ \<Rightarrow> [])"

record 'n handler_env =
  hn_is_uuid :: "string \<Rightarrow> bool"
  hn_serde_error :: "json \<Rightarrow> string"
  hn_horizon :: "'n horizon_ops"
  hn_env :: env
  hn_stellar :: stellar_service

type_synonym 'n handler_world = "circuit_breaker \<times> 'n"

definition decoding :: "'n handler_env \<Rightarrow> (string \<times> field_kind) list \<Rightarrow> 'n handler_world message_handler \<Rightarrow> 'n handler_world message_handler" where
  "decoding H spec rest m w = (if payload_ok (hn_is_uuid H) spec (mg_payload m) then rest m w else (Err (hn_serde_error H (mg_payload m)), w))"

text \<open>The transaction is looked up and its verdict only logged.\<close>

definition tip_received :: "'n handler_env \<Rightarrow> 'n handler_world message_handler" where
  "tip_received H = decoding H [(''tip_id'', UuidField), (''transaction_hash'', StringField), (''creator_username'', StringField)]
     (\<lambda>m w. (Ok (), snd (verify_transaction (hn_horizon H) (hn_env H) (hn_stellar H) (string_field (mg_payload m) ''transaction_hash'' 1) w)))"

definition tip_verified :: "'n handler_env \<Rightarrow> 'n handler_world message_handler" where
  "tip_verified H = decoding H [(''tip_id'', UuidField), (''creator_username'', StringField), (''amount_xlm'', StringField)] (\<lambda>m w. (Ok (), w))"

definition creator_registered :: "'n handler_env \<Rightarrow> 'n handler_world message_handler" where
  "creator_registered H = decoding H [(''creator_id'', UuidField), (''username'', StringField), (''email'', OptionField)] (\<lambda>m w. (Ok (), w))"

definition notification_send :: "'n handler_env \<Rightarrow> 'n handler_world message_handler" where
  "notification_send H = decoding H [(''recipient_email'', StringField), (''subject'', StringField), (''body'', StringField)] (\<lambda>m w. (Ok (), w))"

definition analytics_event :: "'w message_handler" where
  "analytics_event m w = (Ok (), w)"

definition webhook_dispatch :: "'n handler_env \<Rightarrow> 'n handler_world message_handler" where
  "webhook_dispatch H = decoding H [(''webhook_id'', UuidField), (''target_url'', StringField), (''event_type'', StringField)] (\<lambda>m w. (Ok (), w))"

definition build_handler_registry :: "'n handler_env \<Rightarrow> 'n handler_world registry" where
  "build_handler_registry H =
     register_handler ''webhook_dispatch'' (webhook_dispatch H)
     (register_handler ''analytics_event'' analytics_event
     (register_handler ''notification_send'' (notification_send H)
     (register_handler ''creator_registered'' (creator_registered H)
     (register_handler ''tip_verified'' (tip_verified H)
     (register_handler ''tip_received'' (tip_received H) Map.empty)))))"

section \<open>The consumer\<close>

record consumer =
  cn_queue_name :: string
  cn_max_retries :: nat

definition backoff_delay_ms :: "nat \<Rightarrow> nat" where
  "backoff_delay_ms retry_count = min (sat_mul u64_max 1000 (sat_pow u64_max 2 (retry_count - 1))) 60000"

datatype channel_action = Ack nat | Nack nat bool | Publish publication

definition requeue_with_backoff :: "consumer \<Rightarrow> message \<Rightarrow> channel_action" where
  "requeue_with_backoff C m =
     Publish \<lparr>pb_exchange = [], pb_routing_key = cn_queue_name C, pb_envelope = MessageEnvelope m, pb_message_id = Some (mg_id m),
       pb_expiration_ms = Some (backoff_delay_ms (mg_retry_count m))\<rparr>"

definition publish_to_dlq :: "string \<Rightarrow> int \<Rightarrow> consumer \<Rightarrow> message \<Rightarrow> string \<Rightarrow> channel_action" where
  "publish_to_dlq i now C m e =
     Publish \<lparr>pb_exchange = [], pb_routing_key = dlq_name (cn_queue_name C),
       pb_envelope = DeadLetterEnvelope \<lparr>dl_id = i, dl_original_message = m, dl_error = e, dl_failed_at = now\<rparr>,
       pb_message_id = None, pb_expiration_ms = None\<rparr>"

text \<open>The actions on the channel in their order; their failures are ignored by the code. \<open>None\<close> is data that is no envelope.\<close>

definition process_delivery ::
  "string \<Rightarrow> int \<Rightarrow> consumer \<Rightarrow> 'w registry \<Rightarrow> nat \<Rightarrow> message option \<Rightarrow> 'w \<Rightarrow> channel_action list \<times> 'w" where
  "process_delivery i now C reg tag data w =
     (case data of
        None \<Rightarrow> ([Nack tag False], w)
      | Some m \<Rightarrow>
          (case dispatch reg m w of
             (Inr _, w') \<Rightarrow> ([Ack tag], w')
           | (Inl e, w') \<Rightarrow>
               (let m' = increment_retry m in
                if should_retry (cn_max_retries C) m' then ([Ack tag, requeue_with_backoff C m'], w')
                else ([Ack tag, publish_to_dlq i now C m' e], w'))))"


section \<open>What the broker promises\<close>

text \<open>\<open>route T x key\<close> is the list of queues that a message published to the exchange \<open>x\<close> with the routing key \<open>key\<close> is put in: the empty
  name is the default exchange, which routes to the queue of that name, and a direct exchange routes to the queues bound under the
  key, each once.\<close>

locale amqp_broker =
  fixes route :: "topology \<Rightarrow> string \<Rightarrow> string \<Rightarrow> string list"
  assumes default_exchange: "route T [] key = (if tp_queues T key = None then [] else [key])"
    and direct_exchange: "x \<noteq> [] \<Longrightarrow> x \<in> tp_exchanges T \<Longrightarrow> set (route T x key) = {q. (x, key, q) \<in> set (tp_bindings T)}"
    and once: "distinct (route T x key)"
begin

lemma route_single:
  assumes "x \<noteq> []" "x \<in> tp_exchanges T" "{q. (x, key, q) \<in> set (tp_bindings T)} = {q}"
  shows "route T x key = [q]"
proof -
  have "set (route T x key) = {q}" using direct_exchange [OF assms(1,2)] assms(3) by simp
  then show ?thesis using once [of T x key] by (cases "route T x key"; cases "tl (route T x key)") auto
qed

end

text \<open>A message that is rejected without requeueing, or that outlives its expiration in the queue, is published to the queue's dead-letter exchange
  under the queue's dead-letter routing key; without such an exchange it is dropped.\<close>

definition dead_route :: "(topology \<Rightarrow> string \<Rightarrow> string \<Rightarrow> string list) \<Rightarrow> topology \<Rightarrow> string \<Rightarrow> string list" where
  "dead_route route T q =
     (case tp_queues T q of
        Some a \<Rightarrow> (case (qa_dead_letter_exchange a, qa_dead_letter_routing_key a) of (Some x, Some key) \<Rightarrow> route T x key | _ \<Rightarrow> [])
      | None \<Rightarrow> [])"


definition direct_route :: "topology \<Rightarrow> string \<Rightarrow> string \<Rightarrow> string list" where
  "direct_route T x key =
     (if x = [] then (if tp_queues T key = None then [] else [key])
      else remdups (map (snd \<circ> snd) (filter (\<lambda>(y, k, q). y = x \<and> k = key) (tp_bindings T))))"

interpretation direct: amqp_broker direct_route
  by unfold_locales (force simp: direct_route_def)+

section \<open>The topology is wired\<close>

abbreviation started :: topology where
  "started \<equiv> snd (setup_queues (\<lambda>_. True) queue_table empty_topology)"

definition bound_to :: "topology \<Rightarrow> string \<Rightarrow> string \<Rightarrow> string list" where
  "bound_to T x key = map (snd \<circ> snd) (filter (\<lambda>(y, k, q). y = x \<and> k = key) (tp_bindings T))"

lemma set_bound_to: "{q. (x, key, q) \<in> set (tp_bindings T)} = set (bound_to T x key)"
  by (force simp: bound_to_def)

definition wired :: "topology \<Rightarrow> string \<times> string \<times> string \<Rightarrow> bool" where
  "wired T = (\<lambda>(q, x, k).
     x \<noteq> [] \<and> x \<in> tp_exchanges T \<and> dlx_name x \<in> tp_exchanges T \<and> bound_to T x k = [q] \<and> bound_to T (dlx_name x) q = [dlq_name q]
     \<and> map_option qa_dead_letter_exchange (tp_queues T q) = Some (Some (dlx_name x))
     \<and> map_option qa_dead_letter_routing_key (tp_queues T q) = Some (Some q)
     \<and> map_option qa_dead_letter_exchange (tp_queues T (dlq_name q)) = Some None)"

lemma setup_topology_ok:
  "setup_topology (\<lambda>_. True) q x k T =
     (True, \<lparr>tp_exchanges = tp_exchanges T \<union> {dlx_name x} \<union> {x},
             tp_queues = (tp_queues T)(dlq_name q \<mapsto> no_args,
               q \<mapsto> \<lparr>qa_dead_letter_exchange = Some (dlx_name x), qa_dead_letter_routing_key = Some q\<rparr>),
             tp_bindings = (x, k, q) # (dlx_name x, q, dlq_name q) # tp_bindings T\<rparr>)"
  by (cases T) (simp add: setup_topology_def)

lemmas started_eval = queue_table_def setup_topology_ok empty_topology_def wired_def bound_to_def dlx_name_def dlq_name_def no_args_def

lemma started_wired: "list_all (wired started) queue_table"
  by (simp add: started_eval)

lemma queue_routes:
  assumes "amqp_broker route" and "(q, x, k) \<in> set queue_table"
  shows "route started x k = [q] \<and> route started [] q = [q] \<and> route started [] (dlq_name q) = [dlq_name q]
    \<and> dead_route route started q = [dlq_name q] \<and> dead_route route started (dlq_name q) = []"
proof -
  have w: "wired started (q, x, k)" using started_wired assms(2) by (auto simp: list_all_iff)
  have "dlx_name x \<noteq> []" by (simp add: dlx_name_def)
  then have "route started x k = [q]" "route started (dlx_name x) q = [dlq_name q]"
    using amqp_broker.route_single [OF assms(1)] w by (simp_all add: wired_def set_bound_to)
  then show ?thesis
    using w by (auto simp: wired_def amqp_broker.default_exchange [OF assms(1)] dead_route_def)
qed

text \<open>Every queue is wired: after the start, on every broker that follows the rules of AMQP, what is published for one of the
  four queues arrives in that queue and no other, what the consumer publishes again arrives there too, and what is rejected or expires in it
  arrives in its dead-letter queue, which keeps it.\<close>

theorem queues_are_wired:
  assumes "amqp_broker route" and "(q, x, k) \<in> set queue_table"
  shows "route started x k = [q] \<and> route started [] q = [q] \<and> route started [] (dlq_name q) = [dlq_name q]
    \<and> dead_route route started q = [dlq_name q] \<and> dead_route route started (dlq_name q) = []"
  using queue_routes [OF assms] .

theorem queues_are_wired_witness:
  "direct_route started ''tipjar.tips.exchange'' ''tipjar.tips'' = [''tipjar.tips'']
    \<and> dead_route direct_route started ''tipjar.tips'' = [''tipjar.tips.dlq'']"
proof -
  have "(''tipjar.tips'', ''tipjar.tips.exchange'', ''tipjar.tips'') \<in> set queue_table" by (simp add: queue_table_def)
  from queues_are_wired [OF direct.amqp_broker_axioms this] show ?thesis by (simp add: dlq_name_def)
qed

section \<open>The life of a message\<close>

text \<open>What becomes of a message when the broker acknowledges as asked and delivers what was published again before it expires; \<open>ok\<close> tells
  which publications succeed. The result has the number of runs of the handler.\<close>

datatype fate = Handled | DeadLettered string | Lost

fun message_life ::
  "nat \<Rightarrow> (nat \<Rightarrow> publication \<Rightarrow> bool) \<Rightarrow> string \<Rightarrow> int \<Rightarrow> consumer \<Rightarrow> 'w registry \<Rightarrow> nat \<Rightarrow> message \<Rightarrow> 'w \<Rightarrow> (fate \<times> nat \<times> 'w) option" where
  "message_life 0 ok i now C reg tag m w = None"
| "message_life (Suc fuel) ok i now C reg tag m w =
     (case process_delivery i now C reg tag (Some m) w of
        ([Ack _], w') \<Rightarrow> Some (Handled, 1, w')
      | ([Ack _, Publish p], w') \<Rightarrow>
          if \<not> ok tag p then Some (Lost, 1, w')
          else (case pb_envelope p of
                  DeadLetterEnvelope d \<Rightarrow> Some (DeadLettered (dl_error d), 1, w')
                | MessageEnvelope m' \<Rightarrow>
                    map_option (\<lambda>(f, n, w''). (f, Suc n, w'')) (message_life fuel ok i now C reg (Suc tag) m' w'))
      | _ \<Rightarrow> None)"

lemma message_life_handled:
  "dispatch reg m w = (Inr u, w') \<Longrightarrow> message_life (Suc fuel) ok i now C reg tag m w = Some (Handled, 1, w')"
  by (simp add: process_delivery_def)

lemma message_life_retried:
  "dispatch reg m w = (Inl e, w') \<Longrightarrow> should_retry (cn_max_retries C) (increment_retry m) \<Longrightarrow>
   message_life fuel ok i now C reg (Suc tag) (increment_retry m) w' = Some (g, n, w'') \<Longrightarrow>
   message_life (Suc fuel) ok i now C reg tag m w = Some (g, Suc n, w'')
   \<or> \<not> (\<forall>k p. ok k p) \<and> message_life (Suc fuel) ok i now C reg tag m w = Some (Lost, 1, w')"
  by (auto simp: process_delivery_def requeue_with_backoff_def Let_def)

lemma message_life_dead:
  "dispatch reg m w = (Inl e, w') \<Longrightarrow> \<not> should_retry (cn_max_retries C) (increment_retry m) \<Longrightarrow>
   message_life (Suc fuel) ok i now C reg tag m w = Some (DeadLettered e, 1, w')
   \<or> \<not> (\<forall>k p. ok k p) \<and> message_life (Suc fuel) ok i now C reg tag m w = Some (Lost, 1, w')"
  by (auto simp: process_delivery_def publish_to_dlq_def Let_def)


definition demo_consumer :: consumer where
  "demo_consumer = \<lparr>cn_queue_name = ''tipjar.tips'', cn_max_retries = 3\<rparr>"

definition demo_message :: message where
  "demo_message = new_message ''m'' 0 [] ''analytics_event'' JNull"


text \<open>The delay before a retry is an expiration on the queue the message came from: it is delivered again at once, and when it waits longer than the
  delay, it is dead-lettered without having been tried again.\<close>

theorem backoff_is_a_deadline:
  assumes "amqp_broker route" and "(q, x, k) \<in> set queue_table" and "cn_queue_name C = q"
    and "requeue_with_backoff C m = Publish p"
  shows "route started (pb_exchange p) (pb_routing_key p) = [q] \<and> pb_expiration_ms p = Some (backoff_delay_ms (mg_retry_count m))
    \<and> dead_route route started q = [dlq_name q]"
  using assms queue_routes [OF assms(1,2)] by (auto simp: requeue_with_backoff_def)

lemma backoff_bounds: "1000 \<le> backoff_delay_ms n \<and> backoff_delay_ms n \<le> 60000"
proof -
  have "sat_mul u64_max 1000 1 \<le> sat_mul u64_max 1000 (sat_pow u64_max 2 (n - 1))"
    by (rule sat_mul_mono) (simp_all add: sat_pow_def u64_max_def)
  then show ?thesis by (simp add: backoff_delay_ms_def sat_mul_def u64_max_def)
qed

text \<open>The handler of a received tip succeeds whatever the network says about the transaction, and changes nothing but the breaker and the network.\<close>

theorem tip_received_ignores_verdict:
  assumes "payload_ok (hn_is_uuid H) [(''tip_id'', UuidField), (''transaction_hash'', StringField), (''creator_username'', StringField)] (mg_payload m)"
  shows "fst (tip_received H m w) = Ok ()"
  using assms by (simp add: tip_received_def decoding_def)

end
